(* ===== verification/Paging.thy ===== *)
theory Paging
  imports Main
begin

text \<open>
  Cursor pagination, \<open>features/shared_contract/query\<close>: the search endpoints of every domain return one
  page of rows, newest identifier first, with the cursor of the next page.

  The rows are what the caller's \<open>SELECT\<close> matches; \<open>key\<close> is the cursor column.  The specification is
  the whole result in descending order of the key; following the cursors is shown to produce it.
\<close>

section \<open>The code\<close>

record cursor_paging_query =
  cpq_cursor :: "int option"
  cpq_limit :: "int option"

definition paging_limit :: "cursor_paging_query \<Rightarrow> nat" where
  "paging_limit q = nat (max 1 (min 100 (case cpq_limit q of None \<Rightarrow> 10 | Some l \<Rightarrow> l)))"

text \<open>
  The keyset clauses on the rows: \<open>WHERE col < cursor\<close> when there is a cursor, \<open>ORDER BY col DESC\<close>,
  \<open>LIMIT limit + 1\<close>.
\<close>

definition apply_keyset :: "('r \<Rightarrow> int) \<Rightarrow> cursor_paging_query \<Rightarrow> 'r list \<Rightarrow> 'r list" where
  "apply_keyset key q rows =
     take (paging_limit q + 1) (rev (sort_key key
       (filter (\<lambda>r. case cpq_cursor q of None \<Rightarrow> True | Some c \<Rightarrow> key r < c) rows)))"

text \<open>One row more than the page holds says that there is another page.\<close>

definition finalize :: "('r \<times> int) list \<Rightarrow> cursor_paging_query \<Rightarrow> 'r list \<times> int option" where
  "finalize mapped q =
     (let limit = paging_limit q; has_more = length mapped > limit;
          kept = (if has_more then butlast mapped else mapped);
          next_cursor = (if has_more then (if kept = [] then None else Some (snd (last kept))) else None) in
      (map fst kept, next_cursor))"

definition paginate :: "('r \<Rightarrow> int) \<Rightarrow> cursor_paging_query \<Rightarrow> 'r list \<Rightarrow> 'r list \<times> int option" where
  "paginate key q rows = finalize (map (\<lambda>r. (r, key r)) (apply_keyset key q rows)) q"

text \<open>A client that follows the cursors, with at most \<open>n\<close> requests; \<open>None\<close> when they were not enough.\<close>

fun follow :: "nat \<Rightarrow> ('r \<Rightarrow> int) \<Rightarrow> int option \<Rightarrow> int option \<Rightarrow> 'r list \<Rightarrow> 'r list list option" where
  "follow 0 key limit cursor rows = None"
| "follow (Suc n) key limit cursor rows =
     (case paginate key \<lparr>cpq_cursor = cursor, cpq_limit = limit\<rparr> rows of
        (items, None) \<Rightarrow> Some [items]
      | (items, Some c) \<Rightarrow> map_option (Cons items) (follow n key limit (Some c) rows))"

section \<open>Following the cursors\<close>

lemma paging_limit_bounds: "1 \<le> paging_limit q" "paging_limit q \<le> 100"
  by (auto simp: paging_limit_def)

definition newest_first :: "('r \<Rightarrow> int) \<Rightarrow> 'r list \<Rightarrow> 'r list" where
  "newest_first key rows = rev (sort_key key rows)"

definition descending :: "('r \<Rightarrow> int) \<Rightarrow> 'r list \<Rightarrow> bool" where
  "descending key xs = sorted_wrt (\<lambda>a b. key b < key a) xs"

lemma newest_first_descending: "distinct (map key rows) \<Longrightarrow> descending key (newest_first key rows)"
proof -
  assume "distinct (map key rows)"
  then have "distinct (map key (sort_key key rows))" by (simp add: distinct_map)
  moreover have "sorted (map key (sort_key key rows))" by simp
  ultimately have "sorted_wrt (<) (map key (sort_key key rows))" by (simp add: strict_sorted_iff)
  then show ?thesis by (simp add: descending_def newest_first_def sorted_wrt_rev sorted_wrt_map)
qed

lemma after_element:
  "descending key xs \<Longrightarrow> i < length xs \<Longrightarrow> filter (\<lambda>r. key r < key (xs ! i)) xs = drop (Suc i) xs"
proof (induction xs arbitrary: i)
  case (Cons x xs)
  show ?case
  proof (cases i)
    case 0
    then show ?thesis using Cons.prems by (simp add: descending_def)
  next
    case (Suc j)
    then have "xs ! j \<in> set xs" using Cons.prems by simp
    then have "\<not> key x < key (xs ! j)" using Cons.prems by (fastforce simp: descending_def)
    then show ?thesis using Cons Suc by (simp add: descending_def)
  qed
qed simp

text \<open>The rows of a request: the first of what remains.\<close>

definition remaining :: "('r \<Rightarrow> int) \<Rightarrow> int option \<Rightarrow> 'r list \<Rightarrow> 'r list" where
  "remaining key cursor rows =
     filter (\<lambda>r. case cursor of None \<Rightarrow> True | Some c \<Rightarrow> key r < c) (newest_first key rows)"

lemma apply_keyset_remaining:
  "apply_keyset key q rows = take (paging_limit q + 1) (remaining key (cpq_cursor q) rows)"
  by (simp add: apply_keyset_def remaining_def newest_first_def rev_filter [symmetric] filter_sort)

text \<open>A page, and what remains after it.\<close>

lemma paginate_last:
  "length (remaining key (cpq_cursor q) rows) \<le> paging_limit q \<Longrightarrow>
   paginate key q rows = (remaining key (cpq_cursor q) rows, None)"
  by (simp add: paginate_def finalize_def apply_keyset_remaining Let_def comp_def)

lemma paginate_more:
  assumes "paging_limit q < length (remaining key (cpq_cursor q) rows)"
  shows "paginate key q rows = (take (paging_limit q) (remaining key (cpq_cursor q) rows),
           Some (key (remaining key (cpq_cursor q) rows ! (paging_limit q - 1))))"
proof -
  let ?l = "paging_limit q" and ?r = "remaining key (cpq_cursor q) rows"
  have l: "1 \<le> ?l" by (rule paging_limit_bounds)
  have "butlast (take (?l + 1) ?r) = take ?l ?r" using assms by (simp add: butlast_take)
  moreover have ne: "take ?l ?r \<noteq> []" using assms l by auto
  moreover have "last (take ?l ?r) = ?r ! (?l - 1)" unfolding last_conv_nth [OF ne] using assms l by simp
  ultimately show ?thesis using assms
    by (simp add: paginate_def finalize_def apply_keyset_remaining Let_def comp_def map_butlast [symmetric] last_map)
qed

lemma remaining_next:
  assumes d: "distinct (map key rows)" and k: "remaining key cursor rows = drop k (newest_first key rows)"
    and i: "i < length (remaining key cursor rows)"
  shows "remaining key (Some (key (remaining key cursor rows ! i))) rows = drop (Suc i) (remaining key cursor rows)"
proof -
  let ?D = "newest_first key rows"
  have "k + i < length ?D" using i k by simp
  then have "filter (\<lambda>r. key r < key (?D ! (k + i))) ?D = drop (Suc (k + i)) ?D"
    using after_element [OF newest_first_descending [OF d]] by blast
  then show ?thesis using i by (simp add: k) (simp add: remaining_def add.commute)
qed

lemma follow_remaining:
  assumes d: "distinct (map key rows)"
  shows "remaining key cursor rows = drop k (newest_first key rows) \<Longrightarrow>
    length (remaining key cursor rows) < n \<Longrightarrow>
    \<exists>ps. follow n key limit cursor rows = Some ps \<and> concat ps = remaining key cursor rows \<and>
         (\<forall>p \<in> set ps. length p \<le> paging_limit \<lparr>cpq_cursor = None, cpq_limit = limit\<rparr>)"
proof (induction n arbitrary: cursor k)
  case (Suc n)
  let ?q = "\<lparr>cpq_cursor = cursor, cpq_limit = limit\<rparr>" and ?r = "remaining key cursor rows"
  let ?l = "paging_limit \<lparr>cpq_cursor = None, cpq_limit = limit\<rparr>"
  have l: "paging_limit ?q = ?l" by (simp add: paging_limit_def)
  show ?case
  proof (cases "length ?r \<le> ?l")
    case True
    then show ?thesis using paginate_last [of key ?q rows] l by simp
  next
    case False
    then have pos: "0 < ?l" "?l - 1 < length ?r" using paging_limit_bounds(1) [of ?q] l by simp_all
    let ?c = "key (?r ! (?l - 1))"
    have rest: "remaining key (Some ?c) rows = drop ?l ?r"
      using remaining_next [OF d Suc.prems(1) pos(2)] pos(1) by simp
    then have "remaining key (Some ?c) rows = drop (?l + k) (newest_first key rows)"
      by (simp only: Suc.prems(1) drop_drop)
    moreover have "length (remaining key (Some ?c) rows) < n"
      unfolding rest using pos Suc.prems(2) by simp
    ultimately obtain ps where "follow n key limit (Some ?c) rows = Some ps" "concat ps = drop ?l ?r"
      "\<forall>p \<in> set ps. length p \<le> ?l" using Suc.IH [of "Some ?c" "?l + k"] rest by metis
    moreover have "paginate key ?q rows = (take ?l ?r, Some ?c)"
      using paginate_more [of ?q key rows] False l by simp
    ultimately show ?thesis by auto
  qed
qed simp

text \<open>
  C18.  Following the cursors of the paged searches visits every row once, newest first, in pages within
  the limit, and it ends: as many requests as there are rows, and one, are enough.
\<close>

theorem paging_visits_everything:
  assumes "distinct (map key rows)"
  shows "\<exists>pages. follow (length rows + 1) key limit None rows = Some pages \<and>
    concat pages = rev (sort_key key rows) \<and>
    (\<forall>p \<in> set pages. length p \<le> nat (max 1 (min 100 (case limit of None \<Rightarrow> 10 | Some l \<Rightarrow> l))))"
proof -
  have r: "remaining key None rows = newest_first key rows" by (simp add: remaining_def)
  have "length (newest_first key rows) = length rows" by (simp add: newest_first_def)
  then show ?thesis
    using follow_remaining [OF assms, of None 0 "length rows + 1" limit] r
    by (simp add: newest_first_def paging_limit_def)
qed

theorem paging_visits_everything_witness:
  "\<exists>pages. follow 6 (\<lambda>n. n) (Some 2) None [3, 1, 5, 2, 4] = Some pages \<and> concat pages = [5, 4, 3, 2, 1 :: int]"
  using paging_visits_everything [of "\<lambda>n. n" "[3, 1, 5, 2, 4 :: int]" "Some 2"]
  by (simp add: numeral_eq_Suc del: follow.simps) blast

end
