(* ===== verification/Prelude.thy ===== *)
theory Prelude
  imports Main
begin

text \<open>
  The prelude of the development: what the components share.

  \<^item> the error/state monad in which every endpoint and repository function is
    written (an \<open>async fn\<close> returning \<open>rootcause::Result\<close> that reads and writes
    the database), with weakest preconditions computed by \<open>simp\<close>;
  \<^item> Rust's signed machine arithmetic (\<open>i64\<close> with the wrap-around of the release
    profile, truncating division) and PostgreSQL's checked arithmetic;
  \<^item> the formatting of sequence numbers, \<open>format!("{:06}", seq)\<close>;
  \<^item> tables as lists of rows: lookup by a key, \<open>UPDATE .. WHERE\<close>.
\<close>

named_theorems wp "weakest preconditions of the monad's operations"
named_theorems pres_intros "preservation of a state predicate, structurally"
named_theorems okp_intros "preservation of a state predicate by successful runs, structurally"

section \<open>The error/state monad\<close>

type_synonym ('s, 'e, 'a) rs = "'s \<Rightarrow> ('e + 'a) \<times> 's"

definition retM :: "'a \<Rightarrow> ('s, 'e, 'a) rs" where
  "retM x = (\<lambda>s. (Inr x, s))"

definition failM :: "'e \<Rightarrow> ('s, 'e, 'a) rs" where
  "failM e = (\<lambda>s. (Inl e, s))"

definition bindM :: "('s, 'e, 'a) rs \<Rightarrow> ('a \<Rightarrow> ('s, 'e, 'b) rs) \<Rightarrow> ('s, 'e, 'b) rs" where
  "bindM m f = (\<lambda>s. case m s of (r, t) \<Rightarrow> (case r of Inl e \<Rightarrow> (Inl e, t) | Inr a \<Rightarrow> f a t))"

definition seqM :: "('s, 'e, unit) rs \<Rightarrow> ('s, 'e, 'b) rs \<Rightarrow> ('s, 'e, 'b) rs" where
  "seqM m n = bindM m (\<lambda>_. n)"

definition getsM :: "('s \<Rightarrow> 'a) \<Rightarrow> ('s, 'e, 'a) rs" where
  "getsM f = (\<lambda>s. (Inr (f s), s))"

definition modM :: "('s \<Rightarrow> 's) \<Rightarrow> ('s, 'e, unit) rs" where
  "modM f = (\<lambda>s. (Inr (), f s))"

definition guardM :: "bool \<Rightarrow> 'e \<Rightarrow> ('s, 'e, unit) rs" where
  "guardM b e = (if b then retM () else failM e)"

text \<open>A condition on the state, for the constraints the database enforces.\<close>

definition checkM :: "('s \<Rightarrow> bool) \<Rightarrow> 'e \<Rightarrow> ('s, 'e, unit) rs" where
  "checkM P e = (\<lambda>s. if P s then (Inr (), s) else (Inl e, s))"

text \<open>A pure fallible computation, \<open>x?\<close> in the source.\<close>

definition liftM :: "'e + 'a \<Rightarrow> ('s, 'e, 'a) rs" where
  "liftM r = (\<lambda>s. (r, s))"

text \<open>\<open>Option::ok_or(e)?\<close>.\<close>

definition ok_or :: "'a option \<Rightarrow> 'e \<Rightarrow> ('s, 'e, 'a) rs" where
  "ok_or x e = (case x of None \<Rightarrow> failM e | Some a \<Rightarrow> retM a)"

text \<open>A \<open>for\<close> loop with \<open>?\<close> in its body.\<close>

fun forM :: "'x list \<Rightarrow> ('x \<Rightarrow> ('s, 'e, unit) rs) \<Rightarrow> ('s, 'e, unit) rs" where
  "forM [] f = retM ()"
| "forM (x # xs) f = seqM (f x) (forM xs f)"

text \<open>
  A database transaction: \<open>begin\<close>, the body, \<open>commit\<close>.  An error returned from the
  body drops the transaction, which rolls back; \<open>keep s t\<close> says what survives a
  rollback (\<open>s\<close> the state at \<open>begin\<close>, \<open>t\<close> the state at the error).
\<close>

definition txnM :: "('s \<Rightarrow> 's \<Rightarrow> 's) \<Rightarrow> ('s, 'e, 'a) rs \<Rightarrow> ('s, 'e, 'a) rs" where
  "txnM keep m = (\<lambda>s. case m s of (r, t) \<Rightarrow>
     (case r of Inl e \<Rightarrow> (Inl e, keep s t) | Inr a \<Rightarrow> (Inr a, t)))"

lemmas monad_defs = retM_def failM_def bindM_def seqM_def getsM_def modM_def guardM_def
  checkM_def liftM_def ok_or_def txnM_def

subsection \<open>Weakest preconditions\<close>

text \<open>
  \<open>wpM m Q E s\<close>: run from \<open>s\<close>, \<open>m\<close> ends with a value and a state in \<open>Q\<close> or with an
  error and a state in \<open>E\<close>.  The monad is deterministic and total, so \<open>wpM\<close> is both
  the partial and the total correctness condition.
\<close>

definition wpM :: "('s, 'e, 'a) rs \<Rightarrow> ('a \<Rightarrow> 's \<Rightarrow> bool) \<Rightarrow> ('e \<Rightarrow> 's \<Rightarrow> bool) \<Rightarrow> 's \<Rightarrow> bool" where
  "wpM m Q E s = (case m s of (r, t) \<Rightarrow> (case r of Inl e \<Rightarrow> E e t | Inr a \<Rightarrow> Q a t))"

lemma wp_ret [wp]: "wpM (retM x) Q E s = Q x s"
  by (simp add: wpM_def retM_def)

lemma wp_fail [wp]: "wpM (failM e) Q E s = E e s"
  by (simp add: wpM_def failM_def)

lemma wp_bind [wp]: "wpM (bindM m f) Q E s = wpM m (\<lambda>a. wpM (f a) Q E) E s"
  by (simp add: wpM_def bindM_def split: prod.split sum.split)

lemma wp_seq [wp]: "wpM (seqM m n) Q E s = wpM m (\<lambda>_. wpM n Q E) E s"
  by (simp add: seqM_def wp_bind)

lemma wp_gets [wp]: "wpM (getsM f) Q E s = Q (f s) s"
  by (simp add: wpM_def getsM_def)

lemma wp_mod [wp]: "wpM (modM f) Q E s = Q () (f s)"
  by (simp add: wpM_def modM_def)

lemma wp_guard [wp]: "wpM (guardM b e) Q E s = (if b then Q () s else E e s)"
  by (simp add: guardM_def wp_ret wp_fail)

lemma wp_check [wp]: "wpM (checkM P e) Q E s = (if P s then Q () s else E e s)"
  by (simp add: wpM_def checkM_def)

lemma wp_lift [wp]: "wpM (liftM r) Q E s = (case r of Inl e \<Rightarrow> E e s | Inr a \<Rightarrow> Q a s)"
  by (simp add: wpM_def liftM_def split: sum.split)

lemma wp_ok_or [wp]:
  "wpM (ok_or x e) Q E s = (case x of None \<Rightarrow> E e s | Some a \<Rightarrow> Q a s)"
  by (simp add: ok_or_def wp_ret wp_fail split: option.split)

lemma wp_txn [wp]: "wpM (txnM keep m) Q E s = wpM m Q (\<lambda>e t. E e (keep s t)) s"
  by (simp add: wpM_def txnM_def split: prod.split sum.split)

lemma wp_if [wp]:
  "wpM (if b then m else n) Q E s = (if b then wpM m Q E s else wpM n Q E s)"
  by simp

lemma wp_case_option [wp]:
  "wpM (case x of None \<Rightarrow> m | Some a \<Rightarrow> f a) Q E s =
   (case x of None \<Rightarrow> wpM m Q E s | Some a \<Rightarrow> wpM (f a) Q E s)"
  by (simp split: option.split)

lemma wp_case_prod [wp]:
  "wpM (case p of (a, b) \<Rightarrow> f a b) Q E s = (case p of (a, b) \<Rightarrow> wpM (f a b) Q E s)"
  by (simp split: prod.split)

lemma wp_let [wp]: "wpM (let x = v in f x) Q E s = wpM (f v) Q E s"
  by simp

lemma wp_mono:
  assumes "wpM m Q E s"
    and "\<And>a t. Q a t \<Longrightarrow> Q' a t"
    and "\<And>e t. E e t \<Longrightarrow> E' e t"
  shows "wpM m Q' E' s"
  using assms by (auto simp: wpM_def split: prod.splits sum.splits)

lemma wp_conj:
  "wpM m (\<lambda>a t. Q a t \<and> Q' a t) (\<lambda>e t. E e t \<and> E' e t) s = (wpM m Q E s \<and> wpM m Q' E' s)"
  by (auto simp: wpM_def split: prod.splits sum.splits)

lemma wp_OK: "m s = (Inr a, t) \<Longrightarrow> wpM m Q E s \<Longrightarrow> Q a t"
  by (simp add: wpM_def)

lemma wp_Err: "m s = (Inl e, t) \<Longrightarrow> wpM m Q E s \<Longrightarrow> E e t"
  by (simp add: wpM_def)

lemma wpI:
  assumes "\<And>a t. m s = (Inr a, t) \<Longrightarrow> Q a t" and "\<And>e t. m s = (Inl e, t) \<Longrightarrow> E e t"
  shows "wpM m Q E s"
  using assms by (auto simp: wpM_def split: prod.splits sum.splits)

lemma wp_success: "wpM m Q (\<lambda>_ _. True) s \<longleftrightarrow> (\<forall>a t. m s = (Inr a, t) \<longrightarrow> Q a t)"
  by (cases "m s"; cases "fst (m s)") (auto simp: wpM_def)

lemma wp_forM_inv:
  assumes "I s"
    and "\<And>x t. x \<in> set xs \<Longrightarrow> I t \<Longrightarrow> wpM (f x) (\<lambda>_. I) E t"
    and "\<And>t. I t \<Longrightarrow> Q () t"
  shows "wpM (forM xs f) Q E s"
  using assms
proof (induction xs arbitrary: s)
  case Nil
  then show ?case by (simp add: wp_ret)
next
  case (Cons x xs)
  then have "wpM (f x) (\<lambda>_. I) E s" by simp
  then have "wpM (f x) (\<lambda>_. wpM (forM xs f) Q E) E s"
    by (rule wp_mono) (use Cons in auto)
  then show ?case by (simp add: wp_seq)
qed

text \<open>The same rule with an invariant that mentions the part of the list already done.\<close>

lemma wp_forM_prefix:
  assumes "I [] s"
    and "\<And>ys x zs t. xs = ys @ x # zs \<Longrightarrow> I ys t \<Longrightarrow> wpM (f x) (\<lambda>_. I (ys @ [x])) E t"
    and "\<And>t. I xs t \<Longrightarrow> Q () t"
  shows "wpM (forM xs f) Q E s"
proof -
  have "wpM (forM zs f) Q E t" if "xs = ys @ zs" "I ys t" for ys zs t
    using that
  proof (induction zs arbitrary: ys t)
    case Nil
    then show ?case using assms(3) by (simp add: wp_ret)
  next
    case (Cons x zs)
    then have "wpM (f x) (\<lambda>_. I (ys @ [x])) E t" using assms(2) by simp
    then have "wpM (f x) (\<lambda>_. wpM (forM zs f) Q E) E t"
      by (rule wp_mono) (use Cons in auto)
    then show ?case by (simp add: wp_seq)
  qed
  then show ?thesis using assms(1) by simp
qed

subsection \<open>Runs that end with a value\<close>

text \<open>
  The inversion rules: what a successful run says of its parts.  They turn a
  hypothesis \<open>op s = (Inr a, t)\<close> into the facts of every step of \<open>op\<close>.
\<close>

lemma bindM_OK: "bindM m f s = (Inr b, t) \<longleftrightarrow> (\<exists>a u. m s = (Inr a, u) \<and> f a u = (Inr b, t))"
  by (auto simp: bindM_def split: prod.splits sum.splits)

lemma seqM_OK: "seqM m n s = (Inr b, t) \<longleftrightarrow> (\<exists>u. m s = (Inr (), u) \<and> n u = (Inr b, t))"
  by (auto simp: seqM_def bindM_OK)

lemma retM_OK: "retM x s = (Inr b, t) \<longleftrightarrow> b = x \<and> t = s"
  by (auto simp: retM_def)

lemma failM_OK: "failM e s = (Inr b, t) \<longleftrightarrow> False"
  by (simp add: failM_def)

lemma getsM_OK: "getsM f s = (Inr b, t) \<longleftrightarrow> b = f s \<and> t = s"
  by (auto simp: getsM_def)

lemma modM_OK: "modM f s = (Inr b, t) \<longleftrightarrow> t = f s"
  by (auto simp: modM_def)

lemma guardM_OK: "guardM c e s = (Inr b, t) \<longleftrightarrow> c \<and> t = s"
  by (auto simp: guardM_def retM_def failM_def)

lemma checkM_OK: "checkM P e s = (Inr b, t) \<longleftrightarrow> P s \<and> t = s"
  by (auto simp: checkM_def)

lemma liftM_OK: "liftM r s = (Inr b, t) \<longleftrightarrow> r = Inr b \<and> t = s"
  by (auto simp: liftM_def)

lemma ok_or_OK: "ok_or x e s = (Inr b, t) \<longleftrightarrow> x = Some b \<and> t = s"
  by (auto simp: ok_or_def retM_def failM_def split: option.splits)

lemma txnM_OK: "txnM keep m s = (Inr b, t) \<longleftrightarrow> m s = (Inr b, t)"
  by (auto simp: txnM_def split: prod.splits sum.splits)

lemmas monad_OK = bindM_OK seqM_OK retM_OK failM_OK getsM_OK modM_OK guardM_OK checkM_OK liftM_OK
  ok_or_OK txnM_OK

lemma txnM_Err: "txnM keep m s = (Inl e, t) \<longleftrightarrow> (\<exists>u. m s = (Inl e, u) \<and> t = keep s u)"
  by (auto simp: txnM_def split: prod.splits sum.splits)

subsection \<open>Preservation of a predicate on the state\<close>

definition pres :: "('s \<Rightarrow> bool) \<Rightarrow> ('s, 'e, 'a) rs \<Rightarrow> bool" where
  "pres I m = (\<forall>s. I s \<longrightarrow> I (snd (m s)))"

lemma pres_wp: "pres I m = (\<forall>s. I s \<longrightarrow> wpM m (\<lambda>_. I) (\<lambda>_. I) s)"
  by (simp add: pres_def wpM_def case_prod_beta split: sum.split)

lemma presD: "pres I m \<Longrightarrow> I s \<Longrightarrow> m s = (r, t) \<Longrightarrow> I t"
  by (auto simp: pres_def dest: spec [of _ s])

lemma pres_ret [pres_intros]: "pres I (retM x)"
  by (simp add: pres_wp wp)

lemma pres_fail [pres_intros]: "pres I (failM e)"
  by (simp add: pres_wp wp)

lemma pres_bind [pres_intros]:
  assumes "pres I m" "\<And>a. pres I (f a)"
  shows "pres I (bindM m f)"
  using assms by (auto simp: pres_wp wp_bind elim!: wp_mono)

lemma pres_seq [pres_intros]: "pres I m \<Longrightarrow> pres I n \<Longrightarrow> pres I (seqM m n)"
  by (simp add: seqM_def pres_bind)

lemma pres_gets [pres_intros]: "pres I (getsM f)"
  by (simp add: pres_wp wp)

lemma pres_guard [pres_intros]: "pres I (guardM b e)"
  by (simp add: pres_wp wp)

lemma pres_check [pres_intros]: "pres I (checkM P e)"
  by (simp add: pres_wp wp)

lemma pres_lift [pres_intros]: "pres I (liftM r)"
  by (simp add: pres_wp wp split: sum.split)

lemma pres_ok_or [pres_intros]: "pres I (ok_or x e)"
  by (simp add: pres_wp wp split: option.split)

lemma pres_if [pres_intros]: "(b \<Longrightarrow> pres I m) \<Longrightarrow> (\<not> b \<Longrightarrow> pres I n) \<Longrightarrow> pres I (if b then m else n)"
  by simp

lemma pres_case_option [pres_intros]:
  "pres I m \<Longrightarrow> (\<And>a. pres I (f a)) \<Longrightarrow> pres I (case x of None \<Rightarrow> m | Some a \<Rightarrow> f a)"
  by (simp split: option.split)

lemma pres_case_prod [pres_intros]:
  "(\<And>a b. pres I (f a b)) \<Longrightarrow> pres I (case p of (a, b) \<Rightarrow> f a b)"
  by (simp split: prod.split)

lemma pres_let [pres_intros]: "(\<And>x. pres I (f x)) \<Longrightarrow> pres I (let x = v in f x)"
  by simp

lemma pres_forM [pres_intros]:
  assumes "\<And>x. x \<in> set xs \<Longrightarrow> pres I (f x)"
  shows "pres I (forM xs f)"
  using assms by (induction xs) (auto intro: pres_ret pres_seq)

lemma pres_modM: "(\<And>s. I s \<Longrightarrow> I (f s)) \<Longrightarrow> pres I (modM f)"
  by (simp add: pres_wp wp)

lemma pres_txn:
  assumes "pres I m" "\<And>s t. I s \<Longrightarrow> I t \<Longrightarrow> I (keep s t)"
  shows "pres I (txnM keep m)"
  using assms by (auto simp: pres_wp wp_txn elim!: wp_mono)

text \<open>
  Preservation by the runs that end with a value: what the body of a transaction has to
  satisfy, since its failing runs are rolled back.
\<close>

definition okp :: "('s \<Rightarrow> bool) \<Rightarrow> ('s, 'e, 'a) rs \<Rightarrow> bool" where
  "okp I m = (\<forall>s a t. I s \<longrightarrow> m s = (Inr a, t) \<longrightarrow> I t)"

lemma okpI: "(\<And>s a t. I s \<Longrightarrow> m s = (Inr a, t) \<Longrightarrow> I t) \<Longrightarrow> okp I m"
  by (simp add: okp_def)

lemma okpD: "okp I m \<Longrightarrow> I s \<Longrightarrow> m s = (Inr a, t) \<Longrightarrow> I t"
  by (auto simp: okp_def)

lemma pres_okp: "pres I m \<Longrightarrow> okp I m"
  by (auto simp: okp_def dest: presD)

lemma okp_ret [okp_intros]: "okp I (retM x)"
  by (simp add: okp_def monad_OK)

lemma okp_fail [okp_intros]: "okp I (failM e)"
  by (simp add: okp_def monad_OK)

lemma okp_gets [okp_intros]: "okp I (getsM f)"
  by (simp add: okp_def monad_OK)

lemma okp_guard [okp_intros]: "okp I (guardM b e)"
  by (simp add: okp_def monad_OK)

lemma okp_check [okp_intros]: "okp I (checkM P e)"
  by (simp add: okp_def monad_OK)

lemma okp_lift [okp_intros]: "okp I (liftM r)"
  by (simp add: okp_def monad_OK)

lemma okp_ok_or [okp_intros]: "okp I (ok_or x e)"
  by (simp add: okp_def monad_OK)

lemma okp_bind [okp_intros]: "okp I m \<Longrightarrow> (\<And>a. okp I (f a)) \<Longrightarrow> okp I (bindM m f)"
  unfolding okp_def bindM_OK by blast

lemma okp_seq [okp_intros]: "okp I m \<Longrightarrow> okp I n \<Longrightarrow> okp I (seqM m n)"
  by (simp add: seqM_def okp_bind)

lemma okp_if [okp_intros]: "(b \<Longrightarrow> okp I m) \<Longrightarrow> (\<not> b \<Longrightarrow> okp I n) \<Longrightarrow> okp I (if b then m else n)"
  by simp

lemma okp_case_option [okp_intros]:
  "okp I m \<Longrightarrow> (\<And>a. okp I (f a)) \<Longrightarrow> okp I (case x of None \<Rightarrow> m | Some a \<Rightarrow> f a)"
  by (simp split: option.split)

lemma okp_case_prod [okp_intros]:
  "(\<And>a b. okp I (f a b)) \<Longrightarrow> okp I (case p of (a, b) \<Rightarrow> f a b)"
  by (simp split: prod.split)

lemma okp_let [okp_intros]: "(\<And>x. okp I (f x)) \<Longrightarrow> okp I (let x = v in f x)"
  by simp

lemma okp_forM [okp_intros]: "(\<And>x. x \<in> set xs \<Longrightarrow> okp I (f x)) \<Longrightarrow> okp I (forM xs f)"
  by (induction xs) (auto intro: okp_ret okp_seq)

lemma okp_txn [okp_intros]: "okp I m \<Longrightarrow> okp I (txnM keep m)"
  by (simp add: okp_def txnM_OK)

lemma okp_modM: "(\<And>s. I s \<Longrightarrow> I (f s)) \<Longrightarrow> okp I (modM f)"
  by (simp add: okp_def monad_OK)

lemma pres_txn_okp:
  assumes "okp I m" "\<And>s t. I s \<Longrightarrow> I (keep s t)"
  shows "pres I (txnM keep m)"
  using assms by (auto simp: pres_wp wp_txn okp_def intro!: wpI)

text \<open>An operation keeps a part of the state when every value of that part is preserved.\<close>

definition keeps :: "('s \<Rightarrow> 'p) \<Rightarrow> ('s, 'e, 'a) rs \<Rightarrow> bool" where
  "keeps F m = (\<forall>s. F (snd (m s)) = F s)"

lemma keeps_pres: "keeps F m \<longleftrightarrow> (\<forall>x. pres (\<lambda>s. F s = x) m)"
  by (auto simp: keeps_def pres_def)

lemma keepsD: "keeps F m \<Longrightarrow> m s = (r, t) \<Longrightarrow> F t = F s"
  by (auto simp: keeps_def dest: spec [of _ s])

lemma keepsI: "(\<And>x. pres (\<lambda>s. F s = x) m) \<Longrightarrow> keeps F m"
  by (simp add: keeps_pres)

lemma pres_keeps: "keeps F m \<Longrightarrow> (\<And>s. I s = J (F s)) \<Longrightarrow> pres I m"
  by (simp add: pres_def keeps_def)

section \<open>Machine integers\<close>

text \<open>
  \<open>i64\<close> values are integers; the release profile of the workspace compiles with
  \<open>overflow-checks = false\<close>, so \<open>+\<close>, \<open>-\<close> and \<open>*\<close> wrap modulo \<open>2^64\<close> into the signed
  range.  \<open>/\<close> truncates towards zero and panics on a zero divisor.
\<close>

definition i64_min :: int where "i64_min = - (2 ^ 63)"
definition i64_max :: int where "i64_max = 2 ^ 63 - 1"

definition in_i64 :: "int \<Rightarrow> bool" where
  "in_i64 x = (i64_min \<le> x \<and> x \<le> i64_max)"

definition to_i64 :: "int \<Rightarrow> int" where
  "to_i64 x = (x + 2 ^ 63) mod 2 ^ 64 - 2 ^ 63"

definition i64_add :: "int \<Rightarrow> int \<Rightarrow> int" where "i64_add a b = to_i64 (a + b)"
definition i64_sub :: "int \<Rightarrow> int \<Rightarrow> int" where "i64_sub a b = to_i64 (a - b)"
definition i64_mul :: "int \<Rightarrow> int \<Rightarrow> int" where "i64_mul a b = to_i64 (a * b)"

text \<open>Rust's \<open>/\<close> for a non-zero divisor: the quotient rounded towards zero.\<close>

definition tdiv :: "int \<Rightarrow> int \<Rightarrow> int" where
  "tdiv a b = (if (0 \<le> a) = (0 \<le> b) then \<bar>a\<bar> div \<bar>b\<bar> else - (\<bar>a\<bar> div \<bar>b\<bar>))"

definition to_i16 :: "int \<Rightarrow> int" where
  "to_i16 x = (x + 2 ^ 15) mod 2 ^ 16 - 2 ^ 15"

lemmas i64_defs = i64_add_def i64_sub_def i64_mul_def
lemmas i64_range_defs = in_i64_def i64_min_def i64_max_def

lemma to_i64_range [simp, intro]: "in_i64 (to_i64 x)"
  by (simp add: to_i64_def i64_range_defs)

lemma to_i64_id [simp]: "in_i64 x \<Longrightarrow> to_i64 x = x"
  by (simp add: to_i64_def i64_range_defs mod_pos_pos_trivial)

lemma to_i64_cong: "to_i64 x mod 2 ^ 64 = x mod 2 ^ 64"
  by (simp add: to_i64_def mod_diff_left_eq)

lemma to_i64_eq_iff: "to_i64 x = to_i64 y \<longleftrightarrow> x mod 2 ^ 64 = y mod 2 ^ 64"
proof
  assume "to_i64 x = to_i64 y"
  then have "to_i64 x mod 2 ^ 64 = to_i64 y mod 2 ^ 64" by simp
  then show "x mod 2 ^ 64 = y mod 2 ^ 64" by (simp only: to_i64_cong)
next
  assume "x mod 2 ^ 64 = y mod 2 ^ 64"
  then have "(x + 2 ^ 63) mod 2 ^ 64 = (y + 2 ^ 63) mod 2 ^ 64" by (rule mod_add_cong) simp
  then show "to_i64 x = to_i64 y" by (simp add: to_i64_def)
qed

lemma in_i64_add [simp]: "in_i64 (i64_add a b)"
  by (simp add: i64_add_def)

lemma in_i64_sub [simp]: "in_i64 (i64_sub a b)"
  by (simp add: i64_sub_def)

lemma in_i64_0 [simp]: "in_i64 0"
  by (simp add: i64_range_defs)

lemma i64_add_exact: "in_i64 (a + b) \<Longrightarrow> i64_add a b = a + b"
  by (simp add: i64_add_def)

lemma i64_sub_exact: "in_i64 (a - b) \<Longrightarrow> i64_sub a b = a - b"
  by (simp add: i64_sub_def)

lemma i64_mul_exact: "in_i64 (a * b) \<Longrightarrow> i64_mul a b = a * b"
  by (simp add: i64_mul_def)

text \<open>Wrapping subtraction undoes wrapping addition, whatever overflowed.\<close>

lemma i64_add_sub: "in_i64 a \<Longrightarrow> i64_sub (i64_add a b) b = a"
proof -
  assume a: "in_i64 a"
  have "(to_i64 (a + b) - b) mod 2 ^ 64 = (a + b - b) mod 2 ^ 64"
    by (rule mod_diff_cong [OF to_i64_cong refl])
  then have "to_i64 (to_i64 (a + b) - b) = to_i64 a" by (simp only: to_i64_eq_iff) simp
  then show ?thesis using a by (simp add: i64_add_def i64_sub_def)
qed

lemma i64_sub_zero_iff: "in_i64 a \<Longrightarrow> in_i64 b \<Longrightarrow> i64_sub a b = 0 \<longleftrightarrow> a = b"
proof
  assume a: "in_i64 a" and b: "in_i64 b" and eq: "i64_sub a b = 0"
  have "to_i64 (a - b) = to_i64 0" using eq by (simp add: i64_sub_def)
  then have "(a - b) mod 2 ^ 64 = 0 mod 2 ^ 64" by (simp only: to_i64_eq_iff)
  then have "(a - b + b) mod 2 ^ 64 = (0 + b) mod 2 ^ 64" by (rule mod_add_cong) simp
  then have "to_i64 a = to_i64 b" by (simp only: to_i64_eq_iff) simp
  then show "a = b" using a b by simp
qed (simp add: i64_sub_def)

lemma i64_add_sub_cancel: "in_i64 a \<Longrightarrow> i64_add b (i64_sub a b) = a"
proof -
  assume a: "in_i64 a"
  have "(b + to_i64 (a - b)) mod 2 ^ 64 = (b + (a - b)) mod 2 ^ 64"
    by (rule mod_add_cong [OF refl to_i64_cong])
  then have "to_i64 (b + to_i64 (a - b)) = to_i64 a" by (simp only: to_i64_eq_iff) simp
  then show ?thesis using a by (simp add: i64_add_def i64_sub_def)
qed

text \<open>Equality of integers modulo \<open>2^64\<close>, what survives any number of wrap-arounds.\<close>

definition eq64 :: "int \<Rightarrow> int \<Rightarrow> bool" where
  "eq64 x y = (x mod 2 ^ 64 = y mod 2 ^ 64)"

lemma eq64_refl [simp, intro]: "eq64 x x"
  by (simp add: eq64_def)

lemma eq64_sym: "eq64 x y \<Longrightarrow> eq64 y x"
  by (simp add: eq64_def)

lemma eq64_trans [trans]: "eq64 x y \<Longrightarrow> eq64 y z \<Longrightarrow> eq64 x z"
  by (simp add: eq64_def)

lemma eq64_add: "eq64 a b \<Longrightarrow> eq64 c d \<Longrightarrow> eq64 (a + c) (b + d)"
  unfolding eq64_def by (rule mod_add_cong)

lemma eq64_diff: "eq64 a b \<Longrightarrow> eq64 c d \<Longrightarrow> eq64 (a - c) (b - d)"
  unfolding eq64_def by (rule mod_diff_cong)

lemma eq64_to_i64 [simp, intro]: "eq64 (to_i64 x) x"
  unfolding eq64_def by (rule to_i64_cong)

lemma eq64_i64 [simp, intro]: "eq64 (i64_add a b) (a + b)" "eq64 (i64_sub a b) (a - b)"
  "eq64 (i64_mul a b) (a * b)"
  by (simp_all add: i64_defs)

lemma eq64_exact: "eq64 x y \<Longrightarrow> in_i64 x \<Longrightarrow> in_i64 y \<Longrightarrow> x = y"
proof -
  assume eq: "eq64 x y" and r: "in_i64 x" "in_i64 y"
  have "to_i64 x = to_i64 y" using eq unfolding eq64_def to_i64_eq_iff .
  then show ?thesis using r by simp
qed

lemma tdiv_nonneg: "0 \<le> a \<Longrightarrow> 0 < b \<Longrightarrow> tdiv a b = a div b"
  by (simp add: tdiv_def)

section \<open>Decimal formatting\<close>

text \<open>The decimal digits of a number, \<open>format!("{}", n)\<close>.\<close>

definition digit_char :: "nat \<Rightarrow> char" where
  "digit_char d = char_of (48 + d)"

fun dec_string :: "nat \<Rightarrow> string" where
  "dec_string n = (if n < 10 then [digit_char n] else dec_string (n div 10) @ [digit_char (n mod 10)])"

declare dec_string.simps [simp del]

text \<open>\<open>format!("{:0w}", n)\<close>: zero padding on the left up to width \<open>w\<close>.\<close>

definition zero_pad :: "nat \<Rightarrow> nat \<Rightarrow> string" where
  "zero_pad w n = (let d = dec_string n in replicate (w - length d) (digit_char 0) @ d)"

definition char_digit :: "char \<Rightarrow> nat" where
  "char_digit c = of_char c - 48"

text \<open>Reading a digit string back, the specification of the formatter.\<close>

definition dec_value :: "string \<Rightarrow> nat" where
  "dec_value cs = foldl (\<lambda>acc c. 10 * acc + char_digit c) 0 cs"

lemma char_digit_inverse [simp]: "d < 10 \<Longrightarrow> char_digit (digit_char d) = d"
  by (simp add: char_digit_def digit_char_def of_char_of)

lemma dec_value_snoc [simp]: "dec_value (cs @ [c]) = 10 * dec_value cs + char_digit c"
  by (simp add: dec_value_def)

lemma dec_value_dec_string [simp]: "dec_value (dec_string n) = n"
proof (induction n rule: dec_string.induct)
  case (1 n)
  show ?case
  proof (cases "n < 10")
    case True
    then show ?thesis by (simp add: dec_string.simps [of n] dec_value_def)
  next
    case False
    then show ?thesis using 1 by (subst dec_string.simps) simp
  qed
qed

lemma dec_value_zeros: "dec_value (replicate k (digit_char 0) @ cs) = dec_value cs"
  by (induction k) (simp_all add: dec_value_def)

lemma dec_value_zero_pad [simp]: "dec_value (zero_pad w n) = n"
  by (simp add: zero_pad_def Let_def dec_value_zeros)

lemma zero_pad_inj: "zero_pad w m = zero_pad w n \<Longrightarrow> m = n"
  by (metis dec_value_zero_pad)

lemma length_zero_pad: "w \<le> length (zero_pad w n)"
  by (simp add: zero_pad_def Let_def)

section \<open>Tables\<close>

text \<open>
  A table is the list of its rows.  \<open>lookup_by key k\<close> is \<open>SELECT .. WHERE key = k\<close>
  with \<open>fetch_optional\<close>, \<open>update_where\<close> is \<open>UPDATE .. SET .. WHERE\<close>.
\<close>

definition lookup_by :: "('r \<Rightarrow> 'k) \<Rightarrow> 'k \<Rightarrow> 'r list \<Rightarrow> 'r option" where
  "lookup_by key k xs = find (\<lambda>r. key r = k) xs"

definition update_where :: "('r \<Rightarrow> bool) \<Rightarrow> ('r \<Rightarrow> 'r) \<Rightarrow> 'r list \<Rightarrow> 'r list" where
  "update_where P f xs = map (\<lambda>r. if P r then f r else r) xs"

definition has_key :: "('r \<Rightarrow> 'k) \<Rightarrow> 'k \<Rightarrow> 'r list \<Rightarrow> bool" where
  "has_key key k xs = (\<exists>r \<in> set xs. key r = k)"

lemma has_key_code [code]: "has_key key k xs = list_ex (\<lambda>r. key r = k) xs"
  by (simp add: has_key_def list_ex_iff)

lemma lookup_by_Nil [simp]: "lookup_by key k [] = None"
  by (simp add: lookup_by_def)

lemma lookup_by_Cons [simp]:
  "lookup_by key k (r # rs) = (if key r = k then Some r else lookup_by key k rs)"
  by (simp add: lookup_by_def)

lemma lookup_by_append [simp]:
  "lookup_by key k (xs @ ys) = (case lookup_by key k xs of None \<Rightarrow> lookup_by key k ys | Some r \<Rightarrow> Some r)"
  by (induction xs) auto

lemma lookup_by_SomeD: "lookup_by key k xs = Some r \<Longrightarrow> r \<in> set xs \<and> key r = k"
  by (induction xs) (auto split: if_splits)

lemma lookup_by_None: "lookup_by key k xs = None \<longleftrightarrow> (\<forall>r \<in> set xs. key r \<noteq> k)"
  by (induction xs) auto

lemma has_key_lookup: "has_key key k xs \<longleftrightarrow> lookup_by key k xs \<noteq> None"
  by (auto simp: has_key_def lookup_by_None)

lemma has_key_simps [simp]:
  "has_key key k [] = False"
  "has_key key k (r # rs) = (key r = k \<or> has_key key k rs)"
  "has_key key k (xs @ ys) = (has_key key k xs \<or> has_key key k ys)"
  by (auto simp: has_key_def)

lemma update_where_simps [simp]:
  "update_where P f [] = []"
  "update_where P f (r # rs) = (if P r then f r else r) # update_where P f rs"
  "update_where P f (xs @ ys) = update_where P f xs @ update_where P f ys"
  "length (update_where P f xs) = length xs"
  by (simp_all add: update_where_def)

lemma set_update_where: "set (update_where P f xs) = (\<lambda>r. if P r then f r else r) ` set xs"
  by (simp add: update_where_def)

lemma ball_update_where:
  "(\<forall>l \<in> set (update_where P g ls). Q l) = (\<forall>l \<in> set ls. Q (if P l then g l else l))"
  by (induction ls) auto

lemma map_update_where: "(\<And>r. P r \<Longrightarrow> g (f r) = g r) \<Longrightarrow> map g (update_where P f xs) = map g xs"
  by (induction xs) auto

lemma lookup_by_update_where:
  assumes "\<And>r. key (f r) = key r"
  shows "lookup_by key k (update_where P f xs) =
         map_option (\<lambda>r. if P r then f r else r) (lookup_by key k xs)"
  using assms by (induction xs) auto

lemma lookup_by_update_same [simp]:
  assumes "\<And>r. key (f r) = key r"
  shows "lookup_by key k (update_where (\<lambda>r. key r = k) f xs) = map_option f (lookup_by key k xs)"
  using assms by (induction xs) auto

lemma lookup_by_update_other [simp]:
  assumes "\<And>r. key (f r) = key r" "j \<noteq> k"
  shows "lookup_by key j (update_where (\<lambda>r. key r = k) f xs) = lookup_by key j xs"
  using assms by (induction xs) auto

lemma has_key_update_where:
  "(\<And>r. key (f r) = key r) \<Longrightarrow> has_key key k (update_where P f xs) = has_key key k xs"
  by (induction xs) auto

lemma update_where_none: "(\<forall>r \<in> set xs. \<not> P r) \<Longrightarrow> update_where P f xs = xs"
  by (induction xs) auto

lemma distinct_lookup_by:
  "distinct (map key xs) \<Longrightarrow> r \<in> set xs \<Longrightarrow> lookup_by key (key r) xs = Some r"
  by (induction xs) (auto simp: image_iff)

end
