(* ===== verification/Code_Points.thy ===== *)
theory Code_Points
  imports Prelude
begin

text \<open>
  Text as the list of its code points, for the components that read texts of users: white space, trimming,
  and the numbers of the standard library.
\<close>

type_synonym utext = "nat list"

abbreviation lit :: "string \<Rightarrow> utext" where
  "lit s \<equiv> map of_char s"

text \<open>\<open>char::is_whitespace\<close>: the code points with the property White_Space.\<close>

definition is_whitespace :: "nat \<Rightarrow> bool" where
  "is_whitespace c =
     (9 \<le> c \<and> c \<le> 13 \<or> c = 32 \<or> c = 133 \<or> c = 160 \<or> c = 5760 \<or> 8192 \<le> c \<and> c \<le> 8202 \<or>
      c = 8232 \<or> c = 8233 \<or> c = 8239 \<or> c = 8287 \<or> c = 12288)"

definition is_digit :: "nat \<Rightarrow> bool" where
  "is_digit c = (48 \<le> c \<and> c \<le> 57)"

text \<open>\<open>str::trim\<close>.\<close>

definition trim :: "utext \<Rightarrow> utext" where
  "trim xs = rev (dropWhile is_whitespace (rev (dropWhile is_whitespace xs)))"

definition trim_string :: "string \<Rightarrow> string" where
  "trim_string s = rev (dropWhile (\<lambda>c. is_whitespace (of_char c)) (rev (dropWhile (\<lambda>c. is_whitespace (of_char c)) s)))"

text \<open>\<open>str::len\<close> counts the bytes of the UTF-8 encoding.\<close>

definition utf8_len :: "string \<Rightarrow> nat" where
  "utf8_len s = sum_list (map (\<lambda>c. if (of_char c :: nat) < 128 then 1 else 2) s)"

text \<open>\<open>str::parse::<i64>\<close>: an optional sign, at least one digit, and a value in range.\<close>

definition digits_value :: "utext \<Rightarrow> int" where
  "digits_value ds = foldl (\<lambda>v c. 10 * v + int (c - 48)) 0 ds"

definition parse_i64 :: "utext \<Rightarrow> int option" where
  "parse_i64 xs =
     (let neg = (xs \<noteq> [] \<and> hd xs = 45); ds = (if xs \<noteq> [] \<and> (hd xs = 43 \<or> hd xs = 45) then tl xs else xs);
          v = (if neg then - digits_value ds else digits_value ds) in
      if ds \<noteq> [] \<and> list_all is_digit ds \<and> - (2 ^ 63) \<le> v \<and> v < 2 ^ 63 then Some v else None)"

text \<open>\<open>i64::to_string\<close>.\<close>

definition int_string :: "int \<Rightarrow> string" where
  "int_string k = (if k < 0 then ''-'' else []) @ dec_string (nat \<bar>k\<bar>)"

lemma of_digit_char: "d < 10 \<Longrightarrow> of_char (digit_char d) = 48 + d"
  by (simp add: digit_char_def of_char_of)

lemma dec_string_digits: "list_all is_digit (lit (dec_string n))"
proof (induction n rule: dec_string.induct)
  case (1 n)
  then show ?case by (cases "n < 10") (simp_all add: dec_string.simps [of n] of_digit_char is_digit_def)
qed

lemma dec_string_nonempty [simp]: "dec_string n \<noteq> []"
  by (simp add: dec_string.simps [of n])

lemma digits_value_snoc [simp]: "digits_value (xs @ [c]) = 10 * digits_value xs + int (c - 48)"
  by (simp add: digits_value_def)

lemma digits_value_dec_string: "digits_value (lit (dec_string n)) = int n"
proof (induction n rule: dec_string.induct)
  case (1 n)
  show ?case
  proof (cases "n < 10")
    case True
    then show ?thesis by (simp add: dec_string.simps [of n] of_digit_char digits_value_def)
  next
    case False
    then have "digits_value (lit (dec_string n)) = 10 * int (n div 10) + int (n mod 10)"
      using 1 by (simp add: dec_string.simps [of n] of_digit_char)
    also have "\<dots> = int (10 * (n div 10) + n mod 10)" by (simp only: of_nat_add of_nat_mult of_nat_numeral)
    also have "\<dots> = int n" by (simp only: mult_div_mod_eq)
    finally show ?thesis .
  qed
qed

lemma parse_digits:
  assumes "ds \<noteq> []" "list_all is_digit ds" "digits_value ds = v"
  shows "parse_i64 ds = (if v < 2 ^ 63 then Some v else None)"
    and "parse_i64 (45 # ds) = (if v \<le> 2 ^ 63 then Some (- v) else None)"
proof -
  have v: "0 \<le> v" unfolding assms(3) [symmetric] by (induction ds rule: rev_induct) (simp_all add: digits_value_def)
  obtain d rest where "ds = d # rest" "is_digit d" using assms(1,2) by (cases ds) auto
  then have hd: "hd ds \<noteq> 43" "hd ds \<noteq> 45" by (auto simp: is_digit_def)
  show "parse_i64 ds = (if v < 2 ^ 63 then Some v else None)"
    using assms v hd by (simp add: parse_i64_def)
  show "parse_i64 (45 # ds) = (if v \<le> 2 ^ 63 then Some (- v) else None)"
    using assms v by (auto simp add: parse_i64_def Let_def)
qed

text \<open>A number is read back as it was written, when it is in range.\<close>

lemma parse_int_string: "parse_i64 (lit (int_string k)) = (if in_i64 k then Some k else None)"
proof -
  have "lit (dec_string (nat \<bar>k\<bar>)) \<noteq> []" by simp
  note parse = parse_digits [OF this dec_string_digits digits_value_dec_string]
  show ?thesis
  proof (cases "k < 0")
    case True
    then have "lit (int_string k) = 45 # lit (dec_string (nat \<bar>k\<bar>))" by (simp add: int_string_def)
    then show ?thesis using True unfolding i64_range_defs by (simp only: parse(2)) simp
  next
    case False
    then have "lit (int_string k) = lit (dec_string (nat \<bar>k\<bar>))" by (simp add: int_string_def)
    then show ?thesis using False unfolding i64_range_defs by (simp only: parse(1)) simp
  qed
qed

lemma hd_dec_string: "is_digit (of_char (hd (dec_string n)))"
proof (cases "dec_string n")
  case (Cons c cs)
  then show ?thesis using dec_string_digits [of n] by simp
qed simp

lemma int_string_inj: "int_string j = int_string k \<Longrightarrow> j = k"
proof -
  assume eq: "int_string j = int_string k"
  have sign: "hd (int_string i) = CHR ''-'' \<longleftrightarrow> i < 0" for i
    using hd_dec_string [of "nat \<bar>i\<bar>"] by (auto simp: int_string_def is_digit_def)
  then have neg: "j < 0 \<longleftrightarrow> k < 0" using eq by metis
  then have "dec_string (nat \<bar>j\<bar>) = dec_string (nat \<bar>k\<bar>)" using eq by (auto simp: int_string_def split: if_splits)
  then have "nat \<bar>j\<bar> = nat \<bar>k\<bar>" by (metis dec_value_dec_string)
  then show "j = k" using neg by auto
qed

end
