(* ===== verification/Filter_Kit.thy ===== *)
theory Filter_Kit
  imports Code_Points
begin

text \<open>
  The filter language of the searches, \<open>libs/filter_kit/lib.rs\<close>: a recursive descent parser for a subset
  of RSQL, the check of every comparison against the schema, and the translation to SQL expressions.

  A Rust \<open>&str\<close> is the list of its code points; the parser's position is the rest of the input.
  The SQL expressions of the query builder are trees of the operators the code applies.
\<close>

section \<open>Characters\<close>

text \<open>\<open>is_ident_char\<close>: ASCII letters, digits and the underscore.\<close>

definition is_ident_char :: "nat \<Rightarrow> bool" where
  "is_ident_char c = (is_digit c \<or> 65 \<le> c \<and> c \<le> 90 \<or> 97 \<le> c \<and> c \<le> 122 \<or> c = 95)"

definition to_lower :: "nat \<Rightarrow> nat" where
  "to_lower c = (if 65 \<le> c \<and> c \<le> 90 then c + 32 else c)"

section \<open>Data\<close>

datatype op = OpEq | OpNeq | OpGt | OpGte | OpLt | OpLte | OpIlike

fun op_as_str :: "op \<Rightarrow> string" where
  "op_as_str OpEq = ''eq''" | "op_as_str OpNeq = ''neq''" | "op_as_str OpGt = ''gt''"
| "op_as_str OpGte = ''gte''" | "op_as_str OpLt = ''lt''" | "op_as_str OpLte = ''lte''"
| "op_as_str OpIlike = ''ilike''"

fun rsql_str :: "op \<Rightarrow> string" where
  "rsql_str OpEq = ''==''" | "rsql_str OpNeq = ''!=''" | "rsql_str OpGt = ''=gt=''"
| "rsql_str OpGte = ''=ge=''" | "rsql_str OpLt = ''=lt=''" | "rsql_str OpLte = ''=le=''"
| "rsql_str OpIlike = ''=ilike=''"

record condition =
  cd_field :: utext
  cd_op :: op
  cd_value :: utext

datatype node = Cmp condition | And node node | Or node node

datatype filter_error = Syntax | FieldNotAllowed

record filter_schema =
  text_fields :: "utext list"
  date_fields :: "utext list"
  int_fields :: "utext list"

datatype col_kind = KText | KDate | KInt

definition allowed_fields :: "filter_schema \<Rightarrow> utext list" where
  "allowed_fields S = text_fields S @ date_fields S @ int_fields S"

definition col_kind_of :: "filter_schema \<Rightarrow> utext \<Rightarrow> col_kind option" where
  "col_kind_of S field =
     (if field \<in> set (text_fields S) then Some KText
      else if field \<in> set (date_fields S) then Some KDate
      else if field \<in> set (int_fields S) then Some KInt else None)"

definition OPERATOR_MATRIX :: "(string \<times> op list) list" where
  "OPERATOR_MATRIX =
     [(''text'', [OpEq, OpNeq, OpIlike]),
      (''date'', [OpEq, OpNeq, OpGt, OpGte, OpLt, OpLte]),
      (''int'', [OpEq, OpNeq, OpGt, OpGte, OpLt, OpLte])]"

definition RSQL_OPERATORS :: "(string \<times> op) list" where
  "RSQL_OPERATORS =
     [(''=ilike='', OpIlike), (''=ge='', OpGte), (''=le='', OpLte), (''=gt='', OpGt), (''=lt='', OpLt),
      (''!='', OpNeq), (''=='', OpEq)]"

fun kind_name :: "col_kind \<Rightarrow> string" where
  "kind_name KText = ''text''" | "kind_name KDate = ''date''" | "kind_name KInt = ''int''"

definition kind_ops :: "col_kind \<Rightarrow> op list" where
  "kind_ops k = (case find (\<lambda>(n, _). n = kind_name k) OPERATOR_MATRIX of None \<Rightarrow> [] | Some (_, ops) \<Rightarrow> ops)"

section \<open>The parser\<close>

definition eat :: "string \<Rightarrow> utext \<Rightarrow> utext option" where
  "eat s xs = (if take (length s) xs = lit s then Some (drop (length s) xs) else None)"

definition skip_ws :: "utext \<Rightarrow> utext" where
  "skip_ws xs = dropWhile is_whitespace xs"

definition eat_keyword :: "string \<Rightarrow> utext \<Rightarrow> utext option" where
  "eat_keyword kw xs =
     (if map to_lower (take (length kw) xs) = lit kw \<and>
         (case drop (length kw) xs of [] \<Rightarrow> True | c # _ \<Rightarrow> \<not> is_ident_char c)
      then Some (drop (length kw) xs) else None)"

text \<open>The first operator of the table that the input starts with.\<close>

fun eat_op :: "(string \<times> op) list \<Rightarrow> utext \<Rightarrow> (op \<times> utext) option" where
  "eat_op [] xs = None"
| "eat_op ((s, o') # rest) xs = (case eat s xs of Some ys \<Rightarrow> Some (o', ys) | None \<Rightarrow> eat_op rest xs)"

text \<open>The quoted branch of \<open>parse_value\<close>, after the opening quote.\<close>

fun parse_quoted :: "utext \<Rightarrow> filter_error + utext \<times> utext" where
  "parse_quoted [] = Inl Syntax"
| "parse_quoted (c # xs) =
     (if c = 39
      then (if xs \<noteq> [] \<and> hd xs = 39
            then (case parse_quoted (tl xs) of Inl e \<Rightarrow> Inl e | Inr (out, rest) \<Rightarrow> Inr (39 # out, rest))
            else Inr ([], xs))
      else (case parse_quoted xs of Inl e \<Rightarrow> Inl e | Inr (out, rest) \<Rightarrow> Inr (c # out, rest)))"

definition ends_value :: "nat \<Rightarrow> bool" where
  "ends_value c = (c \<in> set (lit '',;()'') \<or> is_whitespace c)"

definition parse_value :: "utext \<Rightarrow> filter_error + utext \<times> utext" where
  "parse_value xs =
     (if xs \<noteq> [] \<and> hd xs = 39 then parse_quoted (tl xs)
      else let v = takeWhile (\<lambda>c. \<not> ends_value c) xs in
           if v = [] then Inl Syntax else Inr (v, dropWhile (\<lambda>c. \<not> ends_value c) xs))"

definition validate :: "filter_schema \<Rightarrow> utext \<Rightarrow> op \<Rightarrow> utext \<Rightarrow> filter_error + unit" where
  "validate S field o' value =
     (case col_kind_of S field of
        None \<Rightarrow> Inl FieldNotAllowed
      | Some k \<Rightarrow>
          if o' \<notin> set (kind_ops k) then Inl Syntax
          else if k = KInt \<and> parse_i64 value = None then Inl Syntax
          else Inr ())"

definition parse_comparison :: "filter_schema \<Rightarrow> utext \<Rightarrow> filter_error + node \<times> utext" where
  "parse_comparison S xs0 =
     (let xs = skip_ws xs0; field = takeWhile is_ident_char xs; ys = skip_ws (dropWhile is_ident_char xs) in
      if field = [] then Inl Syntax
      else case eat_op RSQL_OPERATORS ys of
        None \<Rightarrow> Inl Syntax
      | Some (o', zs) \<Rightarrow>
          (case parse_value (skip_ws zs) of
             Inl e \<Rightarrow> Inl e
           | Inr (value, rest) \<Rightarrow>
               (case validate S field o' value of
                  Inl e \<Rightarrow> Inl e
                | Inr _ \<Rightarrow> Inr (Cmp \<lparr>cd_field = field, cd_op = o', cd_value = value\<rparr>, rest))))"

text \<open>\<open>self.eat(s) || self.eat_keyword(kw)\<close>.\<close>

definition eat_either :: "string \<Rightarrow> string \<Rightarrow> utext \<Rightarrow> utext option" where
  "eat_either s kw xs = (case eat s xs of Some ys \<Rightarrow> Some ys | None \<Rightarrow> eat_keyword kw xs)"

text \<open>Results of the recursive methods, and \<open>?\<close> on them; \<open>None\<close> is a run that has not returned.\<close>

type_synonym parsed = "(filter_error + node \<times> utext) option"

definition bindP :: "parsed \<Rightarrow> (node \<Rightarrow> utext \<Rightarrow> parsed) \<Rightarrow> parsed" where
  "bindP m f = (case m of None \<Rightarrow> None | Some (Inl e) \<Rightarrow> Some (Inl e) | Some (Inr (node, xs)) \<Rightarrow> f node xs)"

text \<open>
  The three levels of the grammar and the loops of the upper two: the methods call each other, so they
  are one recursion over the depth of the calls, with the method as an argument.
\<close>

datatype level = OrLevel | OrLoop node | AndLevel | AndLoop node | Primary

primrec descend :: "nat \<Rightarrow> filter_schema \<Rightarrow> level \<Rightarrow> utext \<Rightarrow> parsed" where
  "descend 0 S l xs = None"
| "descend (Suc n) S l xs =
     (case l of
        OrLevel \<Rightarrow> bindP (descend n S AndLevel xs) (\<lambda>left ys. descend n S (OrLoop left) ys)
      | OrLoop left \<Rightarrow>
          (case eat_either '','' ''or'' (skip_ws xs) of
             None \<Rightarrow> Some (Inr (left, skip_ws xs))
           | Some ys \<Rightarrow> bindP (descend n S AndLevel ys) (\<lambda>right zs. descend n S (OrLoop (Or left right)) zs))
      | AndLevel \<Rightarrow> bindP (descend n S Primary xs) (\<lambda>left ys. descend n S (AndLoop left) ys)
      | AndLoop left \<Rightarrow>
          (case eat_either '';'' ''and'' (skip_ws xs) of
             None \<Rightarrow> Some (Inr (left, skip_ws xs))
           | Some ys \<Rightarrow> bindP (descend n S Primary ys) (\<lambda>right zs. descend n S (AndLoop (And left right)) zs))
      | Primary \<Rightarrow>
          (case eat ''('' (skip_ws xs) of
             None \<Rightarrow> Some (parse_comparison S (skip_ws xs))
           | Some ys \<Rightarrow> bindP (descend n S OrLevel ys) (\<lambda>inner zs.
               case eat '')'' (skip_ws zs) of None \<Rightarrow> Some (Inl Syntax) | Some ws \<Rightarrow> Some (Inr (inner, ws)))))"

definition parse_or :: "nat \<Rightarrow> filter_schema \<Rightarrow> utext \<Rightarrow> parsed" where
  "parse_or n S xs = descend n S OrLevel xs"

definition parse_and :: "nat \<Rightarrow> filter_schema \<Rightarrow> utext \<Rightarrow> parsed" where
  "parse_and n S xs = descend n S AndLevel xs"

definition parse_primary :: "nat \<Rightarrow> filter_schema \<Rightarrow> utext \<Rightarrow> parsed" where
  "parse_primary n S xs = descend n S Primary xs"

text \<open>The entry point; \<open>parse_bound\<close> is the depth the termination theorem justifies.\<close>

definition parse_bound :: "utext \<Rightarrow> nat" where
  "parse_bound xs = 3 * length xs + 3"

definition parse :: "utext \<Rightarrow> filter_schema \<Rightarrow> (filter_error + node) option" where
  "parse input S =
     (case parse_or (parse_bound input) S input of
        None \<Rightarrow> None | Some (Inl e) \<Rightarrow> Some (Inl e)
      | Some (Inr (node, rest)) \<Rightarrow> Some (if list_all is_whitespace rest then Inr node else Inl Syntax))"

section \<open>Translation\<close>

datatype sql_value = VText utext | VDate utext | VInt int

datatype sql_expr = SqlCmp utext op sql_value | SqlAnd sql_expr sql_expr | SqlOr sql_expr sql_expr

definition comparison_expr :: "filter_schema \<Rightarrow> condition \<Rightarrow> sql_expr" where
  "comparison_expr S c =
     (let col = cd_field c in
      case col_kind_of S (cd_field c) of
        Some KText \<Rightarrow>
          (case cd_op c of
             OpEq \<Rightarrow> SqlCmp col OpEq (VText (cd_value c))
           | OpNeq \<Rightarrow> SqlCmp col OpNeq (VText (cd_value c))
           | OpIlike \<Rightarrow> SqlCmp col OpIlike (VText (map (\<lambda>ch. if ch = of_char CHR ''*'' then of_char CHR ''%'' else ch) (cd_value c)))
           | _ \<Rightarrow> SqlCmp col OpEq (VText (cd_value c)))
      | Some KDate \<Rightarrow>
          (if cd_op c = OpIlike then SqlCmp col OpEq (VDate (cd_value c)) else SqlCmp col (cd_op c) (VDate (cd_value c)))
      | Some KInt \<Rightarrow>
          (let v = (case parse_i64 (cd_value c) of None \<Rightarrow> 0 | Some v \<Rightarrow> v) in
           if cd_op c = OpIlike then SqlCmp col OpEq (VInt v) else SqlCmp col (cd_op c) (VInt v))
      | None \<Rightarrow> SqlCmp col OpEq (VText (cd_value c)))"

fun to_sql :: "filter_schema \<Rightarrow> node \<Rightarrow> sql_expr" where
  "to_sql S (Cmp c) = comparison_expr S c"
| "to_sql S (And l r) = SqlAnd (to_sql S l) (to_sql S r)"
| "to_sql S (Or l r) = SqlOr (to_sql S l) (to_sql S r)"

definition filter_where :: "utext option \<Rightarrow> filter_schema \<Rightarrow> (filter_error + sql_expr option) option" where
  "filter_where param S =
     (case map_option trim param of
        None \<Rightarrow> Some (Inr None)
      | Some xs \<Rightarrow>
          if xs = [] then Some (Inr None)
          else (case parse xs S of
                  None \<Rightarrow> None | Some (Inl e) \<Rightarrow> Some (Inl e)
                | Some (Inr node) \<Rightarrow> Some (Inr (Some (to_sql S node)))))"

section \<open>The parser returns\<close>

lemma eat_length: "eat s xs = Some ys \<Longrightarrow> s \<noteq> [] \<Longrightarrow> length ys < length xs"
  by (auto simp: eat_def split: if_splits) (metis diff_less length_greater_0_conv length_map take_Nil)

lemma eat_keyword_length: "eat_keyword s xs = Some ys \<Longrightarrow> s \<noteq> [] \<Longrightarrow> length ys < length xs"
  by (auto simp: eat_keyword_def split: if_splits) (metis diff_less length_greater_0_conv list.map_disc_iff take_Nil)

lemma eat_either_length: "eat_either s kw xs = Some ys \<Longrightarrow> s \<noteq> [] \<Longrightarrow> kw \<noteq> [] \<Longrightarrow> length ys < length xs"
  by (auto simp: eat_either_def split: option.splits dest: eat_length eat_keyword_length)

lemma skip_ws_length: "length (skip_ws xs) \<le> length xs"
  by (simp add: skip_ws_def length_dropWhile_le)

lemma parse_quoted_length: "parse_quoted xs = Inr (v, ys) \<Longrightarrow> length ys \<le> length xs"
proof (induction xs arbitrary: v ys rule: parse_quoted.induct)
  case (2 c xs)
  then show ?case by (fastforce split: if_splits sum.splits prod.splits)
qed simp

lemma parse_value_length: "parse_value xs = Inr (v, ys) \<Longrightarrow> length ys \<le> length xs"
  by (cases xs) (auto simp: parse_value_def Let_def length_dropWhile_le le_SucI split: if_splits dest!: parse_quoted_length)

lemma eat_op_length: "eat_op ops xs = Some (o', ys) \<Longrightarrow> length ys \<le> length xs"
proof (induction ops)
  case (Cons p ops)
  then show ?case by (cases p) (auto split: option.splits simp: eat_def split: if_splits)
qed simp

lemma parse_comparison_length: "parse_comparison S xs = Inr (c, ys) \<Longrightarrow> length ys \<le> length xs"
proof -
  assume a: "parse_comparison S xs = Inr (c, ys)"
  let ?f = "skip_ws (dropWhile is_ident_char (skip_ws xs))"
  obtain o' zs v where e: "eat_op RSQL_OPERATORS ?f = Some (o', zs)" and v: "parse_value (skip_ws zs) = Inr (v, ys)"
    using a by (auto simp: parse_comparison_def Let_def split: if_splits option.splits sum.splits prod.splits)
  have "length ys \<le> length zs" using parse_value_length [OF v] skip_ws_length le_trans by blast
  also have "\<dots> \<le> length ?f" using e by (rule eat_op_length)
  also have "\<dots> \<le> length (dropWhile is_ident_char (skip_ws xs))" by (rule skip_ws_length)
  also have "\<dots> \<le> length (skip_ws xs)" by (rule length_dropWhile_le)
  also have "\<dots> \<le> length xs" by (rule skip_ws_length)
  finally show ?thesis .
qed

lemma bindP_Inr: "bindP m f = Some (Inr r) \<longleftrightarrow> (\<exists>c ys. m = Some (Inr (c, ys)) \<and> f c ys = Some (Inr r))"
  by (auto simp: bindP_def split: option.splits sum.splits prod.splits)

lemma bindP_returns:
  "m \<noteq> None \<Longrightarrow> (\<And>c ys. m = Some (Inr (c, ys)) \<Longrightarrow> f c ys \<noteq> None) \<Longrightarrow> bindP m f \<noteq> None"
  by (auto simp: bindP_def split: option.splits sum.splits prod.splits)

lemma descend_length: "descend n S l xs = Some (Inr (c, ys)) \<Longrightarrow> length ys \<le> length xs"
proof (induction n arbitrary: l xs c ys)
  case (Suc n)
  note ws = skip_ws_length [of xs]
  show ?case
  proof (cases l)
    case OrLevel
    then show ?thesis using Suc.prems by (auto simp: bindP_Inr dest!: Suc.IH)
  next
    case (OrLoop x)
    then show ?thesis using Suc.prems ws
      by (auto simp: bindP_Inr split: option.splits dest!: Suc.IH eat_either_length)
  next
    case AndLevel
    then show ?thesis using Suc.prems by (auto simp: bindP_Inr dest!: Suc.IH)
  next
    case (AndLoop x)
    then show ?thesis using Suc.prems ws
      by (auto simp: bindP_Inr split: option.splits dest!: Suc.IH eat_either_length)
  next
    case Primary
    have p: "length ys \<le> length xs" if "eat '')'' (skip_ws zs) = Some ys" "length zs \<le> length us" "length us < length (skip_ws xs)" for zs us
      using eat_length [OF that(1)] that skip_ws_length [of zs] ws by simp
    show ?thesis using Suc.prems ws Primary
      by (auto simp: bindP_Inr split: option.splits dest!: Suc.IH eat_length [of "''(''"] parse_comparison_length intro: p)
  qed
qed simp

fun depth_needed :: "level \<Rightarrow> nat \<Rightarrow> nat" where
  "depth_needed OrLevel k = 3 * k + 3"
| "depth_needed (OrLoop _) k = 3 * k + 1"
| "depth_needed AndLevel k = 3 * k + 2"
| "depth_needed (AndLoop _) k = 3 * k + 1"
| "depth_needed Primary k = 3 * k + 1"

lemma descend_returns: "depth_needed l (length xs) \<le> n \<Longrightarrow> descend n S l xs \<noteq> None"
proof (induction n arbitrary: l xs)
  case 0
  then show ?case by (cases l) auto
next
  case (Suc n)
  note ws = skip_ws_length [of xs]
  show ?case
  proof (cases l)
    case OrLevel
    have "descend n S AndLevel xs \<noteq> None" using Suc.prems OrLevel by (intro Suc.IH) simp
    moreover have "descend n S (OrLoop c) ys \<noteq> None" if "descend n S AndLevel xs = Some (Inr (c, ys))" for c ys
      using descend_length [OF that] Suc.prems OrLevel by (intro Suc.IH) simp
    ultimately show ?thesis using OrLevel bindP_returns by simp
  next
    case (OrLoop x)
    show ?thesis
    proof (cases "eat_either '','' ''or'' (skip_ws xs)")
      case None
      then show ?thesis using OrLoop by simp
    next
      case (Some ys)
      then have l: "length ys < length xs" using eat_either_length [OF Some] ws by simp
      have "descend n S AndLevel ys \<noteq> None" using Suc.prems OrLoop l by (intro Suc.IH) simp
      moreover have "descend n S (OrLoop (Or x c)) zs \<noteq> None" if "descend n S AndLevel ys = Some (Inr (c, zs))" for c zs
        using descend_length [OF that] Suc.prems OrLoop l by (intro Suc.IH) simp
      ultimately show ?thesis using OrLoop Some bindP_returns by simp
    qed
  next
    case AndLevel
    have "descend n S Primary xs \<noteq> None" using Suc.prems AndLevel by (intro Suc.IH) simp
    moreover have "descend n S (AndLoop c) ys \<noteq> None" if "descend n S Primary xs = Some (Inr (c, ys))" for c ys
      using descend_length [OF that] Suc.prems AndLevel by (intro Suc.IH) simp
    ultimately show ?thesis using AndLevel bindP_returns by simp
  next
    case (AndLoop x)
    show ?thesis
    proof (cases "eat_either '';'' ''and'' (skip_ws xs)")
      case None
      then show ?thesis using AndLoop by simp
    next
      case (Some ys)
      then have l: "length ys < length xs" using eat_either_length [OF Some] ws by simp
      have "descend n S Primary ys \<noteq> None" using Suc.prems AndLoop l by (intro Suc.IH) simp
      moreover have "descend n S (AndLoop (And x c)) zs \<noteq> None" if "descend n S Primary ys = Some (Inr (c, zs))" for c zs
        using descend_length [OF that] Suc.prems AndLoop l by (intro Suc.IH) simp
      ultimately show ?thesis using AndLoop Some bindP_returns by simp
    qed
  next
    case Primary
    show ?thesis
    proof (cases "eat ''('' (skip_ws xs)")
      case None
      then show ?thesis using Primary by simp
    next
      case (Some ys)
      then have "length ys < length xs" using eat_length [OF Some] ws by simp
      then have "descend n S OrLevel ys \<noteq> None" using Suc.prems Primary by (intro Suc.IH) simp
      then show ?thesis using Primary Some
        by (auto simp: bindP_def split: option.splits sum.splits prod.splits)
    qed
  qed
qed

section \<open>Only what the schema allows\<close>

fun conditions :: "node \<Rightarrow> condition list" where
  "conditions (Cmp c) = [c]"
| "conditions (And l r) = conditions l @ conditions r"
| "conditions (Or l r) = conditions l @ conditions r"

definition valid :: "filter_schema \<Rightarrow> condition \<Rightarrow> bool" where
  "valid S c = (validate S (cd_field c) (cd_op c) (cd_value c) = Inr ())"

definition all_valid :: "filter_schema \<Rightarrow> node \<Rightarrow> bool" where
  "all_valid S t = (\<forall>c \<in> set (conditions t). valid S c)"

lemma all_valid_simps [simp]:
  "all_valid S (Cmp c) = valid S c"
  "all_valid S (And l r) = (all_valid S l \<and> all_valid S r)"
  "all_valid S (Or l r) = (all_valid S l \<and> all_valid S r)"
  by (auto simp: all_valid_def)

fun level_valid :: "filter_schema \<Rightarrow> level \<Rightarrow> bool" where
  "level_valid S (OrLoop t) = all_valid S t"
| "level_valid S (AndLoop t) = all_valid S t"
| "level_valid S _ = True"

lemma parse_comparison_valid: "parse_comparison S xs = Inr (t, ys) \<Longrightarrow> all_valid S t"
  by (auto simp: parse_comparison_def Let_def valid_def split: if_splits option.splits sum.splits prod.splits)

lemma descend_valid:
  "descend n S l xs = Some (Inr (t, ys)) \<Longrightarrow> level_valid S l \<Longrightarrow> all_valid S t"
proof (induction n arbitrary: l xs t ys)
  case (Suc n)
  show ?case
  proof (cases l)
    case Primary
    then show ?thesis using Suc.prems
      by (auto simp: bindP_Inr split: option.splits dest!: Suc.IH parse_comparison_valid)
  qed (use Suc.prems in \<open>auto simp: bindP_Inr split: option.splits dest!: Suc.IH\<close>)
qed simp

text \<open>The comparisons of an SQL expression.\<close>

fun atoms :: "sql_expr \<Rightarrow> (utext \<times> op \<times> sql_value) list" where
  "atoms (SqlCmp f p v) = [(f, p, v)]"
| "atoms (SqlAnd l r) = atoms l @ atoms r"
| "atoms (SqlOr l r) = atoms l @ atoms r"

text \<open>What a comparison means, without the fallbacks of the code.\<close>

definition meaning :: "filter_schema \<Rightarrow> condition \<Rightarrow> utext \<times> op \<times> sql_value" where
  "meaning S c = (cd_field c, cd_op c,
     case the (col_kind_of S (cd_field c)) of
       KText \<Rightarrow> VText (if cd_op c = OpIlike then map (\<lambda>ch. if ch = of_char CHR ''*'' then of_char CHR ''%'' else ch) (cd_value c)
                       else cd_value c)
     | KDate \<Rightarrow> VDate (cd_value c)
     | KInt \<Rightarrow> VInt (the (parse_i64 (cd_value c))))"

lemma kind_ops_simps [simp]:
  "kind_ops KText = [OpEq, OpNeq, OpIlike]" "kind_ops KDate = [OpEq, OpNeq, OpGt, OpGte, OpLt, OpLte]"
  "kind_ops KInt = [OpEq, OpNeq, OpGt, OpGte, OpLt, OpLte]"
  by (simp_all add: kind_ops_def OPERATOR_MATRIX_def)

lemma comparison_expr_valid:
  assumes "valid S c"
  shows "atoms (comparison_expr S c) = [meaning S c]"
proof -
  obtain k where k: "col_kind_of S (cd_field c) = Some k" "cd_op c \<in> set (kind_ops k)"
    "k = KInt \<longrightarrow> parse_i64 (cd_value c) \<noteq> None"
    using assms by (auto simp: valid_def validate_def split: option.splits if_splits)
  then show ?thesis by (cases k) (auto simp: comparison_expr_def meaning_def Let_def)
qed

lemma to_sql_atoms: "all_valid S t \<Longrightarrow> atoms (to_sql S t) = map (meaning S) (conditions t)"
  by (induction t) (simp_all add: comparison_expr_valid)

section \<open>Printing and parsing\<close>

text \<open>A printer, the specification of the language: quoted values and a bracket around every node.\<close>

definition escape :: "utext \<Rightarrow> utext" where
  "escape v = concat (map (\<lambda>c. if c = 39 then [39, 39] else [c]) v)"

fun print_node :: "node \<Rightarrow> utext" where
  "print_node (Cmp c) = cd_field c @ lit (rsql_str (cd_op c)) @ 39 # escape (cd_value c) @ [39]"
| "print_node (And l r) = 40 # print_node l @ 59 # print_node r @ [41]"
| "print_node (Or l r) = 40 # print_node l @ 44 # print_node r @ [41]"

definition printable :: "filter_schema \<Rightarrow> node \<Rightarrow> bool" where
  "printable S t = (\<forall>c \<in> set (conditions t). cd_field c \<noteq> [] \<and> list_all is_ident_char (cd_field c) \<and> valid S c)"

lemma printable_simps [simp]:
  "printable S (Cmp c) = (cd_field c \<noteq> [] \<and> list_all is_ident_char (cd_field c) \<and> valid S c)"
  "printable S (And l r) = (printable S l \<and> printable S r)"
  "printable S (Or l r) = (printable S l \<and> printable S r)"
  by (auto simp: printable_def)

definition no_quote :: "utext \<Rightarrow> bool" where
  "no_quote rest = (rest = [] \<or> hd rest \<noteq> 39)"

lemma no_quote_simps [simp]: "no_quote []" "no_quote (c # xs) = (c \<noteq> 39)"
  by (simp_all add: no_quote_def)

lemma parse_quoted_escape: "no_quote rest \<Longrightarrow> parse_quoted (escape v @ 39 # rest) = Inr (v, rest)"
  by (induction v) (auto simp: escape_def no_quote_def)

lemma ident_not_space: "is_ident_char c \<Longrightarrow> \<not> is_whitespace c \<and> c \<noteq> 40"
  by (auto simp: is_ident_char_def is_whitespace_def is_digit_def)

lemma skip_ws_ident: "is_ident_char c \<Longrightarrow> skip_ws (c # xs) = c # xs"
  by (simp add: skip_ws_def ident_not_space)

lemma skip_ws_marks [simp]:
  "skip_ws [] = []" "skip_ws (39 # xs) = 39 # xs" "skip_ws (40 # xs) = 40 # xs" "skip_ws (41 # xs) = 41 # xs"
  "skip_ws (44 # xs) = 44 # xs" "skip_ws (59 # xs) = 59 # xs"
  by (simp_all add: skip_ws_def is_whitespace_def)

lemma eat_marks [simp]:
  "eat ''('' (40 # xs) = Some xs" "eat '')'' (41 # xs) = Some xs"
  "eat_either '';'' ''and'' (59 # xs) = Some xs" "eat_either '','' ''or'' (44 # xs) = Some xs"
  "eat_either '';'' ''and'' (44 # xs) = None" "eat_either '';'' ''and'' (41 # xs) = None" "eat_either '';'' ''and'' [] = None"
  "eat_either '','' ''or'' (41 # xs) = None" "eat_either '','' ''or'' [] = None"
  by (simp_all add: eat_either_def eat_def eat_keyword_def to_lower_def numeral_eq_Suc of_char_def)

lemma rsql_starts: "\<exists>ys. lit (rsql_str p) @ xs = 61 # ys \<or> lit (rsql_str p) @ xs = 33 # ys"
  by (cases p) (simp_all add: of_char_def)

lemma eat_op_rsql: "eat_op RSQL_OPERATORS (lit (rsql_str p) @ 39 # xs) = Some (p, 39 # xs)"
  by (cases p) (simp_all add: RSQL_OPERATORS_def eat_def of_char_def numeral_eq_Suc)

lemma parse_comparison_print:
  assumes "printable S (Cmp c)" "no_quote rest"
  shows "parse_comparison S (print_node (Cmp c) @ rest) = Inr (Cmp c, rest)"
proof -
  let ?ops = "lit (rsql_str (cd_op c)) @ 39 # escape (cd_value c) @ 39 # rest"
  obtain y ys where y: "?ops = y # ys" "\<not> is_ident_char y" "\<not> is_whitespace y"
    using rsql_starts [of "cd_op c" "39 # escape (cd_value c) @ 39 # rest"]
    by (auto simp: is_ident_char_def is_digit_def is_whitespace_def)
  have id: "list_all is_ident_char (cd_field c)" "cd_field c \<noteq> []" using assms(1) by simp_all
  then have ws: "skip_ws (cd_field c @ ?ops) = cd_field c @ ?ops"
    by (cases "cd_field c") (simp_all add: skip_ws_ident)
  have tw: "takeWhile is_ident_char (cd_field c @ ?ops) = cd_field c"
    "dropWhile is_ident_char (cd_field c @ ?ops) = ?ops"
    using id(1) y by (simp_all add: list_all_iff takeWhile_append dropWhile_append3)
  have "skip_ws ?ops = ?ops" using y by (simp add: skip_ws_def)
  moreover have "parse_value (39 # escape (cd_value c) @ 39 # rest) = Inr (cd_value c, rest)"
    using parse_quoted_escape [OF assms(2)] by (simp add: parse_value_def)
  moreover have "validate S (cd_field c) (cd_op c) (cd_value c) = Inr ()" using assms(1) by (simp add: valid_def)
  ultimately show ?thesis using id(2)
    by (simp add: parse_comparison_def ws tw eat_op_rsql Let_def)
qed

fun need :: "node \<Rightarrow> nat" where
  "need (Cmp c) = 1"
| "need (And l r) = need l + need r + 5"
| "need (Or l r) = need l + need r + 5"

lemma need_pos: "1 \<le> need t"
  by (cases t) simp_all

lemma need_bound: "need t \<le> 3 * length (print_node t) + 1"
  by (induction t) simp_all

text \<open>The methods one by one; the unfolding of \<open>Primary\<close> waits for a bracket.\<close>

lemma descend_levels:
  "descend (Suc n) S OrLevel xs = bindP (descend n S AndLevel xs) (\<lambda>left ys. descend n S (OrLoop left) ys)"
  "descend (Suc n) S AndLevel xs = bindP (descend n S Primary xs) (\<lambda>left ys. descend n S (AndLoop left) ys)"
  "descend (Suc n) S (OrLoop left) [] = Some (Inr (left, []))"
  "descend (Suc n) S (OrLoop left) (41 # xs) = Some (Inr (left, 41 # xs))"
  "descend (Suc n) S (OrLoop left) (44 # xs) =
     bindP (descend n S AndLevel xs) (\<lambda>right zs. descend n S (OrLoop (Or left right)) zs)"
  "descend (Suc n) S (AndLoop left) [] = Some (Inr (left, []))"
  "descend (Suc n) S (AndLoop left) (41 # xs) = Some (Inr (left, 41 # xs))"
  "descend (Suc n) S (AndLoop left) (44 # xs) = Some (Inr (left, 44 # xs))"
  "descend (Suc n) S (AndLoop left) (59 # xs) =
     bindP (descend n S Primary xs) (\<lambda>right zs. descend n S (AndLoop (And left right)) zs)"
  "descend (Suc n) S Primary (40 # xs) = bindP (descend n S OrLevel xs) (\<lambda>inner zs.
     case eat '')'' (skip_ws zs) of None \<Rightarrow> Some (Inl Syntax) | Some ws \<Rightarrow> Some (Inr (inner, ws)))"
  by simp_all

lemma bindP_Some [simp]: "bindP (Some (Inr (t, xs))) f = f t xs"
  by (simp add: bindP_def)

lemma primary_print:
  "printable S t \<Longrightarrow> need t \<le> n \<Longrightarrow> no_quote rest \<Longrightarrow>
   descend n S Primary (print_node t @ rest) = Some (Inr (t, rest))"
proof (induction t arbitrary: n rest)
  case (Cmp c)
  obtain m where m: "n = Suc m" using Cmp.prems(2) by (cases n) auto
  obtain d ds where d: "cd_field c = d # ds" "is_ident_char d" using Cmp.prems(1) by (cases "cd_field c") auto
  then have "skip_ws (print_node (Cmp c) @ rest) = print_node (Cmp c) @ rest" by (simp add: skip_ws_ident)
  moreover have "eat ''('' (print_node (Cmp c) @ rest) = None"
    using d ident_not_space [OF d(2)] by (simp add: eat_def of_char_def)
  ultimately show ?case
    using m parse_comparison_print [OF Cmp.prems(1,3)] by (simp del: print_node.simps)
next
  case (And l r)
  define i where "i = n - 5"
  have n: "n = Suc (Suc (Suc (Suc (Suc i))))" and i: "need l \<le> i" "need r \<le> i"
    using And.prems(2) by (simp_all add: i_def)
  show ?case using And n i by (simp add: descend_levels del: descend.simps)
next
  case (Or l r)
  define i where "i = n - 5"
  have n: "n = Suc (Suc (Suc (Suc (Suc i))))" and i: "need l \<le> i" "need r \<le> i"
    using Or.prems(2) by (simp_all add: i_def)
  show ?case using Or n i by (simp add: descend_levels del: descend.simps)
qed

text \<open>An expression without outer brackets: comparisons and bracketed nodes joined by the two operators.\<close>

lemma level_print:
  assumes "printable S x" "printable S y" "printable S z" "need x + need y + need z \<le> n"
  shows "descend (Suc (Suc (Suc n))) S OrLevel (print_node x) = Some (Inr (x, []))"
    and "descend (Suc (Suc (Suc n))) S OrLevel (print_node x @ 59 # print_node y @ 44 # print_node z) = Some (Inr (Or (And x y) z, []))"
    and "descend (Suc (Suc (Suc n))) S OrLevel (print_node x @ 44 # print_node y @ 59 # print_node z) = Some (Inr (Or x (And y z), []))"
proof -
  have pos: "1 \<le> need x" "1 \<le> need y" "1 \<le> need z" by (rule need_pos)+
  define m where "m = n - 2"
  have m: "n = Suc (Suc m)" using assms(4) pos by (simp add: m_def)
  note p = primary_print [OF assms(1)] primary_print [OF assms(2)] primary_print [OF assms(3)]
  note e = p [where rest = "[]", simplified]
  show "descend (Suc (Suc (Suc n))) S OrLevel (print_node x) = Some (Inr (x, []))"
    using assms(4) pos m by (simp add: p e descend_levels del: descend.simps)
  show "descend (Suc (Suc (Suc n))) S OrLevel (print_node x @ 59 # print_node y @ 44 # print_node z) = Some (Inr (Or (And x y) z, []))"
    using assms(4) pos m by (simp add: p e descend_levels del: descend.simps)
  show "descend (Suc (Suc (Suc n))) S OrLevel (print_node x @ 44 # print_node y @ 59 # print_node z) = Some (Inr (Or x (And y z), []))"
    using assms(4) pos m by (simp add: p e descend_levels del: descend.simps)
qed

definition demo_schema :: filter_schema where
  "demo_schema = \<lparr>text_fields = [lit ''name''], date_fields = [lit ''created_at''], int_fields = [lit ''amount'']\<rparr>"

definition demo_node :: node where
  "demo_node = Or (And (Cmp \<lparr>cd_field = lit ''name'', cd_op = OpIlike, cd_value = lit ''a*''\<rparr>)
                       (Cmp \<lparr>cd_field = lit ''amount'', cd_op = OpGte, cd_value = lit ''-5''\<rparr>))
                  (Cmp \<lparr>cd_field = lit ''created_at'', cd_op = OpLt, cd_value = lit ''2024-03-15''\<rparr>)"

lemma demo_printable: "printable demo_schema demo_node"
  by code_simp

lemma parse_print:
  assumes "printable S t"
  shows "parse (print_node t) S = Some (Inr t)"
proof -
  define n where "n = 3 * length (print_node t)"
  have b: "parse_bound (print_node t) = Suc (Suc (Suc n))" by (simp add: parse_bound_def n_def)
  have l: "need t \<le> Suc n" using need_bound [of t] by (simp add: n_def)
  have "descend (Suc (Suc (Suc n))) S OrLevel (print_node t) = Some (Inr (t, []))"
    using primary_print [OF assms l, of "[]"] by (simp add: descend_levels del: descend.simps)
  then show ?thesis by (simp add: parse_def parse_or_def b del: descend.simps)
qed

lemma trim_bracket: "trim (40 # xs @ [41]) = 40 # xs @ [41]"
  by (simp add: trim_def is_whitespace_def)

lemma demo_filter: "filter_where (Some (print_node demo_node)) demo_schema = Some (Inr (Some (to_sql demo_schema demo_node)))"
proof -
  obtain xs where xs: "print_node demo_node = 40 # xs @ [41]" unfolding demo_node_def print_node.simps(3) by simp
  then have "trim (print_node demo_node) = print_node demo_node" by (simp only: trim_bracket)
  then show ?thesis using parse_print [OF demo_printable] xs by (simp add: filter_where_def)
qed

section \<open>Properties\<close>

text \<open>
  C19.  Reading a filter always ends, with an error or an expression, and an expression compares only
  columns of the schema, each with an operator of its kind and a value of its kind: the fallbacks of the
  translation are never taken.
\<close>

theorem filter_total_and_safe:
  "\<exists>r. filter_where param S = Some r \<and>
     (\<forall>e. r = Inr (Some e) \<longrightarrow> (\<exists>t. e = to_sql S t \<and> atoms e = map (meaning S) (conditions t) \<and>
        (\<forall>c \<in> set (conditions t). cd_field c \<in> set (allowed_fields S) \<and>
           cd_op c \<in> set (kind_ops (the (col_kind_of S (cd_field c)))))))"
proof -
  have v: "cd_field c \<in> set (allowed_fields S) \<and> cd_op c \<in> set (kind_ops (the (col_kind_of S (cd_field c))))"
    if "valid S c" for c
    using that by (auto simp: valid_def validate_def col_kind_of_def allowed_fields_def split: option.splits if_splits)
  have p: "\<exists>r. parse xs S = Some r \<and> (\<forall>t. r = Inr t \<longrightarrow> all_valid S t)" for xs
  proof -
    have "descend (parse_bound xs) S OrLevel xs \<noteq> None"
      by (rule descend_returns) (simp add: parse_bound_def)
    then show ?thesis
      using descend_valid [of "parse_bound xs" S OrLevel xs]
      by (auto simp: parse_def parse_or_def split: sum.splits prod.splits)
  qed
  show ?thesis
  proof (cases "map_option trim param")
    case None
    then show ?thesis by (simp add: filter_where_def)
  next
    case (Some xs)
    obtain r where r: "parse xs S = Some r" "\<And>t. r = Inr t \<Longrightarrow> all_valid S t" using p by blast
    show ?thesis
    proof (cases "xs = [] \<or> (\<exists>e. r = Inl e)")
      case True
      then show ?thesis using Some r(1) by (auto simp: filter_where_def)
    next
      case False
      then obtain t where t: "r = Inr t" by (cases r) auto
      then have "atoms (to_sql S t) = map (meaning S) (conditions t)" "\<forall>c \<in> set (conditions t). valid S c"
        using r(2) to_sql_atoms by (auto simp: all_valid_def)
      moreover have "filter_where param S = Some (Inr (Some (to_sql S t)))"
        using False Some r(1) t by (auto simp: filter_where_def)
      ultimately show ?thesis using v by (auto intro!: exI [of _ t])
    qed
  qed
qed

theorem filter_total_and_safe_witness:
  "\<exists>e. filter_where (Some (print_node demo_node)) demo_schema = Some (Inr (Some e)) \<and>
     (\<forall>(f, p, v) \<in> set (atoms e). f \<in> set (allowed_fields demo_schema))"
proof -
  obtain e where e: "filter_where (Some (print_node demo_node)) demo_schema = Some (Inr (Some e))"
    using demo_filter by blast
  obtain t where "atoms e = map (meaning demo_schema) (conditions t)"
    "\<forall>c \<in> set (conditions t). cd_field c \<in> set (allowed_fields demo_schema)"
    using filter_total_and_safe [of "Some (print_node demo_node)" demo_schema] e by auto
  then show ?thesis using e by (auto simp: meaning_def)
qed

text \<open>
  C20.  The language is what the printer says: every tree over the schema, printed with its brackets and
  quoted values, is read back as the same tree.
\<close>

theorem filter_parse_print:
  assumes "printable S t"
  shows "parse (print_node t) S = Some (Inr t)"
  using assms by (rule parse_print)

theorem filter_parse_print_witness:
  "printable demo_schema demo_node \<and> parse (print_node demo_node) demo_schema = Some (Inr demo_node)"
  using filter_parse_print [OF demo_printable] demo_printable by simp

text \<open>
  Without brackets \<open>;\<close> binds tighter than \<open>,\<close>, on either side: \<open>x;y,z\<close> is the disjunction of
  \<open>x;y\<close> and \<open>z\<close>, and \<open>x,y;z\<close> is the disjunction of \<open>x\<close> and \<open>y;z\<close>.
\<close>

theorem filter_precedence:
  assumes "printable S x" "printable S y" "printable S z"
  shows "parse (print_node x @ lit '';'' @ print_node y @ lit '','' @ print_node z) S = Some (Inr (Or (And x y) z)) \<and>
         parse (print_node x @ lit '','' @ print_node y @ lit '';'' @ print_node z) S = Some (Inr (Or x (And y z)))"
proof -
  let ?l = "length (print_node x) + length (print_node y) + length (print_node z)"
  have b: "parse_bound (print_node x @ c # print_node y @ d # print_node z) = Suc (Suc (Suc (3 * ?l + 6)))" for c d
    by (simp add: parse_bound_def)
  have l: "need x + need y + need z \<le> 3 * ?l + 6"
    using need_bound [of x] need_bound [of y] need_bound [of z] by simp
  have c: "of_char (CHR '';'') = (59 :: nat)" "of_char (CHR '','') = (44 :: nat)" by (simp_all add: of_char_def)
  show ?thesis
    using level_print(2,3) [OF assms l]
    by (simp add: parse_def parse_or_def b c del: descend.simps)
qed

theorem filter_precedence_witness:
  "parse (print_node demo_node @ lit '';'' @ print_node demo_node @ lit '','' @ print_node demo_node) demo_schema =
     Some (Inr (Or (And demo_node demo_node) demo_node))"
  using filter_precedence [OF demo_printable demo_printable demo_printable] by blast

end
