(* ===== verification/Schema.thy ===== *)
theory Schema
  imports Prelude
begin

text \<open>
  The data model: the rows of the PostgreSQL tables (\<open>infrastructure/migration/versions\<close>)
  and the entities of the \<open>*_contract\<close> crates.

  A table has one row type.  Where the entity struct has every column (the bookkeeping columns
  \<open>created_at\<close> and \<open>updated_at\<close> apart, which no modelled query reads) the row is the entity; where
  the table has columns more, the row extends the entity and \<open>truncate\<close> gives the entity back;
  where an entity field is an enum, row and entity are two records.  Identifiers (\<open>ID\<close>, a wrapped
  \<open>i64\<close>), quantities, amounts, dates and time stamps are integers.
\<close>

section \<open>Enumerations stored as SMALLINT\<close>

datatype item_type = ItemRawMaterial | MadeInHouse | Purchased | ItemSemiFinished
  | ItemFinishedGood | ItemPackaging | ItemConsumable

fun item_type_i16 :: "item_type \<Rightarrow> int" where
  "item_type_i16 ItemRawMaterial = 1"
| "item_type_i16 MadeInHouse = 2"
| "item_type_i16 Purchased = 3"
| "item_type_i16 ItemSemiFinished = 4"
| "item_type_i16 ItemFinishedGood = 5"
| "item_type_i16 ItemPackaging = 6"
| "item_type_i16 ItemConsumable = 7"

datatype cost_type = Reference | LatestPurchase | Manual | WeightedAverage

fun cost_type_i16 :: "cost_type \<Rightarrow> int" where
  "cost_type_i16 Reference = 1"
| "cost_type_i16 LatestPurchase = 2"
| "cost_type_i16 Manual = 3"
| "cost_type_i16 WeightedAverage = 10"

datatype warehouse_type = RawMaterial | SemiFinished | FinishedGood | Packaging | Consumable

fun warehouse_type_i16 :: "warehouse_type \<Rightarrow> int" where
  "warehouse_type_i16 RawMaterial = 1"
| "warehouse_type_i16 SemiFinished = 2"
| "warehouse_type_i16 FinishedGood = 3"
| "warehouse_type_i16 Packaging = 4"
| "warehouse_type_i16 Consumable = 5"

section \<open>Rows and entities\<close>

text \<open>\<open>item_categories\<close>; the row is the entity \<open>ItemCategory\<close>.\<close>

record item_category =
  ic_id :: int
  ic_name :: string
  ic_parent_id :: "int option"
  ic_sort_order :: int
  ic_is_active :: bool

text \<open>\<open>items\<close> (migrations 0003 and 0008).\<close>

record item_row =
  it_id :: int
  it_code :: string
  it_name :: string
  it_category_id :: "int option"
  it_item_type :: int
  it_base_unit :: string
  it_parent_item_id :: "int option"
  it_spec :: "string option"
  it_is_active :: bool
  it_version :: int
  it_reorder_point :: int
  it_safety_stock :: int

text \<open>The entity \<open>Item\<close> of \<open>item_contract\<close>.\<close>

record item =
  i_id :: int
  i_code :: string
  i_name :: string
  i_category_id :: int
  i_item_type :: item_type
  i_base_unit :: string
  i_parent_item_id :: "int option"
  i_spec :: "string option"
  i_is_active :: bool
  i_reorder_point :: int
  i_safety_stock :: int
  i_version :: int

record item_unit =
  iu_id :: int
  iu_item_id :: int
  iu_unit :: string
  iu_rate :: int

record item_cost_row =
  co_id :: int
  co_item_id :: int
  co_cost_type :: int
  co_unit_cost :: int
  co_currency :: "string option"
  co_effective_at :: int
  co_is_current :: bool
  co_remark :: "string option"

text \<open>The entity \<open>ItemCost\<close>.\<close>

record item_cost =
  c_id :: int
  c_item_id :: int
  c_cost_type :: cost_type
  c_unit_cost :: int
  c_currency :: string
  c_effective_at :: int
  c_is_current :: bool
  c_remark :: "string option"

record customer =
  cu_id :: int
  cu_code :: string
  cu_name :: string
  cu_contact_person :: "string option"
  cu_phone :: "string option"
  cu_address :: "string option"
  cu_payment_terms :: "string option"
  cu_is_active :: bool

record supplier =
  su_id :: int
  su_code :: string
  su_name :: string
  su_contact_person :: "string option"
  su_phone :: "string option"
  su_address :: "string option"
  su_payment_terms :: "string option"
  su_is_active :: bool

record warehouse_row =
  wh_id :: int
  wh_code :: string
  wh_name :: string
  wh_type :: int
  wh_is_active :: bool

text \<open>The entity \<open>Warehouse\<close>.\<close>

record warehouse =
  w_id :: int
  w_code :: string
  w_name :: string
  w_type :: warehouse_type
  w_is_active :: bool

text \<open>\<open>inventories\<close>: one row for an item in a warehouse, quantities in thousandths.\<close>

record inventory =
  inv_id :: int
  inv_item_id :: int
  inv_warehouse_id :: int
  inv_quantity :: int
  inv_locked_qty :: int
  inv_version :: int

text \<open>\<open>inventory_transactions\<close>: the stock ledger, append only.\<close>

record inventory_transaction =
  tx_id :: int
  tx_item_id :: int
  tx_warehouse_id :: int
  tx_type :: int
  tx_quantity :: int
  tx_batch_number :: "string option"
  tx_reference_type :: string
  tx_reference_id :: int
  tx_before_quantity :: int
  tx_after_quantity :: int

text \<open>The entity \<open>PurchaseOrder\<close>; the table has three columns more.\<close>

record purchase_order =
  po_id :: int
  po_code :: string
  po_supplier_id :: int
  po_status :: int
  po_order_date :: int
  po_expected_delivery_date :: "int option"
  po_currency :: string
  po_total_amount :: int
  po_payment_terms :: "string option"
  po_remark :: "string option"
  po_created_by :: "int option"

record purchase_order_row = purchase_order +
  po_approved_by :: "int option"
  po_approved_at :: "int option"
  po_rejected_at :: "int option"

record purchase_order_line =
  pl_id :: int
  pl_order_id :: int
  pl_line_no :: int
  pl_item_id :: int
  pl_quantity :: int
  pl_unit :: string
  pl_unit_price :: int
  pl_line_total :: int
  pl_received_qty :: int
  pl_returned_qty :: int
  pl_closed :: bool
  pl_remark :: "string option"

record purchase_receipt =
  pr_id :: int
  pr_code :: string
  pr_order_id :: int
  pr_supplier_id :: int
  pr_receipt_date :: int
  pr_status :: int
  pr_remark :: "string option"

record purchase_receipt_line =
  prl_id :: int
  prl_receipt_id :: int
  prl_order_line_id :: int
  prl_item_id :: int
  prl_warehouse_id :: int
  prl_quantity :: int
  prl_batch_number :: "string option"
  prl_unit_cost :: int

record purchase_return =
  rt_id :: int
  rt_code :: string
  rt_order_id :: int
  rt_supplier_id :: int
  rt_return_date :: int
  rt_status :: int
  rt_reason :: "string option"
  rt_remark :: "string option"

record purchase_return_row = purchase_return +
  rt_approved_by :: "int option"
  rt_approved_at :: "int option"

record purchase_return_line =
  rtl_id :: int
  rtl_return_id :: int
  rtl_receipt_line_id :: int
  rtl_item_id :: int
  rtl_quantity :: int
  rtl_reason :: "string option"

record purchase_invoice =
  pi_id :: int
  pi_code :: string
  pi_order_id :: int
  pi_supplier_id :: int
  pi_invoice_number :: "string option"
  pi_invoice_date :: "int option"
  pi_amount :: int
  pi_tax_amount :: int
  pi_total_amount :: int
  pi_status :: int
  pi_remark :: "string option"

record purchase_invoice_row = purchase_invoice +
  pi_paid_amount :: int

record inspection_template =
  tpl_id :: int
  tpl_code :: string
  tpl_name :: string
  tpl_category :: int
  tpl_is_active :: bool

record inspection_template_item =
  ti_id :: int
  ti_template_id :: int
  ti_name :: string
  ti_specification :: "string option"
  ti_tolerance_upper :: "string option"
  ti_tolerance_lower :: "string option"
  ti_method :: "string option"
  ti_is_required :: bool
  ti_sort_order :: int

record inspection_order =
  io_id :: int
  io_code :: string
  io_template_id :: "int option"
  io_source_type :: string
  io_source_id :: int
  io_item_id :: int
  io_lot_qty :: int
  io_sample_qty :: int
  io_inspector :: "string option"
  io_result :: "int option"
  io_status :: int
  io_inspected_at :: "int option"

record inspection_result =
  ir_id :: int
  ir_inspection_id :: int
  ir_template_item_id :: int
  ir_result :: int
  ir_actual_value :: "string option"
  ir_remark :: "string option"

record non_conformance =
  nc_id :: int
  nc_code :: string
  nc_inspection_id :: "int option"
  nc_item_id :: int
  nc_quantity :: int
  nc_severity :: int
  nc_disposition :: "int option"
  nc_status :: int
  nc_remark :: "string option"

record non_conformance_row = non_conformance +
  nc_approved_by :: "int option"
  nc_approved_at :: "int option"

text \<open>\<open>StockTransferSnapshot\<close>, the audited columns of \<open>stock_transfers\<close>.\<close>

record stock_transfer =
  st_id :: int
  st_code :: string
  st_from_warehouse_id :: int
  st_to_warehouse_id :: int
  st_status :: int
  st_transfer_date :: int
  st_remark :: "string option"
  st_approved_at :: "int option"

record stock_transfer_row = stock_transfer +
  st_approved_by :: "int option"

record stock_transfer_item =
  sti_id :: int
  sti_transfer_id :: int
  sti_item_id :: int
  sti_quantity :: int
  sti_batch_number :: "string option"

text \<open>\<open>InventoryCheckSnapshot\<close>, the audited columns of \<open>inventory_checks\<close>.\<close>

record inventory_check =
  ck_id :: int
  ck_code :: string
  ck_warehouse_id :: int
  ck_status :: int
  ck_plan_date :: int
  ck_remark :: "string option"
  ck_approved_at :: "int option"

record inventory_check_row = inventory_check +
  ck_actual_date :: "int option"
  ck_approved_by :: "int option"

record inventory_check_item =
  cki_id :: int
  cki_check_id :: int
  cki_item_id :: int
  cki_book_qty :: int
  cki_actual_qty :: int
  cki_diff_qty :: int
  cki_remark :: "string option"

record sales_order =
  so_id :: int
  so_code :: string
  so_customer_id :: int
  so_status :: int
  so_order_date :: int
  so_currency :: string
  so_total_amount :: int
  so_remark :: "string option"
  so_created_by :: "int option"

record sales_order_row = sales_order +
  so_approved_by :: "int option"
  so_approved_at :: "int option"
  so_rejected_at :: "int option"

record sales_order_line =
  sl_id :: int
  sl_order_id :: int
  sl_line_no :: int
  sl_item_id :: int
  sl_quantity :: int
  sl_unit :: string
  sl_unit_price :: int
  sl_line_total :: int
  sl_delivered_qty :: int
  sl_returned_qty :: int
  sl_closed :: bool
  sl_remark :: "string option"

record sales_delivery =
  sd_id :: int
  sd_code :: string
  sd_order_id :: int
  sd_customer_id :: int
  sd_delivery_date :: int
  sd_status :: int
  sd_remark :: "string option"

record sales_delivery_line =
  sdl_id :: int
  sdl_delivery_id :: int
  sdl_order_line_id :: int
  sdl_item_id :: int
  sdl_warehouse_id :: int
  sdl_quantity :: int
  sdl_batch_number :: "string option"

record sales_invoice =
  si_id :: int
  si_code :: string
  si_order_id :: int
  si_customer_id :: int
  si_invoice_number :: "string option"
  si_invoice_date :: "int option"
  si_amount :: int
  si_tax_amount :: int
  si_total_amount :: int
  si_status :: int
  si_remark :: "string option"

record sales_invoice_row = sales_invoice +
  si_paid_amount :: int

record bom =
  bm_id :: int
  bm_code :: string
  bm_name :: string
  bm_item_id :: int
  bm_version :: int
  bm_status :: int
  bm_total_qty :: int
  bm_remark :: "string option"

record bom_item =
  bi_id :: int
  bi_bom_id :: int
  bi_item_id :: int
  bi_quantity :: int
  bi_unit :: string
  bi_wastage_rate :: "int option"
  bi_parent_item_id :: "int option"
  bi_sort_order :: int
  bi_remark :: "string option"

record mold =
  mo_id :: int
  mo_code :: string
  mo_name :: string
  mo_item_id :: int
  mo_cavity_count :: int
  mo_life_expectancy :: "int option"
  mo_life_used :: "int option"
  mo_status :: int
  mo_maintenance_cycle :: "int option"
  mo_remark :: "string option"

record work_order =
  wo_id :: int
  wo_code :: string
  wo_bom_id :: int
  wo_item_id :: int
  wo_planned_qty :: int
  wo_completed_qty :: int
  wo_scrap_qty :: int
  wo_status :: int
  wo_due_date :: "int option"
  wo_remark :: "string option"

record work_order_material =
  wm_id :: int
  wm_work_order_id :: int
  wm_item_id :: int
  wm_required_qty :: int
  wm_picked_qty :: "int option"
  wm_warehouse_id :: "int option"

record work_order_operation =
  wop_id :: int
  wop_work_order_id :: int
  wop_name :: string
  wop_sequence :: int
  wop_planned_qty :: int
  wop_completed_qty :: int
  wop_scrap_qty :: int
  wop_status :: int

record production_receipt =
  prc_id :: int
  prc_code :: string
  prc_work_order_id :: int
  prc_item_id :: int
  prc_warehouse_id :: int
  prc_quantity :: int
  prc_batch_number :: "string option"

record payment =
  pay_id :: int
  pay_code :: string
  pay_payment_type :: int
  pay_invoice_type :: string
  pay_invoice_id :: int
  pay_amount :: int
  pay_payment_date :: int
  pay_payment_method :: "string option"
  pay_remark :: "string option"

text \<open>\<open>Account\<close>; the password hash and the version are skipped by serialization.\<close>

record account =
  acc_id :: int
  acc_name :: string
  acc_phone :: string
  acc_password :: string
  acc_privileged :: bool
  acc_version :: int

record account_snapshot =
  acs_id :: int
  acs_name :: string
  acs_phone :: string
  acs_privileged :: bool

text \<open>
  What an audit record stores of an entity, \<open>serde_json::to_value(entity)\<close>: the entity
  itself (the JSON encoding is the serialisation library's).
\<close>

datatype snapshot =
    SnapItemCategory item_category
  | SnapItem item
  | SnapItemUnit item_unit
  | SnapItemCost item_cost
  | SnapCustomer customer
  | SnapSupplier supplier
  | SnapWarehouse warehouse
  | SnapInventory inventory
  | SnapPurchaseOrder purchase_order
  | SnapPurchaseReceipt purchase_receipt
  | SnapPurchaseReturn purchase_return
  | SnapPurchaseInvoice purchase_invoice
  | SnapInspectionTemplate inspection_template
  | SnapInspectionOrder inspection_order
  | SnapNonConformance non_conformance
  | SnapStockTransfer stock_transfer
  | SnapInventoryCheck inventory_check
  | SnapSalesOrder sales_order
  | SnapSalesDelivery sales_delivery
  | SnapSalesInvoice sales_invoice
  | SnapBom bom
  | SnapMold mold
  | SnapWorkOrder work_order
  | SnapProductionReceipt production_receipt
  | SnapPayment payment
  | SnapAccount account_snapshot

record audit_log =
  al_id :: int
  al_operator_id :: int
  al_action :: int
  al_entity :: string
  al_entity_id :: int
  al_before :: "snapshot option"
  al_after :: "snapshot option"
  al_ip :: "string option"
  al_user_agent :: "string option"

end
