(* ===== verification/Database.thy ===== *)
theory Database
  imports Schema "HOL-Library.Multiset"
begin

text \<open>
  The database and the services every write endpoint uses.

  \<^item> \<open>db\<close>: the tables, the sequences and the counter of generated identifiers;
  \<^item> transactions: an error rolls every table back, sequence values and generated
    identifiers stay consumed;
  \<^item> \<open>insert_row\<close>: an \<open>INSERT\<close> with the constraints of the migrations (length of
    \<open>VARCHAR\<close> columns, \<open>PRIMARY KEY\<close> and \<open>UNIQUE\<close>, \<open>REFERENCES\<close>) as error values;
  \<^item> \<open>cross_domain/doc_numbering\<close> and \<open>features/audit_contract\<close>.

  What the process and the database server provide from outside is a parameter, \<open>env\<close>: the
  clocks, the identifier generator (crate \<open>tsid\<close>) and the order in which a query without
  \<open>ORDER BY\<close> returns its rows.
\<close>

section \<open>Errors\<close>

datatype db_error = UniqueViolation | ForeignKeyViolation | StringTooLong | NumericOutOfRange
  | SequenceExhausted | RowNotFound

text \<open>\<open>TransitionError::InvalidTransition { current, action }\<close> of \<open>cross_domain/approval\<close>.\<close>

datatype transition_error = InvalidTransition int string

datatype inventory_error = InsufficientInventory

datatype purchase_error = PurchaseNotFound | PurchaseOrderNotApproved | PurchaseNotDraft
  | PurchaseEmptyOrder | PurchaseLineNotFound | OverReceipt

datatype sales_error = SalesNotFound | SalesOrderNotApproved | SalesLineNotFound | OverDelivery
  | SalesEmptyOrder | SalesInsufficientInventory

datatype production_error = ProductionNotFound | ProductionInvalidStatus | InsufficientMaterials

datatype finance_error = PaymentNotFound | InvoiceNotFound | InvalidInvoiceType
  | InvoiceAlreadyFullyPaid | InvalidPaymentAmount | InvalidPeriod

datatype warehouse_error = WarehouseNotFound | WarehouseCodeDuplicate | InventoryNotFound
  | WarehouseInsufficientInventory

datatype item_error = ItemNotFound | ItemCodeDuplicate | CategoryNotFound | CategoryNotEmpty
  | ItemReferenceExists

datatype party_error = PartyNotFound | PartyCodeDuplicate

datatype product_error = BomNotFound | MoldNotFound | ProductInvalidStatus

datatype quality_error = TemplateNotFound | InspectionNotFound | NonConformanceNotFound
  | QualityInvalidStatus

text \<open>
  \<open>rootcause::Report\<close>: the error an endpoint returns.  \<open>EPanic\<close> is a panic; both cargo profiles
  say \<open>panic = "abort"\<close>, so the process ends and the open transaction is rolled back.
\<close>

datatype err = EDb db_error
  | ETransition transition_error
  | EInventory inventory_error
  | EPurchase purchase_error
  | ESales sales_error
  | EProduction production_error
  | EFinance finance_error
  | EWarehouse warehouse_error
  | EItem item_error
  | ECustomer party_error
  | ESupplier party_error
  | EProduct product_error
  | EQuality quality_error
  | EPanic string

section \<open>The environment of a request\<close>

record env =
  env_now :: int \<comment> \<open>\<open>chrono::Utc::now()\<close>\<close>
  env_pg_now :: int \<comment> \<open>PostgreSQL's \<open>NOW()\<close>\<close>
  env_utc_date :: int \<comment> \<open>\<open>chrono::Utc::now().date_naive()\<close>\<close>
  env_local_date :: int \<comment> \<open>\<open>today_naive()\<close>, the server's local date\<close>
  env_pg_date :: int \<comment> \<open>PostgreSQL's \<open>CURRENT_DATE\<close>\<close>
  env_ymd :: string \<comment> \<open>\<open>chrono::Utc::now().format("%Y%m%d")\<close>\<close>
  env_tsid :: "nat \<Rightarrow> int" \<comment> \<open>the n-th identifier of \<open>create_tsid()\<close>\<close>
  env_order :: "nat \<Rightarrow> nat list" \<comment> \<open>the scan order of an unordered result of n rows\<close>

text \<open>\<open>Operator\<close>: who makes the request.\<close>

record operator =
  op_operator_id :: int
  op_ip :: "string option"
  op_user_agent :: "string option"

text \<open>A result set without \<open>ORDER BY\<close>: the selected rows in the server's order.\<close>

definition scan :: "env \<Rightarrow> 'r list \<Rightarrow> 'r list" where
  "scan env xs = map (\<lambda>i. xs ! i) (env_order env (length xs))"

text \<open>The one thing SQL promises of that order: it lists every row once.\<close>

definition order_ok :: "env \<Rightarrow> bool" where
  "order_ok env = (\<forall>n. distinct (env_order env n) \<and> set (env_order env n) = {..<n})"

lemma set_scan: "order_ok env \<Longrightarrow> set (scan env xs) = set xs"
  by (auto simp: order_ok_def scan_def in_set_conv_nth)

lemma map_scan: "order_ok env \<Longrightarrow> map f (scan env xs) = scan env (map f xs)"
  by (auto simp: order_ok_def scan_def)

lemma mset_scan: "order_ok env \<Longrightarrow> mset (scan env xs) = mset xs"
proof -
  assume o: "order_ok env"
  then have "mset (env_order env (length xs)) = mset [0..<length xs]"
    by (metis atLeast_upt distinct_upt order_ok_def set_eq_iff_mset_eq_distinct)
  then have "mset (map ((!) xs) (env_order env (length xs))) = mset (map ((!) xs) [0..<length xs])"
    by (metis mset_map)
  then show ?thesis by (simp add: scan_def map_nth)
qed

lemma distinct_scan: "order_ok env \<Longrightarrow> distinct xs \<Longrightarrow> distinct (scan env xs)"
  by (auto simp: order_ok_def scan_def distinct_map inj_on_def nth_eq_iff_index_eq)

section \<open>The database\<close>

record db =
  item_categories :: "item_category list"
  items :: "item_row list"
  item_units :: "item_unit list"
  item_costs :: "item_cost_row list"
  customers :: "customer list"
  suppliers :: "supplier list"
  warehouses :: "warehouse_row list"
  inventories :: "inventory list"
  inventory_transactions :: "inventory_transaction list"
  purchase_orders :: "purchase_order_row list"
  purchase_order_lines :: "purchase_order_line list"
  purchase_receipts :: "purchase_receipt list"
  purchase_receipt_lines :: "purchase_receipt_line list"
  purchase_returns :: "purchase_return_row list"
  purchase_return_lines :: "purchase_return_line list"
  purchase_invoices :: "purchase_invoice_row list"
  inspection_templates :: "inspection_template list"
  inspection_template_items :: "inspection_template_item list"
  inspection_orders :: "inspection_order list"
  inspection_results :: "inspection_result list"
  non_conformances :: "non_conformance_row list"
  stock_transfers :: "stock_transfer_row list"
  stock_transfer_items :: "stock_transfer_item list"
  inventory_checks :: "inventory_check_row list"
  inventory_check_items :: "inventory_check_item list"
  sales_orders :: "sales_order_row list"
  sales_order_lines :: "sales_order_line list"
  sales_deliveries :: "sales_delivery list"
  sales_delivery_lines :: "sales_delivery_line list"
  sales_invoices :: "sales_invoice_row list"
  boms :: "bom list"
  bom_items :: "bom_item list"
  molds :: "mold list"
  work_orders :: "work_order list"
  work_order_materials :: "work_order_material list"
  work_order_operations :: "work_order_operation list"
  production_receipts :: "production_receipt list"
  payments :: "payment list"
  audit_logs :: "audit_log list"
  sequences :: "string \<Rightarrow> nat"
  next_id :: nat

text \<open>The database after the migrations: empty tables, every sequence before its first value.\<close>

definition empty_db :: db where
  "empty_db = \<lparr> item_categories = [],
     items = [],
     item_units = [],
     item_costs = [],
     customers = [],
     suppliers = [],
     warehouses = [],
     inventories = [],
     inventory_transactions = [],
     purchase_orders = [],
     purchase_order_lines = [],
     purchase_receipts = [],
     purchase_receipt_lines = [],
     purchase_returns = [],
     purchase_return_lines = [],
     purchase_invoices = [],
     inspection_templates = [],
     inspection_template_items = [],
     inspection_orders = [],
     inspection_results = [],
     non_conformances = [],
     stock_transfers = [],
     stock_transfer_items = [],
     inventory_checks = [],
     inventory_check_items = [],
     sales_orders = [],
     sales_order_lines = [],
     sales_deliveries = [],
     sales_delivery_lines = [],
     sales_invoices = [],
     boms = [],
     bom_items = [],
     molds = [],
     work_orders = [],
     work_order_materials = [],
     work_order_operations = [],
     production_receipts = [],
     payments = [],
     audit_logs = [],
     sequences = (\<lambda>_. 0), next_id = 0 \<rparr>"

type_synonym 'a m = "(db, err, 'a) rs"

definition rollback :: "db \<Rightarrow> db \<Rightarrow> db" where
  "rollback s t = s\<lparr>sequences := sequences t, next_id := next_id t\<rparr>"

abbreviation transaction :: "'a m \<Rightarrow> 'a m" where
  "transaction \<equiv> txnM rollback"

text \<open>The tables alone, without what a rollback leaves consumed.\<close>

definition tables :: "db \<Rightarrow> db" where
  "tables s = s\<lparr>sequences := (\<lambda>_. 0), next_id := 0\<rparr>"

lemma tables_rollback [simp]: "tables (rollback s t) = tables s"
  by (simp add: tables_def rollback_def)

lemma pres_transaction [pres_intros]:
  assumes "pres I m" "\<And>s q n. I s \<Longrightarrow> I (s\<lparr>sequences := q, next_id := n\<rparr>)"
  shows "pres I (transaction m)"
  by (rule pres_txn) (use assms in \<open>auto simp: rollback_def\<close>)

text \<open>
  The rule for the write endpoints: the body's successful runs preserve the predicate, which
  does not depend on sequences and the identifier counter.
\<close>

lemma pres_transaction_okp:
  assumes "okp I m" "\<And>s q n. I s \<Longrightarrow> I (s\<lparr>sequences := q, next_id := n\<rparr>)"
  shows "pres I (transaction m)"
  by (rule pres_txn_okp) (use assms in \<open>auto simp: rollback_def\<close>)

text \<open>A failed transaction leaves every table as it was.\<close>

lemma transaction_atomic: "transaction m s = (Inl e, t) \<Longrightarrow> tables t = tables s"
  by (auto simp: txnM_Err)

section \<open>Statements\<close>

definition fits :: "nat \<Rightarrow> string \<Rightarrow> bool" where
  "fits n x = (length x \<le> n)"

definition fits_opt :: "nat \<Rightarrow> string option \<Rightarrow> bool" where
  "fits_opt n x = (case x of None \<Rightarrow> True | Some y \<Rightarrow> length y \<le> n)"

definition fk_opt :: "('r \<Rightarrow> 'k) \<Rightarrow> 'k option \<Rightarrow> 'r list \<Rightarrow> bool" where
  "fk_opt key k xs = (case k of None \<Rightarrow> True | Some x \<Rightarrow> has_key key x xs)"

definition insert_row :: "bool \<Rightarrow> (db \<Rightarrow> bool) \<Rightarrow> (db \<Rightarrow> bool) \<Rightarrow> (db \<Rightarrow> db) \<Rightarrow> unit m" where
  "insert_row len uniq fks upd =
     seqM (guardM len (EDb StringTooLong))
    (seqM (checkM uniq (EDb UniqueViolation))
    (seqM (checkM fks (EDb ForeignKeyViolation))
          (modM upd)))"

text \<open>\<open>fetch_one\<close>: a query that must return a row.\<close>

definition fetch_one :: "(db \<Rightarrow> 'r option) \<Rightarrow> 'r m" where
  "fetch_one q = bindM (getsM q) (\<lambda>r. ok_or r (EDb RowNotFound))"

definition fetch_or :: "(db \<Rightarrow> 'r option) \<Rightarrow> err \<Rightarrow> 'r m" where
  "fetch_or q e = bindM (getsM q) (\<lambda>r. ok_or r e)"

text \<open>A value computed by PostgreSQL and stored as \<open>BIGINT\<close>: out of range is an error.\<close>

definition pg_bigint :: "int \<Rightarrow> int m" where
  "pg_bigint x = (if in_i64 x then retM x else failM (EDb NumericOutOfRange))"

lemma insert_row_OK:
  "insert_row len uniq fks upd s = (Inr u, t) \<longleftrightarrow> len \<and> uniq s \<and> fks s \<and> t = upd s"
  by (auto simp: insert_row_def monad_OK)

lemma fetch_one_OK: "fetch_one q s = (Inr r, t) \<longleftrightarrow> q s = Some r \<and> t = s"
  by (auto simp: fetch_one_def monad_OK)

lemma fetch_or_OK: "fetch_or q e s = (Inr r, t) \<longleftrightarrow> q s = Some r \<and> t = s"
  by (auto simp: fetch_or_def monad_OK)

lemma pg_bigint_OK: "pg_bigint x s = (Inr r, t) \<longleftrightarrow> in_i64 x \<and> r = x \<and> t = s"
  by (auto simp: pg_bigint_def monad_OK)

lemmas stmt_OK = insert_row_OK fetch_one_OK fetch_or_OK pg_bigint_OK

lemma wp_insert_row [wp]:
  "wpM (insert_row len uniq fks upd) Q E s =
   (if len then if uniq s then if fks s then Q () (upd s) else E (EDb ForeignKeyViolation) s
                else E (EDb UniqueViolation) s
    else E (EDb StringTooLong) s)"
  by (simp add: insert_row_def wp)

lemma wp_fetch_one [wp]:
  "wpM (fetch_one q) Q E s = (case q s of None \<Rightarrow> E (EDb RowNotFound) s | Some r \<Rightarrow> Q r s)"
  by (simp add: fetch_one_def wp)

lemma wp_fetch_or [wp]:
  "wpM (fetch_or q e) Q E s = (case q s of None \<Rightarrow> E e s | Some r \<Rightarrow> Q r s)"
  by (simp add: fetch_or_def wp)

lemma wp_pg_bigint [wp]:
  "wpM (pg_bigint x) Q E s = (if in_i64 x then Q x s else E (EDb NumericOutOfRange) s)"
  by (simp add: pg_bigint_def wp)

lemma pres_insert_row:
  "(\<And>s. I s \<Longrightarrow> len \<Longrightarrow> uniq s \<Longrightarrow> fks s \<Longrightarrow> I (upd s)) \<Longrightarrow> pres I (insert_row len uniq fks upd)"
  by (simp add: pres_wp wp)

lemma okp_insert_row:
  "(\<And>s. I s \<Longrightarrow> len \<Longrightarrow> uniq s \<Longrightarrow> fks s \<Longrightarrow> I (upd s)) \<Longrightarrow> okp I (insert_row len uniq fks upd)"
  by (rule pres_okp) (rule pres_insert_row)

lemma okp_fetch [okp_intros]: "okp I (fetch_one q)" "okp I (fetch_or q e)"
  "okp I (pg_bigint x)"
  by (auto simp: okp_def stmt_OK)

lemma pres_fetch_one [pres_intros]: "pres I (fetch_one q)"
  by (simp add: fetch_one_def pres_intros)

lemma pres_fetch_or [pres_intros]: "pres I (fetch_or q e)"
  by (simp add: fetch_or_def pres_intros)

lemma pres_pg_bigint [pres_intros]: "pres I (pg_bigint x)"
  by (simp add: pg_bigint_def pres_intros)

section \<open>Identifiers and document numbers\<close>

text \<open>\<open>ID::new()\<close>.\<close>

definition new_id :: "env \<Rightarrow> int m" where
  "new_id env =
     bindM (getsM next_id) (\<lambda>n.
     seqM (modM (\<lambda>s. s\<lparr>next_id := n + 1\<rparr>))
     (retM (env_tsid env n)))"

text \<open>The loop that gives every element of a request a new identifier.\<close>

fun with_ids :: "env \<Rightarrow> 'x list \<Rightarrow> (int \<times> 'x) list m" where
  "with_ids env [] = retM []"
| "with_ids env (x # xs) =
     bindM (new_id env) (\<lambda>k. bindM (with_ids env xs) (\<lambda>rest. retM ((k, x) # rest)))"

definition seq_max :: nat where "seq_max = 2 ^ 63 - 1"

text \<open>\<open>DocNumberer::next_seq\<close>: \<open>SELECT nextval(seq_name)\<close>.\<close>

definition next_seq :: "string \<Rightarrow> nat m" where
  "next_seq seq_name =
     bindM (getsM (\<lambda>s. sequences s seq_name + 1)) (\<lambda>v.
     seqM (guardM (v \<le> seq_max) (EDb SequenceExhausted))
    (seqM (modM (\<lambda>s. s\<lparr>sequences := (sequences s)(seq_name := v)\<rparr>))
    (retM v)))"

text \<open>\<open>DocNumberer::next_number\<close>: \<open>format!("{}-{}-{:06}", prefix, today, seq)\<close>.\<close>

definition doc_code :: "string \<Rightarrow> string \<Rightarrow> nat \<Rightarrow> string" where
  "doc_code prefix today n = prefix @ ''-'' @ today @ ''-'' @ zero_pad 6 n"

definition next_number :: "env \<Rightarrow> string \<Rightarrow> string \<Rightarrow> string m" where
  "next_number env seq_name prefix =
     bindM (next_seq seq_name) (\<lambda>n. retM (doc_code prefix (env_ymd env) n))"

lemma new_id_OK:
  "new_id env s = (Inr x, t) \<longleftrightarrow> x = env_tsid env (next_id s) \<and> t = s\<lparr>next_id := next_id s + 1\<rparr>"
  by (auto simp: new_id_def monad_OK)

text \<open>For evaluation: the bound compared as an integer, not counted down as a natural number.\<close>

lemma next_seq_code [code]:
  "next_seq seq_name =
     bindM (getsM (\<lambda>s. sequences s seq_name + 1)) (\<lambda>v.
     seqM (guardM (int v \<le> i64_max) (EDb SequenceExhausted))
    (seqM (modM (\<lambda>s. s\<lparr>sequences := (sequences s)(seq_name := v)\<rparr>))
    (retM v)))"
proof -
  have "int seq_max = i64_max" by (simp add: seq_max_def i64_max_def)
  then have "int v \<le> i64_max \<longleftrightarrow> v \<le> seq_max" for v by (metis of_nat_le_iff)
  then show ?thesis by (simp add: next_seq_def)
qed

lemma next_seq_OK:
  "next_seq q s = (Inr v, t) \<longleftrightarrow>
   v = sequences s q + 1 \<and> v \<le> seq_max \<and> t = s\<lparr>sequences := (sequences s)(q := v)\<rparr>"
  by (auto simp: next_seq_def monad_OK)

lemma next_number_OK:
  "next_number env q p s = (Inr c, t) \<longleftrightarrow>
   c = doc_code p (env_ymd env) (sequences s q + 1) \<and> sequences s q + 1 \<le> seq_max \<and>
   t = s\<lparr>sequences := (sequences s)(q := sequences s q + 1)\<rparr>"
  by (auto simp: next_number_def monad_OK next_seq_OK)

lemma with_ids_OK:
  "with_ids env xs s = (Inr ys, t) \<longleftrightarrow>
   ys = zip (map (\<lambda>n. env_tsid env (next_id s + n)) [0..<length xs]) xs \<and>
   t = s\<lparr>next_id := next_id s + length xs\<rparr>"
proof (induction xs arbitrary: s ys)
  case (Cons x xs)
  have "map (\<lambda>n. env_tsid env (next_id s + n)) [0..<length (x # xs)] =
        env_tsid env (next_id s) # map (\<lambda>n. env_tsid env (next_id s + 1 + n)) [0..<length xs]"
    by (simp add: map_upt_Suc del: upt_Suc)
  then show ?case using Cons by (auto simp: monad_OK new_id_OK simp del: upt_Suc)
qed (auto simp: monad_OK)

lemma wp_new_id [wp]:
  "wpM (new_id env) Q E s = Q (env_tsid env (next_id s)) (s\<lparr>next_id := next_id s + 1\<rparr>)"
  by (simp add: new_id_def wp)

lemma wp_next_seq [wp]:
  "wpM (next_seq q) Q E s =
   (if sequences s q + 1 \<le> seq_max
    then Q (sequences s q + 1) (s\<lparr>sequences := (sequences s)(q := sequences s q + 1)\<rparr>)
    else E (EDb SequenceExhausted) s)"
  by (simp add: next_seq_def wp)

lemma wp_next_number [wp]:
  "wpM (next_number env q p) Q E s =
   (if sequences s q + 1 \<le> seq_max
    then Q (doc_code p (env_ymd env) (sequences s q + 1))
           (s\<lparr>sequences := (sequences s)(q := sequences s q + 1)\<rparr>)
    else E (EDb SequenceExhausted) s)"
  by (simp add: next_number_def wp)

lemma pres_new_id: "(\<And>s n. I s \<Longrightarrow> I (s\<lparr>next_id := n\<rparr>)) \<Longrightarrow> pres I (new_id env)"
  by (simp add: pres_wp wp)

lemma pres_next_seq: "(\<And>s q. I s \<Longrightarrow> I (s\<lparr>sequences := q\<rparr>)) \<Longrightarrow> pres I (next_seq q)"
  by (simp add: pres_wp wp)

lemma pres_next_number: "(\<And>s q. I s \<Longrightarrow> I (s\<lparr>sequences := q\<rparr>)) \<Longrightarrow> pres I (next_number env q p)"
  by (simp add: next_number_def pres_intros pres_next_seq)

text \<open>
  Codes with dates of one width are equal only for the same prefix length, date and number:
  the sequence value can be read back from the code.
\<close>

lemma doc_code_inj:
  assumes "length d = length d'" "doc_code p d m = doc_code p d' n"
  shows "d = d' \<and> m = n"
  using assms by (auto simp: doc_code_def dest: zero_pad_inj)

section \<open>The audit trail\<close>

datatype audit_action = Created | Updated | Deleted

fun audit_action_i16 :: "audit_action \<Rightarrow> int" where
  "audit_action_i16 Created = 1"
| "audit_action_i16 Updated = 2"
| "audit_action_i16 Deleted = 3"

text \<open>\<open>AuditService::insert\<close>.\<close>

definition audit_insert ::
  "env \<Rightarrow> string \<Rightarrow> audit_action \<Rightarrow> int \<Rightarrow> operator \<Rightarrow> snapshot option \<Rightarrow> snapshot option \<Rightarrow> unit m" where
  "audit_insert env entity action entity_id operator before after =
     bindM (new_id env) (\<lambda>id.
     let row = \<lparr>al_id = id, al_operator_id = op_operator_id operator,
                al_action = audit_action_i16 action, al_entity = entity, al_entity_id = entity_id,
                al_before = before, al_after = after, al_ip = op_ip operator,
                al_user_agent = op_user_agent operator\<rparr> in
     insert_row (fits 64 entity) (\<lambda>s. \<not> has_key al_id id (audit_logs s)) (\<lambda>s. True)
       (\<lambda>s. s\<lparr>audit_logs := audit_logs s @ [row]\<rparr>))"

definition record_create :: "env \<Rightarrow> string \<Rightarrow> int \<Rightarrow> operator \<Rightarrow> snapshot \<Rightarrow> unit m" where
  "record_create env entity entity_id operator after =
     audit_insert env entity Created entity_id operator None (Some after)"

definition record_updated ::
  "env \<Rightarrow> string \<Rightarrow> int \<Rightarrow> operator \<Rightarrow> snapshot \<Rightarrow> snapshot \<Rightarrow> unit m" where
  "record_updated env entity entity_id operator before after =
     audit_insert env entity Updated entity_id operator (Some before) (Some after)"

definition record_deleted :: "env \<Rightarrow> string \<Rightarrow> int \<Rightarrow> operator \<Rightarrow> snapshot \<Rightarrow> unit m" where
  "record_deleted env entity entity_id operator before =
     audit_insert env entity Deleted entity_id operator (Some before) None"

lemmas audit_defs = record_create_def record_updated_def record_deleted_def

text \<open>The row an audit call appends; its identifier is the next one.\<close>

definition audit_row ::
  "env \<Rightarrow> db \<Rightarrow> string \<Rightarrow> audit_action \<Rightarrow> int \<Rightarrow> operator \<Rightarrow> snapshot option \<Rightarrow> snapshot option \<Rightarrow> audit_log"
where
  "audit_row env s entity action entity_id operator before after =
     \<lparr>al_id = env_tsid env (next_id s), al_operator_id = op_operator_id operator,
      al_action = audit_action_i16 action, al_entity = entity, al_entity_id = entity_id,
      al_before = before, al_after = after, al_ip = op_ip operator,
      al_user_agent = op_user_agent operator\<rparr>"

lemma audit_insert_OK:
  "audit_insert env e a i op b f s = (Inr u, t) \<longleftrightarrow>
   fits 64 e \<and> \<not> has_key al_id (env_tsid env (next_id s)) (audit_logs s) \<and>
   t = s\<lparr>audit_logs := audit_logs s @ [audit_row env s e a i op b f], next_id := next_id s + 1\<rparr>"
  by (auto simp: audit_insert_def monad_OK new_id_OK insert_row_OK Let_def audit_row_def)

lemma pres_audit_insert:
  assumes "\<And>s n. I s \<Longrightarrow> I (s\<lparr>next_id := n\<rparr>)" "\<And>s l. I s \<Longrightarrow> I (s\<lparr>audit_logs := l\<rparr>)"
  shows "pres I (audit_insert env e a i op b f)"
  unfolding audit_insert_def Let_def
  by (intro pres_bind pres_new_id pres_insert_row assms)

lemma pres_audit:
  assumes "\<And>s n. I s \<Longrightarrow> I (s\<lparr>next_id := n\<rparr>)" "\<And>s l. I s \<Longrightarrow> I (s\<lparr>audit_logs := l\<rparr>)"
  shows "pres I (record_create env e i op x)" "pres I (record_updated env e i op x y)"
    "pres I (record_deleted env e i op x)"
  using assms by (simp_all add: audit_defs pres_audit_insert)

section \<open>Frames\<close>

text \<open>
  What an endpoint does not write stays: a predicate that ignores the tables the endpoint
  writes is preserved by it.  \<open>ignores\<close> takes the update function of a table.  Every endpoint
  has one frame lemma, for any predicate; the invariants of the development use it for
  the endpoints that have nothing to do with them.
\<close>

definition ignores :: "(('v \<Rightarrow> 'v) \<Rightarrow> db \<Rightarrow> db) \<Rightarrow> (db \<Rightarrow> bool) \<Rightarrow> bool" where
  "ignores upd I = (\<forall>f s. I s \<longrightarrow> I (upd f s))"

lemma ignoresD: "ignores upd I \<Longrightarrow> I s \<Longrightarrow> I (upd f s)"
  by (simp add: ignores_def)

definition admin :: "(db \<Rightarrow> bool) \<Rightarrow> bool" where
  "admin I = (ignores audit_logs_update I \<and> ignores sequences_update I \<and> ignores next_id_update I)"

lemma adminD:
  assumes "admin I" "I s"
  shows "I (s\<lparr>audit_logs := l\<rparr>)" "I (s\<lparr>sequences := q\<rparr>)" "I (s\<lparr>next_id := n\<rparr>)"
  using assms by (simp_all add: admin_def ignores_def)

lemma pres_admin [pres_intros]:
  assumes "admin I"
  shows "pres I (new_id env)" "pres I (next_seq q)" "pres I (next_number env q p)"
    "pres I (record_create env e i op x)" "pres I (record_updated env e i op x y)"
    "pres I (record_deleted env e i op x)"
proof -
  note n = adminD(3) [OF assms] and q = adminD(2) [OF assms] and l = adminD(1) [OF assms]
  show "pres I (new_id env)" by (rule pres_new_id) (rule n)
  show "pres I (next_seq q)" by (rule pres_next_seq) (rule q)
  show "pres I (next_number env q p)" by (rule pres_next_number) (rule q)
  show "pres I (record_create env e i op x)" by (rule pres_audit(1)) (rule n, assumption, rule l)
  show "pres I (record_updated env e i op x y)" by (rule pres_audit(2)) (rule n, assumption, rule l)
  show "pres I (record_deleted env e i op x)" by (rule pres_audit(3)) (rule n, assumption, rule l)
qed

lemmas okp_admin [okp_intros] = pres_admin [THEN pres_okp]

lemma okp_with_ids [okp_intros]: "admin I \<Longrightarrow> okp I (with_ids env xs)"
  by (auto intro!: okpI simp: with_ids_OK adminD)

lemma pres_transaction_admin:
  assumes "okp I m" "admin I"
  shows "pres I (transaction m)"
  using assms(1)
proof (rule pres_transaction_okp)
  show "I s \<Longrightarrow> I (s\<lparr>sequences := q, next_id := n\<rparr>)" for s q n
    using adminD(2,3) [OF assms(2)] by simp
qed

lemmas okp_leaves = okp_insert_row okp_modM
lemmas pres_leaves = pres_insert_row pres_modM

end
