(* ===== verification/Ledger.thy ===== *)
theory Ledger
  imports Database
begin

text \<open>
  The inventory ledger of \<open>cross_domain/inventory_ledger/lib.rs\<close>: every change of stock in the
  program goes through it.  The state is the tables \<open>inventories\<close> (the quantity of an item in a
  warehouse) and \<open>inventory_transactions\<close> (the log); the abstract view is the function \<open>stock\<close>.

  The invariant \<open>ledger_inv\<close> ties the two together: at most one row for an item and a warehouse,
  the log of every item and warehouse is an unbroken chain from zero to the present
  quantity, and every entry moves the stock by its quantity in the direction of its type.
\<close>

section \<open>Data\<close>

datatype transaction_type = Inbound | Outbound | TransferIn | TransferOut | InventoryCheck
  | PurchaseReturn | MaterialPick

fun transaction_type_i16 :: "transaction_type \<Rightarrow> int" where
  "transaction_type_i16 Inbound = 1"
| "transaction_type_i16 Outbound = 2"
| "transaction_type_i16 TransferIn = 3"
| "transaction_type_i16 TransferOut = 4"
| "transaction_type_i16 InventoryCheck = 5"
| "transaction_type_i16 PurchaseReturn = 6"
| "transaction_type_i16 MaterialPick = 7"

record ledger_command =
  lc_item_id :: int
  lc_warehouse_id :: int
  lc_quantity :: int
  lc_tx_type :: transaction_type
  lc_reference_type :: string
  lc_reference_id :: int
  lc_batch_number :: "string option"

definition inv_key :: "inventory \<Rightarrow> int \<times> int" where
  "inv_key r = (inv_item_id r, inv_warehouse_id r)"

definition tx_key :: "inventory_transaction \<Rightarrow> int \<times> int" where
  "tx_key t = (tx_item_id t, tx_warehouse_id t)"

definition lc_key :: "ledger_command \<Rightarrow> int \<times> int" where
  "lc_key c = (lc_item_id c, lc_warehouse_id c)"

section \<open>Operations\<close>

definition read_qty :: "int \<Rightarrow> int \<Rightarrow> int m" where
  "read_qty item_id warehouse_id =
     bindM (getsM (\<lambda>s. lookup_by inv_key (item_id, warehouse_id) (inventories s))) (\<lambda>row.
     retM (case row of None \<Rightarrow> 0 | Some r \<Rightarrow> inv_quantity r))"

definition write_transaction :: "env \<Rightarrow> ledger_command \<Rightarrow> int \<Rightarrow> int \<Rightarrow> unit m" where
  "write_transaction env cmd before_qty after_qty =
     bindM (new_id env) (\<lambda>tx_id.
     let row = \<lparr>tx_id = tx_id, tx_item_id = lc_item_id cmd, tx_warehouse_id = lc_warehouse_id cmd,
                tx_type = transaction_type_i16 (lc_tx_type cmd), tx_quantity = lc_quantity cmd,
                tx_batch_number = lc_batch_number cmd, tx_reference_type = lc_reference_type cmd,
                tx_reference_id = lc_reference_id cmd, tx_before_quantity = before_qty,
                tx_after_quantity = after_qty\<rparr> in
     insert_row (fits_opt 64 (lc_batch_number cmd) \<and> fits 32 (lc_reference_type cmd))
       (\<lambda>s. \<not> has_key inventory_transaction.tx_id tx_id (inventory_transactions s))
       (\<lambda>s. has_key it_id (lc_item_id cmd) (items s) \<and>
            has_key wh_id (lc_warehouse_id cmd) (warehouses s))
       (\<lambda>s. s\<lparr>inventory_transactions := inventory_transactions s @ [row]\<rparr>))"

text \<open>The effect of the upsert on the rows of \<open>inventories\<close>.\<close>

definition upsert_rows :: "int \<Rightarrow> int \<times> int \<Rightarrow> int \<Rightarrow> inventory list \<Rightarrow> inventory list" where
  "upsert_rows new k q rows =
     (if has_key inv_key k rows
      then update_where (\<lambda>r. inv_key r = k)
             (\<lambda>r. r\<lparr>inv_quantity := q, inv_version := inv_version r + 1\<rparr>) rows
      else rows @ [\<lparr>inv_id = new, inv_item_id = fst k, inv_warehouse_id = snd k,
                    inv_quantity = q, inv_locked_qty = 0, inv_version = 1\<rparr>])"

text \<open>\<open>INSERT INTO inventories .. ON CONFLICT (item_id, warehouse_id) DO UPDATE\<close>.\<close>

definition upsert_inventory :: "int \<Rightarrow> int \<Rightarrow> int \<Rightarrow> int \<Rightarrow> unit m" where
  "upsert_inventory new item_id warehouse_id q =
     bindM (getsM (\<lambda>s. lookup_by inv_key (item_id, warehouse_id) (inventories s))) (\<lambda>old.
     case old of
       Some r \<Rightarrow>
         seqM (guardM (in_i64 (inv_version r + 1)) (EDb NumericOutOfRange))
              (modM (\<lambda>s. s\<lparr>inventories := upsert_rows new (item_id, warehouse_id) q (inventories s)\<rparr>))
     | None \<Rightarrow>
         insert_row True (\<lambda>s. \<not> has_key inv_id new (inventories s))
           (\<lambda>s. has_key it_id item_id (items s) \<and> has_key wh_id warehouse_id (warehouses s))
           (\<lambda>s. s\<lparr>inventories := upsert_rows new (item_id, warehouse_id) q (inventories s)\<rparr>))"

definition upsert_and_log :: "env \<Rightarrow> ledger_command \<Rightarrow> int \<Rightarrow> int \<Rightarrow> unit m" where
  "upsert_and_log env cmd new_quantity before_qty =
     bindM (new_id env) (\<lambda>inv_id.
     seqM (upsert_inventory inv_id (lc_item_id cmd) (lc_warehouse_id cmd) new_quantity)
          (write_transaction env cmd before_qty new_quantity))"

definition receive :: "env \<Rightarrow> ledger_command \<Rightarrow> unit m" where
  "receive env cmd =
     bindM (read_qty (lc_item_id cmd) (lc_warehouse_id cmd)) (\<lambda>before_qty.
     let after_qty = i64_add before_qty (lc_quantity cmd) in
     upsert_and_log env cmd after_qty before_qty)"

definition force_issue :: "env \<Rightarrow> ledger_command \<Rightarrow> unit m" where
  "force_issue env cmd =
     bindM (read_qty (lc_item_id cmd) (lc_warehouse_id cmd)) (\<lambda>before_qty.
     let after_qty = i64_sub before_qty (lc_quantity cmd) in
     upsert_and_log env cmd after_qty before_qty)"

definition issue :: "env \<Rightarrow> ledger_command \<Rightarrow> unit m" where
  "issue env cmd =
     bindM (read_qty (lc_item_id cmd) (lc_warehouse_id cmd)) (\<lambda>before_qty.
     seqM (guardM (\<not> before_qty < lc_quantity cmd) (EInventory InsufficientInventory))
     (let after_qty = i64_sub before_qty (lc_quantity cmd) in
      upsert_and_log env cmd after_qty before_qty))"

definition adjust :: "env \<Rightarrow> int \<Rightarrow> int \<Rightarrow> int \<Rightarrow> string \<Rightarrow> int \<Rightarrow> unit m" where
  "adjust env item_id warehouse_id new_quantity reference_type reference_id =
     bindM (read_qty item_id warehouse_id) (\<lambda>before_qty.
     let adjustment = i64_sub new_quantity before_qty in
     if adjustment = 0 then retM ()
     else
       let cmd = \<lparr>lc_item_id = item_id, lc_warehouse_id = warehouse_id, lc_quantity = adjustment,
                  lc_tx_type = InventoryCheck, lc_reference_type = reference_type,
                  lc_reference_id = reference_id, lc_batch_number = None\<rparr> in
       upsert_and_log env cmd new_quantity before_qty)"

definition transfer ::
  "env \<Rightarrow> int \<Rightarrow> int \<Rightarrow> int \<Rightarrow> int \<Rightarrow> int \<Rightarrow> string option \<Rightarrow> unit m" where
  "transfer env item_id from_warehouse_id to_warehouse_id quantity reference_id batch_number =
     seqM (issue env \<lparr>lc_item_id = item_id, lc_warehouse_id = from_warehouse_id,
                      lc_quantity = quantity, lc_tx_type = TransferOut,
                      lc_reference_type = ''stock_transfer_out'', lc_reference_id = reference_id,
                      lc_batch_number = batch_number\<rparr>)
          (receive env \<lparr>lc_item_id = item_id, lc_warehouse_id = to_warehouse_id,
                        lc_quantity = quantity, lc_tx_type = TransferIn,
                        lc_reference_type = ''stock_transfer_in'', lc_reference_id = reference_id,
                        lc_batch_number = batch_number\<rparr>)"

section \<open>The abstract view\<close>

definition stock :: "db \<Rightarrow> int \<times> int \<Rightarrow> int" where
  "stock s k = (case lookup_by inv_key k (inventories s) of None \<Rightarrow> 0 | Some r \<Rightarrow> inv_quantity r)"

lemma stock_cong: "inventories s = inventories t \<Longrightarrow> stock s = stock t"
  by (simp add: stock_def fun_eq_iff)

lemma stock_upd [simp]: "stock (s\<lparr>inventory_transactions := x\<rparr>) = stock s"
  "stock (s\<lparr>next_id := n\<rparr>) = stock s" "stock (s\<lparr>sequences := q\<rparr>) = stock s"
  "stock (s\<lparr>audit_logs := l\<rparr>) = stock s"
  by (auto intro: stock_cong)

lemma read_qty_OK:
  "read_qty i w s = (Inr q, t) \<longleftrightarrow> q = stock s (i, w) \<and> t = s"
  by (auto simp: read_qty_def monad_OK stock_def)

lemma wp_read_qty [wp]: "wpM (read_qty i w) Q E s = Q (stock s (i, w)) s"
  by (simp add: read_qty_def wp stock_def)

lemma pres_read_qty [pres_intros]: "pres I (read_qty i w)"
  by (simp add: read_qty_def pres_intros)

definition tx_row :: "int \<Rightarrow> ledger_command \<Rightarrow> int \<Rightarrow> int \<Rightarrow> inventory_transaction" where
  "tx_row n cmd b a =
     \<lparr>tx_id = n, tx_item_id = lc_item_id cmd, tx_warehouse_id = lc_warehouse_id cmd,
      tx_type = transaction_type_i16 (lc_tx_type cmd), tx_quantity = lc_quantity cmd,
      tx_batch_number = lc_batch_number cmd, tx_reference_type = lc_reference_type cmd,
      tx_reference_id = lc_reference_id cmd, tx_before_quantity = b, tx_after_quantity = a\<rparr>"

lemma tx_row_simps [simp]:
  "tx_key (tx_row n cmd b a) = lc_key cmd"
  "tx_before_quantity (tx_row n cmd b a) = b" "tx_after_quantity (tx_row n cmd b a) = a"
  "tx_quantity (tx_row n cmd b a) = lc_quantity cmd"
  "tx_type (tx_row n cmd b a) = transaction_type_i16 (lc_tx_type cmd)"
  by (simp_all add: tx_row_def tx_key_def lc_key_def)

text \<open>The state after a ledger entry: one row written, one entry appended, two identifiers used.\<close>

definition posted :: "env \<Rightarrow> ledger_command \<Rightarrow> int \<Rightarrow> int \<Rightarrow> db \<Rightarrow> db" where
  "posted env cmd a b s =
     s\<lparr>inventories := upsert_rows (env_tsid env (next_id s)) (lc_key cmd) a (inventories s),
       inventory_transactions := inventory_transactions s @
         [tx_row (env_tsid env (next_id s + 1)) cmd b a],
       next_id := next_id s + 2\<rparr>"

lemma upsert_inventory_OK:
  "upsert_inventory n i w q s = (Inr u, t) \<Longrightarrow>
   t = s\<lparr>inventories := upsert_rows n (i, w) q (inventories s)\<rparr>"
  by (auto simp: upsert_inventory_def monad_OK insert_row_OK split: option.splits)

lemma upsert_and_log_OK:
  assumes "upsert_and_log env cmd a b s = (Inr u, t)"
  shows "t = posted env cmd a b s"
  using assms
  by (auto simp: upsert_and_log_def write_transaction_def monad_OK new_id_OK insert_row_OK
      posted_def tx_row_def lc_key_def dest!: upsert_inventory_OK)

lemma lookup_upsert_rows:
  "lookup_by inv_key k' (upsert_rows n k q rows) =
   (if k' = k then
      (case lookup_by inv_key k rows of
         None \<Rightarrow> Some \<lparr>inv_id = n, inv_item_id = fst k, inv_warehouse_id = snd k,
                      inv_quantity = q, inv_locked_qty = 0, inv_version = 1\<rparr>
       | Some r \<Rightarrow> Some (r\<lparr>inv_quantity := q, inv_version := inv_version r + 1\<rparr>))
    else lookup_by inv_key k' rows)"
proof (cases "has_key inv_key k rows")
  case True
  then obtain r where r: "lookup_by inv_key k rows = Some r" by (auto simp: has_key_lookup)
  have "lookup_by inv_key k' (upsert_rows n k q rows) =
        map_option (\<lambda>r. if inv_key r = k then r\<lparr>inv_quantity := q, inv_version := inv_version r + 1\<rparr> else r)
          (lookup_by inv_key k' rows)"
    using True by (simp add: upsert_rows_def lookup_by_update_where inv_key_def)
  then show ?thesis using r lookup_by_SomeD [OF r]
    by (auto dest!: lookup_by_SomeD simp: map_option_case split: option.splits)
next
  case False
  then show ?thesis
    by (auto simp: upsert_rows_def has_key_lookup inv_key_def split: option.splits)
qed

lemma stock_posted [simp]: "stock (posted env cmd a b s) = (stock s)(lc_key cmd := a)"
  by (auto simp: stock_def posted_def lookup_upsert_rows fun_eq_iff split: option.splits)

lemma txs_posted [simp]:
  "inventory_transactions (posted env cmd a b s) =
   inventory_transactions s @ [tx_row (env_tsid env (next_id s + 1)) cmd b a]"
  by (simp add: posted_def)

lemma receive_OK:
  "receive env cmd s = (Inr u, t) \<Longrightarrow>
   t = posted env cmd (i64_add (stock s (lc_key cmd)) (lc_quantity cmd)) (stock s (lc_key cmd)) s"
  by (auto simp: receive_def monad_OK read_qty_OK Let_def lc_key_def dest!: upsert_and_log_OK)

lemma force_issue_OK:
  "force_issue env cmd s = (Inr u, t) \<Longrightarrow>
   t = posted env cmd (i64_sub (stock s (lc_key cmd)) (lc_quantity cmd)) (stock s (lc_key cmd)) s"
  by (auto simp: force_issue_def monad_OK read_qty_OK Let_def lc_key_def dest!: upsert_and_log_OK)

lemma issue_OK:
  "issue env cmd s = (Inr u, t) \<Longrightarrow>
   lc_quantity cmd \<le> stock s (lc_key cmd) \<and>
   t = posted env cmd (i64_sub (stock s (lc_key cmd)) (lc_quantity cmd)) (stock s (lc_key cmd)) s"
  by (auto simp: issue_def monad_OK read_qty_OK Let_def lc_key_def dest!: upsert_and_log_OK)

lemma issue_insufficient:
  "stock s (lc_key cmd) < lc_quantity cmd \<Longrightarrow>
   issue env cmd s = (Inl (EInventory InsufficientInventory), s)"
  by (simp add: issue_def read_qty_def monad_defs lc_key_def stock_def split: option.splits)

definition adjust_cmd :: "db \<Rightarrow> int \<Rightarrow> int \<Rightarrow> int \<Rightarrow> string \<Rightarrow> int \<Rightarrow> ledger_command" where
  "adjust_cmd s i w q rt ri =
     \<lparr>lc_item_id = i, lc_warehouse_id = w, lc_quantity = i64_sub q (stock s (i, w)),
      lc_tx_type = InventoryCheck, lc_reference_type = rt, lc_reference_id = ri,
      lc_batch_number = None\<rparr>"

lemma adjust_cmd_simps [simp]:
  "lc_key (adjust_cmd s i w q rt ri) = (i, w)"
  "lc_tx_type (adjust_cmd s i w q rt ri) = InventoryCheck"
  "lc_quantity (adjust_cmd s i w q rt ri) = i64_sub q (stock s (i, w))"
  by (simp_all add: lc_key_def adjust_cmd_def)

lemma adjust_OK:
  "adjust env i w q rt ri s = (Inr u, t) \<Longrightarrow>
   (if i64_sub q (stock s (i, w)) = 0 then t = s
    else t = posted env (adjust_cmd s i w q rt ri) q (stock s (i, w)) s)"
  by (auto simp: adjust_def monad_OK read_qty_OK Let_def adjust_cmd_def
      dest!: upsert_and_log_OK split: if_splits)

lemma adjust_stock:
  "adjust env i w q rt ri s = (Inr u, t) \<Longrightarrow> in_i64 q \<Longrightarrow> in_i64 (stock s (i, w)) \<Longrightarrow>
   stock t = (stock s)((i, w) := q)"
  by (auto dest!: adjust_OK simp: i64_sub_zero_iff split: if_splits)

section \<open>When a ledger entry can be written\<close>

definition ledger_ready :: "env \<Rightarrow> ledger_command \<Rightarrow> db \<Rightarrow> bool" where
  "ledger_ready env cmd s =
     (fits_opt 64 (lc_batch_number cmd) \<and> fits 32 (lc_reference_type cmd) \<and>
      has_key it_id (lc_item_id cmd) (items s) \<and> has_key wh_id (lc_warehouse_id cmd) (warehouses s) \<and>
      \<not> has_key inventory_transaction.tx_id (env_tsid env (next_id s + 1)) (inventory_transactions s) \<and>
      (case lookup_by inv_key (lc_key cmd) (inventories s) of
         None \<Rightarrow> \<not> has_key inv_id (env_tsid env (next_id s)) (inventories s)
       | Some r \<Rightarrow> in_i64 (inv_version r + 1)))"

lemma upsert_and_log_ready:
  assumes "ledger_ready env cmd s"
  shows "upsert_and_log env cmd a b s = (Inr (), posted env cmd a b s)"
  using assms
  by (auto simp: upsert_and_log_def upsert_inventory_def write_transaction_def insert_row_def
      new_id_def monad_defs posted_def tx_row_def lc_key_def ledger_ready_def
      split: option.splits)

lemma receive_ready:
  "ledger_ready env cmd s \<Longrightarrow>
   receive env cmd s =
     (Inr (), posted env cmd (i64_add (stock s (lc_key cmd)) (lc_quantity cmd)) (stock s (lc_key cmd)) s)"
  by (simp add: receive_def bindM_def read_qty_def getsM_def retM_def Let_def
      upsert_and_log_ready stock_def lc_key_def)

lemma issue_ready:
  "ledger_ready env cmd s \<Longrightarrow> lc_quantity cmd \<le> stock s (lc_key cmd) \<Longrightarrow>
   issue env cmd s =
     (Inr (), posted env cmd (i64_sub (stock s (lc_key cmd)) (lc_quantity cmd)) (stock s (lc_key cmd)) s)"
  by (simp add: issue_def seqM_def guardM_def bindM_def read_qty_def getsM_def retM_def Let_def
      upsert_and_log_ready stock_def lc_key_def)

section \<open>The ledger invariant\<close>

text \<open>The direction of an entry, by its type.\<close>

definition signed_qty :: "inventory_transaction \<Rightarrow> int" where
  "signed_qty t = (if tx_type t \<in> {2, 4, 6, 7} then - tx_quantity t else tx_quantity t)"

definition tx_balanced :: "inventory_transaction \<Rightarrow> bool" where
  "tx_balanced t = eq64 (tx_after_quantity t) (tx_before_quantity t + signed_qty t)"

fun chained :: "int \<Rightarrow> inventory_transaction list \<Rightarrow> int \<Rightarrow> bool" where
  "chained a [] b = (a = b)"
| "chained a (t # ts) b = (tx_before_quantity t = a \<and> chained (tx_after_quantity t) ts b)"

definition log_of :: "db \<Rightarrow> int \<times> int \<Rightarrow> inventory_transaction list" where
  "log_of s k = filter (\<lambda>t. tx_key t = k) (inventory_transactions s)"

definition ledger_inv :: "db \<Rightarrow> bool" where
  "ledger_inv s =
     (distinct (map inv_key (inventories s)) \<and>
      (\<forall>k. chained 0 (log_of s k) (stock s k)) \<and>
      (\<forall>t \<in> set (inventory_transactions s). tx_balanced t))"

lemma ledger_invD:
  assumes "ledger_inv s"
  shows "chained 0 (log_of s k) (stock s k)" "\<forall>t \<in> set (log_of s k). tx_balanced t"
proof -
  show "chained 0 (log_of s k) (stock s k)" using assms unfolding ledger_inv_def by blast
  show "\<forall>t \<in> set (log_of s k). tx_balanced t" using assms by (simp add: ledger_inv_def log_of_def)
qed

lemma ledger_inv_cong:
  "inventories s = inventories t \<Longrightarrow> inventory_transactions s = inventory_transactions t \<Longrightarrow>
   ledger_inv s = ledger_inv t"
  by (simp add: ledger_inv_def log_of_def stock_def)

lemma ledger_inv_empty: "ledger_inv empty_db"
  by (simp add: ledger_inv_def empty_db_def log_of_def stock_def)

lemma chained_snoc: "chained a (ts @ [t]) b \<longleftrightarrow> chained a ts (tx_before_quantity t) \<and> tx_after_quantity t = b"
  by (induction ts arbitrary: a) auto

lemma chained_sum:
  assumes "chained a ts b" "\<forall>t \<in> set ts. tx_balanced t"
  shows "eq64 b (a + sum_list (map signed_qty ts))"
  using assms
proof (induction ts arbitrary: a)
  case (Cons t ts)
  then have "eq64 b (tx_after_quantity t + sum_list (map signed_qty ts))" by simp
  also have "eq64 \<dots> (a + signed_qty t + sum_list (map signed_qty ts))"
    using Cons.prems by (auto intro!: eq64_add simp: tx_balanced_def)
  finally show ?case by (simp add: algebra_simps)
qed simp

lemma distinct_upsert_rows:
  "distinct (map inv_key rows) \<Longrightarrow> distinct (map inv_key (upsert_rows n k q rows))"
proof (cases "has_key inv_key k rows")
  case True
  then show "distinct (map inv_key rows) \<Longrightarrow> ?thesis"
    by (simp add: upsert_rows_def map_update_where inv_key_def)
next
  case False
  then show "distinct (map inv_key rows) \<Longrightarrow> ?thesis"
    by (auto simp: upsert_rows_def has_key_def inv_key_def)
qed

lemma ledger_inv_posted:
  assumes "ledger_inv s" "b = stock s (lc_key cmd)"
    and "tx_balanced (tx_row (env_tsid env (next_id s + 1)) cmd b a)"
  shows "ledger_inv (posted env cmd a b s)"
  unfolding ledger_inv_def
proof (intro conjI allI)
  show "distinct (map inv_key (inventories (posted env cmd a b s)))"
    using assms(1) by (simp add: ledger_inv_def posted_def distinct_upsert_rows)
  show "chained 0 (log_of (posted env cmd a b s) k) (stock (posted env cmd a b s) k)" for k
    using assms(1,2)
    by (simp add: ledger_inv_def log_of_def chained_snoc del: split_paired_All)
  show "\<forall>t \<in> set (inventory_transactions (posted env cmd a b s)). tx_balanced t"
    using assms(1,3) by (simp add: ledger_inv_def)
qed

definition inbound :: "transaction_type \<Rightarrow> bool" where
  "inbound x = (x \<in> {Inbound, TransferIn, InventoryCheck})"

lemma signed_tx_row:
  "signed_qty (tx_row n cmd b a) =
   (if inbound (lc_tx_type cmd) then lc_quantity cmd else - lc_quantity cmd)"
  by (cases "lc_tx_type cmd") (simp_all add: signed_qty_def inbound_def)

lemma okp_receive [okp_intros]: "inbound (lc_tx_type cmd) \<Longrightarrow> okp ledger_inv (receive env cmd)"
  by (auto intro!: okpI ledger_inv_posted dest!: receive_OK simp: tx_balanced_def signed_tx_row)

lemma okp_force_issue [okp_intros]:
  "\<not> inbound (lc_tx_type cmd) \<Longrightarrow> okp ledger_inv (force_issue env cmd)"
  by (auto intro!: okpI ledger_inv_posted dest!: force_issue_OK simp: tx_balanced_def signed_tx_row)

lemma okp_issue [okp_intros]: "\<not> inbound (lc_tx_type cmd) \<Longrightarrow> okp ledger_inv (issue env cmd)"
  by (auto intro!: okpI ledger_inv_posted dest!: issue_OK simp: tx_balanced_def signed_tx_row)

lemma eq64_back: "eq64 q (b + i64_sub q b)"
proof -
  have "eq64 (b + i64_sub q b) (b + (q - b))" by (rule eq64_add) auto
  then show ?thesis by (auto intro: eq64_sym)
qed

text \<open>A wrapped change of one summand changes a sum by the unwrapped amount, modulo \<open>2^64\<close>.\<close>

lemma eq64_delta:
  "eq64 (x + (i64_sub a q - a)) (x + - q)" "eq64 (x + (i64_add a q - a)) (x + q)"
proof -
  have "eq64 (x + (i64_sub a q - a)) (x + (a - q - a))" by (intro eq64_add eq64_diff) auto
  then show "eq64 (x + (i64_sub a q - a)) (x + - q)" by (simp add: algebra_simps)
  have "eq64 (x + (i64_add a q - a)) (x + (a + q - a))" by (intro eq64_add eq64_diff) auto
  then show "eq64 (x + (i64_add a q - a)) (x + q)" by (simp add: algebra_simps)
qed

lemma okp_adjust [okp_intros]: "okp ledger_inv (adjust env i w q rt ri)"
proof (rule okpI)
  fix s a t
  assume "ledger_inv s" "adjust env i w q rt ri s = (Inr a, t)"
  then show "ledger_inv t"
    by (auto intro!: ledger_inv_posted dest!: adjust_OK split: if_splits
        simp: tx_balanced_def signed_tx_row inbound_def eq64_back)
qed

lemma okp_transfer [okp_intros]: "okp ledger_inv (transfer env i f w q ri b)"
  unfolding transfer_def by (intro okp_intros) (simp_all add: inbound_def)

text \<open>
  A predicate every posting keeps: one that does not look at the ledger's tables, or one that only
  asks for postings to be added, or for a posting with a new identifier.
\<close>

definition fresh_tx :: "env \<Rightarrow> db \<Rightarrow> bool" where
  "fresh_tx env s = (\<not> has_key inventory_transaction.tx_id (env_tsid env (next_id s + 1)) (inventory_transactions s))"

definition ledger_blind :: "(db \<Rightarrow> bool) \<Rightarrow> bool" where
  "ledger_blind I = (\<forall>env cmd a b s. I s \<longrightarrow> fresh_tx env s \<longrightarrow> I (posted env cmd a b s))"

lemma upsert_and_log_fresh: "upsert_and_log env cmd a b s = (Inr u, t) \<Longrightarrow> fresh_tx env s"
  by (auto simp: upsert_and_log_def write_transaction_def monad_OK new_id_OK insert_row_OK fresh_tx_def
      dest!: upsert_inventory_OK)

lemma okp_upsert_and_log: "ledger_blind I \<Longrightarrow> okp I (upsert_and_log env cmd a b)"
  by (rule okpI, frule upsert_and_log_fresh, drule upsert_and_log_OK) (simp add: ledger_blind_def)

lemma okp_ledger_blind:
  assumes "ledger_blind I"
  shows "okp I (receive env cmd)" "okp I (force_issue env cmd)" "okp I (issue env cmd)"
    "okp I (adjust env i w q rt ri)" "okp I (transfer env i f w q ri b)"
proof -
  note u = okp_upsert_and_log [OF assms]
  show r: "okp I (receive env cmd)" for cmd
    unfolding receive_def Let_def by (intro okp_intros u pres_okp pres_read_qty)
  show "okp I (force_issue env cmd)"
    unfolding force_issue_def Let_def by (intro okp_intros u pres_okp pres_read_qty)
  show i: "okp I (issue env cmd)" for cmd
    unfolding issue_def Let_def by (intro okp_intros u pres_okp pres_read_qty)
  show "okp I (adjust env i w q rt ri)"
    unfolding adjust_def Let_def by (intro okp_intros u pres_okp pres_read_qty)
  show "okp I (transfer env i f w q ri b)" unfolding transfer_def by (intro okp_seq i r)
qed

section \<open>Totals of an item over all warehouses\<close>

definition item_rows_total :: "int \<Rightarrow> inventory list \<Rightarrow> int" where
  "item_rows_total i rows = sum_list (map inv_quantity (filter (\<lambda>r. inv_item_id r = i) rows))"

definition item_total :: "db \<Rightarrow> int \<Rightarrow> int" where
  "item_total s i = item_rows_total i (inventories s)"

definition row_qty :: "inventory list \<Rightarrow> int \<times> int \<Rightarrow> int" where
  "row_qty rows k = (case lookup_by inv_key k rows of None \<Rightarrow> 0 | Some r \<Rightarrow> inv_quantity r)"

lemma stock_row: "stock s = row_qty (inventories s)"
  by (simp add: stock_def row_qty_def fun_eq_iff)

lemma row_qty_upsert: "row_qty (upsert_rows n k q rows) = (row_qty rows)(k := q)"
  by (auto simp: row_qty_def lookup_upsert_rows fun_eq_iff split: option.splits)

text \<open>The simplification of the stock of a state written as a chain of updates.\<close>

lemmas stock_simps = stock_row posted_def row_qty_upsert

lemma total_update:
  assumes "distinct (map inv_key rows)" "has_key inv_key k rows"
  shows "item_rows_total i (update_where (\<lambda>r. inv_key r = k)
             (\<lambda>r. r\<lparr>inv_quantity := q, inv_version := inv_version r + 1\<rparr>) rows)
         = item_rows_total i rows + (if fst k = i then q - row_qty rows k else 0)"
  using assms
proof (induction rows)
  case (Cons r rows)
  show ?case
  proof (cases "inv_key r = k")
    case True
    then have "\<forall>r' \<in> set rows. inv_key r' \<noteq> k" using Cons.prems by (auto simp: image_iff)
    then show ?thesis using True
      by (auto simp: update_where_none item_rows_total_def row_qty_def inv_key_def)
  next
    case False
    then show ?thesis using Cons by (auto simp: item_rows_total_def row_qty_def)
  qed
qed simp

lemma total_upsert:
  assumes "distinct (map inv_key rows)"
  shows "item_rows_total i (upsert_rows n k q rows) =
         item_rows_total i rows + (if fst k = i then q - row_qty rows k else 0)"
proof (cases "has_key inv_key k rows")
  case True
  then show ?thesis using total_update [OF assms True] by (simp add: upsert_rows_def)
next
  case False
  then show ?thesis
    by (auto simp: upsert_rows_def item_rows_total_def row_qty_def has_key_lookup)
qed

lemma item_total_posted:
  assumes "ledger_inv s"
  shows "item_total (posted env cmd a b s) i =
         item_total s i + (if lc_item_id cmd = i then a - stock s (lc_key cmd) else 0)"
  using assms total_upsert [of "inventories s" i _ "lc_key cmd" a]
  by (simp add: item_total_def posted_def ledger_inv_def stock_def row_qty_def lc_key_def)

section \<open>Sequences of movements\<close>

text \<open>
  The interface of the line loops of the other domains: a step of the loop moves the stock of
  every item and warehouse by a known amount, whatever wraps.  Its clients get the stock after
  the whole loop.
\<close>

locale stock_moves =
  fixes move :: "'x \<Rightarrow> unit m"
    and delta :: "'x \<Rightarrow> int \<times> int \<Rightarrow> int"
  assumes move_stock: "move x s = (Inr (), t) \<Longrightarrow> eq64 (stock t k) (stock s k + delta x k)"
begin

lemma loop_stock:
  "forM xs move s = (Inr (), t) \<Longrightarrow> eq64 (stock t k) (stock s k + sum_list (map (\<lambda>x. delta x k) xs))"
proof (induction xs arbitrary: s)
  case Nil
  then show ?case by (simp add: monad_OK)
next
  case (Cons x xs)
  then obtain u where u: "move x s = (Inr (), u)" "forM xs move u = (Inr (), t)"
    by (auto simp: monad_OK)
  have "eq64 (stock t k) (stock u k + sum_list (map (\<lambda>x. delta x k) xs))" using u(2) by (rule Cons.IH)
  also have "eq64 \<dots> (stock s k + delta x k + sum_list (map (\<lambda>x. delta x k) xs))"
    by (rule eq64_add [OF move_stock [OF u(1)] eq64_refl])
  finally show ?case by (simp add: algebra_simps)
qed

end

text \<open>Statements that leave the stock alone, and programs that move it by a known amount.\<close>

definition quiet :: "'a m \<Rightarrow> bool" where
  "quiet m = (\<forall>c. okp (\<lambda>s. stock s = c) m)"

definition moves :: "int \<times> int \<Rightarrow> int \<Rightarrow> 'a m \<Rightarrow> bool" where
  "moves k d m = (\<forall>s a t. m s = (Inr a, t) \<longrightarrow> eq64 (stock t k) (stock s k + d))"

lemma quietI: "(\<And>c. okp (\<lambda>s. stock s = c) m) \<Longrightarrow> quiet m"
  by (simp add: quiet_def)

lemma quiet_stock: "quiet m \<Longrightarrow> m s = (Inr a, t) \<Longrightarrow> stock t = stock s"
  by (auto simp: quiet_def okp_def)

lemma movesD: "moves k d m \<Longrightarrow> m s = (Inr a, t) \<Longrightarrow> eq64 (stock t k) (stock s k + d)"
  by (simp add: moves_def)

lemma moves_after: "quiet m \<Longrightarrow> (\<And>a. moves k d (f a)) \<Longrightarrow> moves k d (bindM m f)"
  by (fastforce simp: moves_def bindM_OK dest: quiet_stock)

lemma moves_after_seq: "quiet m \<Longrightarrow> moves k d n \<Longrightarrow> moves k d (seqM m n)"
  by (fastforce simp: moves_def seqM_OK dest: quiet_stock)

lemma moves_before: "moves k d m \<Longrightarrow> quiet n \<Longrightarrow> moves k d (seqM m n)"
  by (fastforce simp: moves_def seqM_OK dest: quiet_stock)

lemma moves_txn: "moves k d m \<Longrightarrow> moves k d (txnM keep m)"
  by (simp add: moves_def txnM_OK)

lemma stock_admin: "admin (\<lambda>s. stock s = c)"
  by (simp add: admin_def ignores_def stock_def fun_eq_iff)

definition at :: "int \<times> int \<Rightarrow> int \<Rightarrow> int \<times> int \<Rightarrow> int" where
  "at k0 q k = (if k = k0 then q else 0)"

lemma receive_moves:
  "receive env cmd s = (Inr (), t) \<Longrightarrow> eq64 (stock t k) (stock s k + at (lc_key cmd) (lc_quantity cmd) k)"
  by (auto dest!: receive_OK simp: at_def)

lemma force_issue_moves:
  "force_issue env cmd s = (Inr (), t) \<Longrightarrow> eq64 (stock t k) (stock s k + at (lc_key cmd) (- lc_quantity cmd) k)"
  using eq64_i64(2) by (auto dest!: force_issue_OK simp: at_def)

lemma issue_moves:
  "issue env cmd s = (Inr (), t) \<Longrightarrow> eq64 (stock t k) (stock s k + at (lc_key cmd) (- lc_quantity cmd) k)"
  using eq64_i64(2) by (auto dest!: issue_OK simp: at_def)

lemma transfer_moves:
  assumes "transfer env i f w q ri b s = (Inr (), t)"
  shows "eq64 (stock t k) (stock s k + (at (i, f) (- q) k + at (i, w) q k))"
proof -
  obtain u where u: "eq64 (stock u k) (stock s k + at (i, f) (- q) k)"
    "eq64 (stock t k) (stock u k + at (i, w) q k)"
    using assms by (fastforce simp: transfer_def monad_OK lc_key_def
        dest!: issue_moves [of _ _ _ _ k] receive_moves [of _ _ _ _ k])
  have "eq64 (stock t k) (stock s k + at (i, f) (- q) k + at (i, w) q k)"
    using u eq64_trans eq64_add [OF u(1) eq64_refl] by blast
  then show ?thesis by (simp add: algebra_simps)
qed

end
