(* ===== verification/Demo.thy ===== *)
theory Demo
  imports Database
begin

text \<open>
  Concrete data on which the witnesses run the endpoints: an environment whose clocks stand
  still and whose identifiers count up from 1000, an operator, and a small
  database with master data and one document of every kind.
\<close>

definition demo_env :: env where
  "demo_env = \<lparr>env_now = 5000, env_pg_now = 5000, env_utc_date = 50, env_local_date = 50,
     env_pg_date = 50, env_ymd = ''20260101'', env_tsid = (\<lambda>n. 1000 + int n),
     env_order = (\<lambda>n. [0..<n])\<rparr>"

definition demo_op :: operator where
  "demo_op = \<lparr>op_operator_id = 7, op_ip = None, op_user_agent = None\<rparr>"

definition demo_item :: "int \<Rightarrow> string \<Rightarrow> item_row" where
  "demo_item k c = \<lparr>it_id = k, it_code = c, it_name = c, it_category_id = None, it_item_type = 1,
     it_base_unit = ''kg'', it_parent_item_id = None, it_spec = None, it_is_active = True,
     it_version = 1, it_reorder_point = 0, it_safety_stock = 0\<rparr>"

definition demo_warehouse :: "int \<Rightarrow> string \<Rightarrow> warehouse_row" where
  "demo_warehouse k c = \<lparr>wh_id = k, wh_code = c, wh_name = c, wh_type = 1, wh_is_active = True\<rparr>"

definition demo_inventory :: "int \<Rightarrow> int \<Rightarrow> int \<Rightarrow> int \<Rightarrow> inventory" where
  "demo_inventory k i w q = \<lparr>inv_id = k, inv_item_id = i, inv_warehouse_id = w, inv_quantity = q,
     inv_locked_qty = 0, inv_version = 1\<rparr>"

definition demo_tx :: "int \<Rightarrow> int \<Rightarrow> int \<Rightarrow> int \<Rightarrow> inventory_transaction" where
  "demo_tx k i w q = \<lparr>tx_id = k, tx_item_id = i, tx_warehouse_id = w, tx_type = 5, tx_quantity = q,
     tx_batch_number = None, tx_reference_type = ''inventory_initial'', tx_reference_id = 900,
     tx_before_quantity = 0, tx_after_quantity = q\<rparr>"

definition demo_db :: db where
  "demo_db = empty_db\<lparr>
     items := [demo_item 1 ''RAW-000001'', demo_item 2 ''PRD-000001''],
     warehouses := [demo_warehouse 11 ''WH-001'', demo_warehouse 12 ''WH-002''],
     suppliers := [\<lparr>su_id = 21, su_code = ''S-000001'', su_name = ''S'', su_contact_person = None,
        su_phone = None, su_address = None, su_payment_terms = None, su_is_active = True\<rparr>],
     customers := [\<lparr>cu_id = 31, cu_code = ''C-000001'', cu_name = ''C'', cu_contact_person = None,
        cu_phone = None, cu_address = None, cu_payment_terms = None, cu_is_active = True\<rparr>],
     inventories := [demo_inventory 41 1 11 500],
     inventory_transactions := [demo_tx 42 1 11 500],
     item_costs := [\<lparr>co_id = 43, co_item_id = 1, co_cost_type = 10, co_unit_cost = 20,
        co_currency = Some ''CNY'', co_effective_at = 1, co_is_current = True, co_remark = None\<rparr>],
     stock_transfers := [\<lparr>st_id = 51, st_code = ''TRF-20251231-000001'', st_from_warehouse_id = 11,
        st_to_warehouse_id = 12, st_status = 1, st_transfer_date = 40, st_remark = None,
        st_approved_at = None, st_approved_by = None\<rparr>],
     stock_transfer_items := [\<lparr>sti_id = 52, sti_transfer_id = 51, sti_item_id = 1, sti_quantity = 200,
        sti_batch_number = None\<rparr>],
     inventory_checks := [\<lparr>ck_id = 53, ck_code = ''CHK-20251231-000001'', ck_warehouse_id = 11,
        ck_status = 1, ck_plan_date = 40, ck_remark = None, ck_approved_at = None,
        ck_actual_date = None, ck_approved_by = None\<rparr>],
     inventory_check_items := [\<lparr>cki_id = 54, cki_check_id = 53, cki_item_id = 1, cki_book_qty = 500,
        cki_actual_qty = 480, cki_diff_qty = - 20, cki_remark = None\<rparr>],
     purchase_orders := [\<lparr>po_id = 61, po_code = ''PO-20251231-000001'', po_supplier_id = 21,
        po_status = 3, po_order_date = 40, po_expected_delivery_date = None, po_currency = ''CNY'',
        po_total_amount = 3000, po_payment_terms = None, po_remark = None, po_created_by = None,
        po_approved_by = None, po_approved_at = Some 41, po_rejected_at = None\<rparr>],
     purchase_order_lines := [\<lparr>pl_id = 62, pl_order_id = 61, pl_line_no = 1, pl_item_id = 1,
        pl_quantity = 100, pl_unit = ''kg'', pl_unit_price = 30, pl_line_total = 3000,
        pl_received_qty = 0, pl_returned_qty = 0, pl_closed = False, pl_remark = None\<rparr>],
     sales_orders := [\<lparr>so_id = 71, so_code = ''SO-20251231-000001'', so_customer_id = 31,
        so_status = 3, so_order_date = 40, so_currency = ''CNY'', so_total_amount = 4000,
        so_remark = None, so_created_by = None, so_approved_by = None, so_approved_at = Some 41,
        so_rejected_at = None\<rparr>],
     sales_order_lines := [\<lparr>sl_id = 72, sl_order_id = 71, sl_line_no = 1, sl_item_id = 1,
        sl_quantity = 80, sl_unit = ''kg'', sl_unit_price = 50, sl_line_total = 4000,
        sl_delivered_qty = 0, sl_returned_qty = 0, sl_closed = False, sl_remark = None\<rparr>],
     sales_invoices := [\<lparr>si_id = 73, si_code = ''SINV-20251231-000001'', si_order_id = 71,
        si_customer_id = 31, si_invoice_number = None, si_invoice_date = Some 10, si_amount = 900,
        si_tax_amount = 100, si_total_amount = 1000, si_status = 0, si_remark = None,
        si_paid_amount = 0\<rparr>],
     boms := [\<lparr>bm_id = 81, bm_code = ''BOM-20251231-000001'', bm_name = ''B'', bm_item_id = 2,
        bm_version = 1, bm_status = 1, bm_total_qty = 1, bm_remark = None\<rparr>],
     bom_items := [\<lparr>bi_id = 82, bi_bom_id = 81, bi_item_id = 1, bi_quantity = 3, bi_unit = ''kg'',
        bi_wastage_rate = Some 500, bi_parent_item_id = None, bi_sort_order = 0, bi_remark = None\<rparr>],
     work_orders := [\<lparr>wo_id = 83, wo_code = ''MO-20251231-000001'', wo_bom_id = 81, wo_item_id = 2,
        wo_planned_qty = 10, wo_completed_qty = 0, wo_scrap_qty = 0, wo_status = 1,
        wo_due_date = None, wo_remark = None\<rparr>],
     work_order_materials := [\<lparr>wm_id = 84, wm_work_order_id = 83, wm_item_id = 1,
        wm_required_qty = 30, wm_picked_qty = Some 0, wm_warehouse_id = None\<rparr>]
     \<rparr>"

lemmas demo_rows = demo_item_def demo_warehouse_def demo_inventory_def demo_tx_def

lemma demo_order_ok: "order_ok demo_env"
  by (auto simp: order_ok_def demo_env_def)

end
