(* ===== verification/Planning.thy ===== *)
theory Planning
  imports Ledger Demo
begin

text \<open>
  Planning, \<open>features/planning\<close> and \<open>features/planning_contract\<close>: stock and goods in transit per item,
  purchase suggestions, reorder alerts and the material requirements.  All of it only reads.

  A sum in SQL is a \<open>NUMERIC\<close> that is cast back to \<open>BIGINT\<close>; a product or difference of columns is a
  \<open>BIGINT\<close> from the start.  Either can be out of range, which fails the query.
\<close>

section \<open>Stock and transit\<close>

record item_stock_aggregate =
  ag_item_id :: int
  ag_item_code :: string
  ag_item_name :: string
  ag_item_type :: int
  ag_safety_stock :: int
  ag_reorder_point :: int
  ag_current_stock :: int
  ag_in_transit_qty :: int

text \<open>\<open>COALESCE(SUM(terms), 0)::BIGINT\<close> over \<open>BIGINT\<close> terms.\<close>

definition pg_sum :: "int list \<Rightarrow> int m" where
  "pg_sum terms = seqM (guardM (list_all in_i64 terms) (EDb NumericOutOfRange)) (pg_bigint (sum_list terms))"

definition PURCHASE_ORDER_APPROVED :: int where "PURCHASE_ORDER_APPROVED = 3"
definition BOM_RELEASED :: int where "BOM_RELEASED = 1"

text \<open>The open quantities of the lines of approved orders, joined with their orders.\<close>

definition transit_terms :: "int \<Rightarrow> db \<Rightarrow> int list" where
  "transit_terms i s =
     concat (map (\<lambda>l. map (\<lambda>_. pl_quantity l - pl_received_qty l)
                        (filter (\<lambda>po. po_id po = pl_order_id l \<and> po_status po = PURCHASE_ORDER_APPROVED) (purchase_orders s)))
              (filter (\<lambda>l. pl_item_id l = i \<and> pl_quantity l > pl_received_qty l) (purchase_order_lines s)))"

definition stock_terms :: "int \<Rightarrow> db \<Rightarrow> int list" where
  "stock_terms i s = map inv_quantity (filter (\<lambda>r. inv_item_id r = i) (inventories s))"

definition aggregate_row :: "item_row \<Rightarrow> item_stock_aggregate m" where
  "aggregate_row r =
     bindM (getsM (stock_terms (it_id r))) (\<lambda>st. bindM (pg_sum st) (\<lambda>current.
     bindM (getsM (transit_terms (it_id r))) (\<lambda>tr. bindM (pg_sum tr) (\<lambda>in_transit.
     retM \<lparr>ag_item_id = it_id r, ag_item_code = it_code r, ag_item_name = it_name r,
           ag_item_type = it_item_type r, ag_safety_stock = it_safety_stock r,
           ag_reorder_point = it_reorder_point r, ag_current_stock = current,
           ag_in_transit_qty = in_transit\<rparr>))))"

fun mapM :: "('x \<Rightarrow> 'a m) \<Rightarrow> 'x list \<Rightarrow> 'a list m" where
  "mapM f [] = retM []"
| "mapM f (x # xs) = bindM (f x) (\<lambda>a. bindM (mapM f xs) (\<lambda>rest. retM (a # rest)))"

definition stock_and_transit :: "env \<Rightarrow> item_stock_aggregate list m" where
  "stock_and_transit env =
     bindM (getsM (\<lambda>s. scan env (filter it_is_active (items s)))) (\<lambda>rows. mapM aggregate_row rows)"

section \<open>Purchase suggestions and reorder alerts\<close>

record purchase_suggestion_item =
  ps_item_id :: int
  ps_item_code :: string
  ps_item_name :: string
  ps_current_stock :: int
  ps_in_transit_qty :: int
  ps_safety_stock :: int
  ps_suggested_qty :: int

definition suggestion_of :: "item_stock_aggregate \<Rightarrow> purchase_suggestion_item" where
  "suggestion_of a =
     \<lparr>ps_item_id = ag_item_id a, ps_item_code = ag_item_code a, ps_item_name = ag_item_name a,
      ps_current_stock = ag_current_stock a, ps_in_transit_qty = ag_in_transit_qty a,
      ps_safety_stock = ag_safety_stock a,
      ps_suggested_qty = max (i64_sub (i64_sub (ag_safety_stock a) (ag_current_stock a)) (ag_in_transit_qty a)) 0\<rparr>"

definition purchase_suggestion_list :: "env \<Rightarrow> purchase_suggestion_item list m" where
  "purchase_suggestion_list env =
     bindM (stock_and_transit env) (\<lambda>aggs.
     retM (sort_key (\<lambda>p. - ps_suggested_qty p)
       (filter (\<lambda>p. ps_suggested_qty p > 0)
         (map suggestion_of
           (filter (\<lambda>a. ag_item_type a = item_type_i16 Purchased \<and> ag_safety_stock a > 0) aggs)))))"

record reorder_alert_item =
  ra_item_id :: int
  ra_item_code :: string
  ra_item_name :: string
  ra_current_stock :: int
  ra_reorder_point :: int
  ra_shortage :: int

definition alert_of :: "item_stock_aggregate \<Rightarrow> reorder_alert_item" where
  "alert_of a =
     \<lparr>ra_item_id = ag_item_id a, ra_item_code = ag_item_code a, ra_item_name = ag_item_name a,
      ra_current_stock = ag_current_stock a, ra_reorder_point = ag_reorder_point a,
      ra_shortage = max (i64_sub (ag_reorder_point a) (ag_current_stock a)) 0\<rparr>"

definition reorder_alert_list :: "env \<Rightarrow> reorder_alert_item list m" where
  "reorder_alert_list env =
     bindM (stock_and_transit env) (\<lambda>aggs.
     retM (sort_key (\<lambda>a. - ra_shortage a)
       (map alert_of
         (filter (\<lambda>a. ag_reorder_point a > 0 \<and> ag_current_stock a < ag_reorder_point a) aggs))))"

section \<open>Material requirements\<close>

record mrp_item =
  mrp_item_id :: int
  mrp_item_code :: string
  mrp_item_name :: string
  mrp_gross_demand :: int
  mrp_current_stock :: int
  mrp_in_transit_qty :: int
  mrp_net_demand :: int
  mrp_safety_stock :: int
  mrp_suggested_order_qty :: int

text \<open>
  The demand for a raw item: for every open sales order line, every released bill of its item and every
  line of the bill for the raw item, the product of the quantities.
\<close>

definition demand_terms :: "int \<Rightarrow> db \<Rightarrow> int list" where
  "demand_terms i s =
     concat (map (\<lambda>sol. concat (map (\<lambda>_. concat (map (\<lambda>b.
         map (\<lambda>bi. sl_quantity sol * bi_quantity bi) (filter (\<lambda>bi. bi_bom_id bi = bm_id b \<and> bi_item_id bi = i) (bom_items s)))
         (filter (\<lambda>b. bm_item_id b = sl_item_id sol \<and> bm_status b = BOM_RELEASED) (boms s))))
         (filter (\<lambda>so. so_id so = sl_order_id sol) (sales_orders s))))
       (filter (\<lambda>sol. \<not> sl_closed sol) (sales_order_lines s)))"

definition requirement_row :: "item_row \<Rightarrow> mrp_item option m" where
  "requirement_row r =
     bindM (getsM (demand_terms (it_id r))) (\<lambda>dt. bindM (pg_sum dt) (\<lambda>gross.
     bindM (getsM (stock_terms (it_id r))) (\<lambda>st. bindM (pg_sum st) (\<lambda>current.
     bindM (getsM (transit_terms (it_id r))) (\<lambda>tr. bindM (pg_sum tr) (\<lambda>in_transit.
     seqM (guardM (dt \<noteq> [] \<or> in_i64 (current + in_transit)) (EDb NumericOutOfRange))
    (if dt \<noteq> [] \<or> it_safety_stock r > current + in_transit
     then seqM (guardM (in_i64 (gross - current) \<and> in_i64 (gross - current - in_transit)) (EDb NumericOutOfRange))
         (let net = max (gross - current - in_transit) 0 in
          retM (Some \<lparr>mrp_item_id = it_id r, mrp_item_code = it_code r, mrp_item_name = it_name r,
             mrp_gross_demand = gross, mrp_current_stock = current, mrp_in_transit_qty = in_transit,
             mrp_net_demand = net, mrp_safety_stock = it_safety_stock r,
             mrp_suggested_order_qty = i64_add net (it_safety_stock r)\<rparr>))
     else retM None)))))))"

definition mrp_calculate :: "env \<Rightarrow> mrp_item list m" where
  "mrp_calculate env =
     bindM (getsM (\<lambda>s. scan env (items s))) (\<lambda>rows.
     bindM (mapM requirement_row rows) (\<lambda>found.
     retM (sort_key (\<lambda>m. - mrp_net_demand m) (List.map_filter (\<lambda>x. x) found))))"

section \<open>What the lists hold\<close>

text \<open>The quantities the lists are about, as plain sums, and the rows the lists should have.\<close>

definition stock_of :: "db \<Rightarrow> item_row \<Rightarrow> int" where
  "stock_of s r = sum_list (stock_terms (it_id r) s)"

definition transit_of :: "db \<Rightarrow> item_row \<Rightarrow> int" where
  "transit_of s r = sum_list (transit_terms (it_id r) s)"

definition demand_of :: "db \<Rightarrow> item_row \<Rightarrow> int" where
  "demand_of s r = sum_list (demand_terms (it_id r) s)"

text \<open>Every term and sum about the item fits into 64 bits.\<close>

definition sums_fit :: "db \<Rightarrow> item_row \<Rightarrow> bool" where
  "sums_fit s r = (list_all in_i64 (stock_terms (it_id r) s) \<and> in_i64 (stock_of s r) \<and>
     list_all in_i64 (transit_terms (it_id r) s) \<and> in_i64 (transit_of s r) \<and>
     in_i64 (it_safety_stock r - stock_of s r) \<and>
     in_i64 (it_safety_stock r - stock_of s r - transit_of s r) \<and>
     in_i64 (it_reorder_point r - stock_of s r))"

definition demand_fits :: "db \<Rightarrow> item_row \<Rightarrow> bool" where
  "demand_fits s r = (sums_fit s r \<and>
     list_all in_i64 (demand_terms (it_id r) s) \<and> in_i64 (demand_of s r) \<and>
     in_i64 (stock_of s r + transit_of s r) \<and> in_i64 (demand_of s r - stock_of s r) \<and>
     in_i64 (demand_of s r - stock_of s r - transit_of s r) \<and>
     in_i64 (max (demand_of s r - stock_of s r - transit_of s r) 0 + it_safety_stock r))"

definition to_purchase :: "db \<Rightarrow> item_row \<Rightarrow> bool" where
  "to_purchase s r = (it_is_active r \<and> it_item_type r = item_type_i16 Purchased \<and> it_safety_stock r > 0 \<and>
     stock_of s r + transit_of s r < it_safety_stock r)"

definition suggested_row :: "db \<Rightarrow> item_row \<Rightarrow> purchase_suggestion_item" where
  "suggested_row s r =
     \<lparr>ps_item_id = it_id r, ps_item_code = it_code r, ps_item_name = it_name r,
      ps_current_stock = stock_of s r, ps_in_transit_qty = transit_of s r,
      ps_safety_stock = it_safety_stock r,
      ps_suggested_qty = it_safety_stock r - (stock_of s r + transit_of s r)\<rparr>"

definition to_reorder :: "db \<Rightarrow> item_row \<Rightarrow> bool" where
  "to_reorder s r = (it_is_active r \<and> it_reorder_point r > 0 \<and> stock_of s r < it_reorder_point r)"

definition reorder_row :: "db \<Rightarrow> item_row \<Rightarrow> reorder_alert_item" where
  "reorder_row s r =
     \<lparr>ra_item_id = it_id r, ra_item_code = it_code r, ra_item_name = it_name r,
      ra_current_stock = stock_of s r, ra_reorder_point = it_reorder_point r,
      ra_shortage = it_reorder_point r - stock_of s r\<rparr>"

definition to_plan :: "db \<Rightarrow> item_row \<Rightarrow> bool" where
  "to_plan s r = (demand_terms (it_id r) s \<noteq> [] \<or> stock_of s r + transit_of s r < it_safety_stock r)"

definition planned_row :: "db \<Rightarrow> item_row \<Rightarrow> mrp_item" where
  "planned_row s r = (let net = max (demand_of s r - stock_of s r - transit_of s r) 0 in
     \<lparr>mrp_item_id = it_id r, mrp_item_code = it_code r, mrp_item_name = it_name r,
      mrp_gross_demand = demand_of s r, mrp_current_stock = stock_of s r,
      mrp_in_transit_qty = transit_of s r, mrp_net_demand = net,
      mrp_safety_stock = it_safety_stock r, mrp_suggested_order_qty = net + it_safety_stock r\<rparr>)"

definition aggregate_of :: "db \<Rightarrow> item_row \<Rightarrow> item_stock_aggregate" where
  "aggregate_of s r =
     \<lparr>ag_item_id = it_id r, ag_item_code = it_code r, ag_item_name = it_name r,
      ag_item_type = it_item_type r, ag_safety_stock = it_safety_stock r,
      ag_reorder_point = it_reorder_point r, ag_current_stock = stock_of s r,
      ag_in_transit_qty = transit_of s r\<rparr>"

text \<open>The demonstration data with an item of purchased goods below its safety stock and an open order for the made item.\<close>

definition demo_planning :: db where
  "demo_planning = demo_db\<lparr>
     items := [demo_item 1 ''RAW-000001'', demo_item 2 ''PRD-000001'',
       (demo_item 3 ''PUR-000001'')\<lparr>it_item_type := 3, it_safety_stock := 50, it_reorder_point := 20\<rparr>],
     sales_order_lines := map (\<lambda>l. l\<lparr>sl_item_id := 2\<rparr>) (sales_order_lines demo_db)\<rparr>"

section \<open>Reading queries row by row\<close>

lemma mapM_pure: "(\<And>x. x \<in> set xs \<Longrightarrow> f x s = (Inr (g x), s)) \<Longrightarrow> mapM f xs s = (Inr (map g xs), s)"
  by (induction xs) (simp_all add: retM_def bindM_def)

lemma pg_sum_OK: "list_all in_i64 ts \<Longrightarrow> in_i64 (sum_list ts) \<Longrightarrow> pg_sum ts s = (Inr (sum_list ts), s)"
  by (simp add: pg_sum_def pg_bigint_def monad_defs)

lemma aggregate_row_fits: "sums_fit s r \<Longrightarrow> aggregate_row r s = (Inr (aggregate_of s r), s)"
  by (simp add: aggregate_row_def aggregate_of_def sums_fit_def stock_of_def transit_of_def pg_sum_OK
      bindM_def getsM_def retM_def)

lemma stock_and_transit_fits:
  assumes "order_ok env" "\<forall>r \<in> set (items s). it_is_active r \<longrightarrow> sums_fit s r"
  shows "stock_and_transit env s = (Inr (map (aggregate_of s) (scan env (filter it_is_active (items s)))), s)"
proof -
  have "mapM aggregate_row (scan env (filter it_is_active (items s))) s
      = (Inr (map (aggregate_of s) (scan env (filter it_is_active (items s)))), s)"
    by (rule mapM_pure) (use assms in \<open>auto simp: set_scan intro: aggregate_row_fits\<close>)
  then show ?thesis by (simp add: stock_and_transit_def bindM_def getsM_def)
qed

lemma suggestion_row:
  assumes "sums_fit s r"
  shows "suggestion_of (aggregate_of s r) = (suggested_row s r)
           \<lparr>ps_suggested_qty := max (it_safety_stock r - (stock_of s r + transit_of s r)) 0\<rparr>"
  using assms by (simp add: suggestion_of_def aggregate_of_def suggested_row_def sums_fit_def i64_sub_def algebra_simps)

lemma alert_row:
  assumes "sums_fit s r" "to_reorder s r"
  shows "alert_of (aggregate_of s r) = reorder_row s r"
  using assms by (simp add: alert_of_def aggregate_of_def reorder_row_def sums_fit_def to_reorder_def i64_sub_def)

lemma requirement_row_fits:
  assumes "demand_fits s r"
  shows "requirement_row r s = (Inr (if to_plan s r then Some (planned_row s r) else None), s)"
  using assms
  by (auto simp: requirement_row_def demand_fits_def sums_fit_def stock_of_def transit_of_def demand_of_def
      pg_sum_OK to_plan_def planned_row_def monad_defs Let_def i64_add_def algebra_simps)

lemma sorted_descending: "sorted_wrt (\<lambda>x y. f y \<le> f x) (sort_key (\<lambda>x. - f x :: int) xs)"
  using sorted_sort_key [of "\<lambda>x. - f x" xs] by (simp add: sorted_map)

lemma filter_keep_fits:
  assumes "\<And>r. r \<in> set rs \<Longrightarrow> sums_fit s r"
  shows "filter (\<lambda>p. ps_suggested_qty p > 0) (map suggestion_of
           (filter (\<lambda>a. ag_item_type a = item_type_i16 Purchased \<and> ag_safety_stock a > 0) (map (aggregate_of s) rs)))
       = map (suggested_row s) (filter (\<lambda>r. it_item_type r = item_type_i16 Purchased \<and> it_safety_stock r > 0 \<and>
           stock_of s r + transit_of s r < it_safety_stock r) rs)"
  using assms by (induction rs) (auto simp: suggestion_row suggested_row_def, auto simp: aggregate_of_def)

lemma filter_alerts_fit:
  assumes "\<And>r. r \<in> set rs \<Longrightarrow> sums_fit s r \<and> it_is_active r"
  shows "map alert_of (filter (\<lambda>a. ag_reorder_point a > 0 \<and> ag_current_stock a < ag_reorder_point a)
           (map (aggregate_of s) rs)) = map (reorder_row s) (filter (to_reorder s) rs)"
  using assms by (induction rs) (auto simp: alert_row, auto simp: aggregate_of_def to_reorder_def)

lemma map_filter_if: "List.map_filter (\<lambda>x. x) (map (\<lambda>r. if P r then Some (f r) else None) rs) = map f (filter P rs)"
  by (induction rs) (simp_all add: List.map_filter_simps)

lemma scan_filter_rows:
  assumes "order_ok env"
  shows "mset (map f (filter P (scan env (filter Q xs)))) = image_mset f (filter_mset (\<lambda>r. Q r \<and> P r) (mset xs))"
proof -
  have "mset (filter P (scan env (filter Q xs))) = filter_mset P (mset (scan env (filter Q xs)))" by simp
  also have "\<dots> = filter_mset P (filter_mset Q (mset xs))" using assms by (simp add: mset_scan)
  finally show ?thesis by (simp add: filter_filter_mset conj_commute)
qed

text \<open>
  C23. Whenever the sums fit into 64 bits, the purchase suggestions are exactly the active purchased items
  whose stock and open purchase quantity stay below a positive safety stock, each with the quantity that
  fills the gap, and the reorder alerts are exactly the active items whose stock is below a positive
  reorder point, each with its shortage.  Both lists descend by quantity, and nothing is written.
\<close>

theorem replenishment_lists_correct:
  assumes "order_ok env" and "\<forall>r \<in> set (items s). it_is_active r \<longrightarrow> sums_fit s r"
  shows "\<exists>ps ra. purchase_suggestion_list env s = (Inr ps, s) \<and> reorder_alert_list env s = (Inr ra, s)
     \<and> mset ps = image_mset (suggested_row s) (filter_mset (to_purchase s) (mset (items s)))
     \<and> mset ra = image_mset (reorder_row s) (filter_mset (to_reorder s) (mset (items s)))
     \<and> sorted_wrt (\<lambda>p q. ps_suggested_qty q \<le> ps_suggested_qty p) ps
     \<and> sorted_wrt (\<lambda>p q. ra_shortage q \<le> ra_shortage p) ra"
proof -
  let ?rows = "scan env (filter it_is_active (items s))"
  have fits: "sums_fit s r \<and> it_is_active r" if "r \<in> set ?rows" for r
    using that assms by (simp add: set_scan)
  note st = stock_and_transit_fits [OF assms]
  have ps: "purchase_suggestion_list env s = (Inr (sort_key (\<lambda>p. - ps_suggested_qty p)
      (map (suggested_row s) (filter (\<lambda>r. it_item_type r = item_type_i16 Purchased \<and> it_safety_stock r > 0 \<and>
           stock_of s r + transit_of s r < it_safety_stock r) ?rows))), s)"
    unfolding purchase_suggestion_list_def bindM_def st prod.case sum.case retM_def
    by (simp only: filter_keep_fits [of ?rows, OF fits [THEN conjunct1]])
  have ra: "reorder_alert_list env s
      = (Inr (sort_key (\<lambda>a. - ra_shortage a) (map (reorder_row s) (filter (to_reorder s) ?rows))), s)"
    unfolding reorder_alert_list_def bindM_def st prod.case sum.case retM_def
    by (simp only: filter_alerts_fit [of ?rows, OF fits])
  have "(\<lambda>r. it_is_active r \<and> it_item_type r = item_type_i16 Purchased \<and> it_safety_stock r > 0 \<and>
      stock_of s r + transit_of s r < it_safety_stock r) = to_purchase s"
    and "(\<lambda>r. it_is_active r \<and> to_reorder s r) = to_reorder s"
    by (auto simp: fun_eq_iff to_purchase_def to_reorder_def)
  then show ?thesis
    using ps ra by (simp add: scan_filter_rows [OF assms(1), unfolded mset_map mset_filter] sorted_descending)
qed

theorem replenishment_lists_correct_witness:
  "\<exists>ps ra. purchase_suggestion_list demo_env demo_planning = (Inr ps, demo_planning)
     \<and> reorder_alert_list demo_env demo_planning = (Inr ra, demo_planning)
     \<and> mset ps = image_mset (suggested_row demo_planning) (filter_mset (to_purchase demo_planning) (mset (items demo_planning)))
     \<and> mset ra = image_mset (reorder_row demo_planning) (filter_mset (to_reorder demo_planning) (mset (items demo_planning)))
     \<and> sorted_wrt (\<lambda>p q. ps_suggested_qty q \<le> ps_suggested_qty p) ps
     \<and> sorted_wrt (\<lambda>p q. ra_shortage q \<le> ra_shortage p) ra"
proof (rule replenishment_lists_correct [OF demo_order_ok])
  show "\<forall>r \<in> set (items demo_planning). it_is_active r \<longrightarrow> sums_fit demo_planning r" by code_simp
qed

text \<open>
  C24. Whenever the sums fit into 64 bits, the material requirements list exactly the items that an open
  sales order needs through a released bill of materials, and the items short of their safety stock, in
  descending order of the net demand.  The net demand is what is missing after the stock and the goods in
  transit are used, never less than zero, so a listed item's stock, transit and net demand together cover
  the gross demand; the order quantity adds the safety stock.
\<close>

theorem mrp_correct:
  assumes "order_ok env" and "\<forall>r \<in> set (items s). demand_fits s r"
  shows "\<exists>ms. mrp_calculate env s = (Inr ms, s)
     \<and> mset ms = image_mset (planned_row s) (filter_mset (to_plan s) (mset (items s)))
     \<and> sorted_wrt (\<lambda>p q. mrp_net_demand q \<le> mrp_net_demand p) ms
     \<and> (\<forall>m \<in> set ms. mrp_net_demand m \<ge> 0
          \<and> mrp_gross_demand m \<le> mrp_current_stock m + mrp_in_transit_qty m + mrp_net_demand m
          \<and> (mrp_net_demand m > 0 \<longrightarrow>
               mrp_gross_demand m = mrp_current_stock m + mrp_in_transit_qty m + mrp_net_demand m)
          \<and> mrp_suggested_order_qty m = mrp_net_demand m + mrp_safety_stock m)"
proof -
  let ?rows = "scan env (items s)"
  have "mapM requirement_row ?rows s
      = (Inr (map (\<lambda>r. if to_plan s r then Some (planned_row s r) else None) ?rows), s)"
    by (rule mapM_pure) (use assms in \<open>auto simp: set_scan requirement_row_fits\<close>)
  then have run: "mrp_calculate env s
      = (Inr (sort_key (\<lambda>m. - mrp_net_demand m) (map (planned_row s) (filter (to_plan s) ?rows))), s)"
    by (simp add: mrp_calculate_def bindM_def getsM_def retM_def map_filter_if)
  have rows: "mset (map (planned_row s) (filter (to_plan s) ?rows))
      = image_mset (planned_row s) (filter_mset (to_plan s) (mset (items s)))"
    using scan_filter_rows [OF assms(1), of "planned_row s" "to_plan s" "\<lambda>_. True" "items s"] by simp
  show ?thesis
    using run rows by (auto simp: sorted_descending) (auto simp: planned_row_def Let_def)
qed

theorem mrp_correct_witness:
  "\<exists>ms. mrp_calculate demo_env demo_planning = (Inr ms, demo_planning)
     \<and> mset ms = image_mset (planned_row demo_planning) (filter_mset (to_plan demo_planning) (mset (items demo_planning)))
     \<and> sorted_wrt (\<lambda>p q. mrp_net_demand q \<le> mrp_net_demand p) ms
     \<and> (\<forall>m \<in> set ms. mrp_net_demand m \<ge> 0
          \<and> mrp_gross_demand m \<le> mrp_current_stock m + mrp_in_transit_qty m + mrp_net_demand m
          \<and> (mrp_net_demand m > 0 \<longrightarrow>
               mrp_gross_demand m = mrp_current_stock m + mrp_in_transit_qty m + mrp_net_demand m)
          \<and> mrp_suggested_order_qty m = mrp_net_demand m + mrp_safety_stock m)"
proof (rule mrp_correct [OF demo_order_ok])
  show "\<forall>r \<in> set (items demo_planning). demand_fits demo_planning r" by code_simp
qed

end
