(* ===== verification/Job_Queue.thy ===== *)
theory Job_Queue
  imports Prelude "HOL-Library.Multiset"
begin

text \<open>
  The job queue, \<open>infrastructure/job_queue\<close>: the table \<open>worker_jobs\<close> with its two back ends, the bus that
  enqueues, the worker loop that fetches and runs jobs, retries with back-off, the orphan sweep and the
  removal of old rows.  Handlers are business code: an execution ends with an outcome, which is an
  argument.  A state is the table and the tasks in flight in the worker processes; every statement is one
  step, and steps of different processes interleave.
\<close>

section \<open>Data\<close>

datatype job_status = JobPending | JobRunning | JobDone | JobFailed

record worker_job =
  wj_id :: int
  wj_job_type :: string
  wj_payload :: string
  wj_status :: job_status
  wj_attempts :: int
  wj_max_attempts :: int
  wj_run_at :: int
  wj_last_error :: "string option"
  wj_lock_by :: "string option"
  wj_lock_at :: "int option"
  wj_done_at :: "int option"

record job_store =
  worker_jobs :: "worker_job list"
  wj_next :: int

datatype job_error = JobSql | JobPanic | JobSerialize | JobDeserialize | BackoffOverflow

type_synonym 'a jm = "(job_store, job_error, 'a) rs"

text \<open>
  The clocks and libraries a statement sees.  PostgreSQL keeps instants in microseconds, SQLite columns
  hold milliseconds.  \<open>je_shift_ms\<close> is \<open>Utc::now() + chrono::Duration::milliseconds(d)\<close>, which panics when
  the instant is not representable; \<open>je_days_ago\<close> is \<open>now() - make_interval(days)\<close> in the session's time
  zone; \<open>je_order\<close> gives the order of an unordered result; \<open>je_json\<close> says which texts parse as JSON.
\<close>

record job_env =
  je_now :: int
  je_pg_now :: int
  je_shift_ms :: "int \<Rightarrow> int option"
  je_days_ago :: "int \<Rightarrow> int"
  je_order :: "worker_job list \<Rightarrow> worker_job \<Rightarrow> int"
  je_json :: "string \<Rightarrow> bool"

definition unordered :: "job_env \<Rightarrow> worker_job list \<Rightarrow> worker_job list" where
  "unordered env rows = sort_key (je_order env rows) rows"

definition now_millis :: "job_env \<Rightarrow> int" where
  "now_millis env = je_now env div 1000"

definition to_i32 :: "int \<Rightarrow> int" where
  "to_i32 x = (x + 2 ^ 31) mod 2 ^ 32 - 2 ^ 31"

text \<open>\<open>Duration\<close>: nanoseconds, saturating at \<open>Duration::MAX\<close>.\<close>

definition duration_max :: nat where
  "duration_max = (2 ^ 64 - 1) * 10 ^ 9 + 999999999"

definition saturating_mul :: "nat \<Rightarrow> nat \<Rightarrow> nat" where
  "saturating_mul d k = min (d * k) duration_max"

definition as_millis :: "nat \<Rightarrow> int" where
  "as_millis d = int (d div 10 ^ 6)"

record job_meta =
  jm_id :: int
  jm_attempts :: int
  jm_max_attempts :: int

record fetch_job =
  fj_payload :: string
  fj_meta :: job_meta

definition fetch_of :: "worker_job \<Rightarrow> fetch_job" where
  "fetch_of r = \<lparr>fj_payload = wj_payload r,
     fj_meta = \<lparr>jm_id = wj_id r, jm_attempts = wj_attempts r, jm_max_attempts = wj_max_attempts r\<rparr>\<rparr>"

definition GC_BATCH :: nat where "GC_BATCH = 1000"
definition DEFAULT_JOB_RETENTION_DAYS :: int where "DEFAULT_JOB_RETENTION_DAYS = 30"

section \<open>Statements shared by the back ends\<close>

text \<open>\<open>INSERT INTO worker_jobs\<close>; the other columns have their defaults.\<close>

definition insert_job :: "bool \<Rightarrow> string \<Rightarrow> string \<Rightarrow> int \<Rightarrow> int \<Rightarrow> unit jm" where
  "insert_job fits job_type payload run_at max_attempts =
     seqM (checkM (\<lambda>s. fits \<and> wj_next s \<le> i64_max) JobSql)
    (modM (\<lambda>s. s\<lparr>worker_jobs := worker_jobs s @
        [\<lparr>wj_id = wj_next s, wj_job_type = job_type, wj_payload = payload, wj_status = JobPending,
          wj_attempts = 0, wj_max_attempts = max_attempts, wj_run_at = run_at, wj_last_error = None,
          wj_lock_by = None, wj_lock_at = None, wj_done_at = None\<rparr>],
        wj_next := wj_next s + 1\<rparr>))"

definition update_jobs :: "(worker_job \<Rightarrow> bool) \<Rightarrow> (worker_job \<Rightarrow> worker_job) \<Rightarrow> unit jm" where
  "update_jobs P f = modM (\<lambda>s. s\<lparr>worker_jobs := update_where P f (worker_jobs s)\<rparr>)"

definition due_job :: "string \<Rightarrow> int \<Rightarrow> worker_job \<Rightarrow> bool" where
  "due_job job_type now r = (wj_job_type r = job_type \<and> wj_status r = JobPending \<and> wj_run_at r \<le> now)"

definition set_running :: "string \<Rightarrow> int \<Rightarrow> worker_job \<Rightarrow> worker_job" where
  "set_running lock_by now r = r\<lparr>wj_status := JobRunning, wj_lock_by := Some lock_by, wj_lock_at := Some now\<rparr>"

definition set_done :: "int \<Rightarrow> worker_job \<Rightarrow> worker_job" where
  "set_done now r = r\<lparr>wj_status := JobDone, wj_done_at := Some now\<rparr>"

definition set_retry :: "int \<Rightarrow> int \<Rightarrow> string \<Rightarrow> worker_job \<Rightarrow> worker_job" where
  "set_retry attempts run_at last_error r = r\<lparr>wj_status := JobPending, wj_attempts := attempts, wj_run_at := run_at,
     wj_last_error := Some last_error, wj_lock_by := None, wj_lock_at := None\<rparr>"

definition set_failed :: "int \<Rightarrow> int \<Rightarrow> string \<Rightarrow> worker_job \<Rightarrow> worker_job" where
  "set_failed attempts now last_error r = r\<lparr>wj_status := JobFailed, wj_attempts := attempts, wj_done_at := Some now,
     wj_last_error := Some last_error, wj_lock_by := None, wj_lock_at := None\<rparr>"

definition orphaned :: "int \<Rightarrow> worker_job \<Rightarrow> bool" where
  "orphaned older_than r = (wj_status r = JobRunning \<and> (case wj_lock_at r of None \<Rightarrow> False | Some t \<Rightarrow> t < older_than))"

definition set_orphan :: "worker_job \<Rightarrow> worker_job" where
  "set_orphan r = r\<lparr>wj_status := JobPending, wj_lock_by := None, wj_lock_at := None,
     wj_last_error := Some ''orphan_abandoned''\<rparr>"

definition finished_before :: "int \<Rightarrow> worker_job \<Rightarrow> bool" where
  "finished_before cutoff r = (wj_status r \<in> {JobDone, JobFailed} \<and>
     (case wj_done_at r of None \<Rightarrow> False | Some t \<Rightarrow> t < cutoff))"

text \<open>The loop of \<open>delete_finished_older_than\<close>: a batch is any \<open>GC_BATCH\<close> of the old rows, deleted by id.\<close>

definition gc_victims :: "job_env \<Rightarrow> int \<Rightarrow> worker_job list \<Rightarrow> worker_job list" where
  "gc_victims env cutoff rows = take GC_BATCH (unordered env (filter (finished_before cutoff) rows))"

definition gc_batch :: "job_env \<Rightarrow> int \<Rightarrow> worker_job list \<Rightarrow> worker_job list" where
  "gc_batch env cutoff rows = (let ids = map wj_id (gc_victims env cutoff rows) in
     filter (\<lambda>r. wj_id r \<notin> set ids) rows)"

lemma gc_batch_shrinks: "gc_victims env cutoff rows \<noteq> [] \<Longrightarrow> length (gc_batch env cutoff rows) < length rows"
proof -
  assume "gc_victims env cutoff rows \<noteq> []"
  then obtain r where r: "r \<in> set (gc_victims env cutoff rows)" by (cases "gc_victims env cutoff rows") auto
  then have "r \<in> set rows" by (auto simp: gc_victims_def unordered_def dest: in_set_takeD)
  with r show ?thesis
    unfolding gc_batch_def Let_def by (auto intro!: length_filter_less)
qed

function gc_loop :: "job_env \<Rightarrow> int \<Rightarrow> worker_job list \<Rightarrow> nat \<times> worker_job list" where
  "gc_loop env cutoff rows =
     (let rest = gc_batch env cutoff rows; batch = length rows - length rest in
      if batch < GC_BATCH then (batch, rest)
      else (case gc_loop env cutoff rest of (deleted, left) \<Rightarrow> (batch + deleted, left)))"
  by pat_completeness auto
termination
proof (relation "measure (\<lambda>(env, cutoff, rows). length rows)")
  fix env cutoff rows rest batch
  assume "rest = gc_batch env cutoff rows" "batch = length rows - length rest" "\<not> batch < GC_BATCH"
  then have "length rest < length rows" by (simp add: GC_BATCH_def)
  then show "((env, cutoff, rest), env, cutoff, rows) \<in> measure (\<lambda>(env, cutoff, rows). length rows)" by simp
qed simp

declare gc_loop.simps [simp del]

definition delete_finished :: "job_env \<Rightarrow> int \<Rightarrow> nat jm" where
  "delete_finished env cutoff =
     bindM (getsM (\<lambda>s. gc_loop env cutoff (worker_jobs s))) (\<lambda>(deleted, left).
     seqM (modM (\<lambda>s. s\<lparr>worker_jobs := left\<rparr>)) (retM deleted))"

section \<open>PostgreSQL\<close>

definition pg_insert :: "string \<Rightarrow> string \<Rightarrow> int \<Rightarrow> int \<Rightarrow> unit jm" where
  "pg_insert job_type payload run_at max_attempts =
     insert_job (length job_type \<le> 128) job_type payload run_at max_attempts"

definition pg_fetch_due :: "job_env \<Rightarrow> string \<Rightarrow> int \<Rightarrow> string \<Rightarrow> fetch_job list jm" where
  "pg_fetch_due env job_type limit lock_by =
     seqM (guardM (limit \<ge> 0) JobSql)
    (bindM (getsM (\<lambda>s. map wj_id (take (nat limit)
        (sort_key wj_run_at (sort_key wj_id (filter (due_job job_type (je_pg_now env)) (worker_jobs s))))))) (\<lambda>ids.
     seqM (update_jobs (\<lambda>r. wj_id r \<in> set ids) (set_running lock_by (je_pg_now env)))
    (bindM (getsM (\<lambda>s. unordered env (filter (\<lambda>r. wj_id r \<in> set ids) (worker_jobs s)))) (\<lambda>rows.
     retM (map fetch_of rows)))))"

definition pg_mark_done :: "job_env \<Rightarrow> int \<Rightarrow> unit jm" where
  "pg_mark_done env k = update_jobs (\<lambda>r. wj_id r = k) (set_done (je_pg_now env))"

definition pg_schedule_retry :: "job_env \<Rightarrow> int \<Rightarrow> int \<Rightarrow> nat \<Rightarrow> string \<Rightarrow> unit jm" where
  "pg_schedule_retry env k attempts delay last_error =
     bindM (ok_or (je_shift_ms env (to_i64 (as_millis delay))) JobPanic) (\<lambda>run_at.
     update_jobs (\<lambda>r. wj_id r = k) (set_retry attempts run_at last_error))"

definition pg_mark_failed :: "job_env \<Rightarrow> int \<Rightarrow> int \<Rightarrow> string \<Rightarrow> unit jm" where
  "pg_mark_failed env k attempts last_error =
     update_jobs (\<lambda>r. wj_id r = k) (set_failed attempts (je_pg_now env) last_error)"

definition orphan_sweep :: "int \<Rightarrow> nat jm" where
  "orphan_sweep older_than =
     bindM (getsM (\<lambda>s. length (filter (orphaned older_than) (worker_jobs s)))) (\<lambda>count.
     seqM (update_jobs (orphaned older_than) set_orphan) (retM count))"

definition pg_delete_finished :: "job_env \<Rightarrow> int \<Rightarrow> nat jm" where
  "pg_delete_finished env retention_days =
     seqM (guardM (- (2 ^ 31) \<le> retention_days \<and> retention_days < 2 ^ 31) JobSql)
    (delete_finished env (je_days_ago env retention_days))"

section \<open>SQLite\<close>

definition sqlite_insert :: "string \<Rightarrow> string \<Rightarrow> int \<Rightarrow> int \<Rightarrow> unit jm" where
  "sqlite_insert job_type payload run_at max_attempts = insert_job True job_type payload run_at max_attempts"

definition mark_running :: "int \<Rightarrow> string \<Rightarrow> worker_job \<Rightarrow> unit jm" where
  "mark_running now lock_by row =
     update_jobs (\<lambda>r. wj_id r = wj_id row \<and> wj_status r = JobPending) (set_running lock_by now)"

definition lock_and_mark :: "string \<Rightarrow> int \<Rightarrow> int \<Rightarrow> string \<Rightarrow> worker_job list jm" where
  "lock_and_mark job_type now limit lock_by =
     bindM (getsM (\<lambda>s. (if limit < 0 then id else take (nat limit))
        (sort_key wj_id (filter (due_job job_type now) (worker_jobs s))))) (\<lambda>rows.
     seqM (forM rows (mark_running now lock_by)) (retM rows))"

definition sqlite_fetch_due :: "job_env \<Rightarrow> string \<Rightarrow> int \<Rightarrow> string \<Rightarrow> fetch_job list jm" where
  "sqlite_fetch_due env job_type limit lock_by =
     bindM (lock_and_mark job_type (now_millis env) limit lock_by) (\<lambda>rows.
     seqM (guardM (list_all (\<lambda>r. je_json env (wj_payload r)) rows) JobDeserialize)
    (retM (map fetch_of rows)))"

definition sqlite_mark_done :: "job_env \<Rightarrow> int \<Rightarrow> unit jm" where
  "sqlite_mark_done env k = update_jobs (\<lambda>r. wj_id r = k) (set_done (now_millis env))"

definition sqlite_schedule_retry :: "job_env \<Rightarrow> int \<Rightarrow> int \<Rightarrow> nat \<Rightarrow> string \<Rightarrow> unit jm" where
  "sqlite_schedule_retry env k attempts delay last_error =
     seqM (guardM (as_millis delay \<le> i64_max) BackoffOverflow)
    (update_jobs (\<lambda>r. wj_id r = k) (set_retry attempts (i64_add (now_millis env) (as_millis delay)) last_error))"

definition sqlite_mark_failed :: "job_env \<Rightarrow> int \<Rightarrow> int \<Rightarrow> string \<Rightarrow> unit jm" where
  "sqlite_mark_failed env k attempts last_error =
     update_jobs (\<lambda>r. wj_id r = k) (set_failed attempts (now_millis env) last_error)"

definition sqlite_delete_finished :: "job_env \<Rightarrow> int \<Rightarrow> nat jm" where
  "sqlite_delete_finished env retention_days =
     delete_finished env (i64_sub (now_millis env) (i64_mul retention_days 86400000))"

section \<open>The bus\<close>

datatype job_bus = PgBus | SqliteBus

text \<open>The constants of the trait \<open>Job\<close>; durations are nanoseconds.\<close>

record job_def =
  NAME :: string
  RETRIES :: nat
  CONCURRENCY :: nat
  TIMEOUT :: nat

definition max_attempts_of :: "job_def \<Rightarrow> int" where
  "max_attempts_of j = to_i32 (int ((RETRIES j + 1) mod 2 ^ 64))"

text \<open>\<open>enqueue_after\<close>; the payload is None when the job does not serialize.\<close>

definition enqueue_after :: "job_bus \<Rightarrow> job_env \<Rightarrow> job_def \<Rightarrow> string option \<Rightarrow> nat \<Rightarrow> unit jm" where
  "enqueue_after bus env job payload delay =
     bindM (ok_or payload JobSerialize) (\<lambda>p.
     bindM (ok_or (je_shift_ms env (to_i64 (as_millis delay))) JobPanic) (\<lambda>run_at.
     case bus of
       PgBus \<Rightarrow> pg_insert (NAME job) p run_at (max_attempts_of job)
     | SqliteBus \<Rightarrow> sqlite_insert (NAME job) p (run_at div 1000) (max_attempts_of job)))"

definition enqueue :: "job_bus \<Rightarrow> job_env \<Rightarrow> job_def \<Rightarrow> string option \<Rightarrow> unit jm" where
  "enqueue bus env job payload = enqueue_after bus env job payload 0"

definition delete_finished_older_than :: "job_bus \<Rightarrow> job_env \<Rightarrow> int \<Rightarrow> nat jm" where
  "delete_finished_older_than bus env retention_days =
     (case bus of PgBus \<Rightarrow> pg_delete_finished env retention_days
      | SqliteBus \<Rightarrow> sqlite_delete_finished env retention_days)"

record queue_backlog =
  qb_pending :: nat
  qb_running :: nat
  qb_failed :: nat

definition backlog :: "queue_backlog jm" where
  "backlog = getsM (\<lambda>s. let count = (\<lambda>st. length (filter (\<lambda>r. wj_status r = st) (worker_jobs s))) in
     \<lparr>qb_pending = count JobPending, qb_running = count JobRunning, qb_failed = count JobFailed\<rparr>)"

definition LOCAL_WORKER :: string where "LOCAL_WORKER = ''local-worker''"

definition fetch_due :: "job_bus \<Rightarrow> job_env \<Rightarrow> string \<Rightarrow> int \<Rightarrow> fetch_job list jm" where
  "fetch_due bus env job_type limit =
     (case bus of PgBus \<Rightarrow> pg_fetch_due env job_type limit LOCAL_WORKER
      | SqliteBus \<Rightarrow> sqlite_fetch_due env job_type limit LOCAL_WORKER)"

definition mark_done :: "job_bus \<Rightarrow> job_env \<Rightarrow> int \<Rightarrow> unit jm" where
  "mark_done bus env k = (case bus of PgBus \<Rightarrow> pg_mark_done env k | SqliteBus \<Rightarrow> sqlite_mark_done env k)"

definition schedule_retry :: "job_bus \<Rightarrow> job_env \<Rightarrow> int \<Rightarrow> int \<Rightarrow> nat \<Rightarrow> string \<Rightarrow> unit jm" where
  "schedule_retry bus env k attempts delay last_error =
     (case bus of PgBus \<Rightarrow> pg_schedule_retry env k attempts delay last_error
      | SqliteBus \<Rightarrow> sqlite_schedule_retry env k attempts delay last_error)"

definition mark_failed :: "job_bus \<Rightarrow> job_env \<Rightarrow> int \<Rightarrow> int \<Rightarrow> string \<Rightarrow> unit jm" where
  "mark_failed bus env k attempts last_error =
     (case bus of PgBus \<Rightarrow> pg_mark_failed env k attempts last_error
      | SqliteBus \<Rightarrow> sqlite_mark_failed env k attempts last_error)"

text \<open>The instant before which a lock is too old, in the unit of the back end; None is a panic.\<close>

definition orphan_limit :: "job_bus \<Rightarrow> job_env \<Rightarrow> nat \<Rightarrow> int option" where
  "orphan_limit bus env orphan_timeout =
     map_option (\<lambda>t. case bus of PgBus \<Rightarrow> t | SqliteBus \<Rightarrow> t div 1000)
       (je_shift_ms env (- to_i64 (as_millis orphan_timeout)))"

definition reenqueue_orphaned :: "job_bus \<Rightarrow> job_env \<Rightarrow> nat \<Rightarrow> nat jm" where
  "reenqueue_orphaned bus env orphan_timeout =
     bindM (ok_or (orphan_limit bus env orphan_timeout) JobPanic) orphan_sweep"

section \<open>The registry\<close>

text \<open>
  A specification is what \<open>JobSpec\<close> shows of a registered job.  \<open>register\<close> panics on a name that is taken;
  \<open>typed_handle\<close> is \<open>TypedJob::handle\<close>, which does not call the handler on a payload that is not a job.
\<close>

type_synonym job_spec = job_def

definition register :: "job_spec \<Rightarrow> job_spec list \<Rightarrow> job_spec list option" where
  "register spec specs = (if list_ex (\<lambda>s. NAME s = NAME spec) specs then None else Some (specs @ [spec]))"

definition register_all :: "job_spec list \<Rightarrow> job_spec list \<Rightarrow> job_spec list" where
  "register_all specs registry = specs @ registry"

definition typed_handle :: "('p \<Rightarrow> 'j option) \<Rightarrow> ('j \<Rightarrow> string + unit) \<Rightarrow> string \<Rightarrow> 'p \<Rightarrow> string + unit" where
  "typed_handle decode handler decode_error payload =
     (case decode payload of Some job \<Rightarrow> handler job | None \<Rightarrow> Inl decode_error)"

section \<open>The worker\<close>

record worker_options =
  poll_interval :: nat
  backoff_base :: nat
  backoff_cap :: nat
  orphan_interval :: nat
  orphan_timeout :: nat

definition default_options :: worker_options where
  "default_options = \<lparr>poll_interval = 200 * 10 ^ 6, backoff_base = 10 ^ 9, backoff_cap = 60 * 10 ^ 9,
     orphan_interval = 60 * 10 ^ 9, orphan_timeout = 600 * 10 ^ 9\<rparr>"

text \<open>\<open>attempt.saturating_sub(1) as u32\<close>, cut at 30, is the exponent.\<close>

definition backoff_exponent :: "int \<Rightarrow> nat" where
  "backoff_exponent attempt = min (nat ((max (attempt - 1) (- (2 ^ 31))) mod 2 ^ 32)) 30"

definition backoff_delay :: "int \<Rightarrow> worker_options \<Rightarrow> nat" where
  "backoff_delay attempt options =
     min (saturating_mul (backoff_base options) (2 ^ backoff_exponent attempt)) (backoff_cap options)"

text \<open>The result of \<open>timeout(spec.timeout(), spec.handle(..))\<close>.\<close>

datatype outcome = HandlerOk | HandlerErr string | HandlerTimeout

definition finish_failure :: "job_bus \<Rightarrow> job_env \<Rightarrow> worker_options \<Rightarrow> job_meta \<Rightarrow> string \<Rightarrow> unit jm" where
  "finish_failure bus env options meta last_error =
     (let attempts = to_i32 (jm_attempts meta + 1) in
      if attempts < jm_max_attempts meta
      then schedule_retry bus env (jm_id meta) attempts (backoff_delay attempts options) last_error
      else mark_failed bus env (jm_id meta) attempts last_error)"

definition run_one_job :: "job_bus \<Rightarrow> job_env \<Rightarrow> worker_options \<Rightarrow> fetch_job \<Rightarrow> outcome \<Rightarrow> unit jm" where
  "run_one_job bus env options job out =
     (case out of
        HandlerOk \<Rightarrow> mark_done bus env (jm_id (fj_meta job))
      | HandlerErr e \<Rightarrow> finish_failure bus env options (fj_meta job) e
      | HandlerTimeout \<Rightarrow> finish_failure bus env options (fj_meta job) ''job_timeout'')"

text \<open>A task in flight: the process, the job type, the fetched job.\<close>

record job_task =
  tk_worker :: nat
  tk_type :: string
  tk_job :: fetch_job

record job_state =
  js_store :: job_store
  js_tasks :: "job_task list"

definition task_id :: "job_task \<Rightarrow> int" where
  "task_id t = jm_id (fj_meta (tk_job t))"

definition in_flight :: "nat \<Rightarrow> string \<Rightarrow> job_state \<Rightarrow> job_task list" where
  "in_flight w job_type s = filter (\<lambda>t. tk_worker t = w \<and> tk_type t = job_type) (js_tasks s)"

text \<open>
  One round of \<open>run_job_loop\<close> in process \<open>w\<close>: as many jobs as there are permits, each in a task of its own.
  A failed fetch is logged and leaves what it has written.
\<close>

definition poll_jobs :: "job_bus \<Rightarrow> job_env \<Rightarrow> nat \<Rightarrow> job_spec \<Rightarrow> job_state \<Rightarrow> job_state" where
  "poll_jobs bus env w spec s =
     (let permits = to_i32 (int (CONCURRENCY spec - length (in_flight w (NAME spec) s))) in
      if permits \<le> 0 then s
      else (case fetch_due bus env (NAME spec) permits (js_store s) of
          (Inl _, st) \<Rightarrow> s\<lparr>js_store := st\<rparr>
        | (Inr jobs, st) \<Rightarrow> s\<lparr>js_store := st,
             js_tasks := js_tasks s @ map (\<lambda>j. \<lparr>tk_worker = w, tk_type = NAME spec, tk_job = j\<rparr>) jobs\<rparr>))"

section \<open>Runs\<close>

text \<open>
  What can happen next.  \<open>Lost\<close> is a task that ends without writing: its process dies, it panics, or its last
  statement fails and is only logged.
\<close>

datatype job_event =
    Enqueue job_env job_def "string option" nat
  | Poll job_env nat job_spec
  | Finish job_env nat outcome
  | Lost nat
  | Sweep job_env
  | Collect job_env int

definition drop_task :: "nat \<Rightarrow> job_task list \<Rightarrow> job_task list" where
  "drop_task i ts = take i ts @ drop (Suc i) ts"

fun job_step :: "job_bus \<Rightarrow> worker_options \<Rightarrow> job_event \<Rightarrow> job_state \<Rightarrow> job_state" where
  "job_step bus options (Enqueue env job payload delay) s =
     s\<lparr>js_store := snd (enqueue_after bus env job payload delay (js_store s))\<rparr>"
| "job_step bus options (Poll env w spec) s = poll_jobs bus env w spec s"
| "job_step bus options (Finish env i out) s =
     (if i < length (js_tasks s)
      then s\<lparr>js_store := snd (run_one_job bus env options (tk_job (js_tasks s ! i)) out (js_store s)),
             js_tasks := drop_task i (js_tasks s)\<rparr>
      else s)"
| "job_step bus options (Lost i) s = s\<lparr>js_tasks := drop_task i (js_tasks s)\<rparr>"
| "job_step bus options (Sweep env) s =
     s\<lparr>js_store := snd (reenqueue_orphaned bus env (orphan_timeout options) (js_store s))\<rparr>"
| "job_step bus options (Collect env days) s =
     s\<lparr>js_store := snd (delete_finished_older_than bus env days (js_store s))\<rparr>"

definition empty_jobs :: job_state where
  "empty_jobs = \<lparr>js_store = \<lparr>worker_jobs = [], wj_next = 1\<rparr>, js_tasks = []\<rparr>"

text \<open>Workers poll for the registered jobs.\<close>

definition registered :: "job_spec list \<Rightarrow> job_event \<Rightarrow> bool" where
  "registered specs e = (case e of Poll env w spec \<Rightarrow> spec \<in> set specs | _ \<Rightarrow> True)"

inductive job_reach :: "job_bus \<Rightarrow> worker_options \<Rightarrow> job_spec list \<Rightarrow> job_state \<Rightarrow> bool" for bus options specs where
  start: "job_reach bus options specs empty_jobs"
| step: "job_reach bus options specs s \<Longrightarrow> registered specs e \<Longrightarrow> job_reach bus options specs (job_step bus options e s)"

text \<open>
  A sweep is prompt when it does not touch a job that a live task is still running, as the timeouts of the
  jobs are meant to ensure.
\<close>

definition prompt :: "job_bus \<Rightarrow> worker_options \<Rightarrow> job_event \<Rightarrow> job_state \<Rightarrow> bool" where
  "prompt bus options e s = (case e of
      Sweep env \<Rightarrow> (case orphan_limit bus env (orphan_timeout options) of None \<Rightarrow> True
        | Some limit \<Rightarrow> (\<forall>t \<in> set (js_tasks s). \<forall>r \<in> set (worker_jobs (js_store s)).
             wj_id r = task_id t \<longrightarrow> \<not> orphaned limit r))
    | _ \<Rightarrow> True)"

inductive prompt_reach :: "job_bus \<Rightarrow> worker_options \<Rightarrow> job_state \<Rightarrow> bool" for bus options where
  start: "prompt_reach bus options empty_jobs"
| step: "prompt_reach bus options s \<Longrightarrow> prompt bus options e s \<Longrightarrow> prompt_reach bus options (job_step bus options e s)"

fun error_text :: "outcome \<Rightarrow> string" where
  "error_text HandlerOk = []"
| "error_text (HandlerErr e) = e"
| "error_text HandlerTimeout = ''job_timeout''"

text \<open>Data for the witnesses: a job that may run for fifteen minutes, and instants in microseconds.\<close>

definition demo_job :: job_def where
  "demo_job = \<lparr>NAME = ''report'', RETRIES = 3, CONCURRENCY = 1, TIMEOUT = 900 * 10 ^ 9\<rparr>"

definition at_micros :: "int \<Rightarrow> job_env" where
  "at_micros t = \<lparr>je_now = t, je_pg_now = t, je_shift_ms = (\<lambda>d. Some (t + 1000 * d)),
     je_days_ago = (\<lambda>n. t - n * 86400000000), je_order = (\<lambda>_. wj_id), je_json = (\<lambda>_. True)\<rparr>"

definition demo_row :: "job_status \<Rightarrow> int \<Rightarrow> worker_job" where
  "demo_row st n = \<lparr>wj_id = 1, wj_job_type = ''report'', wj_payload = ''{}'', wj_status = st, wj_attempts = n,
     wj_max_attempts = 4, wj_run_at = 0, wj_last_error = None, wj_lock_by = None, wj_lock_at = None, wj_done_at = None\<rparr>"

definition demo_task :: "nat \<Rightarrow> job_task" where
  "demo_task w = \<lparr>tk_worker = w, tk_type = ''report'', tk_job = fetch_of (demo_row JobRunning 0)\<rparr>"

section \<open>What a back end promises\<close>

text \<open>
  The contract of the statements: a fetch takes due jobs, marks exactly those and hands out their data; the
  three final statements change the row of their job and no other.  Both back ends keep it.
\<close>

abbreviation rows_of :: "job_store \<Rightarrow> worker_job list" where
  "rows_of st \<equiv> worker_jobs st"

definition marked :: "worker_job list \<Rightarrow> int \<Rightarrow> worker_job list \<Rightarrow> worker_job list" where
  "marked picked now rows = update_where (\<lambda>r. wj_id r \<in> wj_id ` set picked) (set_running LOCAL_WORKER now) rows"

definition change_row :: "int \<Rightarrow> (worker_job \<Rightarrow> worker_job) \<Rightarrow> job_store \<Rightarrow> job_store" where
  "change_row k f st = st\<lparr>worker_jobs := update_where (\<lambda>r. wj_id r = k) f (rows_of st)\<rparr>"

text \<open>The clock a fetch compares with, and the order in which it takes the due jobs.\<close>

definition queue_now :: "job_bus \<Rightarrow> job_env \<Rightarrow> int" where
  "queue_now bus env = (case bus of PgBus \<Rightarrow> je_pg_now env | SqliteBus \<Rightarrow> now_millis env)"

definition ahead :: "job_bus \<Rightarrow> worker_job \<Rightarrow> worker_job \<Rightarrow> bool" where
  "ahead bus q r = (case bus of
      PgBus \<Rightarrow> wj_run_at q < wj_run_at r \<or> wj_run_at q = wj_run_at r \<and> wj_id q < wj_id r
    | SqliteBus \<Rightarrow> wj_id q < wj_id r)"

definition due_ahead :: "job_bus \<Rightarrow> job_env \<Rightarrow> string \<Rightarrow> worker_job \<Rightarrow> worker_job list \<Rightarrow> worker_job list" where
  "due_ahead bus env ty r rows = filter (\<lambda>q. due_job ty (queue_now bus env) q \<and> ahead bus q r) rows"

locale job_backend =
  fixes bus :: job_bus
  assumes fetch_law: "distinct (map wj_id (rows_of st)) \<Longrightarrow> 0 \<le> limit \<Longrightarrow> fetch_due bus env ty limit st = (res, st') \<Longrightarrow>
      \<exists>picked now. set picked \<subseteq> {r \<in> set (rows_of st). due_job ty now r} \<and> distinct (map wj_id picked) \<and>
        length picked \<le> nat limit \<and> st' = st\<lparr>worker_jobs := marked picked now (rows_of st)\<rparr> \<and>
        (\<forall>jobs. res = Inr jobs \<longrightarrow> mset jobs = image_mset fetch_of (mset picked))"
    and reach_law: "distinct (map wj_id (rows_of st)) \<Longrightarrow> r \<in> set (rows_of st) \<Longrightarrow> due_job ty (queue_now bus env) r \<Longrightarrow>
      int (length (due_ahead bus env ty r (rows_of st))) < limit \<Longrightarrow>
      \<exists>now. set_running LOCAL_WORKER now r \<in> set (rows_of (snd (fetch_due bus env ty limit st)))"
    and done_law: "\<exists>now. snd (mark_done bus env k st) = change_row k (set_done now) st"
    and retry_law: "snd (schedule_retry bus env k n d e st) = st \<or>
      (\<exists>t. snd (schedule_retry bus env k n d e st) = change_row k (set_retry n t e) st)"
    and failed_law: "\<exists>now. snd (mark_failed bus env k n e st) = change_row k (set_failed n now e) st"

lemma fetch_of_set_running [simp]: "fetch_of (set_running b n r) = fetch_of r"
  by (simp add: fetch_of_def set_running_def)

lemma set_row_simps [simp]:
  "wj_id (set_running b n r) = wj_id r" "wj_id (set_done n r) = wj_id r"
  "wj_id (set_retry a t e r) = wj_id r" "wj_id (set_failed a n e r) = wj_id r" "wj_id (set_orphan r) = wj_id r"
  by (simp_all add: set_running_def set_done_def set_retry_def set_failed_def set_orphan_def)

lemma distinct_ids_filter:
  assumes "distinct (map wj_id rows)" "distinct (map wj_id picked)" "set picked \<subseteq> set rows"
  shows "mset (filter (\<lambda>r. wj_id r \<in> wj_id ` set picked) rows) = mset picked"
proof -
  have "{r \<in> set rows. wj_id r \<in> wj_id ` set picked} = set picked"
    using assms(1,3) by (auto simp: distinct_map inj_on_def)
  then show ?thesis
    using assms by (subst set_eq_iff_mset_eq_distinct [symmetric]) (auto simp: distinct_map)
qed

lemma map_filter_marked:
  "map fetch_of (filter (\<lambda>r. wj_id r \<in> wj_id ` set picked) (marked picked now rows))
     = map fetch_of (filter (\<lambda>r. wj_id r \<in> wj_id ` set picked) rows)"
  unfolding marked_def by (induction rows) auto

lemma mark_running_loop:
  "forM picked (mark_running now b) st = (Inr (), st\<lparr>worker_jobs := update_where
     (\<lambda>r. wj_id r \<in> wj_id ` set picked \<and> wj_status r = JobPending) (set_running b now) (rows_of st)\<rparr>)"
proof (induction picked arbitrary: st)
  case Nil
  then show ?case by (simp add: retM_def update_where_none)
next
  case (Cons p picked)
  have "update_where (\<lambda>r. wj_id r \<in> wj_id ` set picked \<and> wj_status r = JobPending) (set_running b now)
      (update_where (\<lambda>r. wj_id r = wj_id p \<and> wj_status r = JobPending) (set_running b now) rows)
    = update_where (\<lambda>r. wj_id r \<in> wj_id ` set (p # picked) \<and> wj_status r = JobPending) (set_running b now) rows"
    for rows by (induction rows) (auto simp: set_running_def)
  moreover have "mark_running now b p st = (Inr (), st\<lparr>worker_jobs :=
      update_where (\<lambda>r. wj_id r = wj_id p \<and> wj_status r = JobPending) (set_running b now) (rows_of st)\<rparr>)"
    by (simp add: mark_running_def update_jobs_def modM_def)
  ultimately show ?case by (simp add: Cons.IH seqM_def bindM_def)
qed

lemma update_where_cong: "(\<And>r. r \<in> set rows \<Longrightarrow> P r = Q r) \<Longrightarrow> update_where P f rows = update_where Q f rows"
  by (induction rows) auto

lemma picked_pending:
  assumes "distinct (map wj_id rows)" "set picked \<subseteq> {r \<in> set rows. due_job ty now r}" "r \<in> set rows"
  shows "(wj_id r \<in> wj_id ` set picked \<and> wj_status r = JobPending) = (wj_id r \<in> wj_id ` set picked)"
  using assms by (auto simp: due_job_def distinct_map inj_on_def)

lemma mset_fetch_order:
  "mset (map fetch_of (unordered env xs)) = mset (map fetch_of xs)"
  by (simp add: unordered_def)

text \<open>An element of a sorted list with fewer than \<open>n\<close> elements before it is among the first \<open>n\<close>.\<close>

lemma in_front:
  assumes "sorted_wrt R ys" "r \<in> set ys" "length (filter (\<lambda>q. R q r) ys) < n"
  shows "r \<in> set (take n ys)"
proof -
  obtain i where i: "i < length ys" "ys ! i = r" using assms(2) by (auto simp: in_set_conv_nth)
  then have "\<forall>q \<in> set (take i ys). R q r"
    using assms(1) by (auto simp: sorted_wrt_iff_nth_less in_set_conv_nth)
  then have "filter (\<lambda>q. R q r) (take i ys) = take i ys" by simp
  then have "i \<le> length (filter (\<lambda>q. R q r) (take i ys @ drop i ys))" using i(1) unfolding filter_append by simp
  then have "i < n" using assms(3) by simp
  then show ?thesis using i by (auto simp: in_set_conv_nth intro!: exI [of _ i])
qed

lemma insort_two_keys:
  fixes f g :: "'r \<Rightarrow> int"
  assumes "sorted_wrt (\<lambda>x y. f x < f y \<or> f x = f y \<and> g x \<le> g y) zs" "\<forall>z \<in> set zs. g y \<le> g z"
  shows "sorted_wrt (\<lambda>x y. f x < f y \<or> f x = f y \<and> g x \<le> g y) (insort_key f y zs)"
  using assms by (induction zs) (force simp: set_insort_key)+

lemma sorted_two_keys:
  fixes f g :: "'r \<Rightarrow> int"
  shows "sorted_wrt (\<lambda>x y. f x < f y \<or> f x = f y \<and> g x \<le> g y) (sort_key f (sort_key g xs))"
proof -
  have "sorted_wrt (\<lambda>x y. f x < f y \<or> f x = f y \<and> g x \<le> g y) (sort_key f ys)" if "sorted (map g ys)" for ys
    using that by (induction ys) (auto intro!: insort_two_keys)
  then show ?thesis by simp
qed

lemma sorted_ahead:
  assumes "distinct (map wj_id rows)"
  shows "sorted_wrt (ahead PgBus) (sort_key wj_run_at (sort_key wj_id rows))"
    and "sorted_wrt (ahead SqliteBus) (sort_key wj_id rows)"
proof -
  let ?ys = "sort_key wj_run_at (sort_key wj_id rows)"
  have "distinct (map wj_id ?ys)" using assms by (simp add: distinct_map)
  then have "sorted_wrt (\<lambda>x y. wj_id x \<noteq> wj_id y) ?ys"
    by (simp add: sorted_wrt_iff_nth_less distinct_conv_nth)
  with sorted_two_keys [of wj_run_at wj_id rows] show "sorted_wrt (ahead PgBus) ?ys"
    by (fastforce simp: sorted_wrt_iff_nth_less ahead_def)
  have "distinct (map wj_id (sort_key wj_id rows))" using assms by (simp add: distinct_map)
  then have "sorted_wrt (<) (map wj_id (sort_key wj_id rows))" by (simp add: strict_sorted_iff)
  then show "sorted_wrt (ahead SqliteBus) (sort_key wj_id rows)"
    by (simp add: sorted_wrt_map ahead_def [abs_def])
qed

lemma length_filter_sort [simp]: "length (filter P (sort_key f xs)) = length (filter P xs)"
  by (metis mset_filter mset_sort size_mset)

lemma due_in_front:
  assumes "distinct (map wj_id rows)" "r \<in> set rows" "due_job ty (queue_now bus env) r"
    and "int (length (due_ahead bus env ty r rows)) < limit"
  shows "r \<in> set (take (nat limit) (case bus of
      PgBus \<Rightarrow> sort_key wj_run_at (sort_key wj_id (filter (due_job ty (queue_now bus env)) rows))
    | SqliteBus \<Rightarrow> sort_key wj_id (filter (due_job ty (queue_now bus env)) rows)))"
proof -
  have "distinct (map wj_id (filter (due_job ty (queue_now bus env)) rows))" using assms(1) by (simp add: distinct_map_filter)
  note sorted = sorted_ahead [OF this]
  have "length (filter (\<lambda>q. ahead bus q r) (filter (due_job ty (queue_now bus env)) rows)) < nat limit"
    using assms(4) by (simp add: due_ahead_def conj_commute)
  then show ?thesis
    using assms(2,3) sorted by (cases bus) (auto intro!: in_front)
qed

interpretation pg: job_backend PgBus
proof
  fix st limit env ty res st'
  assume d: "distinct (map wj_id (rows_of st))" and l: "0 \<le> limit"
    and run: "fetch_due PgBus env ty limit st = (res, st')"
  define picked where "picked = take (nat limit)
    (sort_key wj_run_at (sort_key wj_id (filter (due_job ty (je_pg_now env)) (rows_of st))))"
  have dp: "distinct (map wj_id picked)"
    using d by (simp add: picked_def take_map [symmetric] distinct_map inj_on_def)
  have sub: "set picked \<subseteq> {r \<in> set (rows_of st). due_job ty (je_pg_now env) r}"
    by (auto simp: picked_def dest!: in_set_takeD)
  have st': "st' = st\<lparr>worker_jobs := marked picked (je_pg_now env) (rows_of st)\<rparr>"
    and res: "res = Inr (map fetch_of (unordered env
      (filter (\<lambda>r. wj_id r \<in> wj_id ` set picked) (marked picked (je_pg_now env) (rows_of st)))))"
    using run l by (auto simp: fetch_due_def pg_fetch_due_def monad_defs update_jobs_def marked_def picked_def)
  have ids: "mset (filter (\<lambda>r. wj_id r \<in> wj_id ` set picked) (rows_of st)) = mset picked"
    by (rule distinct_ids_filter [OF d dp]) (use sub in blast)
  have "mset (map fetch_of (unordered env
      (filter (\<lambda>r. wj_id r \<in> wj_id ` set picked) (marked picked (je_pg_now env) (rows_of st)))))
      = image_mset fetch_of (mset picked)"
    unfolding mset_fetch_order map_filter_marked unfolding mset_map ids ..
  then show "\<exists>picked now. set picked \<subseteq> {r \<in> set (rows_of st). due_job ty now r} \<and> distinct (map wj_id picked) \<and>
        length picked \<le> nat limit \<and> st' = st\<lparr>worker_jobs := marked picked now (rows_of st)\<rparr> \<and>
        (\<forall>jobs. res = Inr jobs \<longrightarrow> mset jobs = image_mset fetch_of (mset picked))"
    using dp sub st' res by (intro exI [of _ picked] exI [of _ "je_pg_now env"]) (auto simp: picked_def)
next
  fix st r ty env limit
  assume d: "distinct (map wj_id (rows_of st))" and r: "r \<in> set (rows_of st)" and due: "due_job ty (queue_now PgBus env) r"
    and l: "int (length (due_ahead PgBus env ty r (rows_of st))) < limit"
  from due_in_front [OF d r due l] have "wj_id r \<in> wj_id ` set (take (nat limit)
      (sort_key wj_run_at (sort_key wj_id (filter (due_job ty (je_pg_now env)) (rows_of st)))))"
    by (simp add: queue_now_def)
  then have "set_running LOCAL_WORKER (je_pg_now env) r \<in> set (rows_of (snd (fetch_due PgBus env ty limit st)))"
    using r l by (auto simp: fetch_due_def pg_fetch_due_def monad_defs update_jobs_def set_update_where)
  then show "\<exists>now. set_running LOCAL_WORKER now r \<in> set (rows_of (snd (fetch_due PgBus env ty limit st)))" by blast
qed (auto simp: mark_done_def pg_mark_done_def schedule_retry_def pg_schedule_retry_def mark_failed_def pg_mark_failed_def
     update_jobs_def change_row_def monad_defs split: option.splits)

interpretation sqlite: job_backend SqliteBus
proof
  fix st limit env ty res st'
  assume d: "distinct (map wj_id (rows_of st))" and l: "0 \<le> limit"
    and run: "fetch_due SqliteBus env ty limit st = (res, st')"
  define picked where "picked = take (nat limit) (sort_key wj_id (filter (due_job ty (now_millis env)) (rows_of st)))"
  have dp: "distinct (map wj_id picked)"
    using d by (simp add: picked_def take_map [symmetric] distinct_map inj_on_def)
  have sub: "set picked \<subseteq> {r \<in> set (rows_of st). due_job ty (now_millis env) r}"
    by (auto simp: picked_def dest!: in_set_takeD)
  have "update_where (\<lambda>r. wj_id r \<in> wj_id ` set picked \<and> wj_status r = JobPending) (set_running LOCAL_WORKER (now_millis env))
      (rows_of st) = marked picked (now_millis env) (rows_of st)"
    unfolding marked_def by (rule update_where_cong) (rule picked_pending [OF d sub])
  then have "st' = st\<lparr>worker_jobs := marked picked (now_millis env) (rows_of st)\<rparr>"
    and "res = (if list_all (\<lambda>r. je_json env (wj_payload r)) picked then Inr (map fetch_of picked) else Inl JobDeserialize)"
    using run l by (auto simp: fetch_due_def sqlite_fetch_due_def lock_and_mark_def bindM_def getsM_def seqM_def
        mark_running_loop guardM_def retM_def failM_def picked_def split: if_splits)
  then show "\<exists>picked now. set picked \<subseteq> {r \<in> set (rows_of st). due_job ty now r} \<and> distinct (map wj_id picked) \<and>
        length picked \<le> nat limit \<and> st' = st\<lparr>worker_jobs := marked picked now (rows_of st)\<rparr> \<and>
        (\<forall>jobs. res = Inr jobs \<longrightarrow> mset jobs = image_mset fetch_of (mset picked))"
    using dp sub by (intro exI [of _ picked] exI [of _ "now_millis env"]) (auto simp: picked_def)
next
  fix st r ty env limit
  assume d: "distinct (map wj_id (rows_of st))" and r: "r \<in> set (rows_of st)" and due: "due_job ty (queue_now SqliteBus env) r"
    and l: "int (length (due_ahead SqliteBus env ty r (rows_of st))) < limit"
  from due_in_front [OF d r due l] have "wj_id r \<in> wj_id ` set (take (nat limit)
      (sort_key wj_id (filter (due_job ty (now_millis env)) (rows_of st))))"
    by (simp add: queue_now_def)
  moreover have "wj_status r = JobPending" using due by (simp add: due_job_def)
  ultimately have "set_running LOCAL_WORKER (now_millis env) r \<in> set (rows_of (snd (fetch_due SqliteBus env ty limit st)))"
    using r l by (auto simp: fetch_due_def sqlite_fetch_due_def lock_and_mark_def bindM_def getsM_def seqM_def
        mark_running_loop guardM_def retM_def failM_def set_update_where)
  then show "\<exists>now. set_running LOCAL_WORKER now r \<in> set (rows_of (snd (fetch_due SqliteBus env ty limit st)))" by blast
qed (auto simp: mark_done_def sqlite_mark_done_def schedule_retry_def sqlite_schedule_retry_def mark_failed_def
     sqlite_mark_failed_def update_jobs_def change_row_def monad_defs)

section \<open>Invariants over all runs\<close>

text \<open>
  A row allows \<open>max 1 max_attempts\<close> executions.  A waiting or running job has failed fewer times than that,
  a failed one exactly that often; a task in flight was fetched before the last allowed failure.
\<close>

definition allowed :: "int \<Rightarrow> int" where
  "allowed max_attempts = max 1 max_attempts"

definition row_ok :: "worker_job \<Rightarrow> bool" where
  "row_ok r = (0 \<le> wj_attempts r \<and> wj_max_attempts r < 2 ^ 31 \<and>
     (case wj_status r of
        JobPending \<Rightarrow> wj_attempts r < allowed (wj_max_attempts r) \<and> wj_lock_at r = None
      | JobRunning \<Rightarrow> wj_attempts r < allowed (wj_max_attempts r) \<and> wj_lock_at r \<noteq> None
      | JobDone \<Rightarrow> wj_attempts r \<le> allowed (wj_max_attempts r) \<and> wj_done_at r \<noteq> None
      | JobFailed \<Rightarrow> wj_attempts r = allowed (wj_max_attempts r) \<and> wj_done_at r \<noteq> None \<and> wj_last_error r \<noteq> None))"

definition task_ok :: "worker_job list \<Rightarrow> job_task \<Rightarrow> bool" where
  "task_ok rows t = (let m = fj_meta (tk_job t) in
     0 \<le> jm_attempts m \<and> jm_attempts m < allowed (jm_max_attempts m) \<and> jm_max_attempts m < 2 ^ 31 \<and>
     (\<forall>r \<in> set rows. wj_id r = jm_id m \<longrightarrow> wj_max_attempts r = jm_max_attempts m \<and> wj_job_type r = tk_type t))"

definition ids_ok :: "job_state \<Rightarrow> bool" where
  "ids_ok s = (distinct (map wj_id (rows_of (js_store s))) \<and>
     (\<forall>r \<in> set (rows_of (js_store s)). wj_id r < wj_next (js_store s)) \<and>
     (\<forall>t \<in> set (js_tasks s). task_id t < wj_next (js_store s)))"

definition jobs_inv :: "job_spec list \<Rightarrow> job_state \<Rightarrow> bool" where
  "jobs_inv specs s = (ids_ok s \<and> (\<forall>r \<in> set (rows_of (js_store s)). row_ok r) \<and>
     (\<forall>t \<in> set (js_tasks s). task_ok (rows_of (js_store s)) t) \<and>
     (\<forall>w. \<forall>spec \<in> set specs. length (in_flight w (NAME spec) s) \<le> CONCURRENCY spec))"

text \<open>The row changes that \<open>run_one_job\<close> can make.\<close>

inductive final_update :: "job_meta \<Rightarrow> (worker_job \<Rightarrow> worker_job) \<Rightarrow> bool" for m where
  none: "final_update m (\<lambda>r. r)"
| succeeded: "final_update m (set_done now)"
| again: "to_i32 (jm_attempts m + 1) < jm_max_attempts m \<Longrightarrow> final_update m (set_retry (to_i32 (jm_attempts m + 1)) t e)"
| gave_up: "\<not> to_i32 (jm_attempts m + 1) < jm_max_attempts m \<Longrightarrow>
    final_update m (set_failed (to_i32 (jm_attempts m + 1)) now e)"

lemma change_row_id: "change_row k (\<lambda>r. r) st = st"
  by (simp add: change_row_def update_where_def)

lemma to_i32_id: "- (2 ^ 31) \<le> x \<Longrightarrow> x < 2 ^ 31 \<Longrightarrow> to_i32 x = x"
  by (simp add: to_i32_def)

lemma to_i32_less: "to_i32 x < 2 ^ 31"
proof -
  have "(x + 2 ^ 31) mod 2 ^ 32 < (2 ^ 32 :: int)" by simp
  then show ?thesis by (simp add: to_i32_def)
qed

lemma to_i32_le: "0 \<le> x \<Longrightarrow> to_i32 x \<le> x"
  using zmod_le_nonneg_dividend [of "x + 2 ^ 31" "2 ^ 32"] by (simp add: to_i32_def)

context job_backend
begin

lemma failure_effect:
  "\<exists>f. final_update m f \<and> snd (finish_failure bus env options m e st) = change_row (jm_id m) f st"
proof (cases "to_i32 (jm_attempts m + 1) < jm_max_attempts m")
  case True
  then show ?thesis
    using retry_law [of env "jm_id m" "to_i32 (jm_attempts m + 1)" "backoff_delay (to_i32 (jm_attempts m + 1)) options" e st]
    by (auto simp: finish_failure_def Let_def intro: final_update.intros) (metis change_row_id final_update.none)
next
  case False
  then show ?thesis
    using failed_law [of env "jm_id m" "to_i32 (jm_attempts m + 1)" e st]
    by (auto simp: finish_failure_def Let_def intro: final_update.intros)
qed

lemma run_effect:
  "\<exists>f. final_update (fj_meta job) f \<and> snd (run_one_job bus env options job out st) = change_row (jm_id (fj_meta job)) f st"
proof (cases out)
  case HandlerOk
  then show ?thesis
    using done_law [of env "jm_id (fj_meta job)" st] by (auto simp: run_one_job_def intro: final_update.intros)
qed (use failure_effect in \<open>auto simp: run_one_job_def\<close>)

end

lemma final_update_id: "final_update m f \<Longrightarrow> wj_id (f r) = wj_id r \<and> wj_max_attempts (f r) = wj_max_attempts r \<and> wj_job_type (f r) = wj_job_type r"
  by (induction rule: final_update.induct) (simp_all add: set_done_def set_retry_def set_failed_def)

lemma final_update_row_ok:
  assumes "final_update m f" "row_ok r" "wj_max_attempts r = jm_max_attempts m"
    and m: "0 \<le> jm_attempts m" "jm_attempts m < allowed (jm_max_attempts m)"
  shows "row_ok (f r)"
proof -
  have "jm_max_attempts m < 2 ^ 31" using assms(2,3) by (simp add: row_ok_def)
  then have n: "to_i32 (jm_attempts m + 1) = jm_attempts m + 1"
    using m by (intro to_i32_id) (auto simp: allowed_def)
  from assms(1) show ?thesis
  proof cases
    case (again t e)
    then show ?thesis using assms(2,3) m n by (auto simp: row_ok_def set_retry_def allowed_def)
  next
    case (gave_up now e)
    then show ?thesis using assms(2,3) m n by (auto simp: row_ok_def set_failed_def allowed_def max_def)
  next
    case (succeeded now)
    then show ?thesis using assms(2) by (auto simp: row_ok_def set_done_def split: job_status.splits)
  qed (use assms(2) in simp)
qed

text \<open>The effect of the remaining events on the table.\<close>

lemma enqueue_effect:
  "snd (enqueue_after bus env job payload delay st) = st \<or>
   (\<exists>p t. snd (enqueue_after bus env job payload delay st) = st\<lparr>worker_jobs := rows_of st @
      [\<lparr>wj_id = wj_next st, wj_job_type = NAME job, wj_payload = p, wj_status = JobPending, wj_attempts = 0,
        wj_max_attempts = max_attempts_of job, wj_run_at = t, wj_last_error = None, wj_lock_by = None,
        wj_lock_at = None, wj_done_at = None\<rparr>], wj_next := wj_next st + 1\<rparr>)"
  by (cases bus; cases payload; cases "je_shift_ms env (to_i64 (as_millis delay))")
    (auto simp: enqueue_after_def pg_insert_def sqlite_insert_def insert_job_def monad_defs)

lemma sweep_effect:
  "snd (reenqueue_orphaned bus env d st) = (case orphan_limit bus env d of None \<Rightarrow> st
     | Some limit \<Rightarrow> st\<lparr>worker_jobs := update_where (orphaned limit) set_orphan (rows_of st)\<rparr>)"
  by (simp add: reenqueue_orphaned_def orphan_sweep_def update_jobs_def monad_defs split: option.splits)

lemma gc_loop_filter:
  "\<exists>P. snd (gc_loop env cutoff rows) = filter P rows \<and>
     (distinct (map wj_id rows) \<longrightarrow> (\<forall>r \<in> set rows. \<not> finished_before cutoff r \<longrightarrow> P r))"
proof (induction env cutoff rows rule: gc_loop.induct)
  case (1 env cutoff rows)
  define rest where "rest = gc_batch env cutoff rows"
  define P :: "worker_job \<Rightarrow> bool" where "P = (\<lambda>r. wj_id r \<notin> wj_id ` set (gc_victims env cutoff rows))"
  have rest: "rest = filter P rows" by (simp add: rest_def gc_batch_def Let_def P_def)
  have keep: "P r" if "distinct (map wj_id rows)" "r \<in> set rows" "\<not> finished_before cutoff r" for r
  proof -
    have "v \<in> set rows \<and> finished_before cutoff v" if "v \<in> set (gc_victims env cutoff rows)" for v
      using that by (auto simp: gc_victims_def unordered_def dest: in_set_takeD)
    then show ?thesis using that unfolding P_def by (metis distinct_map image_iff inj_on_def)
  qed
  show ?case
  proof (cases "length rows - length rest < GC_BATCH")
    case True
    then show ?thesis using rest keep by (subst gc_loop.simps) (auto simp: Let_def rest_def [symmetric])
  next
    case False
    from 1 [OF rest_def refl False] obtain Q where Q: "snd (gc_loop env cutoff rest) = filter Q rest"
      "distinct (map wj_id rest) \<longrightarrow> (\<forall>r \<in> set rest. \<not> finished_before cutoff r \<longrightarrow> Q r)" by blast
    have "snd (gc_loop env cutoff rows) = snd (gc_loop env cutoff rest)"
      using False by (subst gc_loop.simps) (simp add: Let_def rest_def [symmetric] split: prod.split)
    then have "snd (gc_loop env cutoff rows) = filter (\<lambda>r. P r \<and> Q r) rows" using Q(1) rest by simp
    moreover have "P r \<and> Q r" if "distinct (map wj_id rows)" "r \<in> set rows" "\<not> finished_before cutoff r" for r
      using that keep Q(2) rest by (auto simp: distinct_map inj_on_def)
    ultimately show ?thesis by blast
  qed
qed

lemma collect_effect:
  "\<exists>P. snd (delete_finished_older_than bus env days st) = st\<lparr>worker_jobs := filter P (rows_of st)\<rparr> \<and>
     (distinct (map wj_id (rows_of st)) \<longrightarrow> (\<forall>r \<in> set (rows_of st). wj_status r \<notin> {JobDone, JobFailed} \<longrightarrow> P r))"
proof -
  have loop: "\<exists>P. snd (delete_finished env cutoff st) = st\<lparr>worker_jobs := filter P (rows_of st)\<rparr> \<and>
     (distinct (map wj_id (rows_of st)) \<longrightarrow> (\<forall>r \<in> set (rows_of st). wj_status r \<notin> {JobDone, JobFailed} \<longrightarrow> P r))" for cutoff
    using gc_loop_filter [of env cutoff "rows_of st"]
    by (auto simp: delete_finished_def monad_defs finished_before_def split: prod.splits)
  have "snd (delete_finished_older_than bus env days st) = st \<or>
      (\<exists>cutoff. snd (delete_finished_older_than bus env days st) = snd (delete_finished env cutoff st))"
    by (cases bus) (auto simp: delete_finished_older_than_def pg_delete_finished_def sqlite_delete_finished_def
        seqM_def bindM_def guardM_def retM_def failM_def)
  then show ?thesis
  proof
    assume "snd (delete_finished_older_than bus env days st) = st"
    then show ?thesis by (intro exI [of _ "\<lambda>_. True"]) simp
  next
    assume "\<exists>cutoff. snd (delete_finished_older_than bus env days st) = snd (delete_finished env cutoff st)"
    then show ?thesis using loop by metis
  qed
qed

lemma set_drop_task: "set (drop_task i ts) \<subseteq> set ts"
  by (auto simp: drop_task_def dest: in_set_takeD in_set_dropD)

lemma length_filter_drop_task: "length (filter P (drop_task i ts)) \<le> length (filter P ts)"
proof -
  have "filter P ts = filter P (take i ts) @ filter P (drop i ts)" by (metis append_take_drop_id filter_append)
  moreover have "length (filter P (drop (Suc i) ts)) \<le> length (filter P (drop i ts))"
    by (cases "i < length ts") (simp_all add: Cons_nth_drop_Suc [symmetric])
  ultimately show ?thesis by (simp add: drop_task_def)
qed

text \<open>How the invariant moves through a changed, a shortened and an extended table.\<close>

definition same_job :: "worker_job \<Rightarrow> worker_job \<Rightarrow> bool" where
  "same_job r r' = (wj_id r' = wj_id r \<and> wj_max_attempts r' = wj_max_attempts r \<and> wj_job_type r' = wj_job_type r)"

lemma same_job_intros [simp]:
  "same_job r r" "same_job r (set_running b n r)" "same_job r (set_orphan r)"
  "final_update m f \<Longrightarrow> same_job r (f r)"
  by (simp_all add: same_job_def set_running_def set_orphan_def final_update_id)

lemma jobs_inv_map:
  assumes inv: "jobs_inv specs s"
    and g: "\<And>r. r \<in> set (rows_of (js_store s)) \<Longrightarrow> same_job r (g r) \<and> row_ok (g r)"
  shows "jobs_inv specs (s\<lparr>js_store := (js_store s)\<lparr>worker_jobs := map g (rows_of (js_store s))\<rparr>\<rparr>)"
proof -
  have "map wj_id (map g (rows_of (js_store s))) = map wj_id (rows_of (js_store s))"
    using g by (simp add: same_job_def)
  then show ?thesis
    using inv g unfolding jobs_inv_def ids_ok_def task_ok_def in_flight_def same_job_def Let_def
    by (auto simp del: map_map)
qed

lemma jobs_inv_update:
  assumes "jobs_inv specs s"
    and "\<And>r. r \<in> set (rows_of (js_store s)) \<Longrightarrow> P r \<Longrightarrow> same_job r (f r) \<and> row_ok (f r)"
  shows "jobs_inv specs (s\<lparr>js_store := (js_store s)\<lparr>worker_jobs := update_where P f (rows_of (js_store s))\<rparr>\<rparr>)"
  unfolding update_where_def
  by (rule jobs_inv_map [OF assms(1)]) (use assms in \<open>auto simp: jobs_inv_def\<close>)

lemma jobs_inv_filter:
  assumes "jobs_inv specs s"
  shows "jobs_inv specs (s\<lparr>js_store := (js_store s)\<lparr>worker_jobs := filter P (rows_of (js_store s))\<rparr>\<rparr>)"
  using assms by (auto simp: jobs_inv_def ids_ok_def task_ok_def in_flight_def distinct_map_filter Let_def)

lemma jobs_inv_drop:
  assumes "jobs_inv specs s"
  shows "jobs_inv specs (s\<lparr>js_tasks := drop_task i (js_tasks s)\<rparr>)"
  using assms set_drop_task [of i "js_tasks s"] length_filter_drop_task [of _ i "js_tasks s"]
  unfolding jobs_inv_def ids_ok_def in_flight_def
  by (simp add: subset_iff) (meson le_trans)

lemma jobs_inv_tasks:
  assumes inv: "jobs_inv specs s" and names: "distinct (map NAME specs)" and spec: "spec \<in> set specs"
    and new: "\<And>t. t \<in> set ts \<Longrightarrow> task_ok (rows_of (js_store s)) t \<and> task_id t < wj_next (js_store s) \<and>
       tk_worker t = w \<and> tk_type t = NAME spec"
    and permits: "length (in_flight w (NAME spec) s) + length ts \<le> CONCURRENCY spec"
  shows "jobs_inv specs (s\<lparr>js_tasks := js_tasks s @ ts\<rparr>)"
proof -
  have "length (in_flight v (NAME c) (s\<lparr>js_tasks := js_tasks s @ ts\<rparr>)) \<le> CONCURRENCY c" if c: "c \<in> set specs" for v c
  proof (cases "v = w \<and> NAME c = NAME spec")
    case True
    then have "c = spec" using names spec c by (auto simp: distinct_map inj_on_def)
    then show ?thesis using True permits new by (simp add: in_flight_def)
  next
    case False
    then have "filter (\<lambda>t. tk_worker t = v \<and> tk_type t = NAME c) ts = []" using new by (auto simp: filter_empty_conv)
    then show ?thesis using inv c by (simp add: jobs_inv_def in_flight_def)
  qed
  then show ?thesis using inv new unfolding jobs_inv_def ids_ok_def by auto
qed

lemma row_ok_running: "row_ok r \<Longrightarrow> wj_status r = JobPending \<Longrightarrow> row_ok (set_running b n r)"
  by (simp add: row_ok_def set_running_def)

lemma row_ok_orphan: "row_ok r \<Longrightarrow> orphaned limit r \<Longrightarrow> row_ok (set_orphan r)"
  by (simp add: row_ok_def set_orphan_def orphaned_def)

lemma jobs_inv_insert:
  assumes inv: "jobs_inv specs s" and r: "row_ok r" "wj_id r = wj_next (js_store s)"
  shows "jobs_inv specs (s\<lparr>js_store := (js_store s)\<lparr>worker_jobs := rows_of (js_store s) @ [r],
    wj_next := wj_next (js_store s) + 1\<rparr>\<rparr>)"
proof -
  have "wj_next (js_store s) \<notin> wj_id ` set (rows_of (js_store s))"
    using inv by (fastforce simp: jobs_inv_def ids_ok_def)
  moreover have "\<forall>t \<in> set (js_tasks s). jm_id (fj_meta (tk_job t)) \<noteq> wj_next (js_store s)"
    using inv by (fastforce simp: jobs_inv_def ids_ok_def task_id_def)
  ultimately show ?thesis
    using inv r unfolding jobs_inv_def ids_ok_def task_ok_def in_flight_def Let_def by fastforce
qed

lemma jobs_inv_enqueue:
  assumes "jobs_inv specs s"
  shows "jobs_inv specs (job_step bus options (Enqueue env job payload delay) s)"
proof -
  have "max_attempts_of job < 2 ^ 31" unfolding max_attempts_of_def by (rule to_i32_less)
  then show ?thesis
    using enqueue_effect [of bus env job payload delay "js_store s"] assms
    by (auto intro!: jobs_inv_insert simp: row_ok_def allowed_def)
qed

lemma empty_jobs_inv: "jobs_inv specs empty_jobs"
  by (simp add: jobs_inv_def ids_ok_def empty_jobs_def in_flight_def)

context job_backend
begin

lemma jobs_inv_finish:
  assumes inv: "jobs_inv specs s"
  shows "jobs_inv specs (job_step bus options (Finish env i out) s)"
proof (cases "i < length (js_tasks s)")
  case True
  let ?t = "js_tasks s ! i"
  obtain f where f: "final_update (fj_meta (tk_job ?t)) f"
    "snd (run_one_job bus env options (tk_job ?t) out (js_store s)) = change_row (task_id ?t) f (js_store s)"
    using run_effect by (metis task_id_def)
  have "task_ok (rows_of (js_store s)) ?t" using inv True by (simp add: jobs_inv_def)
  then have "jobs_inv specs (s\<lparr>js_store := (js_store s)\<lparr>worker_jobs :=
      update_where (\<lambda>r. wj_id r = task_id ?t) f (rows_of (js_store s))\<rparr>\<rparr>)"
    using f(1) inv by (intro jobs_inv_update [OF inv])
      (auto simp: jobs_inv_def task_ok_def task_id_def Let_def intro: final_update_row_ok)
  from jobs_inv_drop [OF this, of i] show ?thesis using True f(2) by (simp add: change_row_def)
qed (use inv in simp)

lemma jobs_inv_poll:
  assumes inv: "jobs_inv specs s" and names: "distinct (map NAME specs)" and spec: "spec \<in> set specs"
  shows "jobs_inv specs (job_step bus options (Poll env w spec) s)"
proof -
  let ?n = "CONCURRENCY spec - length (in_flight w (NAME spec) s)"
  let ?rows = "rows_of (js_store s)"
  obtain res st where run: "fetch_due bus env (NAME spec) (to_i32 (int ?n)) (js_store s) = (res, st)" by fastforce
  show ?thesis
  proof (cases "to_i32 (int ?n) \<le> 0")
    case True
    then show ?thesis using inv by (simp add: poll_jobs_def)
  next
    case False
    have d: "distinct (map wj_id ?rows)" using inv by (simp add: jobs_inv_def ids_ok_def)
    from fetch_law [OF d _ run] False obtain picked now where
      p: "set picked \<subseteq> {r \<in> set ?rows. due_job (NAME spec) now r}" "length picked \<le> nat (to_i32 (int ?n))"
      "st = (js_store s)\<lparr>worker_jobs := marked picked now ?rows\<rparr>"
      "\<And>jobs. res = Inr jobs \<Longrightarrow> mset jobs = image_mset fetch_of (mset picked)" by auto
    let ?s = "s\<lparr>js_store := st\<rparr>"
    have "row_ok (set_running LOCAL_WORKER now r)" if "r \<in> set ?rows" "wj_id r \<in> wj_id ` set picked" for r
      using that p(1) d inv by (intro row_ok_running) (auto simp: jobs_inv_def due_job_def distinct_map inj_on_def)
    then have inv': "jobs_inv specs ?s"
      unfolding p(3) marked_def by (intro jobs_inv_update [OF inv]) simp
    have fit: "length picked \<le> ?n" using p(2) to_i32_le [of "int ?n"] by linarith
    have "jobs_inv specs (?s\<lparr>js_tasks := js_tasks ?s @ map (\<lambda>j. \<lparr>tk_worker = w, tk_type = NAME spec, tk_job = j\<rparr>) jobs\<rparr>)"
      if jobs: "res = Inr jobs" for jobs
    proof (rule jobs_inv_tasks [OF inv' names spec])
      have "length jobs = length picked" using p(4) [OF jobs] by (metis size_image_mset size_mset)
      moreover have "length (in_flight w (NAME spec) s) \<le> CONCURRENCY spec" using inv spec by (simp add: jobs_inv_def)
      ultimately show "length (in_flight w (NAME spec) ?s) +
          length (map (\<lambda>j. \<lparr>tk_worker = w, tk_type = NAME spec, tk_job = j\<rparr>) jobs) \<le> CONCURRENCY spec"
        using fit by (simp add: in_flight_def)
    next
      fix t assume "t \<in> set (map (\<lambda>j. \<lparr>tk_worker = w, tk_type = NAME spec, tk_job = j\<rparr>) jobs)"
      moreover have "set jobs = fetch_of ` set picked" using p(4) [OF jobs] by (metis set_image_mset set_mset_mset)
      ultimately obtain r where r: "r \<in> set picked" "t = \<lparr>tk_worker = w, tk_type = NAME spec, tk_job = fetch_of r\<rparr>" by auto
      then have "r \<in> set ?rows" "due_job (NAME spec) now r" using p(1) by auto
      moreover from this have "row_ok r" "wj_id r < wj_next (js_store s)" using inv by (auto simp: jobs_inv_def ids_ok_def)
      moreover have "\<forall>q \<in> set (marked picked now ?rows). wj_id q = wj_id r \<longrightarrow>
          wj_max_attempts q = wj_max_attempts r \<and> wj_job_type q = wj_job_type r"
        unfolding marked_def ball_update_where using d \<open>r \<in> set ?rows\<close>
        by (auto simp: distinct_map inj_on_def set_running_def)
      ultimately show "task_ok (rows_of (js_store ?s)) t \<and> task_id t < wj_next (js_store ?s) \<and> tk_worker t = w \<and> tk_type t = NAME spec"
        using r(2) p(3) by (auto simp: task_ok_def task_id_def fetch_of_def row_ok_def due_job_def Let_def)
    qed
    then show ?thesis using False run inv' by (cases res) (simp_all add: poll_jobs_def)
  qed
qed

lemma jobs_inv_step:
  assumes "jobs_inv specs s" "distinct (map NAME specs)" "registered specs e"
  shows "jobs_inv specs (job_step bus options e s)"
proof (cases e)
  case (Poll env w spec)
  then show ?thesis using assms jobs_inv_poll by (auto simp: registered_def)
next
  case (Sweep env)
  then show ?thesis
    using assms(1) by (auto simp: sweep_effect jobs_inv_def [of specs s] intro!: jobs_inv_update row_ok_orphan split: option.split)
next
  case (Collect env days)
  obtain P where "snd (delete_finished_older_than bus env days (js_store s))
      = (js_store s)\<lparr>worker_jobs := filter P (rows_of (js_store s))\<rparr>"
    using collect_effect by blast
  then show ?thesis using Collect jobs_inv_filter [OF assms(1)] by simp
qed (use assms jobs_inv_enqueue jobs_inv_finish jobs_inv_drop in auto)

end

section \<open>Exclusive execution\<close>

text \<open>
  While sweeps are prompt, no job runs twice at a time: the tasks in flight belong to different jobs, and
  the row of each is marked as running and has the counters the task was fetched with.
\<close>

definition running_row :: "worker_job list \<Rightarrow> job_task \<Rightarrow> bool" where
  "running_row rows t = (\<exists>r \<in> set rows. wj_id r = task_id t \<and> wj_status r = JobRunning \<and>
     wj_attempts r = jm_attempts (fj_meta (tk_job t)) \<and> wj_max_attempts r = jm_max_attempts (fj_meta (tk_job t)))"

definition exclusive :: "job_state \<Rightarrow> bool" where
  "exclusive s = (ids_ok s \<and> distinct (map task_id (js_tasks s)) \<and>
     (\<forall>t \<in> set (js_tasks s). running_row (rows_of (js_store s)) t))"

definition finished :: "worker_job \<Rightarrow> bool" where
  "finished r = (wj_status r \<in> {JobDone, JobFailed})"

text \<open>What a table keeps of the finished jobs: they stay as they are or go.\<close>

definition keeps_finished :: "job_store \<Rightarrow> job_store \<Rightarrow> bool" where
  "keeps_finished st st' = (\<forall>r \<in> set (rows_of st). \<forall>r' \<in> set (rows_of st').
     finished r \<longrightarrow> wj_id r' = wj_id r \<longrightarrow> r' = r)"

lemma keeps_finished_update:
  assumes "distinct (map wj_id (rows_of st))" "\<And>r. wj_id (f r) = wj_id r"
    and "\<And>r. r \<in> set (rows_of st) \<Longrightarrow> P r \<Longrightarrow> \<not> finished r"
  shows "keeps_finished st (st\<lparr>worker_jobs := update_where P f (rows_of st)\<rparr>)"
  using assms unfolding keeps_finished_def by (auto simp: set_update_where distinct_map inj_on_def)

lemma exclusive_update:
  assumes "exclusive s" and "\<And>r. wj_id (f r) = wj_id r"
    and "\<And>t. t \<in> set (js_tasks s) \<Longrightarrow> running_row (update_where P f (rows_of (js_store s))) t"
  shows "exclusive (s\<lparr>js_store := (js_store s)\<lparr>worker_jobs := update_where P f (rows_of (js_store s))\<rparr>\<rparr>)"
  using assms by (auto simp: exclusive_def ids_ok_def map_update_where set_update_where)

lemma running_row_other:
  "running_row rows t \<Longrightarrow> (\<And>r. r \<in> set rows \<Longrightarrow> wj_id r = task_id t \<Longrightarrow> wj_status r = JobRunning \<Longrightarrow> \<not> P r) \<Longrightarrow>
   running_row (update_where P f rows) t"
  by (fastforce simp: running_row_def set_update_where)

lemma exclusive_filter:
  assumes "exclusive s" and "\<And>r. r \<in> set (rows_of (js_store s)) \<Longrightarrow> \<not> finished r \<Longrightarrow> P r"
  shows "exclusive (s\<lparr>js_store := (js_store s)\<lparr>worker_jobs := filter P (rows_of (js_store s))\<rparr>\<rparr>)"
proof -
  have "running_row (filter P (rows_of (js_store s))) t" if "t \<in> set (js_tasks s)" for t
  proof -
    obtain r where "r \<in> set (rows_of (js_store s))" "wj_id r = task_id t" "wj_status r = JobRunning"
        "wj_attempts r = jm_attempts (fj_meta (tk_job t))" "wj_max_attempts r = jm_max_attempts (fj_meta (tk_job t))"
      using assms(1) \<open>t \<in> set (js_tasks s)\<close> by (auto simp: exclusive_def running_row_def)
    moreover from this have "P r" using assms(2) by (simp add: finished_def)
    ultimately show ?thesis by (auto simp: running_row_def)
  qed
  then show ?thesis using assms(1) by (auto simp: exclusive_def ids_ok_def distinct_map_filter)
qed

lemma distinct_drop_task: "distinct (map g ts) \<Longrightarrow> i < length ts \<Longrightarrow>
    distinct (map g (drop_task i ts)) \<and> g (ts ! i) \<notin> g ` set (drop_task i ts)"
proof -
  assume d: "distinct (map g ts)" and i: "i < length ts"
  have "map g ts = map g (take i ts) @ g (ts ! i) # map g (drop (Suc i) ts)"
    using i by (metis id_take_nth_drop list.simps(9) map_append)
  then have "distinct (map g (take i ts) @ g (ts ! i) # map g (drop (Suc i) ts))" using d by simp
  then show ?thesis unfolding drop_task_def by auto
qed

lemma drop_task_beyond: "\<not> i < length ts \<Longrightarrow> drop_task i ts = ts"
  by (simp add: drop_task_def)

lemma exclusive_drop: "exclusive s \<Longrightarrow> exclusive (s\<lparr>js_tasks := drop_task i (js_tasks s)\<rparr>)"
  using set_drop_task [of i "js_tasks s"] distinct_drop_task [of task_id "js_tasks s" i] drop_task_beyond [of i "js_tasks s"]
  unfolding exclusive_def ids_ok_def by (cases "i < length (js_tasks s)") (auto simp: subset_iff)

context job_backend
begin

lemma exclusive_finish:
  assumes ex: "exclusive s" and i: "i < length (js_tasks s)"
  shows "exclusive (job_step bus options (Finish env i out) s) \<and>
         keeps_finished (js_store s) (js_store (job_step bus options (Finish env i out) s))"
proof -
  let ?t = "js_tasks s ! i" and ?rows = "rows_of (js_store s)"
  obtain f where f: "final_update (fj_meta (tk_job ?t)) f"
    "snd (run_one_job bus env options (tk_job ?t) out (js_store s)) = change_row (task_id ?t) f (js_store s)"
    using run_effect by (metis task_id_def)
  have fid: "wj_id (f r) = wj_id r" for r using final_update_id [OF f(1)] by blast
  have d: "distinct (map wj_id ?rows)" using ex by (simp add: exclusive_def ids_ok_def)
  have run: "running_row ?rows ?t" using ex i by (simp add: exclusive_def)
  let ?s = "s\<lparr>js_tasks := drop_task i (js_tasks s)\<rparr>"
  have other: "task_id t \<noteq> task_id ?t" if "t \<in> set (js_tasks ?s)" for t
    using that distinct_drop_task [of task_id "js_tasks s" i] i ex unfolding exclusive_def
    by (metis image_eqI job_state.select_convs(2) job_state.surjective job_state.update_convs(2))
  have "running_row (update_where (\<lambda>r. wj_id r = task_id ?t) f (rows_of (js_store ?s))) t" if "t \<in> set (js_tasks ?s)" for t
    by (rule running_row_other) (use other [OF that] exclusive_drop [OF ex, of i] that in \<open>auto simp: exclusive_def\<close>)
  then have "exclusive (?s\<lparr>js_store := (js_store ?s)\<lparr>worker_jobs :=
      update_where (\<lambda>r. wj_id r = task_id ?t) f (rows_of (js_store ?s))\<rparr>\<rparr>)"
    by (intro exclusive_update [OF exclusive_drop [OF ex, of i]] fid)
  moreover have "\<not> finished r" if "r \<in> set ?rows" "wj_id r = task_id ?t" for r
    using that run d by (auto simp: running_row_def finished_def distinct_map inj_on_def)
  ultimately show ?thesis
    using i f(2) keeps_finished_update [OF d fid, where P="\<lambda>r. wj_id r = task_id ?t"]
    by (simp add: change_row_def exclusive_def ids_ok_def)
qed

lemma exclusive_poll:
  assumes ex: "exclusive s"
  shows "exclusive (poll_jobs bus env w spec s) \<and> keeps_finished (js_store s) (js_store (poll_jobs bus env w spec s))"
proof -
  let ?n = "to_i32 (int (CONCURRENCY spec - length (in_flight w (NAME spec) s)))"
  let ?rows = "rows_of (js_store s)"
  obtain res st where run: "fetch_due bus env (NAME spec) ?n (js_store s) = (res, st)" by fastforce
  have d: "distinct (map wj_id ?rows)" using ex by (simp add: exclusive_def ids_ok_def)
  have same: "keeps_finished (js_store s) (js_store s)"
    using d by (auto simp: keeps_finished_def distinct_map inj_on_def)
  show ?thesis
  proof (cases "?n \<le> 0")
    case True
    then show ?thesis using ex same by (simp add: poll_jobs_def)
  next
    case False
    from fetch_law [OF d _ run] False obtain picked now where
      p: "set picked \<subseteq> {r \<in> set ?rows. due_job (NAME spec) now r}" "distinct (map wj_id picked)"
      "st = (js_store s)\<lparr>worker_jobs := marked picked now ?rows\<rparr>"
      "\<And>jobs. res = Inr jobs \<Longrightarrow> mset jobs = image_mset fetch_of (mset picked)" by auto
    have pend: "wj_status r = JobPending" if "r \<in> set ?rows" "wj_id r \<in> wj_id ` set picked" for r
      using that p(1) d by (auto simp: due_job_def distinct_map inj_on_def)
    have keep: "keeps_finished (js_store s) st"
      unfolding p(3) marked_def by (rule keeps_finished_update [OF d]) (auto simp: finished_def dest: pend)
    have ex': "exclusive (s\<lparr>js_store := st\<rparr>)"
      unfolding p(3) marked_def
      by (intro exclusive_update [OF ex] running_row_other) (use ex pend in \<open>auto simp: exclusive_def\<close>)
    have "exclusive (s\<lparr>js_store := st, js_tasks := js_tasks s @
        map (\<lambda>j. \<lparr>tk_worker = w, tk_type = NAME spec, tk_job = j\<rparr>) jobs\<rparr>)" if jobs: "res = Inr jobs" for jobs
    proof -
      let ?ts = "map (\<lambda>j. \<lparr>tk_worker = w, tk_type = NAME spec, tk_job = j\<rparr>) jobs"
      have ids: "mset (map task_id ?ts) = mset (map wj_id picked)"
        using p(4) [OF jobs] by (simp add: comp_def task_id_def multiset.map_comp fetch_of_def)
      then have "distinct (map task_id ?ts)" using p(2) by (metis mset_eq_imp_distinct_iff)
      moreover have set_ids: "task_id ` set ?ts = wj_id ` set picked"
        using ids by (metis list.set_map set_mset_mset)
      moreover have "task_id t \<notin> wj_id ` set picked" if "t \<in> set (js_tasks s)" for t
        using that ex pend by (fastforce simp: exclusive_def running_row_def)
      moreover have "running_row (rows_of st) t" if "t \<in> set ?ts" for t
      proof -
        have "set jobs = fetch_of ` set picked" using p(4) [OF jobs] by (metis set_image_mset set_mset_mset)
        then have "tk_job t \<in> fetch_of ` set picked" using that by auto
        then obtain r where r: "r \<in> set picked" "tk_job t = fetch_of r" by blast
        then have "r \<in> set ?rows" using p(1) by blast
        then have "set_running LOCAL_WORKER now r \<in> set (rows_of st)"
          unfolding p(3) marked_def using r(1) by (simp add: set_update_where)
        then show ?thesis unfolding running_row_def
          by (rule rev_bexI) (simp add: r(2) set_running_def task_id_def fetch_of_def)
      qed
      moreover have "task_id t < wj_next st" if "t \<in> set ?ts" for t
      proof -
        have "task_id t \<in> wj_id ` set picked" using that unfolding set_ids [symmetric] by (rule imageI)
        then show ?thesis using p(1,3) ex by (auto simp: exclusive_def ids_ok_def)
      qed
      ultimately show ?thesis
        using ex' by (auto simp: exclusive_def ids_ok_def)
    qed
    then show ?thesis using False run ex' keep by (cases res) (simp_all add: poll_jobs_def)
  qed
qed

lemma exclusive_step:
  assumes ex: "exclusive s" and prompt: "prompt bus options e s"
  shows "exclusive (job_step bus options e s) \<and> keeps_finished (js_store s) (js_store (job_step bus options e s))"
proof -
  let ?rows = "rows_of (js_store s)"
  have d: "distinct (map wj_id ?rows)" and lt: "\<forall>r \<in> set ?rows. wj_id r < wj_next (js_store s)"
    using ex by (simp_all add: exclusive_def ids_ok_def)
  have same: "keeps_finished (js_store s) (js_store s)"
    using d by (auto simp: keeps_finished_def distinct_map inj_on_def)
  show ?thesis
  proof (cases e)
    case (Enqueue env job payload delay)
    show ?thesis
      using enqueue_effect [of bus env job payload delay "js_store s"] ex same lt Enqueue
      by (auto simp: exclusive_def ids_ok_def running_row_def keeps_finished_def) fastforce+
  next
    case (Sweep env)
    have "running_row (update_where (orphaned l) set_orphan ?rows) t"
      if "orphan_limit bus env (orphan_timeout options) = Some l" "t \<in> set (js_tasks s)" for l t
      using that ex prompt Sweep by (intro running_row_other) (auto simp: exclusive_def prompt_def)
    moreover have "\<not> finished r" if "orphaned l r" for l r using that by (simp add: orphaned_def finished_def)
    ultimately show ?thesis
      using Sweep ex same keeps_finished_update [OF d]
      by (auto simp: sweep_effect intro!: exclusive_update split: option.split)
  next
    case (Collect env days)
    obtain P where P: "snd (delete_finished_older_than bus env days (js_store s)) = (js_store s)\<lparr>worker_jobs := filter P ?rows\<rparr>"
      "\<forall>r \<in> set ?rows. wj_status r \<notin> {JobDone, JobFailed} \<longrightarrow> P r"
      using collect_effect d by blast
    then show ?thesis
      using Collect ex d by (auto simp: finished_def keeps_finished_def distinct_map inj_on_def intro!: exclusive_filter)
  next
    case (Finish env i out)
    then show ?thesis using exclusive_finish [OF ex] ex same by (cases "i < length (js_tasks s)") auto
  next
    case (Poll env w spec)
    then show ?thesis using exclusive_poll [OF ex] by simp
  next
    case (Lost i)
    then show ?thesis using exclusive_drop [OF ex] same by simp
  qed
qed

end

lemma any_backend: "job_backend bus"
  using pg.job_backend_axioms sqlite.job_backend_axioms by (cases bus) simp_all

lemma empty_exclusive: "exclusive empty_jobs"
  by (simp add: exclusive_def ids_ok_def empty_jobs_def)

lemma job_reach_inv:
  assumes "distinct (map NAME specs)" "job_reach bus options specs s"
  shows "jobs_inv specs s"
  using assms(2)
proof induction
  case start
  show ?case by (rule empty_jobs_inv)
next
  case (step s e)
  then show ?case using assms(1) by (blast intro: job_backend.jobs_inv_step [OF any_backend])
qed

lemma prompt_reach_exclusive: "prompt_reach bus options s \<Longrightarrow> exclusive s"
  by (induction rule: prompt_reach.induct) (auto simp: empty_exclusive dest: job_backend.exclusive_step [OF any_backend])

section \<open>A run with an early sweep\<close>

text \<open>
  The job may run for fifteen minutes, the sweep takes locks of more than ten minutes for abandoned.  The
  states of the run are written out; the events are at the start, after 601, 602 and 700 seconds.
\<close>

lemmas job_eval = enqueue_after_def pg_insert_def insert_job_def max_attempts_of_def to_i32_def at_micros_def as_millis_def
  to_i64_def poll_jobs_def in_flight_def fetch_due_def pg_fetch_due_def due_job_def update_jobs_def unordered_def
  set_running_def set_done_def set_retry_def set_orphan_def orphaned_def reenqueue_orphaned_def orphan_sweep_def
  orphan_limit_def run_one_job_def mark_done_def pg_mark_done_def finish_failure_def schedule_retry_def
  pg_schedule_retry_def drop_task_def fetch_of_def task_id_def default_options_def backoff_delay_def
  backoff_exponent_def saturating_mul_def duration_max_def i64_max_def demo_job_def demo_row_def demo_task_def
  empty_jobs_def LOCAL_WORKER_def monad_defs Let_def

definition demo_jobs :: "worker_job \<Rightarrow> job_task list \<Rightarrow> job_state" where
  "demo_jobs r ts = \<lparr>js_store = \<lparr>worker_jobs = [r], wj_next = 2\<rparr>, js_tasks = ts\<rparr>"

definition demo_locked :: "int \<Rightarrow> string option \<Rightarrow> worker_job" where
  "demo_locked t e = (demo_row JobRunning 0)\<lparr>wj_lock_by := Some ''local-worker'', wj_lock_at := Some t, wj_last_error := e\<rparr>"

definition demo_events :: "job_event list" where
  "demo_events = [Enqueue (at_micros 0) demo_job (Some ''{}'') 0, Poll (at_micros 0) 0 demo_job,
     Sweep (at_micros 601000000), Poll (at_micros 601000000) 1 demo_job, Finish (at_micros 602000000) 1 HandlerOk]"

lemma demo_step_1: "job_step PgBus default_options (Enqueue (at_micros 0) demo_job (Some ''{}'') 0) empty_jobs
    = demo_jobs (demo_row JobPending 0) []"
  by (simp add: job_eval demo_jobs_def)

lemma demo_step_2: "job_step PgBus default_options (Poll (at_micros 0) 0 demo_job) (demo_jobs (demo_row JobPending 0) [])
    = demo_jobs (demo_locked 0 None) [demo_task 0]"
  by (simp add: job_eval demo_jobs_def demo_locked_def)

lemma demo_step_3: "job_step PgBus default_options (Sweep (at_micros 601000000)) (demo_jobs (demo_locked 0 None) [demo_task 0])
    = demo_jobs ((demo_row JobPending 0)\<lparr>wj_last_error := Some ''orphan_abandoned''\<rparr>) [demo_task 0]"
  by (simp add: job_eval demo_jobs_def demo_locked_def)

lemma demo_step_4: "job_step PgBus default_options (Poll (at_micros 601000000) 1 demo_job)
      (demo_jobs ((demo_row JobPending 0)\<lparr>wj_last_error := Some ''orphan_abandoned''\<rparr>) [demo_task 0])
    = demo_jobs (demo_locked 601000000 (Some ''orphan_abandoned'')) [demo_task 0, demo_task 1]"
  by (simp add: job_eval demo_jobs_def demo_locked_def)

lemma demo_step_5: "job_step PgBus default_options (Finish (at_micros 602000000) 1 HandlerOk)
      (demo_jobs (demo_locked 601000000 (Some ''orphan_abandoned'')) [demo_task 0, demo_task 1])
    = demo_jobs (set_done 602000000 (demo_locked 601000000 (Some ''orphan_abandoned''))) [demo_task 0]"
  by (simp add: job_eval demo_jobs_def demo_locked_def)

lemma job_reach_to: "job_reach bus options specs s \<Longrightarrow> job_step bus options e s = s' \<Longrightarrow> registered specs e \<Longrightarrow> job_reach bus options specs s'"
  using job_reach.step by blast

lemma prompt_reach_to: "prompt_reach bus options s \<Longrightarrow> job_step bus options e s = s' \<Longrightarrow> prompt bus options e s \<Longrightarrow> prompt_reach bus options s'"
  using prompt_reach.step by blast

lemma demo_jobs_reachable:
  "job_reach PgBus default_options [demo_job] (demo_jobs (set_done 602000000 (demo_locked 601000000 (Some ''orphan_abandoned''))) [demo_task 0])"
  by (rule job_reach_to [OF job_reach_to [OF job_reach_to [OF job_reach_to [OF job_reach_to
        [OF job_reach.start demo_step_1] demo_step_2] demo_step_3] demo_step_4] demo_step_5]) (simp_all add: registered_def)

lemma demo_prompt_reachable: "prompt_reach PgBus default_options (demo_jobs (demo_locked 0 None) [demo_task 0])"
  by (rule prompt_reach_to [OF prompt_reach_to [OF prompt_reach.start demo_step_1] demo_step_2]) (simp_all add: prompt_def)

section \<open>Properties\<close>

text \<open>
  C25. Over every interleaving of enqueues, polls, executions, lost tasks, sweeps and collections, on either
  back end: ids are unique, a waiting or running job has failed fewer times than it may, a failed job exactly
  as often as it may and with its error recorded, and no worker process runs more jobs of a type at a time
  than the type allows.
\<close>

theorem jobs_within_limits:
  assumes "distinct (map NAME specs)" and "job_reach bus options specs s"
  shows "distinct (map wj_id (worker_jobs (js_store s)))
     \<and> (\<forall>r \<in> set (worker_jobs (js_store s)).
          (wj_status r \<in> {JobPending, JobRunning} \<longrightarrow> wj_attempts r < max 1 (wj_max_attempts r))
        \<and> (wj_status r = JobFailed \<longrightarrow> wj_attempts r = max 1 (wj_max_attempts r) \<and> wj_last_error r \<noteq> None))
     \<and> (\<forall>w. \<forall>spec \<in> set specs. length (in_flight w (NAME spec) s) \<le> CONCURRENCY spec)"
proof -
  have "jobs_inv specs s" by (rule job_reach_inv [OF assms])
  then show ?thesis
    by (auto simp: jobs_inv_def ids_ok_def row_ok_def allowed_def)
qed

theorem jobs_within_limits_witness:
  "distinct (map wj_id (worker_jobs (js_store (demo_jobs (set_done 602000000 (demo_locked 601000000 (Some ''orphan_abandoned''))) [demo_task 0]))))
     \<and> length (in_flight 0 (NAME demo_job) (demo_jobs (set_done 602000000 (demo_locked 601000000 (Some ''orphan_abandoned''))) [demo_task 0])) \<le> CONCURRENCY demo_job"
  using jobs_within_limits [OF _ demo_jobs_reachable] by simp

text \<open>
  C26. As long as the orphan sweep does not hit a job that is still being executed, no job is executed twice
  at the same time, every job in execution is marked as running, and a job that is done or has failed for
  good keeps its row unchanged until it is collected.
\<close>

theorem jobs_exclusive_and_final:
  assumes "prompt_reach bus options s" and "prompt bus options e s"
  shows "distinct (map task_id (js_tasks s))
     \<and> (\<forall>t \<in> set (js_tasks s). \<exists>r \<in> set (worker_jobs (js_store s)). wj_id r = task_id t \<and> wj_status r = JobRunning)
     \<and> (\<forall>r \<in> set (worker_jobs (js_store s)). \<forall>r' \<in> set (worker_jobs (js_store (job_step bus options e s))).
          wj_status r \<in> {JobDone, JobFailed} \<longrightarrow> wj_id r' = wj_id r \<longrightarrow> r' = r)"
proof -
  have ex: "exclusive s" by (rule prompt_reach_exclusive [OF assms(1)])
  then show ?thesis
    using job_backend.exclusive_step [OF any_backend ex assms(2)] by (auto simp: exclusive_def running_row_def keeps_finished_def finished_def)
qed

theorem jobs_exclusive_and_final_witness:
  "distinct (map task_id (js_tasks (demo_jobs (demo_locked 0 None) [demo_task 0])))
     \<and> (\<exists>r \<in> set (worker_jobs (js_store (demo_jobs (demo_locked 0 None) [demo_task 0]))).
          wj_id r = task_id (demo_task 0) \<and> wj_status r = JobRunning)"
  using jobs_exclusive_and_final [OF demo_prompt_reachable, of "Lost 0"] by (simp add: prompt_def demo_jobs_def)

text \<open>
  A job that is done can run again.  Its first task takes longer than ten minutes, as its timeout allows;
  the sweep takes it for abandoned, a second process executes it and it is done; when the first task then
  fails, its retry statement, which does not look at the status, makes the job wait for another execution.
\<close>

theorem finished_job_runs_again:
  "\<exists>s r r'. job_reach PgBus default_options [demo_job] s
     \<and> worker_jobs (js_store s) = [r] \<and> wj_status r = JobDone
     \<and> worker_jobs (js_store (job_step PgBus default_options (Finish (at_micros 700000000) 0 (HandlerErr ''late'')) s)) = [r']
     \<and> wj_id r' = wj_id r \<and> wj_status r' = JobPending"
proof (intro exI conjI)
  let ?s = "demo_jobs (set_done 602000000 (demo_locked 601000000 (Some ''orphan_abandoned''))) [demo_task 0]"
  show "job_reach PgBus default_options [demo_job] ?s" by (rule demo_jobs_reachable)
  show "worker_jobs (js_store ?s) = [set_done 602000000 (demo_locked 601000000 (Some ''orphan_abandoned''))]"
    by (simp add: demo_jobs_def)
  show "wj_status (set_done 602000000 (demo_locked 601000000 (Some ''orphan_abandoned''))) = JobDone"
    by (simp add: set_done_def)
  show "worker_jobs (js_store (job_step PgBus default_options (Finish (at_micros 700000000) 0 (HandlerErr ''late'')) ?s))
      = [set_retry 1 701000000 ''late'' (set_done 602000000 (demo_locked 601000000 (Some ''orphan_abandoned'')))]"
    by (simp add: job_eval demo_jobs_def demo_locked_def)
qed (simp_all add: set_retry_def)

end
