(* ===== verification/Job_Life.thy ===== *)
theory Job_Life
  imports Job_Queue
begin

text \<open>
  The life of one job of the queue in an endless run of all its processes: other jobs, any number of
  workers, sweeps and collections interleave with it.  The scheduler and the clock are fair to the job,
  and from some point on no execution of it is lost; then the job comes to an end, and the failures on
  its count are exactly its failed executions.
\<close>

section \<open>One job in a run\<close>

primrec job_run :: "job_bus \<Rightarrow> worker_options \<Rightarrow> job_state \<Rightarrow> (nat \<Rightarrow> job_event) \<Rightarrow> nat \<Rightarrow> job_state" where
  "job_run bus options s0 ev 0 = s0"
| "job_run bus options s0 ev (Suc n) = job_step bus options (ev n) (job_run bus options s0 ev n)"

definition job_row :: "int \<Rightarrow> job_state \<Rightarrow> worker_job option" where
  "job_row k s = lookup_by wj_id k (rows_of (js_store s))"

text \<open>A job waits, or is held by a task in flight, or is marked as running although no task has it.\<close>

definition waits :: "int \<Rightarrow> job_state \<Rightarrow> bool" where
  "waits k s = (case job_row k s of None \<Rightarrow> False | Some r \<Rightarrow> wj_status r = JobPending)"

definition held :: "int \<Rightarrow> job_state \<Rightarrow> bool" where
  "held k s = (k \<in> task_id ` set (js_tasks s))"

definition stray :: "int \<Rightarrow> job_state \<Rightarrow> bool" where
  "stray k s = ((case job_row k s of None \<Rightarrow> False | Some r \<Rightarrow> wj_status r = JobRunning) \<and> \<not> held k s)"

text \<open>The event ends an execution of the job, with this outcome.\<close>

definition ended :: "int \<Rightarrow> job_event \<Rightarrow> job_state \<Rightarrow> outcome option" where
  "ended k e s = (case e of
      Finish env i out \<Rightarrow> if i < length (js_tasks s) \<and> task_id (js_tasks s ! i) = k then Some out else None
    | _ \<Rightarrow> None)"

text \<open>The event loses the job: no task has it afterwards, but its row is left as running.\<close>

definition loses :: "job_bus \<Rightarrow> worker_options \<Rightarrow> int \<Rightarrow> job_event \<Rightarrow> job_state \<Rightarrow> bool" where
  "loses bus options k e s = (\<not> stray k s \<and> stray k (job_step bus options e s))"

text \<open>A poll reaches the job: it is due, and fewer jobs are due ahead of it than the process has permits.\<close>

definition permits_of :: "nat \<Rightarrow> job_spec \<Rightarrow> job_state \<Rightarrow> int" where
  "permits_of w spec s = to_i32 (int (CONCURRENCY spec - length (in_flight w (NAME spec) s)))"

definition reaches :: "job_bus \<Rightarrow> int \<Rightarrow> job_event \<Rightarrow> job_state \<Rightarrow> bool" where
  "reaches bus k e s = (case e of
      Poll env w spec \<Rightarrow> (case job_row k s of None \<Rightarrow> False | Some r \<Rightarrow>
        due_job (NAME spec) (queue_now bus env) r \<and>
        int (length (due_ahead bus env (NAME spec) r (rows_of (js_store s)))) < permits_of w spec s)
    | _ \<Rightarrow> False)"

text \<open>A sweep takes the job for abandoned.\<close>

definition sweeps :: "job_bus \<Rightarrow> worker_options \<Rightarrow> int \<Rightarrow> job_event \<Rightarrow> job_state \<Rightarrow> bool" where
  "sweeps bus options k e s = (case e of
      Sweep env \<Rightarrow> (case orphan_limit bus env (orphan_timeout options) of None \<Rightarrow> False | Some limit \<Rightarrow>
        (case job_row k s of None \<Rightarrow> False | Some r \<Rightarrow> orphaned limit r))
    | _ \<Rightarrow> False)"

definition prompt_run :: "job_bus \<Rightarrow> worker_options \<Rightarrow> job_spec list \<Rightarrow> job_state \<Rightarrow> (nat \<Rightarrow> job_event) \<Rightarrow> bool" where
  "prompt_run bus options specs s0 ev =
     (\<forall>n. registered specs (ev n) \<and> prompt bus options (ev n) (job_run bus options s0 ev n))"

text \<open>
  Weak fairness: a job does not wait forever without a poll that reaches it, its tasks do not run
  forever, and a job that no task has is not overlooked by the sweeps forever.
\<close>

definition fair_for :: "job_bus \<Rightarrow> worker_options \<Rightarrow> int \<Rightarrow> job_state \<Rightarrow> (nat \<Rightarrow> job_event) \<Rightarrow> bool" where
  "fair_for bus options k s0 ev = (let S = job_run bus options s0 ev in
     (\<forall>n. (\<forall>m \<ge> n. waits k (S m)) \<longrightarrow> (\<exists>m \<ge> n. reaches bus k (ev m) (S m))) \<and>
     (\<forall>n. (\<forall>m \<ge> n. held k (S m)) \<longrightarrow> (\<exists>m \<ge> n. ended k (ev m) (S m) \<noteq> None)) \<and>
     (\<forall>n. (\<forall>m \<ge> n. stray k (S m)) \<longrightarrow> (\<exists>m \<ge> n. sweeps bus options k (ev m) (S m))))"

lemmas life_defs = waits_def held_def stray_def

section \<open>One step\<close>

lemma job_row_iff:
  "exclusive s \<Longrightarrow> job_row k s = Some r \<longleftrightarrow> r \<in> set (rows_of (js_store s)) \<and> wj_id r = k"
proof
  assume "job_row k s = Some r"
  then show "r \<in> set (rows_of (js_store s)) \<and> wj_id r = k" by (auto simp: job_row_def dest: lookup_by_SomeD)
next
  assume ex: "exclusive s" and r: "r \<in> set (rows_of (js_store s)) \<and> wj_id r = k"
  then obtain q where q: "job_row k s = Some q" by (cases "job_row k s") (auto simp: job_row_def lookup_by_None)
  then have "q \<in> set (rows_of (js_store s))" "wj_id q = k" by (auto simp: job_row_def dest: lookup_by_SomeD)
  then have "q = r" using r ex by (auto simp: exclusive_def ids_ok_def distinct_map inj_on_def)
  then show "job_row k s = Some r" using q by simp
qed

lemma lookup_by_filter:
  "lookup_by key k xs = Some r \<Longrightarrow> P r \<Longrightarrow> distinct (map key xs) \<Longrightarrow> lookup_by key k (filter P xs) = Some r"
  by (induction xs) (auto simp: image_iff split: if_splits dest: lookup_by_SomeD)

text \<open>A held job is running, with the counters of its task.\<close>

lemma held_running:
  assumes "exclusive s" "job_row k s = Some r" "t \<in> set (js_tasks s)" "task_id t = k"
  shows "wj_status r = JobRunning \<and> wj_attempts r = jm_attempts (fj_meta (tk_job t)) \<and>
    wj_max_attempts r = jm_max_attempts (fj_meta (tk_job t))"
proof -
  obtain q where q: "q \<in> set (rows_of (js_store s))" "wj_id q = k" "wj_status q = JobRunning"
      "wj_attempts q = jm_attempts (fj_meta (tk_job t))" "wj_max_attempts q = jm_max_attempts (fj_meta (tk_job t))"
    using assms by (auto simp: exclusive_def running_row_def)
  then have "q = r" using job_row_iff [OF assms(1), of k q] assms(2) by simp
  then show ?thesis using q by simp
qed

context job_backend
begin

text \<open>An event that ends no execution of the job leaves its row, or marks it as running or as waiting.\<close>

lemma other_step:
  assumes ex: "exclusive s" and prompt: "prompt bus options e s" and row: "job_row k s = Some r"
    and busy: "\<not> finished r" and none: "ended k e s = None"
  obtains (same) "job_row k (job_step bus options e s) = Some r"
    | (fetched) now where "job_row k (job_step bus options e s) = Some (set_running LOCAL_WORKER now r)" "wj_status r = JobPending"
    | (orphan) "job_row k (job_step bus options e s) = Some (set_orphan r)" "wj_status r = JobRunning" "\<not> held k s"
proof -
  let ?rows = "rows_of (js_store s)"
  have d: "distinct (map wj_id ?rows)" using ex by (simp add: exclusive_def ids_ok_def)
  have r: "r \<in> set ?rows" "wj_id r = k" using job_row_iff [OF ex] row by auto
  show ?thesis
  proof (cases e)
    case (Enqueue env job payload delay)
    then show ?thesis
      using enqueue_effect [of bus env job payload delay "js_store s"] row by (intro same) (auto simp: job_row_def)
  next
    case (Poll env w spec)
    let ?n = "to_i32 (int (CONCURRENCY spec - length (in_flight w (NAME spec) s)))"
    show ?thesis
    proof (cases "?n \<le> 0")
      case True
      then show ?thesis using Poll row by (intro same) (simp add: poll_jobs_def)
    next
      case False
      obtain res st where run: "fetch_due bus env (NAME spec) ?n (js_store s) = (res, st)" by fastforce
      from fetch_law [OF d _ run] False obtain picked now where
        p: "set picked \<subseteq> {r \<in> set ?rows. due_job (NAME spec) now r}"
        "st = (js_store s)\<lparr>worker_jobs := marked picked now ?rows\<rparr>" by auto
      have "job_row k (job_step bus options e s) = lookup_by wj_id k (marked picked now ?rows)"
        using False run p(2) Poll by (cases res) (simp_all add: poll_jobs_def job_row_def)
      also have "\<dots> = Some (if k \<in> wj_id ` set picked then set_running LOCAL_WORKER now r else r)"
        using row r(2) by (simp add: marked_def job_row_def lookup_by_update_where)
      finally have after: "job_row k (job_step bus options e s) = \<dots>" .
      show ?thesis
      proof (cases "k \<in> wj_id ` set picked")
        case True
        then have "wj_status r = JobPending" using p(1) r d by (auto simp: due_job_def distinct_map inj_on_def)
        then show ?thesis using after True by (intro fetched) simp_all
      qed (use after same in simp)
    qed
  next
    case (Finish env i out)
    show ?thesis
    proof (cases "i < length (js_tasks s)")
      case True
      let ?t = "js_tasks s ! i"
      obtain f where f: "final_update (fj_meta (tk_job ?t)) f"
        "snd (run_one_job bus env options (tk_job ?t) out (js_store s)) = change_row (task_id ?t) f (js_store s)"
        using run_effect by (metis task_id_def)
      have "task_id ?t \<noteq> k" using none Finish True by (auto simp: ended_def)
      then show ?thesis using True f row r(2) final_update_id [OF f(1)] Finish
        by (intro same) (simp add: job_row_def change_row_def lookup_by_update_where)
    qed (use Finish row same in simp)
  next
    case (Sweep env)
    show ?thesis
    proof (cases "\<exists>l. orphan_limit bus env (orphan_timeout options) = Some l \<and> orphaned l r")
      case True
      then obtain l where l: "orphan_limit bus env (orphan_timeout options) = Some l" "orphaned l r" by blast
      then have "\<not> held k s" using prompt r Sweep by (auto simp: prompt_def held_def)
      moreover have "wj_status r = JobRunning" using l(2) by (simp add: orphaned_def)
      ultimately show ?thesis using l row Sweep
        by (intro orphan) (simp_all add: sweep_effect job_row_def lookup_by_update_where)
    next
      case False
      then show ?thesis using row Sweep
        by (intro same) (auto simp: sweep_effect job_row_def lookup_by_update_where split: option.split)
    qed
  next
    case (Collect env days)
    obtain P where P: "snd (delete_finished_older_than bus env days (js_store s)) = (js_store s)\<lparr>worker_jobs := filter P ?rows\<rparr>"
      "\<forall>r \<in> set ?rows. wj_status r \<notin> {JobDone, JobFailed} \<longrightarrow> P r"
      using collect_effect d by blast
    then have "P r" using r busy by (simp add: finished_def)
    then show ?thesis using Collect P(1) row d by (intro same) (simp add: job_row_def lookup_by_filter)
  qed (use row same in \<open>simp add: job_row_def\<close>)
qed

text \<open>The event that ends an execution.\<close>

lemma end_effect:
  assumes "m = fj_meta job" "n = to_i32 (jm_attempts m + 1)"
  shows "\<exists>f. snd (run_one_job bus env options job out st) = change_row (jm_id m) f st \<and>
    (if out = HandlerOk then \<exists>now. f = set_done now
     else f = (\<lambda>r. r) \<or> (n < jm_max_attempts m \<and> (\<exists>t. f = set_retry n t (error_text out)))
       \<or> (\<not> n < jm_max_attempts m \<and> (\<exists>now. f = set_failed n now (error_text out))))"
proof -
  have failure: "\<exists>f. snd (finish_failure bus env options m e st) = change_row (jm_id m) f st \<and>
      (f = (\<lambda>r. r) \<or> (n < jm_max_attempts m \<and> (\<exists>t. f = set_retry n t e)) \<or> (\<not> n < jm_max_attempts m \<and> (\<exists>now. f = set_failed n now e)))" for e
  proof (cases "n < jm_max_attempts m")
    case True
    then show ?thesis
      using retry_law [of env "jm_id m" n "backoff_delay n options" e st] assms(2) change_row_id [of "jm_id m" st]
      by (auto simp: finish_failure_def Let_def) metis+
  next
    case False
    then show ?thesis using failed_law [of env "jm_id m" n e st] assms(2) by (auto simp: finish_failure_def Let_def)
  qed
  then show ?thesis
    using done_law [of env "jm_id m" st] assms(1) by (cases out) (auto simp: run_one_job_def)
qed

lemma ended_step:
  assumes ex: "exclusive s" and ok: "row_ok r" and row: "job_row k s = Some r" and out: "ended k e s = Some out"
    and kept: "\<not> loses bus options k e s"
  shows "\<exists>q. job_row k (job_step bus options e s) = Some q \<and> wj_max_attempts q = wj_max_attempts r \<and>
    (if out = HandlerOk then wj_status q = JobDone \<and> wj_attempts q = wj_attempts r
     else wj_status q \<in> {JobPending, JobFailed} \<and> wj_attempts q = wj_attempts r + 1 \<and> wj_last_error q = Some (error_text out))"
proof -
  obtain env i where e: "e = Finish env i out" and i: "i < length (js_tasks s)" "task_id (js_tasks s ! i) = k"
    using out by (auto simp: ended_def split: job_event.splits if_splits)
  let ?t = "js_tasks s ! i" and ?s = "job_step bus options e s"
  let ?m = "fj_meta (tk_job ?t)"
  let ?n = "to_i32 (jm_attempts ?m + 1)"
  have run: "wj_status r = JobRunning" "wj_attempts r = jm_attempts ?m" "wj_max_attempts r = jm_max_attempts ?m"
    using held_running [OF ex row, of ?t] i by auto
  then have n: "?n = wj_attempts r + 1"
    using ok by (auto simp: row_ok_def allowed_def max_def intro!: to_i32_id split: if_splits)
  obtain f where f: "snd (run_one_job bus env options (tk_job ?t) out (js_store s)) = change_row k f (js_store s)"
    and cases: "if out = HandlerOk then \<exists>now. f = set_done now
     else f = (\<lambda>r. r) \<or> (?n < jm_max_attempts ?m \<and> (\<exists>t. f = set_retry ?n t (error_text out)))
       \<or> (\<not> ?n < jm_max_attempts ?m \<and> (\<exists>now. f = set_failed ?n now (error_text out)))"
    using end_effect [OF refl refl, of env options "tk_job ?t" out "js_store s"] i(2) by (auto simp: task_id_def)
  have id: "wj_id (f q) = wj_id q" for q using cases by (auto split: if_splits)
  have after: "job_row k ?s = Some (f r)"
    using row i f id e by (simp add: job_row_def change_row_def)
  have "\<not> held k ?s"
    using distinct_drop_task [of task_id "js_tasks s" i] i ex e by (simp add: held_def exclusive_def)
  moreover have "held k s" using i by (auto simp: held_def)
  ultimately have "f r \<noteq> r" using kept run(1) after by (auto simp: loses_def stray_def)
  then show ?thesis
    using after cases n by (auto simp: set_done_def set_retry_def set_failed_def split: if_splits)
qed

text \<open>A poll that reaches a waiting job takes it, a sweep gives an abandoned one back.\<close>

lemma reached_step:
  assumes ex: "exclusive s" and prompt: "prompt bus options e s" and reach: "reaches bus k e s"
  shows "\<not> waits k (job_step bus options e s)"
proof -
  obtain env w spec r where e: "e = Poll env w spec" and row: "job_row k s = Some r"
      and due: "due_job (NAME spec) (queue_now bus env) r"
      and few: "int (length (due_ahead bus env (NAME spec) r (rows_of (js_store s)))) < permits_of w spec s"
    using reach by (auto simp: reaches_def split: job_event.splits option.splits)
  have r: "r \<in> set (rows_of (js_store s))" "wj_id r = k" using job_row_iff [OF ex] row by auto
  obtain res st where run: "fetch_due bus env (NAME spec) (permits_of w spec s) (js_store s) = (res, st)" by fastforce
  have d: "distinct (map wj_id (rows_of (js_store s)))" using ex by (simp add: exclusive_def ids_ok_def)
  obtain now where now: "set_running LOCAL_WORKER now r \<in> set (rows_of st)"
    using reach_law [OF d r(1) due few] run by auto
  have "rows_of (js_store (job_step bus options e s)) = rows_of st"
    using few run e by (cases res) (simp_all add: poll_jobs_def permits_of_def)
  moreover have "exclusive (job_step bus options e s)" using exclusive_step [OF ex prompt] by blast
  ultimately have "job_row k (job_step bus options e s) = Some (set_running LOCAL_WORKER now r)"
    using now r(2) by (simp add: job_row_iff)
  then show ?thesis by (simp add: waits_def set_running_def)
qed

lemma swept_step:
  assumes "sweeps bus options k e s"
  shows "waits k (job_step bus options e s)"
proof -
  obtain env limit r where "e = Sweep env" "orphan_limit bus env (orphan_timeout options) = Some limit"
      "job_row k s = Some r" "orphaned limit r"
    using assms by (auto simp: sweeps_def split: job_event.splits option.splits)
  then have "job_row k (job_step bus options e s) = Some (set_orphan r)"
    by (simp add: job_row_def sweep_effect lookup_by_update_where)
  then show ?thesis by (simp add: waits_def set_orphan_def)
qed

end

section \<open>Whole runs\<close>

text \<open>The failed executions of a job among the first \<open>n\<close> events.\<close>

definition failed_executions :: "int \<Rightarrow> (nat \<Rightarrow> job_event) \<Rightarrow> (nat \<Rightarrow> job_state) \<Rightarrow> nat \<Rightarrow> nat set" where
  "failed_executions k ev S n = {m. m < n \<and> ended k (ev m) (S m) \<notin> {None, Some HandlerOk}}"

lemma failed_executions_Suc:
  "card (failed_executions k ev S (Suc n)) =
     card (failed_executions k ev S n) + (if ended k (ev n) (S n) \<in> {None, Some HandlerOk} then 0 else 1)"
proof -
  have "failed_executions k ev S (Suc n) =
      failed_executions k ev S n \<union> (if ended k (ev n) (S n) \<in> {None, Some HandlerOk} then {} else {n})"
    by (auto simp: failed_executions_def less_Suc_eq)
  moreover have "finite (failed_executions k ev S n)" "n \<notin> failed_executions k ev S n"
    by (auto simp: failed_executions_def)
  ultimately show ?thesis by simp
qed

definition unfinished :: "int \<Rightarrow> job_state \<Rightarrow> bool" where
  "unfinished k s = (case job_row k s of None \<Rightarrow> False | Some r \<Rightarrow> \<not> finished r)"

lemma unfinished_cases:
  assumes "unfinished k s"
  shows "waits k s \<or> held k s \<or> stray k s"
  using assms by (cases "wj_status (the (job_row k s))")
    (auto simp: unfinished_def waits_def stray_def finished_def split: option.splits)

text \<open>What is assumed of a run of the queue that concerns the job \<open>k\<close>, in one place.\<close>

definition kept_run :: "job_bus \<Rightarrow> worker_options \<Rightarrow> job_spec list \<Rightarrow> int \<Rightarrow> job_state \<Rightarrow> (nat \<Rightarrow> job_event) \<Rightarrow> bool" where
  "kept_run bus options specs k s0 ev = (exclusive s0 \<and> jobs_inv specs s0 \<and> distinct (map NAME specs) \<and>
     prompt_run bus options specs s0 ev \<and> (\<forall>n. \<not> loses bus options k (ev n) (job_run bus options s0 ev n)))"

lemma run_inv:
  assumes "kept_run bus options specs k s0 ev"
  shows "exclusive (job_run bus options s0 ev n) \<and> jobs_inv specs (job_run bus options s0 ev n)"
proof (induction n)
  case 0
  then show ?case using assms by (simp add: kept_run_def)
next
  case (Suc n)
  then show ?case
    using assms job_backend.exclusive_step [OF any_backend] job_backend.jobs_inv_step [OF any_backend]
    by (simp add: kept_run_def prompt_run_def)
qed

lemma run_row_ok:
  assumes "kept_run bus options specs k s0 ev" "job_row k (job_run bus options s0 ev n) = Some r"
  shows "row_ok r"
  using run_inv [OF assms(1), of n] assms(2) job_row_iff by (auto simp: jobs_inv_def)

text \<open>A step of a run, for an unfinished job.\<close>

lemma run_step:
  assumes run: "kept_run bus options specs k s0 ev" and row: "job_row k (job_run bus options s0 ev n) = Some r"
    and busy: "\<not> finished r"
  shows "\<exists>q. job_row k (job_run bus options s0 ev (Suc n)) = Some q \<and> wj_max_attempts q = wj_max_attempts r \<and>
    (case ended k (ev n) (job_run bus options s0 ev n) of
       None \<Rightarrow> \<not> finished q \<and> wj_attempts q = wj_attempts r
     | Some out \<Rightarrow> if out = HandlerOk then wj_status q = JobDone \<and> wj_attempts q = wj_attempts r
         else wj_status q \<in> {JobPending, JobFailed} \<and> wj_attempts q = wj_attempts r + 1 \<and>
           wj_last_error q = Some (error_text out))"
proof -
  let ?s = "job_run bus options s0 ev n"
  have ex: "exclusive ?s" and prompt: "prompt bus options (ev n) ?s" and kept: "\<not> loses bus options k (ev n) ?s"
    using run_inv [OF run, of n] run by (auto simp: kept_run_def prompt_run_def)
  show ?thesis
  proof (cases "ended k (ev n) ?s")
    case None
    show ?thesis
      by (rule job_backend.other_step [OF any_backend ex prompt row busy None])
        (use None busy in \<open>auto simp: finished_def set_running_def set_orphan_def\<close>)
  next
    case (Some out)
    from job_backend.ended_step [OF any_backend ex run_row_ok [OF run row] row Some kept]
    show ?thesis using Some by simp
  qed
qed

text \<open>The failures on the count of a job are its failed executions, and none succeeded before its end.\<close>

lemma accounting:
  assumes run: "kept_run bus options specs k s0 ev" and start: "job_row k s0 = Some r0"
    and busy: "\<forall>m < n. unfinished k (job_run bus options s0 ev m)"
  shows "\<exists>r. job_row k (job_run bus options s0 ev n) = Some r \<and> wj_max_attempts r = wj_max_attempts r0 \<and>
    wj_attempts r = wj_attempts r0 + int (card (failed_executions k ev (job_run bus options s0 ev) n))"
  using busy
proof (induction n)
  case 0
  then show ?case using start by (simp add: failed_executions_def)
next
  case (Suc n)
  then obtain r where r: "job_row k (job_run bus options s0 ev n) = Some r" "wj_max_attempts r = wj_max_attempts r0"
    "wj_attempts r = wj_attempts r0 + int (card (failed_executions k ev (job_run bus options s0 ev) n))" by auto
  then have "\<not> finished r" using Suc.prems by (auto simp: unfinished_def)
  from run_step [OF run r(1) this] obtain q where q: "job_row k (job_run bus options s0 ev (Suc n)) = Some q"
      "wj_max_attempts q = wj_max_attempts r0"
    and after: "case ended k (ev n) (job_run bus options s0 ev n) of
       None \<Rightarrow> \<not> finished q \<and> wj_attempts q = wj_attempts r
     | Some out \<Rightarrow> if out = HandlerOk then wj_status q = JobDone \<and> wj_attempts q = wj_attempts r
         else wj_status q \<in> {JobPending, JobFailed} \<and> wj_attempts q = wj_attempts r + 1 \<and>
           wj_last_error q = Some (error_text out)"
    using r(2) by auto
  have "wj_attempts q = wj_attempts r + (if ended k (ev n) (job_run bus options s0 ev n) \<in> {None, Some HandlerOk} then 0 else 1)"
    using after by (auto split: option.splits if_splits)
  then show ?case using q r(3) by (simp add: failed_executions_Suc del: job_run.simps)
qed

text \<open>While the job is unfinished, its executions keep coming.\<close>

lemma executions_go_on:
  assumes run: "kept_run bus options specs k s0 ev" and fair: "fair_for bus options k s0 ev"
    and busy: "\<forall>n. unfinished k (job_run bus options s0 ev n)"
  shows "\<exists>m \<ge> n. ended k (ev m) (job_run bus options s0 ev m) \<noteq> None"
proof (rule ccontr)
  let ?S = "job_run bus options s0 ev"
  assume "\<not> (\<exists>m \<ge> n. ended k (ev m) (?S m) \<noteq> None)"
  then have idle: "ended k (ev m) (?S m) = None" if "n \<le> m" for m using that by blast
  have ex: "exclusive (?S m)" and prompt: "prompt bus options (ev m) (?S m)" and kept: "\<not> loses bus options k (ev m) (?S m)" for m
    using run_inv [OF run, of m] run by (auto simp: kept_run_def prompt_run_def)
  have row: "\<exists>r. job_row k (?S m) = Some r \<and> \<not> finished r" for m
    using busy [rule_format, of m] by (auto simp: unfinished_def split: option.splits)
  have held: "held k (?S (Suc m))" if "n \<le> m" "held k (?S m)" for m
  proof -
    obtain r where r: "job_row k (?S m) = Some r" "\<not> finished r" using row by blast
    have "wj_status r = JobRunning" using held_running [OF ex r(1)] that(2) by (auto simp: held_def)
    then have "job_row k (?S (Suc m)) = Some r"
      by (rule_tac job_backend.other_step [OF any_backend ex prompt r idle [OF that(1)]]) (use that(2) in auto)
    then show ?thesis using kept [of m] \<open>wj_status r = JobRunning\<close> that(2) by (auto simp: loses_def stray_def)
  qed
  have no_held: "\<not> held k (?S m)" if "n \<le> m" for m
  proof
    assume h: "held k (?S m)"
    have "held k (?S (m + j))" for j using that h by (induction j) (auto intro: held simp del: job_run.simps)
    then have "\<forall>i \<ge> m. held k (?S i)" by (metis le_Suc_ex)
    then show False using fair idle that unfolding fair_for_def Let_def by (metis le_trans)
  qed
  have stays: "waits k (?S (Suc m))" if "n \<le> m" "waits k (?S m)" for m
    using unfinished_cases [OF busy [rule_format, of "Suc m"]] no_held [of "Suc m"] kept [of m] that
    by (auto simp: loses_def stray_def waits_def split: option.splits)
  have no_waits: "\<not> waits k (?S m)" if "n \<le> m" for m
  proof
    assume h: "waits k (?S m)"
    have all: "waits k (?S (m + j))" for j using that h by (induction j) (auto intro: stays simp del: job_run.simps)
    then have "\<forall>i \<ge> m. waits k (?S i)" by (metis le_Suc_ex)
    then obtain i where "m \<le> i" "reaches bus k (ev i) (?S i)" using fair unfolding fair_for_def Let_def by blast
    then have "\<not> waits k (?S (Suc i))" using job_backend.reached_step [OF any_backend ex prompt] by simp
    then show False using all [of "Suc i - m"] \<open>m \<le> i\<close> by simp
  qed
  have "\<forall>i \<ge> n. stray k (?S i)"
    using unfinished_cases [OF busy [rule_format]] no_held no_waits by blast
  then obtain i where "n \<le> i" "sweeps bus options k (ev i) (?S i)" using fair unfolding fair_for_def Let_def by blast
  then show False using job_backend.swept_step [OF any_backend, of bus options k "ev i" "?S i"] no_waits [of "Suc i"] by simp
qed

lemma job_finishes:
  assumes run: "kept_run bus options specs k s0 ev" and fair: "fair_for bus options k s0 ev" and start: "job_row k s0 = Some r0"
  shows "\<exists>n. \<not> unfinished k (job_run bus options s0 ev n)"
proof (rule ccontr)
  let ?S = "job_run bus options s0 ev"
  assume "\<not> (\<exists>n. \<not> unfinished k (?S n))"
  then have busy: "\<forall>n. unfinished k (?S n)" by blast
  let ?F = "{m. ended k (ev m) (?S m) \<notin> {None, Some HandlerOk}}"
  have fails: "ended k (ev m) (?S m) \<noteq> Some HandlerOk" for m
  proof
    assume ok: "ended k (ev m) (?S m) = Some HandlerOk"
    obtain r where r: "job_row k (?S m) = Some r" "\<not> finished r"
      using busy [rule_format, of m] by (auto simp: unfinished_def split: option.splits)
    from run_step [OF run r] ok busy [rule_format, of "Suc m"] show False
      by (auto simp: unfinished_def finished_def simp del: job_run.simps)
  qed
  then have "\<forall>n. \<exists>m \<ge> n. m \<in> ?F" using executions_go_on [OF run fair busy] by auto
  then have inf: "infinite ?F" by (metis finite_nat_set_iff_bounded leD)
  let ?b = "nat (allowed (wj_max_attempts r0) - wj_attempts r0)"
  obtain T where T: "T \<subseteq> ?F" "finite T" "card T = Suc ?b"
    using infinite_arbitrarily_large [OF inf] by blast
  let ?n = "Suc (Max T)"
  have "T \<subseteq> failed_executions k ev ?S ?n"
    using T(1,2) by (auto simp: failed_executions_def less_Suc_eq_le)
  moreover have "finite (failed_executions k ev ?S ?n)" by (simp add: failed_executions_def)
  ultimately have many: "Suc ?b \<le> card (failed_executions k ev ?S ?n)" using T(3) card_mono by metis
  obtain r where r: "job_row k (?S ?n) = Some r" "wj_max_attempts r = wj_max_attempts r0"
      "wj_attempts r = wj_attempts r0 + int (card (failed_executions k ev ?S ?n))"
    using accounting [OF run start, of ?n] busy by blast
  have "\<not> finished r" using busy [rule_format, of ?n] r(1) by (simp add: unfinished_def del: job_run.simps)
  then have "wj_attempts r < allowed (wj_max_attempts r0)"
    using run_row_ok [OF run r(1)] r(2) by (auto simp: row_ok_def finished_def split: job_status.splits)
  then show False using r(3) many by linarith
qed

section \<open>Data for the witness\<close>

text \<open>A job that times out once and succeeds at its second execution; afterwards nothing happens.\<close>

definition demo_life :: "nat \<Rightarrow> job_event" where
  "demo_life n = (if n = 0 then Poll (at_micros 0) 0 demo_job
     else if n = 1 then Finish (at_micros 1000000) 0 HandlerTimeout
     else if n = 2 then Poll (at_micros 3000000) 1 demo_job
     else if n = 3 then Finish (at_micros 4000000) 0 HandlerOk else Lost 0)"

definition demo_retry :: worker_job where
  "demo_retry = set_retry 1 2000000 ''job_timeout'' (demo_locked 0 None)"

definition demo_second :: job_state where
  "demo_second = demo_jobs (set_running LOCAL_WORKER 3000000 demo_retry)
     [\<lparr>tk_worker = 1, tk_type = ''report'', tk_job = fetch_of demo_retry\<rparr>]"

definition demo_over :: job_state where
  "demo_over = demo_jobs (set_done 4000000 (set_running LOCAL_WORKER 3000000 demo_retry)) []"

abbreviation demo_state :: "nat \<Rightarrow> job_state" where
  "demo_state \<equiv> job_run PgBus default_options (demo_jobs (demo_row JobPending 0) []) demo_life"

lemma demo_life_states:
  "demo_state 1 = demo_jobs (demo_locked 0 None) [demo_task 0]" "demo_state 2 = demo_jobs demo_retry []"
  "demo_state 3 = demo_second" "demo_state 4 = demo_over"
proof -
  show 1: "demo_state 1 = demo_jobs (demo_locked 0 None) [demo_task 0]"
    using demo_step_2 by (simp add: demo_life_def)
  have "demo_state (Suc 1) = demo_jobs demo_retry []"
    unfolding job_run.simps(2) 1 by (simp add: demo_life_def job_eval demo_jobs_def demo_locked_def demo_retry_def error_text.simps)
  then show 2: "demo_state 2 = demo_jobs demo_retry []" by (simp add: numeral_2_eq_2)
  have "demo_state (Suc 2) = demo_second"
    unfolding job_run.simps(2) 2 by (simp add: demo_life_def job_eval demo_jobs_def demo_locked_def demo_retry_def demo_second_def)
  then show 3: "demo_state 3 = demo_second" by (simp add: numeral_3_eq_3 numeral_2_eq_2)
  have "demo_state (Suc 3) = demo_over"
    unfolding job_run.simps(2) 3
    by (simp add: demo_life_def job_eval demo_jobs_def demo_locked_def demo_retry_def demo_second_def demo_over_def)
  then show "demo_state 4 = demo_over" by (simp add: eval_nat_numeral)
qed

lemma demo_life_over: "demo_state (n + 4) = demo_over"
proof (induction n)
  case 0
  show ?case using demo_life_states(4) by simp
next
  case (Suc n)
  have "demo_life (n + 4) = Lost 0" by (simp add: demo_life_def)
  then show ?case
    unfolding add_Suc job_run.simps Suc.IH by (simp add: drop_task_def demo_over_def demo_jobs_def)
qed

text \<open>The job is never without a task while its row is marked as running.\<close>

lemma demo_life_kept: "\<not> stray 1 (demo_state n)"
proof -
  note defs = stray_def job_row_def held_def demo_jobs_def demo_row_def demo_locked_def demo_task_def demo_retry_def
    demo_second_def demo_over_def set_retry_def set_done_def set_running_def fetch_of_def task_id_def
  show ?thesis
  proof (cases "n < 4")
    case True
    then have "n = 0 \<or> n = 1 \<or> n = 2 \<or> n = 3" by arith
    then show ?thesis
    proof (elim disjE)
      show "n = 0 \<Longrightarrow> ?thesis" by (simp add: defs)
      show "n = 1 \<Longrightarrow> ?thesis" using demo_life_states(1) by (simp add: defs del: job_run.simps)
      show "n = 2 \<Longrightarrow> ?thesis" using demo_life_states(2) by (simp add: defs del: job_run.simps)
      show "n = 3 \<Longrightarrow> ?thesis" using demo_life_states(3) by (simp add: defs del: job_run.simps)
    qed
  next
    case False
    then obtain j where "n = j + 4" by (metis add.commute le_Suc_ex not_less)
    then show ?thesis using demo_life_over [of j] by (simp add: defs del: job_run.simps)
  qed
qed

lemma demo_life_fair: "fair_for PgBus default_options 1 (demo_jobs (demo_row JobPending 0) []) demo_life"
proof -
  have "\<not> waits 1 (demo_state (n + 4))" "\<not> held 1 (demo_state (n + 4))" for n
    unfolding demo_life_over
    by (simp_all add: waits_def held_def job_row_def demo_over_def demo_jobs_def demo_retry_def demo_locked_def demo_row_def
        set_retry_def set_done_def set_running_def)
  then show ?thesis unfolding fair_for_def Let_def using demo_life_kept by (metis le_add1)
qed

lemma demo_life_run: "prompt_run PgBus default_options [demo_job] (demo_jobs (demo_row JobPending 0) []) demo_life"
  by (simp add: prompt_run_def registered_def prompt_def demo_life_def)

lemma demo_life_start:
  "job_reach PgBus default_options [demo_job] (demo_jobs (demo_row JobPending 0) [])"
  "prompt_reach PgBus default_options (demo_jobs (demo_row JobPending 0) [])"
  by (rule job_reach_to [OF job_reach.start demo_step_1], simp add: registered_def)
    (rule prompt_reach_to [OF prompt_reach.start demo_step_1], simp add: prompt_def)

section \<open>Property\<close>

text \<open>
  C27. A job that waits or runs comes to an end in every run of the queue on either back end, whatever other
  jobs, workers, sweeps and collections do meanwhile, when sweeps are prompt, the run is fair to the job
  and from the state on no execution of it is lost.  It ends with the first execution that succeeds, as
  done, or with the execution that uses up its attempts, as failed and with the error of that execution; the
  failures added to its count are exactly its failed executions.
\<close>

theorem job_comes_to_an_end:
  assumes "distinct (map NAME specs)" and "job_reach bus options specs s0" and "prompt_reach bus options s0"
    and "prompt_run bus options specs s0 ev" and "fair_for bus options k s0 ev"
    and "\<forall>n. \<not> loses bus options k (ev n) (job_run bus options s0 ev n)"
    and "job_row k s0 = Some r0" and "wj_status r0 \<in> {JobPending, JobRunning}"
  shows "\<exists>n r out. job_row k (job_run bus options s0 ev (Suc n)) = Some r \<and> wj_max_attempts r = wj_max_attempts r0 \<and>
    ended k (ev n) (job_run bus options s0 ev n) = Some out \<and>
    (if out = HandlerOk then wj_status r = JobDone
     else wj_status r = JobFailed \<and> wj_attempts r = max 1 (wj_max_attempts r) \<and> wj_last_error r = Some (error_text out)) \<and>
    (\<forall>m < n. ended k (ev m) (job_run bus options s0 ev m) \<noteq> Some HandlerOk) \<and>
    wj_attempts r = wj_attempts r0 + int (card (failed_executions k ev (job_run bus options s0 ev) (Suc n)))"
proof -
  let ?S = "job_run bus options s0 ev"
  have run: "kept_run bus options specs k s0 ev"
    using assms(1,4,6) job_reach_inv [OF assms(1,2)] prompt_reach_exclusive [OF assms(3)] by (simp add: kept_run_def)
  obtain N where over: "\<not> unfinished k (?S N)" and busy: "\<forall>m < N. unfinished k (?S m)"
    using job_finishes [OF run assms(5,7)] exists_least_iff [of "\<lambda>n. \<not> unfinished k (?S n)"] by auto
  have "unfinished k (?S 0)" using assms(7,8) by (auto simp: unfinished_def finished_def)
  then obtain n where n: "N = Suc n" using over by (cases N) auto
  obtain r where r: "job_row k (?S (Suc n)) = Some r" "wj_max_attempts r = wj_max_attempts r0"
      "wj_attempts r = wj_attempts r0 + int (card (failed_executions k ev ?S (Suc n)))"
    using accounting [OF run assms(7)] busy n by blast
  have fin: "finished r" using over r(1) n by (simp add: unfinished_def)
  have step: "\<exists>p. job_row k (?S m) = Some p \<and> \<not> finished p" if "m \<le> n" for m
    using busy n that by (auto simp: unfinished_def less_Suc_eq_le split: option.splits)
  have early: "ended k (ev m) (?S m) \<noteq> Some HandlerOk" if "m < n" for m
  proof -
    obtain p where p: "job_row k (?S m) = Some p" "\<not> finished p" using step [of m] \<open>m < n\<close> by auto
    from run_step [OF run p] step [of "Suc m"] that show ?thesis
      by (auto simp: finished_def simp del: job_run.simps)
  qed
  obtain p where p: "job_row k (?S n) = Some p" "\<not> finished p" using step by blast
  from run_step [OF run p] r(1) fin obtain out where "ended k (ev n) (?S n) = Some out"
      "if out = HandlerOk then wj_status r = JobDone else wj_status r = JobFailed \<and> wj_last_error r = Some (error_text out)"
    by (auto simp: finished_def simp del: job_run.simps split: option.splits if_splits)
  moreover have "wj_status r = JobFailed \<longrightarrow> wj_attempts r = max 1 (wj_max_attempts r)"
    using run_row_ok [OF run r(1)] by (auto simp: row_ok_def allowed_def)
  ultimately show ?thesis
    using r early by (intro exI [of _ n] exI [of _ r] exI [of _ out]) (auto simp del: job_run.simps split: if_splits)
qed

theorem job_comes_to_an_end_witness:
  "\<exists>n r. job_row 1 (job_run PgBus default_options (demo_jobs (demo_row JobPending 0) []) demo_life (Suc n)) = Some r \<and>
     wj_status r \<in> {JobDone, JobFailed} \<and>
     wj_attempts r = int (card (failed_executions 1 demo_life
       (job_run PgBus default_options (demo_jobs (demo_row JobPending 0) []) demo_life) (Suc n)))"
proof -
  have start: "job_row 1 (demo_jobs (demo_row JobPending 0) []) = Some (demo_row JobPending 0)"
    by (simp add: job_row_def demo_jobs_def demo_row_def)
  have "\<forall>n. \<not> loses PgBus default_options 1 (demo_life n) (demo_state n)"
    using demo_life_kept [of "Suc n" for n] by (simp add: loses_def)
  from job_comes_to_an_end [OF _ demo_life_start demo_life_run demo_life_fair this start]
  obtain n r out where "job_row 1 (demo_state (Suc n)) = Some r"
      "if out = HandlerOk then wj_status r = JobDone else wj_status r = JobFailed \<and>
         wj_attempts r = max 1 (wj_max_attempts r) \<and> wj_last_error r = Some (error_text out)"
      "wj_attempts r = wj_attempts (demo_row JobPending 0) + int (card (failed_executions 1 demo_life demo_state (Suc n)))"
    by (auto simp: demo_row_def simp del: job_run.simps)
  then show ?thesis
    by (intro exI [of _ n] exI [of _ r]) (simp add: demo_row_def del: job_run.simps split: if_splits)
qed

end
