(* ===== verification/Event_Bus.thy ===== *)
theory Event_Bus
  imports Prelude "HOL-Library.Multiset" "HOL-Library.Sublist"
begin

text \<open>
  The event bus on PostgreSQL, \<open>infrastructure/event_bus\<close>: the tables \<open>_pg_events\<close> and
  \<open>_pg_event_deliveries\<close>, publishing, the dispatcher with one delivery per event and subscriber, retry plans,
  the aggregate state of an event and the removal of delivered events.  Subscribers are business code on
  connections of their own: what a call returns is an argument, and the calls are recorded in the state, where
  no rollback removes them.  A cycle can be cut off at any point (a crash, a failing statement, a failing
  commit): the tables are rolled back, the calls remain.  The NATS back end is a client of a message broker and is left out.
\<close>

section \<open>Data\<close>

text \<open>A \<open>TIMESTAMPTZ\<close>: an instant in microseconds or \<open>'infinity'\<close>, in this order.\<close>

datatype instant = At int | Infinity

instantiation instant :: linorder
begin

fun less_eq_instant :: "instant \<Rightarrow> instant \<Rightarrow> bool" where
  "less_eq_instant (At a) (At b) = (a \<le> b)"
| "less_eq_instant _ Infinity = True"
| "less_eq_instant Infinity (At _) = False"

definition less_instant :: "instant \<Rightarrow> instant \<Rightarrow> bool" where
  "less_instant a b = (a \<le> b \<and> \<not> b \<le> a)"

instance
proof
  fix x y z :: instant
  show "(x < y) = (x \<le> y \<and> \<not> y \<le> x)" by (simp add: less_instant_def)
  show "x \<le> x" by (cases x) simp_all
  show "x \<le> y \<Longrightarrow> y \<le> z \<Longrightarrow> x \<le> z" by (cases x; cases y; cases z) simp_all
  show "x \<le> y \<Longrightarrow> y \<le> x \<Longrightarrow> x = y" by (cases x; cases y) simp_all
  show "x \<le> y \<or> y \<le> x" by (cases x; cases y) auto
qed

end

datatype delivery_status = DvPending | DvDelivered | DvFailed

record event_row =
  ev_id :: int
  ev_topic :: string
  ev_payload :: string
  ev_status :: delivery_status
  ev_delivered_at :: "int option"
  ev_attempts :: int
  ev_max_attempts :: int
  ev_next_attempt_at :: instant
  ev_last_error :: "string option"

record delivery =
  dl_event_id :: int
  dl_handler :: string
  dl_status :: delivery_status
  dl_attempts :: int
  dl_max_attempts :: int
  dl_next_attempt_at :: instant
  dl_last_error :: "string option"
  dl_delivered_at :: "int option"
  dl_updated_at :: int

text \<open>What a call of a subscriber ends with; a panic carries its message.\<close>

datatype handled = Handled | HandleErr string | HandlePanic string

record event_call =
  ca_event :: int
  ca_handler :: string
  ca_result :: handled

record event_store =
  pg_events :: "event_row list"
  event_deliveries :: "delivery list"
  ev_next_id :: int
  event_calls :: "event_call list"

datatype event_error = EvSql | EvSerialize | EvJson

type_synonym 'a em = "(event_store, event_error, 'a) rs"

text \<open>
  What a transaction sees: \<open>NOW()\<close>, the collation of handler names, the order of rows that tie, and which
  texts parse as JSON.
\<close>

record event_env =
  ee_now :: int
  ee_collate :: "string \<Rightarrow> int"
  ee_order :: "delivery \<Rightarrow> int"
  ee_json :: "string \<Rightarrow> bool"

definition event_rollback :: "event_store \<Rightarrow> event_store \<Rightarrow> event_store" where
  "event_rollback s t = s\<lparr>event_calls := event_calls t\<rparr>"

definition update_events :: "(event_row \<Rightarrow> bool) \<Rightarrow> (event_row \<Rightarrow> event_row) \<Rightarrow> unit em" where
  "update_events P f = modM (\<lambda>s. s\<lparr>pg_events := update_where P f (pg_events s)\<rparr>)"

text \<open>Every update of a delivery also sets \<open>updated_at\<close>, by a trigger.\<close>

definition update_delivery :: "event_env \<Rightarrow> int \<Rightarrow> string \<Rightarrow> (delivery \<Rightarrow> delivery) \<Rightarrow> unit em" where
  "update_delivery env k h f = modM (\<lambda>s. s\<lparr>event_deliveries :=
     update_where (\<lambda>d. dl_event_id d = k \<and> dl_handler d = h) (\<lambda>d. (f d)\<lparr>dl_updated_at := ee_now env\<rparr>) (event_deliveries s)\<rparr>)"

section \<open>Publishing\<close>

definition insert_event :: "string \<Rightarrow> string \<Rightarrow> int \<Rightarrow> unit em" where
  "insert_event topic payload next_attempt =
     seqM (checkM (\<lambda>s. length topic \<le> 255 \<and> ev_next_id s \<le> i64_max) EvSql)
    (modM (\<lambda>s. s\<lparr>pg_events := pg_events s @ [\<lparr>ev_id = ev_next_id s, ev_topic = topic, ev_payload = payload,
         ev_status = DvPending, ev_delivered_at = None, ev_attempts = 0, ev_max_attempts = 5,
         ev_next_attempt_at = At next_attempt, ev_last_error = None\<rparr>], ev_next_id := ev_next_id s + 1\<rparr>))"

text \<open>The payload is None when the event does not serialize; the delay is in microseconds.\<close>

definition publish :: "event_env \<Rightarrow> string \<Rightarrow> string option \<Rightarrow> unit em" where
  "publish env topic payload = bindM (ok_or payload EvSerialize) (\<lambda>p. insert_event topic p (ee_now env))"

definition publish_with_delay :: "event_env \<Rightarrow> string \<Rightarrow> string option \<Rightarrow> nat \<Rightarrow> unit em" where
  "publish_with_delay env topic payload delay =
     bindM (ok_or payload EvSerialize) (\<lambda>p. insert_event topic p (ee_now env + int delay))"

section \<open>The registry\<close>

record subscriber =
  sb_topic :: string
  sb_name :: string

type_synonym event_registry = "string \<Rightarrow> subscriber list option"

text \<open>\<open>EventRegistry::register\<close>; None is the panic on a name that the topic already has.\<close>

definition event_register :: "subscriber \<Rightarrow> event_registry \<Rightarrow> event_registry option" where
  "event_register h reg = (let present = (case reg (sb_topic h) of None \<Rightarrow> [] | Some hs \<Rightarrow> hs) in
     if list_ex (\<lambda>x. sb_name x = sb_name h) present then None
     else Some (reg(sb_topic h \<mapsto> present @ [h])))"

section \<open>Retry plans\<close>

datatype retry_next_attempt = DelaySecs int | Terminal

record retry_plan =
  rp_attempts :: int
  rp_status :: delivery_status
  rp_last_error :: string
  rp_next_attempt_at :: retry_next_attempt

definition permanent_error :: "int \<Rightarrow> string \<Rightarrow> string" where
  "permanent_error n e = ''permanently_failed_after_'' @ (if n < 0 then ''-'' else []) @ dec_string (nat \<bar>n\<bar>) @ ''_attempts: '' @ e"

text \<open>\<open>attempts + 1\<close> on 32 bits.\<close>

definition i32_inc :: "int \<Rightarrow> int" where
  "i32_inc n = (n + 1 + 2 ^ 31) mod 2 ^ 32 - 2 ^ 31"

definition from_failure :: "int \<Rightarrow> int \<Rightarrow> int \<Rightarrow> string \<Rightarrow> retry_plan" where
  "from_failure attempts max_attempts backoff_max_secs error =
     (let next_attempt = i32_inc attempts in
      if next_attempt \<ge> max_attempts
      then \<lparr>rp_attempts = max_attempts, rp_status = DvFailed, rp_last_error = permanent_error max_attempts error,
            rp_next_attempt_at = Terminal\<rparr>
      else \<lparr>rp_attempts = next_attempt, rp_status = DvPending, rp_last_error = error,
            rp_next_attempt_at = DelaySecs (min (2 ^ nat (max 0 (min next_attempt 10))) backoff_max_secs)\<rparr>)"

section \<open>The dispatcher\<close>

text \<open>The poll interval, in milliseconds, is the pause of the loop after a cycle that found nothing.\<close>

record dispatcher_config =
  dc_poll_interval :: int
  dc_backoff_max_secs :: int
  dc_batch_size :: int

definition dispatcher_default :: dispatcher_config where
  "dispatcher_default = \<lparr>dc_poll_interval = 1000, dc_backoff_max_secs = 300, dc_batch_size = 32\<rparr>"

definition mark_delivery_delivered :: "event_env \<Rightarrow> int \<Rightarrow> string \<Rightarrow> unit em" where
  "mark_delivery_delivered env k h = update_delivery env k h
     (\<lambda>d. d\<lparr>dl_status := DvDelivered, dl_delivered_at := Some (ee_now env), dl_last_error := None\<rparr>)"

definition mark_delivery_terminal_failure :: "event_env \<Rightarrow> int \<Rightarrow> string \<Rightarrow> string \<Rightarrow> unit em" where
  "mark_delivery_terminal_failure env k h error = update_delivery env k h
     (\<lambda>d. d\<lparr>dl_status := DvFailed, dl_attempts := dl_max_attempts d, dl_last_error := Some error,
        dl_next_attempt_at := Infinity\<rparr>)"

definition mark_events_terminal_failure :: "int \<Rightarrow> string \<Rightarrow> unit em" where
  "mark_events_terminal_failure k error = update_events (\<lambda>e. ev_id e = k)
     (\<lambda>e. e\<lparr>ev_status := DvFailed, ev_attempts := ev_max_attempts e, ev_last_error := Some error,
        ev_next_attempt_at := Infinity\<rparr>)"

definition record_delivery_retry :: "event_env \<Rightarrow> dispatcher_config \<Rightarrow> int \<Rightarrow> string \<Rightarrow> int \<Rightarrow> int \<Rightarrow> string \<Rightarrow> unit em" where
  "record_delivery_retry env cfg k h attempts max_attempts error =
     (let plan = from_failure attempts max_attempts (dc_backoff_max_secs cfg) error in
      update_delivery env k h (\<lambda>d. d\<lparr>dl_status := rp_status plan, dl_attempts := rp_attempts plan,
        dl_last_error := Some (rp_last_error plan),
        dl_next_attempt_at := (case rp_next_attempt_at plan of Terminal \<Rightarrow> Infinity
          | DelaySecs n \<Rightarrow> At (ee_now env + n * 1000000))\<rparr>))"

text \<open>
  \<open>deliver_one\<close>: the savepoint covers statements of the subscriber on this connection, of which there are
  none, so only the call and the statement about its result remain.
\<close>

definition call_handler :: "(int \<Rightarrow> string \<Rightarrow> handled) \<Rightarrow> int \<Rightarrow> string \<Rightarrow> handled em" where
  "call_handler handle k h =
     seqM (modM (\<lambda>s. s\<lparr>event_calls := event_calls s @ [\<lparr>ca_event = k, ca_handler = h, ca_result = handle k h\<rparr>]\<rparr>))
    (retM (handle k h))"

definition deliver_one :: "event_env \<Rightarrow> dispatcher_config \<Rightarrow> (int \<Rightarrow> string \<Rightarrow> handled) \<Rightarrow> int \<Rightarrow> delivery \<Rightarrow> unit em" where
  "deliver_one env cfg handle k d =
     bindM (call_handler handle k (dl_handler d)) (\<lambda>r. case r of
        Handled \<Rightarrow> mark_delivery_delivered env k (dl_handler d)
      | HandleErr e \<Rightarrow> record_delivery_retry env cfg k (dl_handler d) (dl_attempts d) (dl_max_attempts d) e
      | HandlePanic e \<Rightarrow> mark_delivery_terminal_failure env k (dl_handler d) e)"

text \<open>\<open>INSERT .. SELECT .. ON CONFLICT DO NOTHING\<close>, one row per subscriber name.\<close>

definition new_delivery :: "event_env \<Rightarrow> event_row \<Rightarrow> string \<Rightarrow> delivery" where
  "new_delivery env e h = \<lparr>dl_event_id = ev_id e, dl_handler = h, dl_status = DvPending, dl_attempts = 0,
     dl_max_attempts = ev_max_attempts e, dl_next_attempt_at = At (ee_now env), dl_last_error = None,
     dl_delivered_at = None, dl_updated_at = ee_now env\<rparr>"

definition has_delivery :: "int \<Rightarrow> string \<Rightarrow> delivery list \<Rightarrow> bool" where
  "has_delivery k h ds = list_ex (\<lambda>d. dl_event_id d = k \<and> dl_handler d = h) ds"

fun add_deliveries :: "event_env \<Rightarrow> event_row \<Rightarrow> string list \<Rightarrow> delivery list \<Rightarrow> delivery list" where
  "add_deliveries env e [] ds = ds"
| "add_deliveries env e (h # hs) ds =
     add_deliveries env e hs (if has_delivery (ev_id e) h ds then ds else ds @ [new_delivery env e h])"

definition ensure_deliveries :: "event_env \<Rightarrow> int \<Rightarrow> subscriber list \<Rightarrow> unit em" where
  "ensure_deliveries env k handlers = modM (\<lambda>s. s\<lparr>event_deliveries :=
     foldl (\<lambda>ds e. add_deliveries env e (map sb_name handlers) ds) (event_deliveries s)
       (filter (\<lambda>e. ev_id e = k) (pg_events s))\<rparr>)"

definition due_delivery :: "event_env \<Rightarrow> delivery \<Rightarrow> bool" where
  "due_delivery env d = (dl_status d = DvPending \<and> dl_attempts d < dl_max_attempts d \<and> dl_next_attempt_at d \<le> At (ee_now env))"

definition deliveries_of :: "int \<Rightarrow> event_store \<Rightarrow> delivery list" where
  "deliveries_of k s = filter (\<lambda>d. dl_event_id d = k) (event_deliveries s)"

text \<open>\<open>refresh_message_state\<close>; the last error of the failed deliveries is any of the latest.\<close>

definition latest_error :: "event_env \<Rightarrow> delivery list \<Rightarrow> string" where
  "latest_error env failed = (case sort_key (\<lambda>d. - dl_updated_at d) (sort_key (ee_order env) failed) of
     [] \<Rightarrow> ''some_deliveries_failed''
   | d # _ \<Rightarrow> (case dl_last_error d of None \<Rightarrow> ''some_deliveries_failed'' | Some e \<Rightarrow> e))"

definition earliest :: "instant list \<Rightarrow> instant" where
  "earliest ts = foldr min ts Infinity"

definition refreshed :: "event_env \<Rightarrow> delivery list \<Rightarrow> event_row \<Rightarrow> event_row" where
  "refreshed env ds e =
     (let pending = filter (\<lambda>d. dl_status d = DvPending) ds; failed = filter (\<lambda>d. dl_status d = DvFailed) ds in
      e\<lparr>ev_status := (if failed \<noteq> [] then DvFailed else if pending \<noteq> [] then DvPending else DvDelivered),
        ev_delivered_at := (if pending = [] \<and> failed = [] then Some (ee_now env) else ev_delivered_at e),
        ev_next_attempt_at := (if pending \<noteq> [] then earliest (map dl_next_attempt_at pending) else Infinity),
        ev_last_error := (if failed \<noteq> [] then Some (latest_error env failed) else ev_last_error e)\<rparr>)"

definition refresh_message_state :: "event_env \<Rightarrow> int \<Rightarrow> unit em" where
  "refresh_message_state env k =
     bindM (getsM (deliveries_of k)) (\<lambda>ds. update_events (\<lambda>e. ev_id e = k) (refreshed env ds))"

definition deliver_or_fail :: "event_env \<Rightarrow> dispatcher_config \<Rightarrow> (int \<Rightarrow> string \<Rightarrow> handled) \<Rightarrow> subscriber list \<Rightarrow>
    int \<Rightarrow> delivery \<Rightarrow> unit em" where
  "deliver_or_fail env cfg handle handlers k d =
     (case find (\<lambda>h. sb_name h = dl_handler d) handlers of
        None \<Rightarrow> mark_delivery_terminal_failure env k (dl_handler d) ''handler_not_registered''
      | Some _ \<Rightarrow> deliver_one env cfg handle k d)"

definition process_message :: "event_env \<Rightarrow> dispatcher_config \<Rightarrow> event_registry \<Rightarrow> (int \<Rightarrow> string \<Rightarrow> handled) \<Rightarrow>
    event_row \<Rightarrow> unit em" where
  "process_message env cfg registry handle row =
     seqM (guardM (ee_json env (ev_payload row)) EvJson)
    (case registry (ev_topic row) of
       None \<Rightarrow> mark_events_terminal_failure (ev_id row) (''no_handler_for_topic:'' @ ev_topic row)
     | Some handlers \<Rightarrow>
         seqM (ensure_deliveries env (ev_id row) handlers)
        (bindM (getsM (\<lambda>s. sort_key (\<lambda>d. ee_collate env (dl_handler d))
              (filter (due_delivery env) (deliveries_of (ev_id row) s)))) (\<lambda>due.
         seqM (forM due (deliver_or_fail env cfg handle handlers (ev_id row)))
        (refresh_message_state env (ev_id row)))))"

definition pulled :: "event_env \<Rightarrow> event_store \<Rightarrow> event_row \<Rightarrow> bool" where
  "pulled env s e = (ev_next_attempt_at e \<le> At (ee_now env) \<and>
     (deliveries_of (ev_id e) s = [] \<or> list_ex (due_delivery env) (deliveries_of (ev_id e) s)))"

definition pull_batch :: "event_env \<Rightarrow> dispatcher_config \<Rightarrow> event_store \<Rightarrow> event_row list" where
  "pull_batch env cfg s = take (nat (max (dc_batch_size cfg) 1))
     (sort_key ev_next_attempt_at (sort_key ev_id (filter (pulled env s) (pg_events s))))"

definition run_one_cycle :: "event_env \<Rightarrow> dispatcher_config \<Rightarrow> event_registry \<Rightarrow> (int \<Rightarrow> string \<Rightarrow> handled) \<Rightarrow> nat em" where
  "run_one_cycle env cfg registry handle = txnM event_rollback
     (bindM (getsM (pull_batch env cfg)) (\<lambda>rows.
      if rows = [] then retM 0
      else seqM (forM rows (process_message env cfg registry handle)) (retM (length rows))))"

section \<open>Removal and statistics\<close>

text \<open>\<open>delete_delivered_older_than_in_transaction\<close>; deliveries go with their event.\<close>

definition delivered_before :: "int \<Rightarrow> event_row \<Rightarrow> bool" where
  "delivered_before cutoff e = (ev_status e = DvDelivered \<and> (case ev_delivered_at e of None \<Rightarrow> False | Some t \<Rightarrow> t < cutoff))"

definition delete_delivered :: "event_env \<Rightarrow> int \<Rightarrow> nat em" where
  "delete_delivered env retain_days =
     (let cutoff = ee_now env - max retain_days 1 * 86400000000 in
      bindM (getsM (\<lambda>s. map ev_id (filter (delivered_before cutoff) (pg_events s)))) (\<lambda>ids.
      seqM (modM (\<lambda>s. s\<lparr>pg_events := filter (\<lambda>e. \<not> delivered_before cutoff e) (pg_events s),
              event_deliveries := filter (\<lambda>d. dl_event_id d \<notin> set ids) (event_deliveries s)\<rparr>))
     (retM (length ids))))"

record event_backlog =
  eb_pending :: nat
  eb_failed :: nat
  eb_deliveries_pending :: nat

definition event_backlog_of :: "event_backlog em" where
  "event_backlog_of = getsM (\<lambda>s.
     \<lparr>eb_pending = length (filter (\<lambda>e. ev_status e = DvPending) (pg_events s)),
      eb_failed = length (filter (\<lambda>e. ev_status e = DvFailed) (pg_events s)),
      eb_deliveries_pending = length (filter (\<lambda>d. dl_status d = DvPending) (event_deliveries s))\<rparr>)"

section \<open>Runs\<close>

text \<open>
  Publications, dispatcher cycles and removals, in any order, with any registry and any results of the
  subscribers.  \<open>publish_in_tx\<close> is a publication whose transaction commits.  \<open>Abort\<close> is a cycle that ends after
  its first \<open>n\<close> calls, because the process dies, a statement fails or the commit fails: its transaction is rolled
  back, and the error, if the process is still there, is logged by the loop of \<open>run_dispatcher\<close>.
\<close>

datatype event_step =
    Publish event_env string "string option" nat
  | Cycle event_env dispatcher_config event_registry "int \<Rightarrow> string \<Rightarrow> handled"
  | Abort event_env dispatcher_config event_registry "int \<Rightarrow> string \<Rightarrow> handled" nat
  | Remove event_env int

fun bus_step :: "event_step \<Rightarrow> event_store \<Rightarrow> event_store" where
  "bus_step (Publish env topic payload delay) s =
     snd ((if delay = 0 then publish env topic payload else publish_with_delay env topic payload delay) s)"
| "bus_step (Cycle env cfg registry handle) s = snd (run_one_cycle env cfg registry handle s)"
| "bus_step (Abort env cfg registry handle n) s =
     s\<lparr>event_calls := take (length (event_calls s) + n) (event_calls (snd (run_one_cycle env cfg registry handle s)))\<rparr>"
| "bus_step (Remove env days) s = snd (delete_delivered env days s)"

definition empty_events :: event_store where
  "empty_events = \<lparr>pg_events = [], event_deliveries = [], ev_next_id = 1, event_calls = []\<rparr>"

text \<open>Published payloads are serialized by the same library that parses them: a step whose payload parses.\<close>

definition parses :: "(string \<Rightarrow> bool) \<Rightarrow> event_step \<Rightarrow> bool" where
  "parses json e = (case e of
      Publish env topic payload delay \<Rightarrow> (case payload of None \<Rightarrow> True | Some p \<Rightarrow> json p)
    | Cycle env cfg registry handle \<Rightarrow> ee_json env = json
    | Abort env cfg registry handle n \<Rightarrow> ee_json env = json
    | Remove env days \<Rightarrow> True)"

inductive event_reach :: "(string \<Rightarrow> bool) \<Rightarrow> event_store \<Rightarrow> bool" for json where
  start: "event_reach json empty_events"
| step: "event_reach json s \<Longrightarrow> parses json e \<Longrightarrow> event_reach json (bus_step e s)"

text \<open>Runs in which no cycle is cut off.\<close>

definition aborts :: "event_step \<Rightarrow> bool" where
  "aborts e = (case e of Abort env cfg registry handle n \<Rightarrow> True | _ \<Rightarrow> False)"

inductive steady_reach :: "(string \<Rightarrow> bool) \<Rightarrow> event_store \<Rightarrow> bool" for json where
  start: "steady_reach json empty_events"
| step: "steady_reach json s \<Longrightarrow> parses json e \<Longrightarrow> \<not> aborts e \<Longrightarrow> steady_reach json (bus_step e s)"

lemma steady_reach_event_reach: "steady_reach json s \<Longrightarrow> event_reach json s"
  by (induction rule: steady_reach.induct) (auto intro: event_reach.intros)

section \<open>The invariant\<close>

text \<open>
  A delivery and the calls made for it, as long as no cycle is cut off: while it is pending every attempt was
  a call that failed; a delivered one ended with its only successful call; a failed one had none.
\<close>

definition calls_of :: "event_call list \<Rightarrow> int \<Rightarrow> string \<Rightarrow> handled list" where
  "calls_of cs k h = map ca_result (filter (\<lambda>c. ca_event c = k \<and> ca_handler c = h) cs)"

definition delivery_ok :: "delivery \<Rightarrow> handled list \<Rightarrow> bool" where
  "delivery_ok d cs = (case dl_status d of
      DvPending \<Rightarrow> int (length cs) = dl_attempts d \<and> dl_attempts d < dl_max_attempts d \<and> Handled \<notin> set cs
    | DvDelivered \<Rightarrow> (\<exists>bs. cs = bs @ [Handled] \<and> Handled \<notin> set bs \<and> int (length bs) < dl_max_attempts d)
    | DvFailed \<Rightarrow> int (length cs) \<le> dl_max_attempts d \<and> dl_attempts d = dl_max_attempts d \<and> Handled \<notin> set cs)"

definition dl_key :: "delivery \<Rightarrow> int \<times> string" where
  "dl_key d = (dl_event_id d, dl_handler d)"

definition core_inv :: "(string \<Rightarrow> bool) \<Rightarrow> event_store \<Rightarrow> bool" where
  "core_inv json s =
     (distinct (map ev_id (pg_events s)) \<and>
      (\<forall>e \<in> set (pg_events s). ev_id e < ev_next_id s \<and> json (ev_payload e) \<and> ev_max_attempts e = 5) \<and>
      distinct (map dl_key (event_deliveries s)) \<and>
      (\<forall>d \<in> set (event_deliveries s). dl_event_id d \<in> ev_id ` set (pg_events s) \<and> dl_max_attempts d = 5 \<and>
         delivery_ok d (calls_of (event_calls s) (dl_event_id d) (dl_handler d))) \<and>
      (\<forall>c \<in> set (event_calls s). ca_event c < ev_next_id s \<and>
         (ca_event c \<in> ev_id ` set (pg_events s) \<longrightarrow> (ca_event c, ca_handler c) \<in> dl_key ` set (event_deliveries s))))"

text \<open>
  The row of an event: it has failed because its topic has no subscriber, it is new, or it sums up its
  deliveries, and then it is due as soon as one of its pending deliveries is.
\<close>

definition summed_up :: "delivery list \<Rightarrow> event_row \<Rightarrow> bool" where
  "summed_up ds e = (let pending = filter (\<lambda>d. dl_status d = DvPending) ds in
     ev_status e = (if \<exists>d \<in> set ds. dl_status d = DvFailed then DvFailed
                    else if pending \<noteq> [] then DvPending else DvDelivered) \<and>
     ev_next_attempt_at e = earliest (map dl_next_attempt_at pending))"

definition event_ok :: "event_row \<Rightarrow> delivery list \<Rightarrow> bool" where
  "event_ok e ds = (ev_attempts e = ev_max_attempts e \<and> ev_status e = DvFailed
     \<or> ds = [] \<and> ev_status e = DvPending \<or> summed_up ds e)"

definition events_inv :: "(string \<Rightarrow> bool) \<Rightarrow> event_store \<Rightarrow> bool" where
  "events_inv json s = (core_inv json s \<and> (\<forall>e \<in> set (pg_events s). event_ok e (deliveries_of (ev_id e) s)))"

lemma calls_of_append [simp]: "calls_of (cs @ ds) k h = calls_of cs k h @ calls_of ds k h"
  by (simp add: calls_of_def)

lemma calls_of_Nil [simp]: "calls_of [] k h = []"
  by (simp add: calls_of_def)

lemma calls_of_single [simp]:
  "calls_of [\<lparr>ca_event = k, ca_handler = h, ca_result = r\<rparr>] j g = (if j = k \<and> g = h then [r] else [])"
  by (simp add: calls_of_def)

lemma events_inv_empty: "events_inv json empty_events"
  by (simp add: events_inv_def core_inv_def empty_events_def)

subsection \<open>One delivery\<close>

text \<open>The state after a delivery was settled: its row changed, its calls appended.\<close>

definition settled :: "int \<Rightarrow> string \<Rightarrow> (delivery \<Rightarrow> delivery) \<Rightarrow> event_call list \<Rightarrow> event_store \<Rightarrow> event_store" where
  "settled k h f cs s = s\<lparr>event_deliveries := update_where (\<lambda>d. dl_event_id d = k \<and> dl_handler d = h) f (event_deliveries s),
     event_calls := event_calls s @ cs\<rparr>"

definition keeps_key :: "(delivery \<Rightarrow> delivery) \<Rightarrow> bool" where
  "keeps_key f = (\<forall>d. dl_event_id (f d) = dl_event_id d \<and> dl_handler (f d) = dl_handler d \<and> dl_max_attempts (f d) = dl_max_attempts d)"

lemma key_unique: "distinct (map dl_key ds) \<Longrightarrow> d \<in> set ds \<Longrightarrow> d' \<in> set ds \<Longrightarrow> dl_key d' = dl_key d \<Longrightarrow> d' = d"
  by (auto simp: distinct_map inj_on_def)

lemma core_inv_settled:
  assumes inv: "core_inv json s" and d: "d \<in> set (event_deliveries s)" "dl_event_id d = k" "dl_handler d = h"
    and f: "keeps_key f" and cs: "\<forall>c \<in> set cs. ca_event c = k \<and> ca_handler c = h"
    and ok: "delivery_ok (f d) (calls_of (event_calls s) k h @ calls_of cs k h)"
  shows "core_inv json (settled k h f cs s)"
proof -
  let ?ds = "event_deliveries s" and ?P = "\<lambda>d. dl_event_id d = k \<and> dl_handler d = h"
  have keys: "map dl_key (update_where ?P f ?ds) = map dl_key ?ds"
    using f by (intro map_update_where) (simp add: keeps_key_def dl_key_def)
  then have key_set: "dl_key ` set (update_where ?P f ?ds) = dl_key ` set ?ds" by (metis list.set_map)
  have only: "d' = d" if "d' \<in> set ?ds" "?P d'" for d'
    using that d inv key_unique by (auto simp: core_inv_def dl_key_def)
  have other: "calls_of cs (dl_event_id d') (dl_handler d') = []" if "\<not> ?P d'" for d'
    using that cs by (auto simp: calls_of_def filter_empty_conv)
  have rows: "\<forall>d' \<in> set (update_where ?P f ?ds). dl_event_id d' \<in> ev_id ` set (pg_events s) \<and> dl_max_attempts d' = 5 \<and>
      delivery_ok d' (calls_of (event_calls s @ cs) (dl_event_id d') (dl_handler d'))"
    unfolding ball_update_where
  proof
    fix d' assume d': "d' \<in> set ?ds"
    then have old: "dl_event_id d' \<in> ev_id ` set (pg_events s)" "dl_max_attempts d' = 5"
      "delivery_ok d' (calls_of (event_calls s) (dl_event_id d') (dl_handler d'))" using inv by (auto simp: core_inv_def)
    show "dl_event_id (if ?P d' then f d' else d') \<in> ev_id ` set (pg_events s) \<and>
        dl_max_attempts (if ?P d' then f d' else d') = 5 \<and>
        delivery_ok (if ?P d' then f d' else d')
          (calls_of (event_calls s @ cs) (dl_event_id (if ?P d' then f d' else d')) (dl_handler (if ?P d' then f d' else d')))"
    proof (cases "?P d'")
      case True
      then have "d' = d" using only d' by blast
      then show ?thesis using True old f ok by (simp add: keeps_key_def)
    next
      case False
      have "calls_of cs (dl_event_id d') (dl_handler d') = []" using False by (rule other)
      then show ?thesis unfolding if_not_P [OF False] using old by simp
    qed
  qed
  have "k < ev_next_id s" "(k, h) \<in> dl_key ` set ?ds"
    using d inv by (auto simp: core_inv_def dl_key_def)
  then have "\<forall>c \<in> set (event_calls s @ cs). ca_event c < ev_next_id s \<and>
      (ca_event c \<in> ev_id ` set (pg_events s) \<longrightarrow> (ca_event c, ca_handler c) \<in> dl_key ` set ?ds)"
    using inv cs by (auto simp: core_inv_def)
  then show ?thesis
    using inv rows keys key_set unfolding core_inv_def settled_def by simp
qed

lemma i32_inc_small: "0 \<le> n \<Longrightarrow> n < 5 \<Longrightarrow> i32_inc n = n + 1"
  by (simp add: i32_inc_def)

definition settled_status :: "subscriber list \<Rightarrow> (int \<Rightarrow> string \<Rightarrow> handled) \<Rightarrow> delivery \<Rightarrow> delivery_status" where
  "settled_status handlers handle d = (if \<exists>h \<in> set handlers. sb_name h = dl_handler d
     then (case handle (dl_event_id d) (dl_handler d) of Handled \<Rightarrow> DvDelivered | HandlePanic _ \<Rightarrow> DvFailed
           | HandleErr _ \<Rightarrow> if dl_attempts d + 1 < 5 then DvPending else DvFailed)
     else DvFailed)"

lemma settle_due:
  assumes d: "d \<in> set (event_deliveries s)" "dl_event_id d = k" and inv: "core_inv json s" and due: "due_delivery env d"
  obtains f cs where "deliver_or_fail env cfg handle handlers k d s = (Inr (), settled k (dl_handler d) f cs s)"
    "keeps_key f" "core_inv json (settled k (dl_handler d) f cs s)"
    "dl_status (f d) = settled_status handlers handle d" "\<forall>c \<in> set cs. ca_event c = k \<and> ca_handler c = dl_handler d"
proof -
  let ?h = "dl_handler d" and ?r = "handle k (dl_handler d)"
  let ?call = "[\<lparr>ca_event = k, ca_handler = ?h, ca_result = ?r\<rparr>]"
  have ok: "delivery_ok d (calls_of (event_calls s) k ?h)" and m: "dl_max_attempts d = 5" and st: "dl_status d = DvPending"
    using d inv due by (auto simp: core_inv_def due_delivery_def)
  then have n: "int (length (calls_of (event_calls s) k ?h)) = dl_attempts d" "dl_attempts d < 5" "0 \<le> dl_attempts d"
    "Handled \<notin> set (calls_of (event_calls s) k ?h)"
    by (auto simp: delivery_ok_def)
  have key: "keeps_key (\<lambda>d. (g d)\<lparr>dl_updated_at := t\<rparr>)" if "keeps_key g" for g t using that by (simp add: keeps_key_def)
  show ?thesis
  proof (cases "find (\<lambda>h. sb_name h = ?h) handlers")
    case None
    let ?f = "\<lambda>d. (d\<lparr>dl_status := DvFailed, dl_attempts := dl_max_attempts d, dl_last_error := Some ''handler_not_registered'',
        dl_next_attempt_at := Infinity\<rparr>)\<lparr>dl_updated_at := ee_now env\<rparr>"
    have "keeps_key ?f" by (simp add: keeps_key_def)
    moreover from this have "core_inv json (settled k ?h ?f [] s)"
      by (intro core_inv_settled [OF inv d refl]) (use n m in \<open>auto simp: delivery_ok_def\<close>)
    moreover have "deliver_or_fail env cfg handle handlers k d s = (Inr (), settled k ?h ?f [] s)"
      using None by (simp add: deliver_or_fail_def mark_delivery_terminal_failure_def update_delivery_def modM_def settled_def)
    moreover have "\<not> (\<exists>h \<in> set handlers. sb_name h = ?h)" using None by (simp add: find_None_iff)
    ultimately show ?thesis by (intro that [of ?f "[]"]) (simp_all add: settled_status_def)
  next
    case (Some sub)
    have reg: "\<exists>h \<in> set handlers. sb_name h = ?h" using Some by (auto simp: find_Some_iff)
    have run: "deliver_or_fail env cfg handle handlers k d s = (case ?r of
        Handled \<Rightarrow> mark_delivery_delivered env k ?h
      | HandleErr e \<Rightarrow> record_delivery_retry env cfg k ?h (dl_attempts d) (dl_max_attempts d) e
      | HandlePanic e \<Rightarrow> mark_delivery_terminal_failure env k ?h e) (s\<lparr>event_calls := event_calls s @ ?call\<rparr>)"
      using Some by (simp add: deliver_or_fail_def deliver_one_def call_handler_def bindM_def seqM_def modM_def retM_def)
    show ?thesis
    proof (cases ?r)
      case Handled
      let ?f = "\<lambda>d. (d\<lparr>dl_status := DvDelivered, dl_delivered_at := Some (ee_now env), dl_last_error := None\<rparr>)\<lparr>dl_updated_at := ee_now env\<rparr>"
      have "keeps_key ?f" by (simp add: keeps_key_def)
      moreover from this have "core_inv json (settled k ?h ?f ?call s)"
        by (intro core_inv_settled [OF inv d refl]) (use n m Handled in \<open>auto simp: delivery_ok_def\<close>)
      ultimately show ?thesis using run Handled reg
        by (intro that [of ?f ?call]) (simp_all add: mark_delivery_delivered_def update_delivery_def modM_def settled_def settled_status_def d(2))
    next
      case (HandlePanic e)
      let ?f = "\<lambda>d. (d\<lparr>dl_status := DvFailed, dl_attempts := dl_max_attempts d, dl_last_error := Some e,
        dl_next_attempt_at := Infinity\<rparr>)\<lparr>dl_updated_at := ee_now env\<rparr>"
      have "keeps_key ?f" by (simp add: keeps_key_def)
      moreover from this have "core_inv json (settled k ?h ?f ?call s)"
        by (intro core_inv_settled [OF inv d refl]) (use n m HandlePanic in \<open>auto simp: delivery_ok_def\<close>)
      ultimately show ?thesis using run HandlePanic reg
        by (intro that [of ?f ?call]) (simp_all add: mark_delivery_terminal_failure_def update_delivery_def modM_def settled_def settled_status_def d(2))
    next
      case (HandleErr e)
      let ?p = "from_failure (dl_attempts d) (dl_max_attempts d) (dc_backoff_max_secs cfg) e"
      let ?f = "\<lambda>d. (d\<lparr>dl_status := rp_status ?p, dl_attempts := rp_attempts ?p, dl_last_error := Some (rp_last_error ?p),
        dl_next_attempt_at := (case rp_next_attempt_at ?p of Terminal \<Rightarrow> Infinity
          | DelaySecs n \<Rightarrow> At (ee_now env + n * 1000000))\<rparr>)\<lparr>dl_updated_at := ee_now env\<rparr>"
      have "keeps_key ?f" by (simp add: keeps_key_def)
      moreover from this have "core_inv json (settled k ?h ?f ?call s)"
        by (intro core_inv_settled [OF inv d refl])
          (use n m HandleErr in \<open>auto simp: delivery_ok_def from_failure_def Let_def i32_inc_small\<close>)
      ultimately show ?thesis using run HandleErr reg n m
        by (intro that [of ?f ?call])
          (simp_all add: record_delivery_retry_def update_delivery_def modM_def settled_def Let_def from_failure_def i32_inc_small
            settled_status_def d(2))
    qed
  qed
qed

subsection \<open>One event\<close>

lemma has_delivery_key: "has_delivery k h ds \<longleftrightarrow> (k, h) \<in> dl_key ` set ds"
  by (auto simp: has_delivery_def list_ex_iff dl_key_def)

lemma core_inv_add:
  assumes "core_inv json s" "e \<in> set (pg_events s)"
  shows "core_inv json (s\<lparr>event_deliveries := add_deliveries env e hs (event_deliveries s)\<rparr>)"
  using assms
proof (induction hs arbitrary: s)
  case Nil
  then show ?case by simp
next
  case (Cons h hs)
  show ?case
  proof (cases "has_delivery (ev_id e) h (event_deliveries s)")
    case True
    then show ?thesis using Cons by simp
  next
    case False
    let ?s = "s\<lparr>event_deliveries := event_deliveries s @ [new_delivery env e h]\<rparr>"
    have new: "(ev_id e, h) \<notin> dl_key ` set (event_deliveries s)" using False by (simp add: has_delivery_key)
    have "calls_of (event_calls s) (ev_id e) h = []"
      using Cons.prems new by (auto simp: core_inv_def calls_of_def filter_empty_conv)
    then have "core_inv json ?s"
      using Cons.prems new by (auto simp: core_inv_def new_delivery_def dl_key_def delivery_ok_def)
    then show ?thesis using Cons.IH [of ?s] Cons.prems(2) False by simp
  qed
qed

lemma add_deliveries_other: "filter (\<lambda>d. dl_event_id d = j) (add_deliveries env e hs ds) = filter (\<lambda>d. dl_event_id d = j) ds"
  if "j \<noteq> ev_id e"
  using that by (induction hs arbitrary: ds) (auto simp: new_delivery_def)

lemma add_deliveries_keys:
  "dl_key ` set (add_deliveries env e hs ds) = dl_key ` set ds \<union> {ev_id e} \<times> set hs"
proof (induction hs arbitrary: ds)
  case (Cons h hs)
  then show ?case by (auto simp: has_delivery_key) (simp_all add: new_delivery_def dl_key_def)
qed simp

lemma add_deliveries_pending:
  "d \<in> set (add_deliveries env e hs ds) \<Longrightarrow> d \<in> set ds \<or>
     dl_status d = DvPending \<and> dl_event_id d = ev_id e \<and> dl_handler d \<in> set hs \<and> dl_next_attempt_at d = At (ee_now env)"
proof (induction hs arbitrary: ds)
  case (Cons h hs)
  from Cons.IH [OF Cons.prems [unfolded add_deliveries.simps]] show ?case
    by (auto simp: new_delivery_def split: if_splits)
qed simp

lemma add_deliveries_mono: "d \<in> set ds \<Longrightarrow> d \<in> set (add_deliveries env e hs ds)"
  by (induction hs arbitrary: ds) simp_all

lemma ensure_one:
  assumes "core_inv json s" "e \<in> set (pg_events s)"
  shows "ensure_deliveries env (ev_id e) handlers s
    = (Inr (), s\<lparr>event_deliveries := add_deliveries env e (map sb_name handlers) (event_deliveries s)\<rparr>)"
proof -
  have "filter (\<lambda>x. ev_id x = ev_id e) es = [e]" if "distinct (map ev_id es)" "e \<in> set es" for es
    using that by (induction es) (auto simp: filter_empty_conv image_iff)
  then show ?thesis using assms by (simp add: ensure_deliveries_def modM_def core_inv_def)
qed

text \<open>A delivery that is not pending keeps its row and is not called again.\<close>

definition settled_kept :: "event_store \<Rightarrow> event_store \<Rightarrow> bool" where
  "settled_kept s t = (\<forall>d \<in> set (event_deliveries s). dl_status d \<noteq> DvPending \<longrightarrow> d \<in> set (event_deliveries t) \<and>
     calls_of (event_calls t) (dl_event_id d) (dl_handler d) = calls_of (event_calls s) (dl_event_id d) (dl_handler d))"

lemma settled_kept_refl: "event_deliveries t = event_deliveries s \<Longrightarrow> event_calls t = event_calls s \<Longrightarrow> settled_kept s t"
  by (simp add: settled_kept_def)

lemma settled_kept_trans: "settled_kept s u \<Longrightarrow> settled_kept u t \<Longrightarrow> settled_kept s t"
  by (auto simp: settled_kept_def)

text \<open>What the loop over the due deliveries leaves: other events untouched, every due delivery settled.\<close>

definition loop_inv :: "(string \<Rightarrow> bool) \<Rightarrow> event_store \<Rightarrow> int \<Rightarrow> (delivery \<Rightarrow> delivery_status) \<Rightarrow> delivery list \<Rightarrow> event_store \<Rightarrow> bool" where
  "loop_inv json s k result done t = (core_inv json t \<and> pg_events t = pg_events s \<and> ev_next_id t = ev_next_id s \<and>
     (\<forall>j. j \<noteq> k \<longrightarrow> deliveries_of j t = deliveries_of j s) \<and>
     map dl_key (event_deliveries t) = map dl_key (event_deliveries s) \<and>
     (\<forall>j g. (j, g) \<notin> dl_key ` set done \<longrightarrow> calls_of (event_calls t) j g = calls_of (event_calls s) j g) \<and>
     (\<forall>d \<in> set (event_deliveries s). if d \<in> set done
        then \<exists>d' \<in> set (event_deliveries t). dl_key d' = dl_key d \<and> dl_status d' = result d
        else d \<in> set (event_deliveries t)))"

lemma deliveries_of_settled: "j \<noteq> k \<Longrightarrow> keeps_key f \<Longrightarrow> deliveries_of j (settled k h f cs s) = deliveries_of j s"
proof -
  assume "j \<noteq> k" "keeps_key f"
  then have "filter (\<lambda>d. dl_event_id d = j) (update_where (\<lambda>d. dl_event_id d = k \<and> dl_handler d = h) f ds)
      = filter (\<lambda>d. dl_event_id d = j) ds" for ds
    by (induction ds) (auto simp: keeps_key_def)
  then show ?thesis by (simp add: deliveries_of_def settled_def)
qed

lemma deliver_loop:
  assumes inv: "core_inv json s"
    and due: "\<And>d. d \<in> set due \<Longrightarrow> d \<in> set (event_deliveries s) \<and> dl_event_id d = k \<and> due_delivery env d"
    and dist: "distinct due"
  shows "\<exists>t. forM due (deliver_or_fail env cfg handle handlers k) s = (Inr (), t) \<and> loop_inv json s k (settled_status handlers handle) due t"
proof -
  let ?result = "settled_status handlers handle"
  have "\<exists>t'. forM zs (deliver_or_fail env cfg handle handlers k) t = (Inr (), t') \<and> loop_inv json s k ?result (ys @ zs) t'"
    if "due = ys @ zs" "loop_inv json s k ?result ys t" for ys zs t
    using that
  proof (induction zs arbitrary: ys t)
    case Nil
    then show ?case by (simp add: retM_def)
  next
    case (Cons d zs)
    have d: "d \<in> set (event_deliveries s)" "dl_event_id d = k" "due_delivery env d" "d \<notin> set ys"
      using due Cons.prems(1) dist by auto
    then have dt: "d \<in> set (event_deliveries t)" and ct: "core_inv json t" using Cons.prems(2) by (auto simp: loop_inv_def)
    obtain f cs where f: "deliver_or_fail env cfg handle handlers k d t = (Inr (), settled k (dl_handler d) f cs t)"
      "keeps_key f" "core_inv json (settled k (dl_handler d) f cs t)" "dl_status (f d) = ?result d"
      "\<forall>c \<in> set cs. ca_event c = k \<and> ca_handler c = dl_handler d"
      by (rule settle_due [OF dt d(2) ct d(3)])
    let ?P = "\<lambda>d'. dl_event_id d' = k \<and> dl_handler d' = dl_handler d"
    have keys: "map dl_key (update_where ?P f (event_deliveries t)) = map dl_key (event_deliveries t)"
      using f(2) by (intro map_update_where) (simp add: keeps_key_def dl_key_def)
    have uniq: "d1 = d2" if "d1 \<in> set (event_deliveries s)" "d2 \<in> set (event_deliveries s)" "dl_key d1 = dl_key d2" for d1 d2
      using that inv key_unique by (metis core_inv_def)
    have step: "if d0 \<in> set (ys @ [d])
        then \<exists>d' \<in> set (event_deliveries (settled k (dl_handler d) f cs t)). dl_key d' = dl_key d0 \<and> dl_status d' = ?result d0
        else d0 \<in> set (event_deliveries (settled k (dl_handler d) f cs t))" if d0: "d0 \<in> set (event_deliveries s)" for d0
    proof (cases "d0 = d")
      case True
      have "f d \<in> set (update_where ?P f (event_deliveries t))" using dt d(2) by (auto simp: set_update_where image_iff intro!: bexI [of _ d])
      moreover have "dl_key (f d) = dl_key d" using f(2) by (simp add: keeps_key_def dl_key_def)
      ultimately show ?thesis using True f(4) by (auto simp: settled_def)
    next
      case False
      have keep: "d' \<in> set (update_where ?P f (event_deliveries t))" if "d' \<in> set (event_deliveries t)" "dl_key d' = dl_key d0" for d'
      proof -
        have "\<not> ?P d'" using that(2) False uniq [OF d0 d(1)] d(2) by (auto simp: dl_key_def)
        then show ?thesis using that(1) by (auto simp: set_update_where image_iff intro!: bexI [of _ d'])
      qed
      show ?thesis
        using Cons.prems(2) d0 False keep by (fastforce simp: loop_inv_def settled_def)
    qed
    have "loop_inv json s k ?result (ys @ [d]) (settled k (dl_handler d) f cs t)"
      unfolding loop_inv_def
    proof (intro conjI ballI allI impI)
      show "deliveries_of j (settled k (dl_handler d) f cs t) = deliveries_of j s" if "j \<noteq> k" for j
        using that Cons.prems(2) f(2) by (simp add: deliveries_of_settled loop_inv_def)
      show "map dl_key (event_deliveries (settled k (dl_handler d) f cs t)) = map dl_key (event_deliveries s)"
        using Cons.prems(2) keys by (simp add: loop_inv_def settled_def)
      show "calls_of (event_calls (settled k (dl_handler d) f cs t)) j g = calls_of (event_calls s) j g"
        if other: "(j, g) \<notin> dl_key ` set (ys @ [d])" for j g
      proof -
        have "(j, g) \<noteq> (k, dl_handler d)" using other d(2) by (simp add: dl_key_def)
        then have "calls_of cs j g = []" using f(5) by (auto simp: calls_of_def filter_empty_conv)
        then show ?thesis using Cons.prems(2) other by (simp add: settled_def loop_inv_def)
      qed
    qed (fact step f(3) | use Cons.prems(2) in \<open>simp add: loop_inv_def settled_def\<close>)+
    then show ?case using Cons.IH [of "ys @ [d]"] Cons.prems(1) f(1) by (simp add: seqM_def bindM_def)
  qed
  moreover have "loop_inv json s k ?result [] s" using inv by (simp add: loop_inv_def)
  ultimately show ?thesis by fastforce
qed

lemma core_inv_events:
  assumes "core_inv json s" "\<And>e. ev_id (f e) = ev_id e \<and> ev_payload (f e) = ev_payload e \<and> ev_max_attempts (f e) = ev_max_attempts e"
  shows "core_inv json (s\<lparr>pg_events := update_where P f (pg_events s)\<rparr>)"
proof -
  have ids: "map ev_id (update_where P f (pg_events s)) = map ev_id (pg_events s)"
    using assms(2) by (intro map_update_where) simp
  then have "ev_id ` set (update_where P f (pg_events s)) = ev_id ` set (pg_events s)" by (metis list.set_map)
  then show ?thesis using assms ids unfolding core_inv_def by (simp add: ball_update_where)
qed

lemma refreshed_keeps:
  "ev_id (refreshed env ds e) = ev_id e" "ev_payload (refreshed env ds e) = ev_payload e"
  "ev_max_attempts (refreshed env ds e) = ev_max_attempts e" "ev_topic (refreshed env ds e) = ev_topic e"
  by (simp_all add: refreshed_def Let_def)

lemma refreshed_sums_up: "summed_up ds (refreshed env ds e)"
  by (auto simp: summed_up_def refreshed_def Let_def earliest_def filter_empty_conv)

lemma events_inv_change_row:
  assumes core: "core_inv json t" and k: "\<And>e. event_ok (f e) (deliveries_of k t)"
    and f: "\<And>e. ev_id (f e) = ev_id e \<and> ev_payload (f e) = ev_payload e \<and> ev_max_attempts (f e) = ev_max_attempts e"
    and inv: "events_inv json s" and same: "pg_events t = pg_events s" "\<And>j. j \<noteq> k \<Longrightarrow> deliveries_of j t = deliveries_of j s"
  shows "events_inv json (t\<lparr>pg_events := update_where (\<lambda>e. ev_id e = k) f (pg_events t)\<rparr>)"
proof -
  have "event_ok e (deliveries_of (ev_id e) t)" if "e \<in> set (pg_events t)" "ev_id e \<noteq> k" for e
    using that inv same by (simp add: events_inv_def)
  then have "\<forall>e \<in> set (update_where (\<lambda>e. ev_id e = k) f (pg_events t)). event_ok e (deliveries_of (ev_id e) t)"
    unfolding ball_update_where using k f by simp
  then show ?thesis
    using core_inv_events [OF core f] by (simp add: events_inv_def deliveries_of_def)
qed

lemma due_of_event:
  assumes "core_inv json s"
  shows "distinct (sort_key g (filter (due_delivery env) (deliveries_of k s)))"
    and "d \<in> set (sort_key g (filter (due_delivery env) (deliveries_of k s))) \<Longrightarrow>
      d \<in> set (event_deliveries s) \<and> dl_event_id d = k \<and> due_delivery env d"
  using assms by (auto simp: core_inv_def deliveries_of_def distinct_map)

lemma due_loop:
  assumes "core_inv json s"
  shows "\<exists>t. forM (sort_key g (filter (due_delivery env) (deliveries_of k s))) (deliver_or_fail env cfg handle handlers k) s = (Inr (), t) \<and>
    loop_inv json s k (settled_status handlers handle) (sort_key g (filter (due_delivery env) (deliveries_of k s))) t"
  by (rule deliver_loop [OF assms]) (use due_of_event [OF assms] in auto)

text \<open>The effect of \<open>process_message\<close> on the event itself and on the others.\<close>

fun call_status :: "handled \<Rightarrow> delivery_status" where
  "call_status Handled = DvDelivered"
| "call_status (HandleErr _) = DvPending"
| "call_status (HandlePanic _) = DvFailed"

definition processed :: "(int \<Rightarrow> string \<Rightarrow> handled) \<Rightarrow> event_registry \<Rightarrow> event_row \<Rightarrow> event_store \<Rightarrow> event_store \<Rightarrow> bool" where
  "processed handle registry row s t =
     (map ev_id (pg_events t) = map ev_id (pg_events s) \<and>
      (\<forall>j. j \<noteq> ev_id row \<longrightarrow> deliveries_of j t = deliveries_of j s \<and>
         filter (\<lambda>e. ev_id e = j) (pg_events t) = filter (\<lambda>e. ev_id e = j) (pg_events s)) \<and>
      (\<forall>hs. registry (ev_topic row) = Some hs \<longrightarrow> deliveries_of (ev_id row) s = [] \<longrightarrow>
         (\<forall>e \<in> set (pg_events t). ev_id e = ev_id row \<longrightarrow> summed_up (deliveries_of (ev_id row) t) e) \<and>
         dl_handler ` set (deliveries_of (ev_id row) t) = sb_name ` set hs \<and>
         (\<forall>d \<in> set (deliveries_of (ev_id row) t). dl_status d = call_status (handle (ev_id row) (dl_handler d)))))"

lemma filter_update_other: "j \<noteq> k \<Longrightarrow> (\<And>e. ev_id (f e) = ev_id e) \<Longrightarrow>
    filter (\<lambda>e. ev_id e = j) (update_where (\<lambda>e. ev_id e = k) f es) = filter (\<lambda>e. ev_id e = j) es"
  by (induction es) auto

lemma new_deliveries:
  assumes none: "deliveries_of (ev_id e) s = []" and d: "d \<in> set (add_deliveries env e hs (event_deliveries s))" "dl_event_id d = ev_id e"
    and max: "ev_max_attempts e = 5"
  shows "due_delivery env d \<and> dl_attempts d = 0 \<and> dl_handler d \<in> set hs"
proof -
  have "d \<in> set ds \<or> d \<in> new_delivery env e ` set hs" if "d \<in> set (add_deliveries env e hs ds)" for ds
    using that
  proof (induction hs arbitrary: ds)
    case (Cons h hs)
    from Cons.IH [OF Cons.prems [unfolded add_deliveries.simps]] show ?case by (auto split: if_splits)
  qed simp
  moreover have "d \<notin> set (event_deliveries s)" using none d(2) by (auto simp: deliveries_of_def filter_empty_conv)
  ultimately obtain h where "h \<in> set hs" "d = new_delivery env e h" using d(1) by blast
  then show ?thesis using max by (simp add: due_delivery_def new_delivery_def)
qed

lemma first_deliveries:
  assumes none: "deliveries_of (ev_id e) s = []" and five: "ev_max_attempts e = 5"
    and loop: "loop_inv json (s\<lparr>event_deliveries := add_deliveries env e (map sb_name handlers) (event_deliveries s)\<rparr>) (ev_id e)
      (settled_status handlers handle) (sort_key g (filter (due_delivery env) (deliveries_of (ev_id e)
        (s\<lparr>event_deliveries := add_deliveries env e (map sb_name handlers) (event_deliveries s)\<rparr>)))) t"
  shows "dl_handler ` set (deliveries_of (ev_id e) t) = sb_name ` set handlers \<and>
    (\<forall>d \<in> set (deliveries_of (ev_id e) t). dl_status d = call_status (handle (ev_id e) (dl_handler d)))"
proof -
  let ?k = "ev_id e" and ?ds = "add_deliveries env e (map sb_name handlers) (event_deliveries s)"
  have same: "dl_key ` set (event_deliveries t) = dl_key ` set ?ds"
    using loop by (simp add: loop_inv_def) (metis list.set_map)
  have old: "d \<notin> set (event_deliveries s)" if "dl_event_id d = ?k" for d
    using none that by (auto simp: deliveries_of_def filter_empty_conv)
  have "h \<in> dl_handler ` set (deliveries_of ?k t) \<longleftrightarrow> (?k, h) \<in> dl_key ` set (event_deliveries t)" for h
    by (force simp: deliveries_of_def dl_key_def image_iff)
  moreover have "(?k, h) \<notin> dl_key ` set (event_deliveries s)" for h using old by (auto simp: dl_key_def)
  ultimately have names: "dl_handler ` set (deliveries_of ?k t) = sb_name ` set handlers"
    using same add_deliveries_keys [of env e "map sb_name handlers" "event_deliveries s"] by auto
  have "dl_status d = call_status (handle ?k (dl_handler d))" if d: "d \<in> set (event_deliveries t)" "dl_event_id d = ?k" for d
  proof -
    have "dl_key d \<in> dl_key ` set ?ds" using d(1) same by blast
    then obtain d0 where d0: "d0 \<in> set ?ds" "dl_key d0 = dl_key d" by force
    have k0: "dl_event_id d0 = ?k" "dl_handler d0 = dl_handler d" using d0(2) d(2) by (auto simp: dl_key_def)
    then have "due_delivery env d0 \<and> dl_attempts d0 = 0 \<and> dl_handler d0 \<in> set (map sb_name handlers)"
      using new_deliveries [OF none d0(1) _ five] by simp
    then have st: "settled_status handlers handle d0 = call_status (handle ?k (dl_handler d))"
      and due: "d0 \<in> set (sort_key g (filter (due_delivery env) (deliveries_of ?k (s\<lparr>event_deliveries := ?ds\<rparr>))))"
      using d0(1) k0 by (auto simp: deliveries_of_def settled_status_def split: handled.split)
    then obtain d' where d': "d' \<in> set (event_deliveries t)" "dl_key d' = dl_key d0" "dl_status d' = settled_status handlers handle d0"
      using loop d0(1) unfolding loop_inv_def by (auto split: if_splits)
    moreover have "distinct (map dl_key (event_deliveries t))" using loop unfolding loop_inv_def core_inv_def by blast
    ultimately have "d' = d" using d0(2) d(1) key_unique by metis
    then show ?thesis using d'(3) st by simp
  qed
  then show ?thesis using names by (simp add: deliveries_of_def)
qed

lemma process_effect:
  assumes inv: "events_inv json s" and row: "ev_id row \<in> ev_id ` set (pg_events s)" "json (ev_payload row)" "ee_json env = json"
  shows "\<exists>t. process_message env cfg registry handle row s = (Inr (), t) \<and> events_inv json t \<and> processed handle registry row s t \<and>
    settled_kept s t"
proof (cases "registry (ev_topic row)")
  case None
  let ?f = "\<lambda>e. e\<lparr>ev_status := DvFailed, ev_attempts := ev_max_attempts e,
    ev_last_error := Some (''no_handler_for_topic:'' @ ev_topic row), ev_next_attempt_at := Infinity\<rparr>"
  let ?t = "s\<lparr>pg_events := update_where (\<lambda>e. ev_id e = ev_id row) ?f (pg_events s)\<rparr>"
  have "process_message env cfg registry handle row s = (Inr (), ?t)"
    using None row by (simp add: process_message_def mark_events_terminal_failure_def update_events_def monad_defs)
  moreover have "events_inv json ?t"
    by (rule events_inv_change_row [OF _ _ _ inv]) (use inv in \<open>auto simp: events_inv_def event_ok_def\<close>)
  moreover have "processed handle registry row s ?t"
    using None by (simp add: processed_def map_update_where deliveries_of_def filter_update_other)
  moreover have "settled_kept s ?t" by (rule settled_kept_refl) simp_all
  ultimately show ?thesis by blast
next
  case (Some handlers)
  let ?k = "ev_id row"
  obtain e where e: "e \<in> set (pg_events s)" "ev_id e = ?k" using row(1) by auto
  have core: "core_inv json s" and five: "ev_max_attempts e = 5" using inv e by (auto simp: events_inv_def core_inv_def)
  let ?s = "s\<lparr>event_deliveries := add_deliveries env e (map sb_name handlers) (event_deliveries s)\<rparr>"
  have core': "core_inv json ?s" by (rule core_inv_add [OF core e(1)])
  let ?due = "sort_key (\<lambda>d. ee_collate env (dl_handler d)) (filter (due_delivery env) (deliveries_of ?k ?s))"
  obtain t where t: "forM ?due (deliver_or_fail env cfg handle handlers ?k) ?s = (Inr (), t)"
    and loop: "loop_inv json ?s ?k (settled_status handlers handle) ?due t"
    using due_loop [OF core'] by blast
  let ?t = "t\<lparr>pg_events := update_where (\<lambda>e. ev_id e = ?k) (refreshed env (deliveries_of ?k t)) (pg_events t)\<rparr>"
  have run: "process_message env cfg registry handle row s = (Inr (), ?t)"
    using Some row t ensure_one [OF core e(1)] e(2)
    by (simp add: process_message_def refresh_message_state_def update_events_def monad_defs)
  have other: "deliveries_of j t = deliveries_of j s" if "j \<noteq> ?k" for j
    using that loop e(2) by (simp add: loop_inv_def) (simp add: deliveries_of_def add_deliveries_other)
  have inv': "events_inv json ?t"
    by (rule events_inv_change_row [OF _ _ _ inv])
      (use loop other in \<open>auto simp: loop_inv_def event_ok_def refreshed_keeps refreshed_sums_up\<close>)
  have new: "dl_handler ` set (deliveries_of ?k t) = sb_name ` set handlers \<and>
      (\<forall>d \<in> set (deliveries_of ?k t). dl_status d = call_status (handle ?k (dl_handler d)))" if "deliveries_of ?k s = []"
    using first_deliveries [OF _ five loop [folded e(2)]] that e(2) by simp
  have "processed handle registry row s ?t"
    unfolding processed_def
  proof (intro conjI allI impI ballI)
    show "map ev_id (pg_events ?t) = map ev_id (pg_events s)"
      using loop by (simp add: loop_inv_def map_update_where refreshed_keeps)
    show "deliveries_of j ?t = deliveries_of j s" if "j \<noteq> ?k" for j using other [OF that] by (simp add: deliveries_of_def)
    show "filter (\<lambda>e. ev_id e = j) (pg_events ?t) = filter (\<lambda>e. ev_id e = j) (pg_events s)" if "j \<noteq> ?k" for j
      using that loop by (simp add: loop_inv_def filter_update_other refreshed_keeps)
    fix hs assume hs: "registry (ev_topic row) = Some hs" and none: "deliveries_of ?k s = []"
    then show "dl_handler ` set (deliveries_of ?k ?t) = sb_name ` set hs"
      using new Some by (simp add: deliveries_of_def)
    show "summed_up (deliveries_of ?k ?t) x" if "x \<in> set (pg_events ?t)" "ev_id x = ?k" for x
      using that by (auto simp: set_update_where deliveries_of_def refreshed_sums_up split: if_splits)
    show "dl_status d = call_status (handle ?k (dl_handler d))"
      if "d \<in> set (deliveries_of ?k ?t)" for d
      using that new [OF none] by (simp add: deliveries_of_def)
  qed
  moreover have "settled_kept s ?t"
    unfolding settled_kept_def
  proof (intro ballI impI)
    fix d assume d: "d \<in> set (event_deliveries s)" "dl_status d \<noteq> DvPending"
    then have ds: "d \<in> set (event_deliveries ?s)" by (simp add: add_deliveries_mono)
    have due: "x \<in> set (event_deliveries ?s)" "due_delivery env x" if "x \<in> set ?due" for x
      using that by (auto simp: deliveries_of_def)
    have "dl_key d \<notin> dl_key ` set ?due"
    proof
      assume "dl_key d \<in> dl_key ` set ?due"
      then obtain x where x: "x \<in> set ?due" "dl_key x = dl_key d" by force
      moreover have "distinct (map dl_key (event_deliveries ?s))" using core' unfolding core_inv_def by blast
      ultimately have "x = d" using due(1) ds key_unique by metis
      then show False using due(2) [OF x(1)] d(2) by (simp add: due_delivery_def)
    qed
    then have "d \<notin> set ?due" and "calls_of (event_calls t) (dl_event_id d) (dl_handler d)
        = calls_of (event_calls ?s) (dl_event_id d) (dl_handler d)"
      using loop unfolding loop_inv_def dl_key_def by auto
    moreover have "d \<in> set (event_deliveries t)" using loop ds \<open>d \<notin> set ?due\<close> unfolding loop_inv_def by auto
    ultimately show "d \<in> set (event_deliveries ?t) \<and> calls_of (event_calls ?t) (dl_event_id d) (dl_handler d)
        = calls_of (event_calls s) (dl_event_id d) (dl_handler d)" by simp
  qed
  ultimately show ?thesis using run inv' by blast
qed

subsection \<open>Cycles and runs\<close>

text \<open>The rows of a batch belong to different events, all of them in the table, with payloads that parse.\<close>

definition batch_ok :: "(string \<Rightarrow> bool) \<Rightarrow> event_row list \<Rightarrow> event_store \<Rightarrow> bool" where
  "batch_ok json rows s = (distinct (map ev_id rows) \<and>
     (\<forall>r \<in> set rows. ev_id r \<in> ev_id ` set (pg_events s) \<and> json (ev_payload r)))"

lemma pull_batch_ok: "events_inv json s \<Longrightarrow> batch_ok json (pull_batch env cfg s) s"
  by (auto simp: events_inv_def core_inv_def batch_ok_def pull_batch_def take_map [symmetric] distinct_map inj_on_def
      dest!: in_set_takeD)

lemma batch_frame:
  assumes "forM rows (process_message env cfg registry handle) s = (Inr (), t)" "batch_ok json rows s" "events_inv json s"
    "ee_json env = json" "j \<notin> ev_id ` set rows"
  shows "deliveries_of j t = deliveries_of j s \<and> filter (\<lambda>e. ev_id e = j) (pg_events t) = filter (\<lambda>e. ev_id e = j) (pg_events s)"
  using assms(1,2,3,5)
proof (induction rows arbitrary: s)
  case Nil
  then show ?case by (simp add: retM_def)
next
  case (Cons row rows)
  obtain v where v: "process_message env cfg registry handle row s = (Inr (), v)" "events_inv json v" "processed handle registry row s v"
    using process_effect [OF Cons.prems(3) _ _ assms(4)] Cons.prems(2) by (force simp: batch_ok_def)
  have "ev_id ` set (pg_events v) = ev_id ` set (pg_events s)" using v(3) unfolding processed_def by (metis list.set_map)
  then have "batch_ok json rows v" using Cons.prems(2) by (simp add: batch_ok_def)
  moreover have "forM rows (process_message env cfg registry handle) v = (Inr (), t)"
    using Cons.prems(1) v(1) by (simp add: seqM_def bindM_def)
  ultimately have "deliveries_of j t = deliveries_of j v \<and> filter (\<lambda>e. ev_id e = j) (pg_events t) = filter (\<lambda>e. ev_id e = j) (pg_events v)"
    using Cons.IH v(2) Cons.prems(4) by simp
  then show ?case using v(3) Cons.prems(4) by (auto simp: processed_def)
qed

lemma process_batch:
  assumes "events_inv json s" "batch_ok json rows s" "ee_json env = json"
  shows "\<exists>t. forM rows (process_message env cfg registry handle) s = (Inr (), t) \<and> events_inv json t \<and> settled_kept s t \<and>
    (\<forall>row \<in> set rows. \<exists>u v. deliveries_of (ev_id row) u = deliveries_of (ev_id row) s \<and> processed handle registry row u v \<and>
       deliveries_of (ev_id row) t = deliveries_of (ev_id row) v \<and>
       filter (\<lambda>e. ev_id e = ev_id row) (pg_events t) = filter (\<lambda>e. ev_id e = ev_id row) (pg_events v))"
  using assms(1,2)
proof (induction rows arbitrary: s)
  case Nil
  then show ?case by (simp add: retM_def settled_kept_refl)
next
  case (Cons row rows)
  obtain v where v: "process_message env cfg registry handle row s = (Inr (), v)" "events_inv json v" "processed handle registry row s v"
    and kept: "settled_kept s v"
    using process_effect [OF Cons.prems(1) _ _ assms(3)] Cons.prems(2) by (force simp: batch_ok_def)
  have "ev_id ` set (pg_events v) = ev_id ` set (pg_events s)" using v(3) unfolding processed_def by (metis list.set_map)
  then have "batch_ok json rows v" using Cons.prems(2) by (simp add: batch_ok_def)
  from Cons.IH [OF v(2) this] obtain t where t: "forM rows (process_message env cfg registry handle) v = (Inr (), t)" "events_inv json t" "settled_kept v t"
    and rest: "\<forall>r \<in> set rows. \<exists>u w. deliveries_of (ev_id r) u = deliveries_of (ev_id r) v \<and> processed handle registry r u w \<and>
       deliveries_of (ev_id r) t = deliveries_of (ev_id r) w \<and>
       filter (\<lambda>e. ev_id e = ev_id r) (pg_events t) = filter (\<lambda>e. ev_id e = ev_id r) (pg_events w)" by blast
  have "ev_id r \<noteq> ev_id row" if "r \<in> set rows" for r
    using imageI [OF that, of ev_id] Cons.prems(2) by (auto simp: batch_ok_def simp del: imageI)
  then have "deliveries_of (ev_id r) v = deliveries_of (ev_id r) s" if "r \<in> set rows" for r
    using that v(3) by (simp add: processed_def)
  moreover have "deliveries_of (ev_id row) t = deliveries_of (ev_id row) v \<and>
      filter (\<lambda>e. ev_id e = ev_id row) (pg_events t) = filter (\<lambda>e. ev_id e = ev_id row) (pg_events v)"
    using batch_frame [OF t(1) \<open>batch_ok json rows v\<close> v(2) assms(3)] Cons.prems(2) by (simp add: batch_ok_def)
  moreover have "settled_kept s t" by (rule settled_kept_trans [OF kept t(3)])
  ultimately show ?case
    using v(1,3) t rest by (auto simp: seqM_def bindM_def)
qed

lemma cycle_effect:
  assumes "events_inv json s" "ee_json env = json"
  shows "\<exists>t. run_one_cycle env cfg registry handle s = (Inr (length (pull_batch env cfg s)), t) \<and> events_inv json t \<and> settled_kept s t \<and>
    forM (pull_batch env cfg s) (process_message env cfg registry handle) s = (Inr (), t)"
proof -
  obtain t where "forM (pull_batch env cfg s) (process_message env cfg registry handle) s = (Inr (), t)" "events_inv json t"
    "settled_kept s t"
    using process_batch [OF assms(1) pull_batch_ok [OF assms(1)] assms(2)] by blast
  then show ?thesis
    by (auto simp: run_one_cycle_def txnM_def bindM_def getsM_def seqM_def retM_def)
qed

lemma events_inv_publish:
  assumes "events_inv json s" "case payload of None \<Rightarrow> True | Some p \<Rightarrow> json p"
  shows "events_inv json (bus_step (Publish env topic payload delay) s)"
proof -
  have new: "events_inv json (s\<lparr>pg_events := pg_events s @ [\<lparr>ev_id = ev_next_id s, ev_topic = topic, ev_payload = p,
       ev_status = DvPending, ev_delivered_at = None, ev_attempts = 0, ev_max_attempts = 5,
       ev_next_attempt_at = At t, ev_last_error = None\<rparr>], ev_next_id := ev_next_id s + 1\<rparr>)" if "json p" for p t
  proof -
    have fresh: "ev_next_id s \<notin> ev_id ` set (pg_events s)"
      using assms(1) by (fastforce simp: events_inv_def core_inv_def)
    then have "deliveries_of (ev_next_id s) s = []"
      using assms(1) by (fastforce simp: events_inv_def core_inv_def deliveries_of_def filter_empty_conv)
    moreover have "ca_event c \<noteq> ev_next_id s" if "c \<in> set (event_calls s)" for c
      using that assms(1) by (fastforce simp: events_inv_def core_inv_def)
    ultimately show ?thesis
      using assms(1) fresh \<open>json p\<close> unfolding events_inv_def core_inv_def deliveries_of_def event_ok_def by fastforce
  qed
  show ?thesis
    using assms new by (cases payload) (auto simp: publish_def publish_with_delay_def insert_event_def monad_defs)
qed

lemma events_inv_remove:
  assumes "events_inv json s"
  shows "events_inv json (bus_step (Remove env days) s)"
proof -
  let ?old = "delivered_before (ee_now env - max days 1 * 86400000000)"
  let ?ids = "ev_id ` set (filter ?old (pg_events s))"
  let ?t = "s\<lparr>pg_events := filter (\<lambda>e. \<not> ?old e) (pg_events s),
    event_deliveries := filter (\<lambda>d. dl_event_id d \<notin> ?ids) (event_deliveries s)\<rparr>"
  have inj: "e = e'" if "e \<in> set (pg_events s)" "e' \<in> set (pg_events s)" "ev_id e = ev_id e'" for e e'
    using that assms by (auto simp: events_inv_def core_inv_def distinct_map inj_on_def)
  have "ev_id e \<in> ?ids \<longleftrightarrow> ?old e" if "e \<in> set (pg_events s)" for e
    using that inj by auto
  then have left: "ev_id ` set (pg_events ?t) = ev_id ` set (pg_events s) - ?ids" by auto
  have keep: "deliveries_of (ev_id e) ?t = deliveries_of (ev_id e) s" if "e \<in> set (pg_events ?t)" for e
  proof -
    have "filter (\<lambda>d. dl_event_id d = j) (filter (\<lambda>d. dl_event_id d \<notin> I) ds) = filter (\<lambda>d. dl_event_id d = j) ds"
      if "j \<notin> I" for j I ds using that by (induction ds) auto
    moreover have "ev_id e \<notin> ?ids" using that left by blast
    ultimately show ?thesis unfolding deliveries_of_def by simp
  qed
  have calls: "(ca_event c, ca_handler c) \<in> dl_key ` set (event_deliveries ?t)"
    if "c \<in> set (event_calls s)" "ca_event c \<in> ev_id ` set (pg_events ?t)" for c
  proof -
    have "(ca_event c, ca_handler c) \<in> dl_key ` set (event_deliveries s)" "ca_event c \<notin> ?ids"
      using that left assms by (auto simp: events_inv_def core_inv_def)
    then show ?thesis by (force simp: dl_key_def)
  qed
  have rows: "dl_event_id d \<in> ev_id ` set (pg_events ?t)" if "d \<in> set (event_deliveries ?t)" for d
    unfolding left using that assms by (auto simp: events_inv_def core_inv_def)
  have "core_inv json ?t"
    using assms calls rows unfolding events_inv_def core_inv_def by (simp add: distinct_map_filter)
  moreover have "\<forall>e \<in> set (pg_events ?t). event_ok e (deliveries_of (ev_id e) ?t)"
    using assms keep by (auto simp: events_inv_def)
  moreover have "bus_step (Remove env days) s = ?t" by (simp add: delete_delivered_def Let_def monad_defs)
  ultimately show ?thesis by (simp add: events_inv_def)
qed

lemma events_inv_step:
  assumes "events_inv json s" "parses json e" "\<not> aborts e"
  shows "events_inv json (bus_step e s)"
proof (cases e)
  case (Cycle env cfg registry handle)
  then show ?thesis using assms cycle_effect [OF assms(1), of env cfg registry handle] by (auto simp: parses_def)
qed (use assms events_inv_publish events_inv_remove in \<open>auto simp: parses_def aborts_def simp del: bus_step.simps\<close>)

lemma steady_reach_inv: "steady_reach json s \<Longrightarrow> events_inv json s"
  by (induction rule: steady_reach.induct) (auto intro: events_inv_empty events_inv_step)

lemma earliest_le: "t \<in> set ts \<Longrightarrow> earliest ts \<le> t"
  by (induction ts) (auto simp: earliest_def min_le_iff_disj)

section \<open>Cycles that are cut off\<close>

text \<open>
  No statement reads the recorded calls: an operation does the same to the tables whatever calls there were, and
  appends the calls it makes.
\<close>

definition blind :: "'a em \<Rightarrow> bool" where
  "blind m = (\<forall>s. \<exists>r t new. \<forall>cs. m (s\<lparr>event_calls := cs\<rparr>) = (r, t\<lparr>event_calls := cs @ new\<rparr>))"

lemma blindI: "(\<And>s. \<exists>r t new. \<forall>cs. m (s\<lparr>event_calls := cs\<rparr>) = (r, t\<lparr>event_calls := cs @ new\<rparr>)) \<Longrightarrow> blind m"
  by (simp add: blind_def)

lemma blind_leaves:
  "blind (retM x)" "blind (failM e)"
  "(\<And>s cs. q (s\<lparr>event_calls := cs\<rparr>) = q s) \<Longrightarrow> blind (getsM q)"
  "(\<And>s cs. f (s\<lparr>event_calls := cs\<rparr>) = (f s)\<lparr>event_calls := cs\<rparr>) \<Longrightarrow> blind (modM f)"
  "(\<And>s cs. P (s\<lparr>event_calls := cs\<rparr>) = P s) \<Longrightarrow> blind (checkM P e)"
  "blind (guardM b e)" "blind (ok_or v e)"
proof -
  have one: "\<exists>r' t' new. \<forall>cs. (r, t\<lparr>event_calls := cs\<rparr>) = (r', t'\<lparr>event_calls := cs @ new\<rparr>)" for r :: "event_error + 'b" and t :: event_store
    by (intro exI [of _ r] exI [of _ t] exI [of _ "[]"]) simp
  have same: "\<exists>t' new. \<forall>cs. t\<lparr>event_calls := cs\<rparr> = t'\<lparr>event_calls := cs @ new\<rparr>" for t :: event_store
    by (intro exI [of _ t] exI [of _ "[]"]) simp
  show "blind (retM x)" "blind (failM e)" by (simp_all add: blind_def retM_def failM_def one same)
  show "(\<And>s cs. q (s\<lparr>event_calls := cs\<rparr>) = q s) \<Longrightarrow> blind (getsM q)" by (simp add: blind_def getsM_def one same)
  show "(\<And>s cs. f (s\<lparr>event_calls := cs\<rparr>) = (f s)\<lparr>event_calls := cs\<rparr>) \<Longrightarrow> blind (modM f)" by (simp add: blind_def modM_def one same)
  show "blind (checkM P e)" if "\<And>s cs. P (s\<lparr>event_calls := cs\<rparr>) = P s"
  proof (rule blindI)
    show "\<exists>r t new. \<forall>cs. checkM P e (s\<lparr>event_calls := cs\<rparr>) = (r, t\<lparr>event_calls := cs @ new\<rparr>)" for s
      by (cases "P s") (simp_all add: checkM_def that one same)
  qed
  show "blind (guardM b e)" "blind (ok_or v e)" by (simp_all add: blind_def guardM_def ok_or_def retM_def failM_def one same split: option.split)
qed

lemma blind_bind: "blind m \<Longrightarrow> (\<And>x. blind (f x)) \<Longrightarrow> blind (bindM m f)"
proof (rule blindI)
  fix s assume m: "blind m" and f: "\<And>x. blind (f x)"
  obtain r t new where 1: "\<And>cs. m (s\<lparr>event_calls := cs\<rparr>) = (r, t\<lparr>event_calls := cs @ new\<rparr>)" using m unfolding blind_def by meson
  show "\<exists>r t new. \<forall>cs. bindM m f (s\<lparr>event_calls := cs\<rparr>) = (r, t\<lparr>event_calls := cs @ new\<rparr>)"
  proof (cases r)
    case (Inl e)
    then show ?thesis using 1 by (auto simp: bindM_def)
  next
    case (Inr x)
    obtain r' t' new' where 2: "\<And>cs. f x (t\<lparr>event_calls := cs\<rparr>) = (r', t'\<lparr>event_calls := cs @ new'\<rparr>)" using f [of x] unfolding blind_def by meson
    then have "bindM m f (s\<lparr>event_calls := cs\<rparr>) = (r', t'\<lparr>event_calls := cs @ (new @ new')\<rparr>)" for cs
      using 1 Inr by (simp add: bindM_def)
    then show ?thesis by blast
  qed
qed

lemma blind_seq: "blind m \<Longrightarrow> blind n \<Longrightarrow> blind (seqM m n)"
  unfolding seqM_def by (rule blind_bind)

lemma blind_forM: "(\<And>x. blind (f x)) \<Longrightarrow> blind (forM xs f)"
  by (induction xs) (auto intro: blind_leaves blind_seq)

lemma blind_txn: "blind m \<Longrightarrow> blind (txnM event_rollback m)"
proof (rule blindI)
  fix s assume "blind m"
  then obtain r t new where 1: "\<And>cs. m (s\<lparr>event_calls := cs\<rparr>) = (r, t\<lparr>event_calls := cs @ new\<rparr>)" unfolding blind_def by meson
  show "\<exists>r t new. \<forall>cs. txnM event_rollback m (s\<lparr>event_calls := cs\<rparr>) = (r, t\<lparr>event_calls := cs @ new\<rparr>)"
  proof (cases r)
    case (Inl e)
    then have "txnM event_rollback m (s\<lparr>event_calls := cs\<rparr>) = (r, s\<lparr>event_calls := cs @ new\<rparr>)" for cs
      using 1 by (simp add: txnM_def event_rollback_def)
    then show ?thesis by blast
  next
    case (Inr x)
    then have "txnM event_rollback m (s\<lparr>event_calls := cs\<rparr>) = (r, t\<lparr>event_calls := cs @ new\<rparr>)" for cs
      using 1 by (simp add: txnM_def)
    then show ?thesis by blast
  qed
qed

lemma blind_call: "blind (call_handler handle k h)"
  unfolding call_handler_def
proof (rule blind_seq)
  show "blind (modM (\<lambda>s. s\<lparr>event_calls := event_calls s @ [\<lparr>ca_event = k, ca_handler = h, ca_result = handle k h\<rparr>]\<rparr>))"
  proof (rule blindI)
    show "\<exists>r t new. \<forall>cs. modM (\<lambda>s. s\<lparr>event_calls := event_calls s @ [\<lparr>ca_event = k, ca_handler = h, ca_result = handle k h\<rparr>]\<rparr>)
        (s\<lparr>event_calls := cs\<rparr>) = (r, t\<lparr>event_calls := cs @ new\<rparr>)" for s
      by (intro exI [of _ "Inr ()"] exI [of _ s] exI [of _ "[\<lparr>ca_event = k, ca_handler = h, ca_result = handle k h\<rparr>]"])
        (simp add: modM_def)
  qed
qed (rule blind_leaves)

lemmas blind_intros = blind_leaves blind_bind blind_seq blind_forM blind_txn blind_call

lemma blind_deliver: "blind (deliver_or_fail env cfg handle handlers k d)"
  unfolding deliver_or_fail_def deliver_one_def mark_delivery_terminal_failure_def mark_delivery_delivered_def record_delivery_retry_def
    update_delivery_def Let_def
  by (auto intro!: blind_intros split: option.split handled.split)

lemma blind_process: "blind (process_message env cfg registry handle row)"
  unfolding process_message_def mark_events_terminal_failure_def update_events_def ensure_deliveries_def refresh_message_state_def
  by (auto intro!: blind_intros blind_deliver simp: deliveries_of_def split: option.split)

lemma pull_batch_calls [simp]: "pull_batch env cfg (s\<lparr>event_calls := cs\<rparr>) = pull_batch env cfg s"
  by (simp add: pull_batch_def pulled_def [abs_def] deliveries_of_def)

lemma deliveries_of_calls [simp]: "deliveries_of k (s\<lparr>event_calls := cs\<rparr>) = deliveries_of k s"
  by (simp add: deliveries_of_def)

lemma blind_cycle: "blind (run_one_cycle env cfg registry handle)"
  unfolding run_one_cycle_def by (intro blind_txn blind_bind blind_leaves) (auto intro!: blind_intros blind_process)

lemma blind_publish: "blind (publish env topic payload)" "blind (publish_with_delay env topic payload delay)"
  unfolding publish_def publish_with_delay_def insert_event_def by (auto intro!: blind_intros)

lemma blind_remove: "blind (delete_delivered env days)"
  unfolding delete_delivered_def Let_def by (auto intro!: blind_intros)

text \<open>
  What a step does: without the calls it acts on the tables alone, and a cycle that is cut off adds
  calls that the whole cycle would have made.
\<close>

lemma blind_run:
  assumes "blind m"
  shows "\<exists>r t new. m s = (r, t\<lparr>event_calls := event_calls s @ new\<rparr>) \<and> (\<forall>cs. m (s\<lparr>event_calls := cs\<rparr>) = (r, t\<lparr>event_calls := cs @ new\<rparr>))"
proof -
  obtain r t new where 1: "\<forall>cs. m (s\<lparr>event_calls := cs\<rparr>) = (r, t\<lparr>event_calls := cs @ new\<rparr>)" using assms unfolding blind_def by blast
  from 1 [rule_format, of "event_calls s"] have "m s = (r, t\<lparr>event_calls := event_calls s @ new\<rparr>)" by simp
  then show ?thesis using 1 by blast
qed

lemma steady_step_calls:
  assumes "\<not> aborts e"
  shows "\<exists>t new. bus_step e s = t\<lparr>event_calls := event_calls s @ new\<rparr> \<and> (\<forall>cs. bus_step e (s\<lparr>event_calls := cs\<rparr>) = t\<lparr>event_calls := cs @ new\<rparr>)"
proof -
  have run: "\<exists>t new. snd (m s) = t\<lparr>event_calls := event_calls s @ new\<rparr> \<and> (\<forall>cs. snd (m (s\<lparr>event_calls := cs\<rparr>)) = t\<lparr>event_calls := cs @ new\<rparr>)"
    if "blind m" for m :: "'b em" using blind_run [OF that, of s] by fastforce
  show ?thesis
  proof (cases e)
    case (Publish env topic payload delay)
    have "blind (if delay = 0 then publish env topic payload else publish_with_delay env topic payload delay)"
      by (simp add: blind_publish)
    from run [OF this] show ?thesis using Publish by (simp only: bus_step.simps)
  next
    case (Cycle env cfg registry handle)
    then show ?thesis using run [OF blind_cycle] by (simp only: bus_step.simps)
  next
    case (Remove env days)
    then show ?thesis using run [OF blind_remove] by (simp only: bus_step.simps)
  qed (use assms in \<open>simp add: aborts_def\<close>)
qed

text \<open>
  The invariant of all runs: with some of the calls left out, those of the cycles that were cut off, the
  state satisfies the invariant of the runs without such cycles.
\<close>

definition bus_inv :: "(string \<Rightarrow> bool) \<Rightarrow> event_store \<Rightarrow> event_call list \<Rightarrow> bool" where
  "bus_inv json s cs = (subseq cs (event_calls s) \<and> events_inv json (s\<lparr>event_calls := cs\<rparr>))"

lemma bus_inv_step:
  assumes "bus_inv json s cs" "parses json e"
  shows "\<exists>cs'. bus_inv json (bus_step e s) cs'"
proof (cases "aborts e")
  case True
  then obtain env cfg registry handle n where e: "e = Abort env cfg registry handle n" by (auto simp: aborts_def split: event_step.splits)
  obtain r t new where "run_one_cycle env cfg registry handle s = (r, t\<lparr>event_calls := event_calls s @ new\<rparr>)"
    using blind_run [OF blind_cycle] by blast
  then have "bus_step e s = s\<lparr>event_calls := event_calls s @ take n new\<rparr>" using e by simp
  then show ?thesis using assms(1) by (intro exI [of _ cs]) (auto simp: bus_inv_def)
next
  case False
  obtain t new where t: "bus_step e s = t\<lparr>event_calls := event_calls s @ new\<rparr>" "bus_step e (s\<lparr>event_calls := cs\<rparr>) = t\<lparr>event_calls := cs @ new\<rparr>"
    using steady_step_calls [OF False, of s] by blast
  have "events_inv json (t\<lparr>event_calls := cs @ new\<rparr>)"
    using events_inv_step [of json "s\<lparr>event_calls := cs\<rparr>" e] assms False t(2) by (simp add: bus_inv_def del: bus_step.simps)
  then show ?thesis using assms(1) t(1) by (intro exI [of _ "cs @ new"]) (simp add: bus_inv_def list_emb_append_mono del: bus_step.simps)
qed

lemma event_reach_inv: "event_reach json s \<Longrightarrow> \<exists>cs. bus_inv json s cs"
proof (induction rule: event_reach.induct)
  case start
  show ?case by (intro exI [of _ "[]"]) (use events_inv_empty in \<open>simp add: bus_inv_def empty_events_def\<close>)
next
  case (step s e)
  then show ?case using bus_inv_step by blast
qed

lemma subseq_calls: "subseq cs ds \<Longrightarrow> subseq (calls_of cs k h) (calls_of ds k h)"
  unfolding calls_of_def by (intro subseq_map subseq_filter)

text \<open>No step, cut off or not, calls a subscriber for a delivery that is not pending.\<close>

lemma settled_not_called:
  assumes "bus_inv json s cs" "parses json e" "d \<in> set (event_deliveries s)" "dl_status d \<noteq> DvPending"
  shows "calls_of (event_calls (bus_step e s)) (dl_event_id d) (dl_handler d) = calls_of (event_calls s) (dl_event_id d) (dl_handler d)"
proof -
  have cycle: "calls_of new (dl_event_id d) (dl_handler d) = []"
    if "ee_json env = json" "run_one_cycle env cfg registry handle (s\<lparr>event_calls := cs\<rparr>) = (r, t\<lparr>event_calls := cs @ new\<rparr>)"
    for env cfg registry handle r t new
  proof -
    have "settled_kept (s\<lparr>event_calls := cs\<rparr>) (t\<lparr>event_calls := cs @ new\<rparr>)"
      using cycle_effect [of json "s\<lparr>event_calls := cs\<rparr>" env cfg registry handle] assms(1) that by (auto simp: bus_inv_def)
    then show ?thesis using assms(3,4) by (auto simp: settled_kept_def)
  qed
  show ?thesis
  proof (cases e)
    case (Publish env topic payload delay)
    then show ?thesis by (cases payload) (auto simp: publish_def publish_with_delay_def insert_event_def monad_defs)
  next
    case (Remove env days)
    then show ?thesis by (simp add: delete_delivered_def Let_def monad_defs)
  next
    case (Cycle env cfg registry handle)
    obtain r t new where new: "run_one_cycle env cfg registry handle s = (r, t\<lparr>event_calls := event_calls s @ new\<rparr>)"
      "\<forall>cs. run_one_cycle env cfg registry handle (s\<lparr>event_calls := cs\<rparr>) = (r, t\<lparr>event_calls := cs @ new\<rparr>)"
      using blind_run [OF blind_cycle, of env cfg registry handle s] by blast
    have "ee_json env = json" using Cycle assms(2) by (simp add: parses_def)
    from cycle [OF this new(2) [rule_format]] have "calls_of new (dl_event_id d) (dl_handler d) = []" .
    then show ?thesis using Cycle new(1) by simp
  next
    case (Abort env cfg registry handle n)
    obtain r t new where new: "run_one_cycle env cfg registry handle s = (r, t\<lparr>event_calls := event_calls s @ new\<rparr>)"
      "\<forall>cs. run_one_cycle env cfg registry handle (s\<lparr>event_calls := cs\<rparr>) = (r, t\<lparr>event_calls := cs @ new\<rparr>)"
      using blind_run [OF blind_cycle, of env cfg registry handle s] by blast
    have "ee_json env = json" using Abort assms(2) by (simp add: parses_def)
    from cycle [OF this new(2) [rule_format]] have "calls_of new (dl_event_id d) (dl_handler d) = []" .
    then have "calls_of (take n new) (dl_event_id d) (dl_handler d) = []"
      by (auto simp: calls_of_def filter_empty_conv dest: in_set_takeD)
    then show ?thesis using Abort new(1) by simp
  qed
qed

section \<open>Data for the witnesses\<close>

definition demo_clock_env :: "int \<Rightarrow> event_env" where
  "demo_clock_env t = \<lparr>ee_now = t, ee_collate = (\<lambda>h. int (length h)), ee_order = dl_event_id, ee_json = (\<lambda>p. p = ''{}'')\<rparr>"

definition demo_registry :: event_registry where
  "demo_registry = [''slab.demo'' \<mapsto> [\<lparr>sb_topic = ''slab.demo'', sb_name = ''mail''\<rparr>, \<lparr>sb_topic = ''slab.demo'', sb_name = ''stock''\<rparr>]]"

definition demo_published :: event_store where
  "demo_published = bus_step (Publish (demo_clock_env 0) ''slab.demo'' (Some ''{}'') 0) empty_events"

definition demo_event :: event_row where
  "demo_event = \<lparr>ev_id = 1, ev_topic = ''slab.demo'', ev_payload = ''{}'', ev_status = DvPending, ev_delivered_at = None,
     ev_attempts = 0, ev_max_attempts = 5, ev_next_attempt_at = At 0, ev_last_error = None\<rparr>"

text \<open>A row written by hand, whose payload is not JSON, before a good one.\<close>

definition demo_poisoned :: event_store where
  "demo_poisoned = \<lparr>pg_events = [demo_event\<lparr>ev_payload := ''not json''\<rparr>, demo_event\<lparr>ev_id := 2\<rparr>], event_deliveries = [], ev_next_id = 3,
     event_calls = []\<rparr>"

lemma demo_published_eq:
  "demo_published = \<lparr>pg_events = [demo_event], event_deliveries = [], ev_next_id = 2, event_calls = []\<rparr>"
  by (simp add: demo_published_def publish_def insert_event_def monad_defs empty_events_def demo_clock_env_def demo_event_def i64_max_def)

lemma demo_published_reach: "event_reach (\<lambda>p. p = ''{}'') demo_published"
  unfolding demo_published_def by (rule event_reach.step [OF event_reach.start]) (simp add: parses_def)

lemma demo_pulled: "pull_batch (demo_clock_env 0) dispatcher_default demo_published = [demo_event]"
  by (simp add: demo_published_eq pull_batch_def pulled_def deliveries_of_def demo_event_def demo_clock_env_def dispatcher_default_def)

section \<open>Properties\<close>

text \<open>
  Without cycles that are cut off, every subscriber is served once: a delivered delivery had exactly one
  successful call, its last one, after fewer than five failures; a pending delivery had as many calls as
  attempts, all of them failed; a failed one had at most five calls and none succeeded.
\<close>

lemma each_subscriber_served_once:
  assumes "steady_reach json s" and "d \<in> set (event_deliveries s)"
  shows "let calls = calls_of (event_calls s) (dl_event_id d) (dl_handler d) in
        case dl_status d of
          DvPending \<Rightarrow> int (length calls) = dl_attempts d \<and> dl_attempts d < 5 \<and> Handled \<notin> set calls
        | DvDelivered \<Rightarrow> (\<exists>bs. calls = bs @ [Handled] \<and> Handled \<notin> set bs \<and> length bs < 5)
        | DvFailed \<Rightarrow> length calls \<le> 5 \<and> Handled \<notin> set calls"
proof -
  have core: "core_inv json s" using steady_reach_inv [OF assms(1)] by (simp add: events_inv_def)
  then have "delivery_ok d (calls_of (event_calls s) (dl_event_id d) (dl_handler d))" "dl_max_attempts d = 5"
    using assms(2) by (auto simp: core_inv_def)
  then show ?thesis by (auto simp: delivery_ok_def Let_def split: delivery_status.splits)
qed

text \<open>
  C28. Delivery is at least once, over every sequence of publications, dispatcher cycles, cycles that are cut off
  after any of their calls and rolled back, and removals.  An event has one delivery per subscriber.  A delivery
  that is marked as delivered had a successful call; a pending one has fewer than five failures on its count, at
  most as many as its calls that failed; a failed one has used up its five attempts.  Once a
  delivery is delivered or has failed, no later step, cut off or not, calls its subscriber again.  In a run
  without cut-off cycles a delivered delivery had exactly one successful call, the last of at most five,
  and every other delivery none.
\<close>

theorem delivered_at_least_once:
  assumes "event_reach json s" and "d \<in> set (event_deliveries s)"
    and "calls = calls_of (event_calls s) (dl_event_id d) (dl_handler d)"
  shows "distinct (map (\<lambda>d. (dl_event_id d, dl_handler d)) (event_deliveries s))
     \<and> (case dl_status d of
          DvPending \<Rightarrow> 0 \<le> dl_attempts d \<and> dl_attempts d < 5 \<and> dl_attempts d \<le> int (length (filter (\<lambda>r. r \<noteq> Handled) calls))
        | DvDelivered \<Rightarrow> Handled \<in> set calls
        | DvFailed \<Rightarrow> dl_attempts d = 5)
     \<and> (dl_status d \<noteq> DvPending \<longrightarrow>
          (\<forall>e. parses json e \<longrightarrow> calls_of (event_calls (bus_step e s)) (dl_event_id d) (dl_handler d) = calls))
     \<and> (steady_reach json s \<longrightarrow> length calls \<le> 5 \<and>
          (if dl_status d = DvDelivered then \<exists>bs. calls = bs @ [Handled] \<and> Handled \<notin> set bs else Handled \<notin> set calls))"
proof -
  obtain cs where inv: "bus_inv json s cs" using event_reach_inv [OF assms(1)] by blast
  let ?cs = "calls_of cs (dl_event_id d) (dl_handler d)"
  have core: "core_inv json (s\<lparr>event_calls := cs\<rparr>)" and sub: "subseq ?cs calls"
    using inv assms(3) subseq_calls by (auto simp: bus_inv_def events_inv_def)
  then have ok: "delivery_ok d ?cs" "dl_max_attempts d = 5"
    using assms(2) by (auto simp: core_inv_def)
  have keys: "distinct (map (\<lambda>d. (dl_event_id d, dl_handler d)) (event_deliveries s))"
    using core by (simp add: core_inv_def dl_key_def [abs_def])
  have "set ?cs \<subseteq> set calls" using sub by (auto dest: list_emb_set)
  moreover have "length ?cs \<le> length (filter (\<lambda>r. r \<noteq> Handled) calls)" if "Handled \<notin> set ?cs"
  proof -
    have "filter (\<lambda>r. r \<noteq> Handled) ?cs = ?cs" using that by (auto intro: filter_True)
    then show ?thesis using subseq_filter [OF sub, of "\<lambda>r. r \<noteq> Handled"] list_emb_length by metis
  qed
  ultimately have "case dl_status d of
      DvPending \<Rightarrow> 0 \<le> dl_attempts d \<and> dl_attempts d < 5 \<and> dl_attempts d \<le> int (length (filter (\<lambda>r. r \<noteq> Handled) calls))
    | DvDelivered \<Rightarrow> Handled \<in> set calls
    | DvFailed \<Rightarrow> dl_attempts d = 5"
    using ok by (auto simp: delivery_ok_def split: delivery_status.splits)
  moreover have "calls_of (event_calls (bus_step e s)) (dl_event_id d) (dl_handler d) = calls"
    if "dl_status d \<noteq> DvPending" "parses json e" for e
    using settled_not_called [OF inv that(2) assms(2) that(1)] assms(3) by simp
  moreover have "length calls \<le> 5 \<and>
      (if dl_status d = DvDelivered then \<exists>bs. calls = bs @ [Handled] \<and> Handled \<notin> set bs else Handled \<notin> set calls)"
    if "steady_reach json s"
    using each_subscriber_served_once [OF that assms(2)] assms(3) by (auto simp: Let_def split: delivery_status.splits)
  ultimately show ?thesis using keys by blast
qed

theorem delivered_at_least_once_witness:
  "\<exists>s. \<exists>d \<in> set (event_deliveries s). event_reach (\<lambda>p. p = ''{}'') s \<and> dl_status d = DvDelivered \<and> dl_handler d = ''mail'' \<and>
     Handled \<in> set (calls_of (event_calls s) (dl_event_id d) (dl_handler d)) \<and>
     length (calls_of (event_calls s) (dl_event_id d) (dl_handler d)) = 2"
proof -
  let ?c = "bus_step (Abort (demo_clock_env 0) dispatcher_default demo_registry (\<lambda>_ _. Handled) 1) demo_published"
  let ?s = "bus_step (Cycle (demo_clock_env 0) dispatcher_default demo_registry (\<lambda>_ _. Handled)) ?c"
  have "event_reach (\<lambda>p. p = ''{}'') ?c"
    by (rule event_reach.step [OF demo_published_reach]) (simp add: parses_def demo_clock_env_def)
  then have reach: "event_reach (\<lambda>p. p = ''{}'') ?s"
    by (rule event_reach.step) (simp add: parses_def demo_clock_env_def)
  have "list_ex (\<lambda>d. dl_status d = DvDelivered \<and> dl_handler d = ''mail'' \<and>
      length (calls_of (event_calls ?s) (dl_event_id d) (dl_handler d)) = 2) (event_deliveries ?s)"
    unfolding demo_published_eq by code_simp
  then obtain d where d: "d \<in> set (event_deliveries ?s)" "dl_status d = DvDelivered" "dl_handler d = ''mail''"
      "length (calls_of (event_calls ?s) (dl_event_id d) (dl_handler d)) = 2" by (auto simp: list_ex_iff simp del: bus_step.simps)
  then have "Handled \<in> set (calls_of (event_calls ?s) (dl_event_id d) (dl_handler d))"
    using delivered_at_least_once [OF reach d(1) refl] by (simp del: bus_step.simps)
  then show ?thesis using d reach by blast
qed

text \<open>A new event in a run without cycles that are cut off.\<close>

lemma new_event_offered:
  assumes inv: "events_inv json s" and "ee_json env = json" and "row \<in> set (pull_batch env cfg s)"
    and "registry (ev_topic row) = Some hs" and "deliveries_of (ev_id row) s = []"
  shows "\<exists>t. run_one_cycle env cfg registry handle s = (Inr (length (pull_batch env cfg s)), t)
     \<and> dl_handler ` set (deliveries_of (ev_id row) t) = sb_name ` set hs
     \<and> (\<forall>d \<in> set (deliveries_of (ev_id row) t). dl_status d = (case handle (ev_id row) (dl_handler d) of
          Handled \<Rightarrow> DvDelivered | HandleErr _ \<Rightarrow> DvPending | HandlePanic _ \<Rightarrow> DvFailed))
     \<and> ((\<forall>h \<in> set hs. handle (ev_id row) (sb_name h) = Handled) \<longrightarrow>
          (\<forall>e \<in> set (pg_events t). ev_id e = ev_id row \<longrightarrow> ev_status e = DvDelivered))"
proof -
  obtain t where t: "run_one_cycle env cfg registry handle s = (Inr (length (pull_batch env cfg s)), t)"
    and loop: "forM (pull_batch env cfg s) (process_message env cfg registry handle) s = (Inr (), t)"
    using cycle_effect [OF inv assms(2)] by blast
  obtain u v where uv: "deliveries_of (ev_id row) u = deliveries_of (ev_id row) s" "processed handle registry row u v"
      "deliveries_of (ev_id row) t = deliveries_of (ev_id row) v"
      "filter (\<lambda>e. ev_id e = ev_id row) (pg_events t) = filter (\<lambda>e. ev_id e = ev_id row) (pg_events v)"
    using process_batch [OF inv pull_batch_ok [OF inv] assms(2), of env cfg cfg registry handle] loop assms(3) by fastforce
  have names: "dl_handler ` set (deliveries_of (ev_id row) t) = sb_name ` set hs"
    and st: "\<forall>d \<in> set (deliveries_of (ev_id row) t). dl_status d = call_status (handle (ev_id row) (dl_handler d))"
    and sums: "\<forall>e \<in> set (pg_events v). ev_id e = ev_id row \<longrightarrow> summed_up (deliveries_of (ev_id row) t) e"
    using uv assms(4,5) by (auto simp: processed_def)
  have "ev_status e = DvDelivered"
    if "\<forall>h \<in> set hs. handle (ev_id row) (sb_name h) = Handled" "e \<in> set (pg_events t)" "ev_id e = ev_id row" for e
  proof -
    have "e \<in> set (filter (\<lambda>e. ev_id e = ev_id row) (pg_events v))" using that(2,3) uv(4) [symmetric] by simp
    then have e: "summed_up (deliveries_of (ev_id row) t) e" using sums by simp
    have "dl_status d = DvDelivered" if "d \<in> set (deliveries_of (ev_id row) t)" for d
    proof -
      have "dl_handler d \<in> sb_name ` set hs" using that names by blast
      then show ?thesis using st that \<open>\<forall>h \<in> set hs. handle (ev_id row) (sb_name h) = Handled\<close> by auto
    qed
    then show ?thesis using e by (auto simp: summed_up_def Let_def filter_empty_conv)
  qed
  moreover have "call_status r = (case r of Handled \<Rightarrow> DvDelivered | HandleErr _ \<Rightarrow> DvPending | HandlePanic _ \<Rightarrow> DvFailed)" for r
    by (cases r) simp_all
  ultimately show ?thesis using t names st by auto
qed

text \<open>
  C29. A new event that a cycle pulls is offered to every subscriber of its topic in that cycle: afterwards it
  has one delivery for each of them, with the status its call implies, so the event itself is delivered when
  every call succeeds.
\<close>

theorem new_event_reaches_subscribers:
  assumes "event_reach json s" and "ee_json env = json" and "row \<in> set (pull_batch env cfg s)"
    and "registry (ev_topic row) = Some hs" and "deliveries_of (ev_id row) s = []"
  shows "\<exists>t. run_one_cycle env cfg registry handle s = (Inr (length (pull_batch env cfg s)), t)
     \<and> dl_handler ` set (deliveries_of (ev_id row) t) = sb_name ` set hs
     \<and> (\<forall>d \<in> set (deliveries_of (ev_id row) t). dl_status d = (case handle (ev_id row) (dl_handler d) of
          Handled \<Rightarrow> DvDelivered | HandleErr _ \<Rightarrow> DvPending | HandlePanic _ \<Rightarrow> DvFailed))
     \<and> ((\<forall>h \<in> set hs. handle (ev_id row) (sb_name h) = Handled) \<longrightarrow>
          (\<forall>e \<in> set (pg_events t). ev_id e = ev_id row \<longrightarrow> ev_status e = DvDelivered))"
proof -
  obtain cs where inv: "events_inv json (s\<lparr>event_calls := cs\<rparr>)" using event_reach_inv [OF assms(1)] by (auto simp: bus_inv_def)
  obtain r t new where t: "run_one_cycle env cfg registry handle s = (r, t\<lparr>event_calls := event_calls s @ new\<rparr>)"
      "\<forall>cs. run_one_cycle env cfg registry handle (s\<lparr>event_calls := cs\<rparr>) = (r, t\<lparr>event_calls := cs @ new\<rparr>)"
    using blind_run [OF blind_cycle, of env cfg registry handle s] by blast
  show ?thesis
    using new_event_offered [OF inv assms(2), of row cfg registry hs handle] assms(3-5) t by auto
qed

theorem new_event_reaches_subscribers_witness:
  "\<exists>t. run_one_cycle (demo_clock_env 0) dispatcher_default demo_registry (\<lambda>_ _. Handled) demo_published = (Inr 1, t)
     \<and> dl_handler ` set (deliveries_of 1 t) = {''mail'', ''stock''}
     \<and> (\<forall>e \<in> set (pg_events t). ev_id e = 1 \<longrightarrow> ev_status e = DvDelivered)"
proof -
  have "ee_json (demo_clock_env 0) = (\<lambda>p. p = ''{}'')" by (simp add: demo_clock_env_def)
  moreover have "deliveries_of (ev_id demo_event) demo_published = []" by (simp add: demo_published_eq deliveries_of_def)
  moreover have "demo_registry (ev_topic demo_event)
      = Some [\<lparr>sb_topic = ''slab.demo'', sb_name = ''mail''\<rparr>, \<lparr>sb_topic = ''slab.demo'', sb_name = ''stock''\<rparr>]"
    by (simp add: demo_registry_def demo_event_def)
  ultimately show ?thesis
    using new_event_reaches_subscribers [OF demo_published_reach, of "demo_clock_env 0" demo_event dispatcher_default demo_registry _ "\<lambda>_ _. Handled"]
    by (simp add: demo_pulled) (auto simp: demo_event_def)
qed

text \<open>
  The row of an event agrees with its deliveries.  Unless its topic has no subscriber, an event with
  deliveries has failed when one of them has, is pending when none has failed and one is pending, and is
  delivered otherwise; and no pending delivery is forgotten: the event is due no later than any of them.
\<close>

theorem event_row_sums_up:
  assumes "event_reach json s" and "e \<in> set (pg_events s)" and "deliveries_of (ev_id e) s \<noteq> []" and "ev_attempts e \<noteq> ev_max_attempts e"
  shows "ev_status e = (if \<exists>d \<in> set (deliveries_of (ev_id e) s). dl_status d = DvFailed then DvFailed
        else if \<exists>d \<in> set (deliveries_of (ev_id e) s). dl_status d = DvPending then DvPending else DvDelivered)
     \<and> (\<forall>d \<in> set (deliveries_of (ev_id e) s). dl_status d = DvPending \<longrightarrow> ev_next_attempt_at e \<le> dl_next_attempt_at d)"
proof -
  have "summed_up (deliveries_of (ev_id e) s) e"
    using event_reach_inv [OF assms(1)] assms(2-4) by (auto simp: bus_inv_def events_inv_def event_ok_def)
  then show ?thesis
    by (auto simp: summed_up_def Let_def filter_empty_conv intro!: earliest_le)
qed

theorem event_row_sums_up_witness:
  "\<exists>e. pg_events (bus_step (Cycle (demo_clock_env 0) dispatcher_default demo_registry
        (\<lambda>_ h. if h = ''mail'' then Handled else HandleErr ''busy'')) demo_published) = [e] \<and> ev_status e = DvPending"
proof -
  let ?s = "bus_step (Cycle (demo_clock_env 0) dispatcher_default demo_registry
        (\<lambda>_ h. if h = ''mail'' then Handled else HandleErr ''busy'')) demo_published"
  have reach: "event_reach (\<lambda>p. p = ''{}'') ?s"
    by (rule event_reach.step [OF demo_published_reach]) (simp add: parses_def demo_clock_env_def)
  have "map (\<lambda>e. (ev_id e, ev_attempts e, ev_max_attempts e)) (pg_events ?s) = [(1, 0, 5)]"
    unfolding demo_published_eq by code_simp
  then obtain e where e: "pg_events ?s = [e]" "ev_id e = 1" "ev_attempts e \<noteq> ev_max_attempts e" by (auto simp del: bus_step.simps)
  have ds: "map dl_status (deliveries_of 1 ?s) = [DvDelivered, DvPending]" unfolding demo_published_eq by code_simp
  then have ne: "deliveries_of 1 ?s \<noteq> []" by (auto simp del: bus_step.simps)
  have st: "dl_status ` set (deliveries_of 1 ?s) = {DvDelivered, DvPending}" using arg_cong [OF ds, of set] by (simp del: bus_step.simps)
  have "e \<in> set (pg_events ?s)" unfolding e(1) by simp
  have ex: "(\<exists>d \<in> set (deliveries_of 1 ?s). dl_status d = x) \<longleftrightarrow> x \<in> {DvDelivered, DvPending}" for x
    unfolding st [symmetric] by auto
  from event_row_sums_up [OF reach \<open>e \<in> set (pg_events ?s)\<close>] ne e(2,3) have "ev_status e = DvPending"
    by (simp add: ex del: bus_step.simps)
  then show ?thesis using e(1) by blast
qed

text \<open>
  One event whose payload is not JSON stops the dispatcher: every cycle that pulls it fails and leaves
  both tables as they were, so it pulls the same batch again.
\<close>

theorem bad_payload_blocks:
  assumes "pull_batch env cfg s = row # rows" and "\<not> ee_json env (ev_payload row)"
  shows "run_one_cycle env cfg registry handle s = (Inl EvJson, s)
     \<and> pull_batch env cfg (snd (run_one_cycle env cfg registry handle s)) = row # rows"
proof -
  have "process_message env cfg registry handle row s = (Inl EvJson, s)"
    using assms(2) by (simp add: process_message_def monad_defs)
  then have "run_one_cycle env cfg registry handle s = (Inl EvJson, s)"
    using assms(1) by (simp add: run_one_cycle_def txnM_def bindM_def getsM_def seqM_def event_rollback_def)
  then show ?thesis using assms(1) by simp
qed

theorem bad_payload_blocks_witness:
  "run_one_cycle (demo_clock_env 0) dispatcher_default demo_registry (\<lambda>_ _. Handled) demo_poisoned = (Inl EvJson, demo_poisoned)"
proof -
  have "pull_batch (demo_clock_env 0) dispatcher_default demo_poisoned = [demo_event\<lparr>ev_payload := ''not json''\<rparr>, demo_event\<lparr>ev_id := 2\<rparr>]"
    by (simp add: demo_poisoned_def pull_batch_def pulled_def deliveries_of_def demo_event_def demo_clock_env_def dispatcher_default_def)
  from bad_payload_blocks [OF this] show ?thesis by (simp add: demo_clock_env_def)
qed

end
