(* ===== verification/Authz.thy ===== *)
theory Authz
  imports Prelude "HOL-Library.Multiset"
begin

text \<open>
  Role based authorization, \<open>libs/authz_kit\<close>: the permissions of the roles, their compilation into Cedar
  policies, which is cached, the entities of a request and the decision.  Cedar itself is a library: what it
  accepts and how it decides is a parameter, and the theorems state the part of its documented semantics they
  use (\<open>cedar_semantics\<close>).
\<close>

section \<open>Data\<close>

record permission =
  pm_resource_type :: "string option"
  pm_action :: "string option"

type_synonym uid = "string \<times> string"

definition USER_TYPE :: string where "USER_TYPE = ''User''"
definition ROLE_TYPE :: string where "ROLE_TYPE = ''Role''"
definition ACTION_TYPE :: string where "ACTION_TYPE = ''Action''"
definition RESOURCE_TYPE :: string where "RESOURCE_TYPE = ''Resource''"
definition SUPERUSER_ROLE :: string where "SUPERUSER_ROLE = ''__superuser''"

lemmas type_names = USER_TYPE_def ROLE_TYPE_def ACTION_TYPE_def RESOURCE_TYPE_def

definition user_uid :: "string \<Rightarrow> uid" where "user_uid k = (USER_TYPE, k)"
definition role_uid :: "string \<Rightarrow> uid" where "role_uid k = (ROLE_TYPE, k)"
definition action_uid :: "string \<Rightarrow> uid" where "action_uid k = (ACTION_TYPE, k)"
definition resource_uid :: "string \<Rightarrow> uid" where "resource_uid k = (RESOURCE_TYPE, k)"

record entity =
  en_uid :: uid
  en_parents :: "uid list"

definition role_entity :: "string \<Rightarrow> entity" where
  "role_entity name = \<lparr>en_uid = role_uid name, en_parents = []\<rparr>"

definition user_entity :: "string \<Rightarrow> string list \<Rightarrow> bool \<Rightarrow> entity" where
  "user_entity k roles privileged = \<lparr>en_uid = user_uid k,
     en_parents = map role_uid roles @ (if privileged then [role_uid SUPERUSER_ROLE] else [])\<rparr>"

definition resource_entity :: "string \<Rightarrow> entity" where
  "resource_entity k = \<lparr>en_uid = resource_uid k, en_parents = []\<rparr>"

definition action_entity :: "string \<Rightarrow> entity" where
  "action_entity name = \<lparr>en_uid = action_uid name, en_parents = []\<rparr>"

text \<open>A permit policy: \<open>principal in Role\<close>, an action clause, a resource clause, no conditions.\<close>

datatype action_clause = AnyAction | ActionEq uid
datatype resource_clause = AnyResource | ResourceIs string

record policy =
  po_principal_in :: uid
  po_action :: action_clause
  po_resource :: resource_clause

text \<open>A JSON object: an insertion replaces the value of a key that is there.\<close>

type_synonym policy_set = "(string \<times> policy) list"

definition put :: "'k \<Rightarrow> 'v \<Rightarrow> ('k \<times> 'v) list \<Rightarrow> ('k \<times> 'v) list" where
  "put k v xs = (if k \<in> fst ` set xs then map (\<lambda>(j, u). if j = k then (j, v) else (j, u)) xs else xs @ [(k, v)])"

record authz =
  role_permissions :: "(string \<times> permission list) list"
  known_actions :: "string list"
  cached_policies :: "policy_set option"

datatype authz_error = PolicyError | EntitySetError | RequestError

type_synonym 'a am = "(authz, authz_error, 'a) rs"

record authz_request =
  rq_principal :: uid
  rq_action :: uid
  rq_resource :: uid

text \<open>
  The library: whether \<open>PolicySet::from_json_value\<close>, \<open>Entities::from_entities\<close> and \<open>Request::new\<close> accept
  their arguments, and whether the decision is to allow.
\<close>

record cedar =
  cd_policies :: "policy_set \<Rightarrow> bool"
  cd_entities :: "entity list \<Rightarrow> bool"
  cd_request :: "authz_request \<Rightarrow> bool"
  cd_allows :: "authz_request \<Rightarrow> policy list \<Rightarrow> entity list \<Rightarrow> bool"

section \<open>Administration\<close>

definition authz_new :: authz where
  "authz_new = \<lparr>role_permissions = [], known_actions = [], cached_policies = None\<rparr>"

definition invalidate_cache :: "authz \<Rightarrow> authz" where
  "invalidate_cache a = a\<lparr>cached_policies := None\<rparr>"

definition register_action :: "string \<Rightarrow> authz \<Rightarrow> authz" where
  "register_action action a = a\<lparr>known_actions := List.insert action (known_actions a)\<rparr>"

definition set_role_permissions :: "string \<Rightarrow> permission list \<Rightarrow> authz \<Rightarrow> authz" where
  "set_role_permissions role_name permissions a =
     (let b = fold (\<lambda>p a. case pm_action p of None \<Rightarrow> a | Some action \<Rightarrow> register_action action a) permissions a in
      invalidate_cache (b\<lparr>role_permissions := put role_name permissions (role_permissions b)\<rparr>))"

definition remove_role :: "string \<Rightarrow> authz \<Rightarrow> authz" where
  "remove_role role_name a = invalidate_cache (a\<lparr>role_permissions := filter (\<lambda>(r, ps). r \<noteq> role_name) (role_permissions a)\<rparr>)"

definition authz_clear :: "authz \<Rightarrow> authz" where
  "authz_clear a = invalidate_cache (a\<lparr>role_permissions := [], known_actions := []\<rparr>)"

section \<open>Compilation\<close>

definition build_action_clause :: "permission \<Rightarrow> action_clause" where
  "build_action_clause p = (case pm_action p of None \<Rightarrow> AnyAction | Some action \<Rightarrow> ActionEq (action_uid action))"

definition build_resource_clause :: "permission \<Rightarrow> resource_clause" where
  "build_resource_clause p = (case pm_resource_type p of None \<Rightarrow> AnyResource | Some rt \<Rightarrow> ResourceIs rt)"

definition policy_id :: "string \<Rightarrow> permission \<Rightarrow> string" where
  "policy_id role_name p = role_name @ ''__'' @ (case pm_action p of None \<Rightarrow> ''all'' | Some action \<Rightarrow> action)"

definition policy_of :: "string \<Rightarrow> permission \<Rightarrow> policy" where
  "policy_of role_name p = \<lparr>po_principal_in = role_uid role_name, po_action = build_action_clause p,
     po_resource = build_resource_clause p\<rparr>"

definition builtin_superuser :: "string \<times> policy" where
  "builtin_superuser = (''__builtin_superuser'',
     \<lparr>po_principal_in = role_uid SUPERUSER_ROLE, po_action = AnyAction, po_resource = AnyResource\<rparr>)"

text \<open>The roles are visited in the order of the hash map, which is any order.\<close>

definition policy_entries :: "(string \<Rightarrow> int) \<Rightarrow> authz \<Rightarrow> (string \<times> policy) list" where
  "policy_entries order a = concat (map (\<lambda>(role_name, permissions).
     map (\<lambda>p. (policy_id role_name p, policy_of role_name p)) permissions) (sort_key (\<lambda>x. order (fst x)) (role_permissions a)))"

definition static_policies :: "(string \<Rightarrow> int) \<Rightarrow> authz \<Rightarrow> policy_set" where
  "static_policies order a = fold (\<lambda>(k, p). put k p) (policy_entries order a) (put (fst builtin_superuser) (snd builtin_superuser) [])"

definition compile_policy_set_uncached :: "cedar \<Rightarrow> (string \<Rightarrow> int) \<Rightarrow> policy_set am" where
  "compile_policy_set_uncached c order =
     bindM (getsM (static_policies order)) (\<lambda>ps. seqM (guardM (cd_policies c ps) PolicyError) (retM ps))"

definition get_or_compile_policies :: "cedar \<Rightarrow> (string \<Rightarrow> int) \<Rightarrow> policy_set am" where
  "get_or_compile_policies c order =
     bindM (getsM cached_policies) (\<lambda>cached. case cached of
        Some ps \<Rightarrow> retM ps
      | None \<Rightarrow> bindM (compile_policy_set_uncached c order) (\<lambda>ps.
          seqM (modM (\<lambda>a. a\<lparr>cached_policies := Some ps\<rparr>)) (retM ps)))"

section \<open>Decisions\<close>

definition build_base_entities :: "authz \<Rightarrow> entity list" where
  "build_base_entities a = role_entity SUPERUSER_ROLE # map role_entity (map fst (role_permissions a)) @
     map action_entity (known_actions a)"

definition build_entities :: "cedar \<Rightarrow> string \<Rightarrow> string list \<Rightarrow> string \<Rightarrow> bool \<Rightarrow> entity list am" where
  "build_entities c user_id user_roles resource_id privileged =
     bindM (getsM (\<lambda>a. build_base_entities a @ [user_entity user_id user_roles privileged] @ [resource_entity resource_id])) (\<lambda>es.
     seqM (guardM (cd_entities c es) EntitySetError) (retM es))"

definition evaluate :: "cedar \<Rightarrow> (string \<Rightarrow> int) \<Rightarrow> string \<Rightarrow> string list \<Rightarrow> string \<Rightarrow> string \<Rightarrow> bool \<Rightarrow> bool am" where
  "evaluate c order user_id user_roles resource_id action privileged =
     bindM (get_or_compile_policies c order) (\<lambda>policies.
     bindM (build_entities c user_id user_roles resource_id privileged) (\<lambda>entities.
     let request = \<lparr>rq_principal = user_uid user_id, rq_action = action_uid action, rq_resource = resource_uid resource_id\<rparr> in
     seqM (guardM (cd_request c request) RequestError)
    (retM (cd_allows c request (map snd policies) entities))))"

definition is_authorized :: "cedar \<Rightarrow> (string \<Rightarrow> int) \<Rightarrow> string \<Rightarrow> string list \<Rightarrow> string \<Rightarrow> string \<Rightarrow> bool \<Rightarrow> bool am" where
  "is_authorized c order user_id user_roles resource_id action privileged =
     evaluate c order user_id user_roles resource_id action privileged"

section \<open>Runs\<close>

text \<open>An authorization system after any sequence of changes and decisions.\<close>

datatype authz_step =
    RegisterAction string
  | SetRole string "permission list"
  | RemoveRole string
  | ClearAll
  | Decide "string \<Rightarrow> int" string "string list" string string bool

fun authz_after :: "cedar \<Rightarrow> authz_step \<Rightarrow> authz \<Rightarrow> authz" where
  "authz_after c (RegisterAction action) a = register_action action a"
| "authz_after c (SetRole role_name permissions) a = set_role_permissions role_name permissions a"
| "authz_after c (RemoveRole role_name) a = remove_role role_name a"
| "authz_after c ClearAll a = authz_clear a"
| "authz_after c (Decide order user roles resource action privileged) a =
     snd (is_authorized c order user roles resource action privileged a)"

inductive authz_reach :: "cedar \<Rightarrow> authz \<Rightarrow> bool" for c where
  start: "authz_reach c authz_new"
| step: "authz_reach c a \<Longrightarrow> authz_reach c (authz_after c e a)"

section \<open>The semantics of Cedar\<close>

text \<open>
  A request is allowed when a permit policy applies and none forbids; here all policies permit.  \<open>in\<close> holds
  of an entity itself and of its ancestors, \<open>is\<close> compares the entity type.
\<close>

definition parent_rel :: "entity list \<Rightarrow> (uid \<times> uid) set" where
  "parent_rel es = {(u, v). \<exists>e \<in> set es. en_uid e = u \<and> v \<in> set (en_parents e)}"

definition applies :: "entity list \<Rightarrow> authz_request \<Rightarrow> policy \<Rightarrow> bool" where
  "applies es q p = ((rq_principal q, po_principal_in p) \<in> (parent_rel es)\<^sup>* \<and>
     (case po_action p of AnyAction \<Rightarrow> True | ActionEq u \<Rightarrow> rq_action q = u) \<and>
     (case po_resource p of AnyResource \<Rightarrow> True | ResourceIs ty \<Rightarrow> fst (rq_resource q) = ty))"

definition cedar_semantics :: "cedar \<Rightarrow> bool" where
  "cedar_semantics c = (\<forall>q ps es. cd_allows c q ps es = (\<exists>p \<in> set ps. applies es q p))"

text \<open>A library with these semantics that accepts everything.\<close>

definition plain_cedar :: cedar where
  "plain_cedar = \<lparr>cd_policies = (\<lambda>_. True), cd_entities = (\<lambda>_. True), cd_request = (\<lambda>_. True),
     cd_allows = (\<lambda>q ps es. \<exists>p \<in> set ps. applies es q p)\<rparr>"

text \<open>What a permission of a role is meant to grant.\<close>

definition grants :: "permission \<Rightarrow> string \<Rightarrow> bool" where
  "grants p action = (pm_action p \<in> {None, Some action} \<and> pm_resource_type p \<in> {None, Some RESOURCE_TYPE})"

definition granted :: "authz \<Rightarrow> string list \<Rightarrow> string \<Rightarrow> bool" where
  "granted a roles action = (\<exists>(r, ps) \<in> set (role_permissions a). r \<in> set roles \<and> (\<exists>p \<in> set ps. grants p action))"

text \<open>No two policies share an identifier.\<close>

definition ids_distinct :: "authz \<Rightarrow> bool" where
  "ids_distinct a = distinct (fst builtin_superuser #
     concat (map (\<lambda>(r, ps). map (policy_id r) ps) (role_permissions a)))"

section \<open>Lemmas\<close>

lemma set_put: "set (put k v xs) \<subseteq> insert (k, v) (set xs)"
  by (auto simp: put_def split: if_splits)

lemma put_fresh: "k \<notin> fst ` set xs \<Longrightarrow> put k v xs = xs @ [(k, v)]"
  by (simp add: put_def)

lemma fold_put_subset: "set (fold (\<lambda>(k, p). put k p) es ps) \<subseteq> set es \<union> set ps"
proof (induction es arbitrary: ps)
  case (Cons e es)
  then show ?case using set_put [of "fst e" "snd e" ps] by (cases e) fastforce
qed simp

lemma fold_put_distinct: "distinct (map fst (ps @ es)) \<Longrightarrow> fold (\<lambda>(k, p). put k p) es ps = ps @ es"
proof (induction es arbitrary: ps)
  case (Cons e es)
  then have "put (fst e) (snd e) ps = ps @ [e]" by (simp add: put_fresh)
  then show ?case using Cons by (simp add: case_prod_beta)
qed simp

lemma set_policy_entries:
  "set (policy_entries order a) = {(policy_id r p, policy_of r p) | r ps p. (r, ps) \<in> set (role_permissions a) \<and> p \<in> set ps}"
  by (force simp: policy_entries_def)

lemma builtin_applies: "applies es q (snd builtin_superuser) \<longleftrightarrow> (rq_principal q, role_uid SUPERUSER_ROLE) \<in> (parent_rel es)\<^sup>*"
  by (simp add: applies_def builtin_superuser_def)

text \<open>In the entities of a request only the user has parents.\<close>

lemma user_in_role:
  "(user_uid u, role_uid r) \<in> (parent_rel (build_base_entities a @ [user_entity u roles privileged] @ [resource_entity res]))\<^sup>*
     \<longleftrightarrow> r \<in> set roles \<or> privileged \<and> r = SUPERUSER_ROLE"
proof -
  have rel: "parent_rel (build_base_entities a @ [user_entity u roles privileged] @ [resource_entity res])
      = {user_uid u} \<times> role_uid ` (set roles \<union> (if privileged then {SUPERUSER_ROLE} else {}))"
    by (auto simp: parent_rel_def build_base_entities_def role_entity_def action_entity_def user_entity_def resource_entity_def)
  have "(user_uid u, v) \<in> ({user_uid u} \<times> role_uid ` R)\<^sup>* \<longleftrightarrow> v = user_uid u \<or> v \<in> role_uid ` R" for v R
    by (auto elim: rtranclE)
  then show ?thesis
    unfolding rel by (auto simp: user_uid_def role_uid_def type_names)
qed

lemma applies_policy_of:
  "applies (build_base_entities a @ [user_entity u roles privileged] @ [resource_entity res])
      \<lparr>rq_principal = user_uid u, rq_action = action_uid action, rq_resource = resource_uid res\<rparr> (policy_of r p)
     \<longleftrightarrow> (r \<in> set roles \<or> privileged \<and> r = SUPERUSER_ROLE) \<and> grants p action"
  unfolding applies_def policy_of_def
  by (auto simp: user_in_role [unfolded append.simps] build_action_clause_def build_resource_clause_def grants_def action_uid_def
      resource_uid_def split: option.splits)

text \<open>The policies in force are the ones compiled from the present permissions.\<close>

definition cache_ok :: "authz \<Rightarrow> bool" where
  "cache_ok a = (\<forall>ps. cached_policies a = Some ps \<longrightarrow> (\<exists>order. ps = static_policies order a))"

lemma static_policies_cong: "role_permissions b = role_permissions a \<Longrightarrow> static_policies order b = static_policies order a"
  by (simp add: static_policies_def policy_entries_def)

lemma role_permissions_register:
  "role_permissions (fold (\<lambda>p a. case pm_action p of None \<Rightarrow> a | Some action \<Rightarrow> register_action action a) ps a) = role_permissions a"
  by (induction ps arbitrary: a) (auto simp: register_action_def split: option.split)

lemma decision_state:
  "is_authorized c order u roles res action privileged a = (r, b) \<Longrightarrow>
     role_permissions b = role_permissions a \<and> known_actions b = known_actions a \<and> (cached_policies b = cached_policies a \<or>
       cached_policies b = Some (static_policies order a))"
  by (auto simp: is_authorized_def evaluate_def get_or_compile_policies_def compile_policy_set_uncached_def build_entities_def
      monad_defs Let_def split: option.splits if_splits)

lemma cache_ok_after: "cache_ok a \<Longrightarrow> cache_ok (authz_after c e a)"
proof (cases e)
  case (Decide order u roles res action privileged)
  assume ok: "cache_ok a"
  obtain r b where run: "is_authorized c order u roles res action privileged a = (r, b)" by fastforce
  then show ?thesis
    using Decide ok decision_state [OF run] static_policies_cong [of b a] by (auto simp: cache_ok_def)
next
  case (RegisterAction action)
  assume "cache_ok a"
  then show ?thesis
    using RegisterAction static_policies_cong [of "register_action action a" a] by (simp add: cache_ok_def register_action_def)
qed (simp_all add: cache_ok_def set_role_permissions_def remove_role_def authz_clear_def invalidate_cache_def Let_def)

lemma cache_ok_new: "cache_ok authz_new"
  by (simp add: cache_ok_def authz_new_def)

lemma reach_cache_ok: "authz_reach c a \<Longrightarrow> cache_ok a"
  by (induction rule: authz_reach.induct) (simp_all add: cache_ok_new cache_ok_after)

text \<open>The library accepts the policies, the entities and the request of one decision.\<close>

definition cedar_accepts :: "cedar \<Rightarrow> (string \<Rightarrow> int) \<Rightarrow> string \<Rightarrow> string list \<Rightarrow> string \<Rightarrow> string \<Rightarrow> bool \<Rightarrow> authz \<Rightarrow> bool" where
  "cedar_accepts c order u roles res action privileged a = (cd_policies c (static_policies order a) \<and>
     cd_entities c (build_base_entities a @ [user_entity u roles privileged] @ [resource_entity res]) \<and>
     cd_request c \<lparr>rq_principal = user_uid u, rq_action = action_uid action, rq_resource = resource_uid res\<rparr>)"

lemma decision:
  assumes "cedar_semantics c" "cedar_accepts c order u roles res action privileged a" "cache_ok a"
  shows "\<exists>o' b. is_authorized c order u roles res action privileged a
    = (Inr (\<exists>p \<in> snd ` set (static_policies o' a). applies (build_base_entities a @ [user_entity u roles privileged] @ [resource_entity res])
        \<lparr>rq_principal = user_uid u, rq_action = action_uid action, rq_resource = resource_uid res\<rparr> p), b)"
proof -
  obtain o' where o': "cached_policies a = None \<and> o' = order \<or> cached_policies a = Some (static_policies o' a)"
    using assms(3) by (cases "cached_policies a") (auto simp: cache_ok_def)
  have base: "build_base_entities (a\<lparr>cached_policies := x\<rparr>) = build_base_entities a" for x
    by (simp add: build_base_entities_def)
  show ?thesis
    using o' assms(1,2)
    by (intro exI [of _ o']) (auto simp: is_authorized_def evaluate_def get_or_compile_policies_def compile_policy_set_uncached_def
        build_entities_def monad_defs Let_def cedar_semantics_def cedar_accepts_def base)
qed

lemma policies_sound:
  "p \<in> snd ` set (static_policies order a) \<Longrightarrow>
     p = snd builtin_superuser \<or> (\<exists>r ps q. (r, ps) \<in> set (role_permissions a) \<and> q \<in> set ps \<and> p = policy_of r q)"
  using fold_put_subset [of "policy_entries order a" "put (fst builtin_superuser) (snd builtin_superuser) []"]
  by (fastforce simp: static_policies_def set_policy_entries put_def)

lemma policies_complete:
  assumes "ids_distinct a"
  shows "snd ` set (static_policies order a) = insert (snd builtin_superuser)
    {policy_of r q | r ps q. (r, ps) \<in> set (role_permissions a) \<and> q \<in> set ps}"
proof -
  let ?sorted = "sort_key (\<lambda>x. order (fst x)) (role_permissions a)"
  have "mset (concat (map (\<lambda>(r, ps). map (policy_id r) ps) ?sorted)) = mset (concat (map (\<lambda>(r, ps). map (policy_id r) ps) (role_permissions a)))"
    by (simp add: mset_concat flip: sum_mset_sum_list)
  then have "distinct (fst builtin_superuser # concat (map (\<lambda>(r, ps). map (policy_id r) ps) ?sorted))"
    using assms unfolding ids_distinct_def by (metis mset.simps(2) mset_eq_imp_distinct_iff)
  moreover have "map fst (policy_entries order a) = concat (map (\<lambda>(r, ps). map (policy_id r) ps) ?sorted)"
    by (simp add: policy_entries_def map_concat comp_def split_def)
  ultimately have "static_policies order a = [builtin_superuser] @ policy_entries order a"
    unfolding static_policies_def by (subst fold_put_distinct) (simp_all add: put_def)
  then show ?thesis by (force simp: set_policy_entries image_iff)
qed

section \<open>Properties\<close>

text \<open>
  C35. After any sequence of changes and decisions a decision rests on the present permissions.  What is allowed
  is granted to one of the user's roles, or the user is privileged or has the built-in role; and when no two
  policies share an identifier, everything that is granted is allowed.
\<close>

theorem authorization_correct:
  assumes "authz_reach c a" and "cedar_semantics c" and "cedar_accepts c order u roles res action privileged a"
  shows "\<exists>allowed b. is_authorized c order u roles res action privileged a = (Inr allowed, b)
     \<and> role_permissions b = role_permissions a
     \<and> (allowed \<longrightarrow> privileged \<or> SUPERUSER_ROLE \<in> set roles \<or> granted a roles action)
     \<and> (ids_distinct a \<longrightarrow> allowed = (privileged \<or> SUPERUSER_ROLE \<in> set roles \<or> granted a roles action))"
proof -
  let ?es = "build_base_entities a @ [user_entity u roles privileged] @ [resource_entity res]"
  let ?q = "\<lparr>rq_principal = user_uid u, rq_action = action_uid action, rq_resource = resource_uid res\<rparr>"
  obtain o' b where run: "is_authorized c order u roles res action privileged a
      = (Inr (\<exists>p \<in> snd ` set (static_policies o' a). applies ?es ?q p), b)"
    using decision [OF assms(2,3) reach_cache_ok [OF assms(1)]] by blast
  have builtin: "applies ?es ?q (snd builtin_superuser) \<longleftrightarrow> privileged \<or> SUPERUSER_ROLE \<in> set roles"
    using user_in_role [of u SUPERUSER_ROLE a roles privileged res] by (auto simp: builtin_applies)
  have each: "applies ?es ?q (policy_of r p) \<longleftrightarrow> (r \<in> set roles \<or> privileged \<and> r = SUPERUSER_ROLE) \<and> grants p action" for r p
    by (rule applies_policy_of)
  have sound: "privileged \<or> SUPERUSER_ROLE \<in> set roles \<or> granted a roles action"
    if "p \<in> snd ` set (static_policies o' a)" "applies ?es ?q p" for p
    using policies_sound [OF that(1)] that(2) builtin each by (fastforce simp: granted_def)
  have complete: "\<exists>p \<in> snd ` set (static_policies o' a). applies ?es ?q p"
    if "ids_distinct a" "privileged \<or> SUPERUSER_ROLE \<in> set roles \<or> granted a roles action"
    unfolding policies_complete [OF that(1)] using that(2) builtin each by (fastforce simp: granted_def)
  have "role_permissions b = role_permissions a" using decision_state [OF run] by blast
  with run show ?thesis
    by (intro exI conjI) (assumption, assumption, use sound in blast, use sound complete in blast)
qed

lemma plain_cedar_laws: "cedar_semantics plain_cedar" "cedar_accepts plain_cedar order u roles res action privileged a"
  by (simp_all add: cedar_semantics_def cedar_accepts_def plain_cedar_def)

definition demo_authz :: authz where
  "demo_authz = authz_after plain_cedar (SetRole ''viewer'' [\<lparr>pm_resource_type = None, pm_action = Some ''read''\<rparr>]) authz_new"

lemma demo_authz_eq: "demo_authz = \<lparr>role_permissions = [(''viewer'', [\<lparr>pm_resource_type = None, pm_action = Some ''read''\<rparr>])],
    known_actions = [''read''], cached_policies = None\<rparr>"
  by (simp add: demo_authz_def set_role_permissions_def register_action_def authz_new_def put_def invalidate_cache_def)

theorem authorization_correct_witness:
  "fst (is_authorized plain_cedar (\<lambda>_. 0) ''alice'' [''viewer''] ''doc-1'' ''read'' False demo_authz) = Inr True
     \<and> fst (is_authorized plain_cedar (\<lambda>_. 0) ''alice'' [''viewer''] ''doc-1'' ''write'' False demo_authz) = Inr False"
proof -
  have reach: "authz_reach plain_cedar demo_authz"
    unfolding demo_authz_def by (rule authz_reach.step [OF authz_reach.start])
  have "ids_distinct demo_authz" by (simp add: demo_authz_eq ids_distinct_def builtin_superuser_def policy_id_def)
  moreover have "granted demo_authz [''viewer''] ''read''" "\<not> granted demo_authz [''viewer''] ''write''"
    by (simp_all add: demo_authz_eq granted_def grants_def)
  moreover have "SUPERUSER_ROLE \<notin> set [''viewer'']" by (simp add: SUPERUSER_ROLE_def)
  ultimately show ?thesis
    using authorization_correct [OF reach plain_cedar_laws, of "\<lambda>_. 0" "''alice''" "[''viewer'']" "''doc-1''" "''read''" False]
      authorization_correct [OF reach plain_cedar_laws, of "\<lambda>_. 0" "''alice''" "[''viewer'']" "''doc-1''" "''write''" False]
    by auto
qed

text \<open>
  A permission can be lost.  The identifier of a policy is made of the role and the action, not of the
  resource type: a role that may read everything and is also given the right to read one type of resource
  loses the right to read everything else.
\<close>

theorem permission_overwritten:
  "let a = set_role_permissions ''viewer'' [\<lparr>pm_resource_type = None, pm_action = Some ''read''\<rparr>,
         \<lparr>pm_resource_type = Some ''Invoice'', pm_action = Some ''read''\<rparr>] authz_new in
   granted a [''viewer''] ''read''
     \<and> fst (is_authorized plain_cedar order ''alice'' [''viewer''] ''doc-1'' ''read'' False a) = Inr False"
proof -
  let ?a = "set_role_permissions ''viewer'' [\<lparr>pm_resource_type = None, pm_action = Some ''read''\<rparr>,
         \<lparr>pm_resource_type = Some ''Invoice'', pm_action = Some ''read''\<rparr>] authz_new"
  have a: "role_permissions ?a = [(''viewer'', [\<lparr>pm_resource_type = None, pm_action = Some ''read''\<rparr>,
         \<lparr>pm_resource_type = Some ''Invoice'', pm_action = Some ''read''\<rparr>])]" "cached_policies ?a = None"
    by (simp_all add: set_role_permissions_def register_action_def authz_new_def put_def invalidate_cache_def)
  have ps: "static_policies order ?a = [builtin_superuser, (''viewer__read'', policy_of ''viewer'' \<lparr>pm_resource_type = Some ''Invoice'', pm_action = Some ''read''\<rparr>)]"
    for order by (simp add: static_policies_def policy_entries_def a put_def policy_id_def builtin_superuser_def)
  have ok: "cache_ok ?a" using a(2) by (simp add: cache_ok_def)
  obtain o' b where run: "is_authorized plain_cedar order ''alice'' [''viewer''] ''doc-1'' ''read'' False ?a
    = (Inr (\<exists>p \<in> snd ` set (static_policies o' ?a). applies (build_base_entities ?a @ [user_entity ''alice'' [''viewer''] False] @ [resource_entity ''doc-1''])
        \<lparr>rq_principal = user_uid ''alice'', rq_action = action_uid ''read'', rq_resource = resource_uid ''doc-1''\<rparr> p), b)"
    using decision [OF plain_cedar_laws ok] by blast
  have "\<not> (\<exists>p \<in> snd ` set (static_policies o' ?a). applies (build_base_entities ?a @ [user_entity ''alice'' [''viewer''] False] @ [resource_entity ''doc-1''])
        \<lparr>rq_principal = user_uid ''alice'', rq_action = action_uid ''read'', rq_resource = resource_uid ''doc-1''\<rparr> p)"
    using user_in_role [of "''alice''" SUPERUSER_ROLE ?a "[''viewer'']" False "''doc-1''"]
    unfolding ps by (simp add: builtin_applies applies_policy_of [simplified] grants_def RESOURCE_TYPE_def SUPERUSER_ROLE_def)
  moreover have "granted ?a [''viewer''] ''read''" by (simp add: granted_def a grants_def)
  ultimately show ?thesis using run by (simp add: Let_def)
qed

end
