(* ===== verification/Kv.thy ===== *)
theory Kv
  imports Code_Points
begin

text \<open>
  The key-value store of short-lived data, \<open>infrastructure/kv\<close>: the facade \<open>KvBackend\<close> over a PostgreSQL
  table, an embedded redb file or a Redis server.  A store is the list of its entries; the clocks are an
  argument.  A value is the JSON the facade writes; the program stores strings, and identifiers as strings.
\<close>

section \<open>Data\<close>

datatype kv_backend = PgCache | RedbCache | RedisCache

datatype json_value = JStr string | JInt int

text \<open>The instant of expiry is in the unit of the back end: microseconds, or milliseconds for redb and Redis.\<close>

record cache_entry =
  ce_key :: string
  ce_value :: json_value
  ce_expires_at :: int

type_synonym kv_store = "cache_entry list"

text \<open>
  The clocks of one operation, in microseconds: the process, the server of the store, and the last instant
  that \<open>chrono\<close> represents.
\<close>

record kv_env =
  ke_now :: int
  ke_server_now :: int
  ke_latest :: int

datatype kv_error = KvPanic | KvCommand

type_synonym 'a km = "(kv_store, kv_error, 'a) rs"

definition now_ms :: "kv_env \<Rightarrow> int" where
  "now_ms env = ke_now env div 1000"

definition server_ms :: "kv_env \<Rightarrow> int" where
  "server_ms env = ke_server_now env div 1000"

text \<open>\<open>Utc::now() + period\<close>, with the period in microseconds.\<close>

definition expiry :: "kv_env \<Rightarrow> nat \<Rightarrow> int option" where
  "expiry env period = (if ke_now env + int period \<le> ke_latest env then Some (ke_now env + int period) else None)"

definition upsert_entry :: "cache_entry \<Rightarrow> kv_store \<Rightarrow> kv_store" where
  "upsert_entry e s = (if has_key ce_key (ce_key e) s then update_where (\<lambda>x. ce_key x = ce_key e) (\<lambda>_. e) s else s @ [e])"

definition remove_entries :: "(cache_entry \<Rightarrow> bool) \<Rightarrow> kv_store \<Rightarrow> kv_store" where
  "remove_entries P s = filter (\<lambda>e. \<not> P e) s"

section \<open>PostgreSQL\<close>

definition pg_live :: "kv_env \<Rightarrow> string \<Rightarrow> cache_entry \<Rightarrow> bool" where
  "pg_live env key e = (ce_key e = key \<and> ce_expires_at e > ke_server_now env)"

definition pg_get_raw :: "kv_env \<Rightarrow> string \<Rightarrow> json_value option km" where
  "pg_get_raw env key = getsM (\<lambda>s. map_option ce_value (find (pg_live env key) s))"

definition pg_set_ex_raw :: "kv_env \<Rightarrow> string \<Rightarrow> json_value \<Rightarrow> nat \<Rightarrow> unit km" where
  "pg_set_ex_raw env key v period = bindM (ok_or (expiry env period) KvPanic) (\<lambda>t.
     modM (upsert_entry \<lparr>ce_key = key, ce_value = v, ce_expires_at = t\<rparr>))"

definition pg_take_raw :: "kv_env \<Rightarrow> string \<Rightarrow> json_value option km" where
  "pg_take_raw env key = bindM (pg_get_raw env key) (\<lambda>r. seqM (modM (remove_entries (pg_live env key))) (retM r))"

definition pg_del_raw :: "string \<Rightarrow> unit km" where
  "pg_del_raw key = modM (remove_entries (\<lambda>e. ce_key e = key))"

definition pg_delete_expired :: "kv_env \<Rightarrow> nat km" where
  "pg_delete_expired env = bindM (getsM (\<lambda>s. length (filter (\<lambda>e. ce_expires_at e < ke_server_now env) s))) (\<lambda>n.
     seqM (modM (remove_entries (\<lambda>e. ce_expires_at e < ke_server_now env))) (retM n))"

section \<open>redb\<close>

definition redb_get_raw :: "kv_env \<Rightarrow> string \<Rightarrow> json_value option km" where
  "redb_get_raw env key = getsM (\<lambda>s. case lookup_by ce_key key s of
      None \<Rightarrow> None
    | Some e \<Rightarrow> if ce_expires_at e < now_ms env then None else Some (ce_value e))"

definition redb_set_ex_raw :: "kv_env \<Rightarrow> string \<Rightarrow> json_value \<Rightarrow> nat \<Rightarrow> unit km" where
  "redb_set_ex_raw env key v period = bindM (ok_or (expiry env period) KvPanic) (\<lambda>t.
     modM (upsert_entry \<lparr>ce_key = key, ce_value = v, ce_expires_at = t div 1000\<rparr>))"

definition redb_take_raw :: "kv_env \<Rightarrow> string \<Rightarrow> json_value option km" where
  "redb_take_raw env key =
     bindM (getsM (\<lambda>s. case lookup_by ce_key key s of
         None \<Rightarrow> None
       | Some e \<Rightarrow> if ce_expires_at e \<ge> now_ms env then Some (ce_value e) else None)) (\<lambda>taken.
     seqM (modM (remove_entries (\<lambda>e. ce_key e = key))) (retM taken))"

definition redb_del_raw :: "string \<Rightarrow> unit km" where
  "redb_del_raw key = modM (remove_entries (\<lambda>e. ce_key e = key))"

definition redb_delete_expired :: "kv_env \<Rightarrow> nat km" where
  "redb_delete_expired env =
     bindM (getsM (\<lambda>s. map ce_key (filter (\<lambda>e. ce_expires_at e < now_ms env) s))) (\<lambda>expired.
     seqM (modM (remove_entries (\<lambda>e. ce_key e \<in> set expired))) (retM (length expired)))"

section \<open>Redis\<close>

text \<open>
  The commands \<open>GET\<close>, \<open>SET .. EX\<close>, \<open>GETDEL\<close>, \<open>DEL\<close>: an expired key is not there, a time to live of zero
  seconds is refused by the server.
\<close>

definition redis_get_raw :: "kv_env \<Rightarrow> string \<Rightarrow> json_value option km" where
  "redis_get_raw env key = getsM (\<lambda>s. case lookup_by ce_key key s of
      None \<Rightarrow> None
    | Some e \<Rightarrow> if server_ms env \<le> ce_expires_at e then Some (ce_value e) else None)"

definition redis_set_ex_raw :: "kv_env \<Rightarrow> string \<Rightarrow> json_value \<Rightarrow> nat \<Rightarrow> unit km" where
  "redis_set_ex_raw env key v period =
     seqM (guardM (period div 10 ^ 6 > 0) KvCommand)
    (modM (upsert_entry \<lparr>ce_key = key, ce_value = v,
       ce_expires_at = server_ms env + 1000 * int (period div 10 ^ 6)\<rparr>))"

definition redis_take_raw :: "kv_env \<Rightarrow> string \<Rightarrow> json_value option km" where
  "redis_take_raw env key = bindM (redis_get_raw env key) (\<lambda>r.
     seqM (modM (remove_entries (\<lambda>e. ce_key e = key))) (retM r))"

definition redis_del_raw :: "string \<Rightarrow> unit km" where
  "redis_del_raw key = modM (remove_entries (\<lambda>e. ce_key e = key))"

definition redis_delete_expired :: "nat km" where
  "redis_delete_expired = retM 0"

section \<open>The facade\<close>

definition kv_get_raw :: "kv_backend \<Rightarrow> kv_env \<Rightarrow> string \<Rightarrow> json_value option km" where
  "kv_get_raw b env key = (case b of PgCache \<Rightarrow> pg_get_raw env key | RedbCache \<Rightarrow> redb_get_raw env key
     | RedisCache \<Rightarrow> redis_get_raw env key)"

text \<open>A value that does not decode is as good as absent.\<close>

definition kv_get :: "(json_value \<Rightarrow> 'v option) \<Rightarrow> kv_backend \<Rightarrow> kv_env \<Rightarrow> string \<Rightarrow> 'v option km" where
  "kv_get decode b env key = bindM (kv_get_raw b env key) (\<lambda>raw. retM (Option.bind raw decode))"

definition kv_set_ex :: "kv_backend \<Rightarrow> kv_env \<Rightarrow> string \<Rightarrow> json_value \<Rightarrow> nat \<Rightarrow> unit km" where
  "kv_set_ex b env key v period = (case b of PgCache \<Rightarrow> pg_set_ex_raw env key v period
     | RedbCache \<Rightarrow> redb_set_ex_raw env key v period | RedisCache \<Rightarrow> redis_set_ex_raw env key v period)"

definition kv_take_raw :: "kv_backend \<Rightarrow> kv_env \<Rightarrow> string \<Rightarrow> json_value option km" where
  "kv_take_raw b env key = (case b of PgCache \<Rightarrow> pg_take_raw env key | RedbCache \<Rightarrow> redb_take_raw env key
     | RedisCache \<Rightarrow> redis_take_raw env key)"

definition kv_take :: "(json_value \<Rightarrow> 'v option) \<Rightarrow> kv_backend \<Rightarrow> kv_env \<Rightarrow> string \<Rightarrow> 'v option km" where
  "kv_take decode b env key = bindM (kv_take_raw b env key) (\<lambda>raw. retM (Option.bind raw decode))"

definition kv_del :: "kv_backend \<Rightarrow> string \<Rightarrow> unit km" where
  "kv_del b key = (case b of PgCache \<Rightarrow> pg_del_raw key | RedbCache \<Rightarrow> redb_del_raw key | RedisCache \<Rightarrow> redis_del_raw key)"

definition kv_delete_expired :: "kv_backend \<Rightarrow> kv_env \<Rightarrow> nat km" where
  "kv_delete_expired b env = (case b of PgCache \<Rightarrow> pg_delete_expired env | RedbCache \<Rightarrow> redb_delete_expired env
     | RedisCache \<Rightarrow> redis_delete_expired)"

text \<open>\<open>serde_json::from_str::<String>\<close> and \<open>::<ID>\<close>, which reads an identifier from a string or a number.\<close>

fun decode_string :: "json_value \<Rightarrow> string option" where
  "decode_string (JStr s) = Some s"
| "decode_string (JInt k) = None"

fun decode_id :: "json_value \<Rightarrow> int option" where
  "decode_id (JStr s) = parse_i64 (lit s)"
| "decode_id (JInt k) = (if in_i64 k then Some k else None)"

section \<open>What a back end promises\<close>

text \<open>
  The entry of a key, whether it is alive, and the instant at which the environment is, in the unit of the
  back end.  An entry is alive up to its expiry; the back ends differ in the instant itself.
\<close>

definition cell :: "string \<Rightarrow> kv_store \<Rightarrow> cache_entry option" where
  "cell key s = lookup_by ce_key key s"

definition instant_of :: "kv_backend \<Rightarrow> kv_env \<Rightarrow> int" where
  "instant_of b env = (case b of PgCache \<Rightarrow> ke_server_now env | RedbCache \<Rightarrow> now_ms env | RedisCache \<Rightarrow> server_ms env)"

definition alive_at :: "kv_backend \<Rightarrow> int \<Rightarrow> cache_entry \<Rightarrow> bool" where
  "alive_at b now e = (case b of PgCache \<Rightarrow> now < ce_expires_at e | _ \<Rightarrow> now \<le> ce_expires_at e)"

abbreviation alive :: "kv_backend \<Rightarrow> kv_env \<Rightarrow> cache_entry \<Rightarrow> bool" where
  "alive b env \<equiv> alive_at b (instant_of b env)"

definition view :: "kv_backend \<Rightarrow> kv_env \<Rightarrow> string \<Rightarrow> kv_store \<Rightarrow> json_value option" where
  "view b env key s = (case cell key s of None \<Rightarrow> None | Some e \<Rightarrow> if alive b env e then Some (ce_value e) else None)"

definition keys_distinct :: "kv_store \<Rightarrow> bool" where
  "keys_distinct s = distinct (map ce_key s)"

text \<open>The expiry an entry gets, None when the operation is refused.\<close>

definition deadline :: "kv_backend \<Rightarrow> kv_env \<Rightarrow> nat \<Rightarrow> int option" where
  "deadline b env period = (case b of PgCache \<Rightarrow> expiry env period
     | RedbCache \<Rightarrow> map_option (\<lambda>t. t div 1000) (expiry env period)
     | RedisCache \<Rightarrow> if period div 10 ^ 6 > 0 then Some (server_ms env + 1000 * int (period div 10 ^ 6)) else None)"

locale kv_contract =
  fixes b :: kv_backend
  assumes get_law: "keys_distinct s \<Longrightarrow> kv_get_raw b env key s = (Inr (view b env key s), s)"
    and set_law: "keys_distinct s \<Longrightarrow> kv_set_ex b env key v period s = (r, t) \<Longrightarrow>
      (case deadline b env period of None \<Rightarrow> (\<exists>e. r = Inl e) \<and> t = s
       | Some d \<Rightarrow> r = Inr () \<and> keys_distinct t \<and> (\<forall>k. cell k t = (if k = key
           then Some \<lparr>ce_key = key, ce_value = v, ce_expires_at = d\<rparr> else cell k s)))"
    and take_law: "keys_distinct s \<Longrightarrow> kv_take_raw b env key s = (tv, t) \<Longrightarrow>
      tv = Inr (view b env key s) \<and> keys_distinct t \<and> (\<forall>k. k \<noteq> key \<longrightarrow> cell k t = cell k s) \<and>
      (\<forall>e. cell key t = Some e \<longrightarrow> cell key s = Some e \<and> \<not> alive b env e)"
    and del_law: "keys_distinct s \<Longrightarrow> kv_del b key s = (r, t) \<Longrightarrow>
      r = Inr () \<and> keys_distinct t \<and> (\<forall>k. cell k t = (if k = key then None else cell k s))"
    and gc_law: "keys_distinct s \<Longrightarrow> kv_delete_expired b env s = (n, t) \<Longrightarrow>
      (\<exists>m. n = Inr m \<and> length t + m = length s) \<and> keys_distinct t \<and>
      (\<forall>k. cell k t = cell k s \<or> cell k t = None) \<and>
      (\<forall>k e. cell k s = Some e \<longrightarrow> (alive b env e \<longrightarrow> cell k t = Some e))"
    and gc_order: "keys_distinct s \<Longrightarrow> kv_delete_expired b env s = (n, t) \<Longrightarrow> cell j s = Some e \<Longrightarrow> cell k s = Some f \<Longrightarrow>
      ce_expires_at e \<le> ce_expires_at f \<Longrightarrow> cell k t = None \<Longrightarrow> cell j t = None"
begin

text \<open>A value that was set is read back until its deadline, and by no other key.\<close>

lemma get_after_set:
  assumes "keys_distinct s" "kv_set_ex b env key v period s = (Inr (), t)"
  shows "\<exists>d. deadline b env period = Some d \<and>
    (\<forall>env'. kv_get_raw b env' key t = (Inr (if alive_at b (instant_of b env') \<lparr>ce_key = key, ce_value = v, ce_expires_at = d\<rparr>
       then Some v else None), t)) \<and>
    (\<forall>env' k. k \<noteq> key \<longrightarrow> kv_get_raw b env' k t = (Inr (view b env' k s), t))"
proof -
  obtain d where d: "deadline b env period = Some d" "keys_distinct t"
    "\<forall>k. cell k t = (if k = key then Some \<lparr>ce_key = key, ce_value = v, ce_expires_at = d\<rparr> else cell k s)"
    using set_law [OF assms] by (auto split: option.splits)
  then show ?thesis by (auto simp: get_law view_def)
qed

text \<open>What was taken is gone.\<close>

lemma take_once:
  assumes "keys_distinct s" "kv_take_raw b env key s = (Inr v, t)" "instant_of b env \<le> instant_of b env'"
  shows "kv_get_raw b env' key t = (Inr None, t)"
proof -
  note t = take_law [OF assms(1,2)]
  have "view b env' key t = None"
    using t assms(3) by (auto simp: view_def alive_at_def split: option.split kv_backend.splits)
  then show ?thesis using t by (simp add: get_law)
qed

end

lemma lookup_replace:
  "has_key ce_key (ce_key e) s \<Longrightarrow> lookup_by ce_key k (update_where (\<lambda>x. ce_key x = ce_key e) (\<lambda>_. e) s) =
     (if k = ce_key e then Some e else lookup_by ce_key k s)"
proof (induction s)
  case (Cons x s)
  then show ?case
    by (cases "has_key ce_key (ce_key e) s") (auto simp: update_where_none has_key_def)
qed simp

lemma cell_upsert:
  "cell k (upsert_entry e s) = (if k = ce_key e then Some e else cell k s)"
  by (auto simp: cell_def upsert_entry_def lookup_replace has_key_lookup split: option.split)

lemma keys_upsert: "keys_distinct s \<Longrightarrow> keys_distinct (upsert_entry e s)"
proof (cases "has_key ce_key (ce_key e) s")
  case True
  have "map ce_key (update_where (\<lambda>x. ce_key x = ce_key e) (\<lambda>_. e) s) = map ce_key s" by (induction s) auto
  then show "keys_distinct s \<Longrightarrow> ?thesis" using True by (simp add: keys_distinct_def upsert_entry_def)
qed (auto simp: keys_distinct_def upsert_entry_def has_key_def)

lemma cellD: "cell k s = Some e \<Longrightarrow> ce_key e = k \<and> e \<in> set s"
  unfolding cell_def by (auto dest: lookup_by_SomeD)

lemma cell_iff: "keys_distinct s \<Longrightarrow> cell k s = Some e \<longleftrightarrow> e \<in> set s \<and> ce_key e = k"
  by (metis cellD cell_def distinct_lookup_by keys_distinct_def)

lemma cell_None: "cell k s = None \<longleftrightarrow> (\<forall>e \<in> set s. ce_key e \<noteq> k)"
  by (simp add: cell_def lookup_by_None)

lemma keys_remove: "keys_distinct s \<Longrightarrow> keys_distinct (remove_entries P s)"
  by (simp add: keys_distinct_def remove_entries_def distinct_map_filter)

lemma cell_remove:
  assumes "keys_distinct s"
  shows "cell k (remove_entries P s) = (case cell k s of None \<Rightarrow> None | Some e \<Rightarrow> if P e then None else Some e)"
proof (cases "cell k s")
  case None
  then have "cell k (remove_entries P s) = None" by (simp add: cell_None remove_entries_def)
  then show ?thesis using None by simp
next
  case (Some e)
  then have e: "e \<in> set s" "ce_key e = k" using assms by (simp_all add: cell_iff)
  show ?thesis
  proof (cases "P e")
    case True
    have "x = e" if "x \<in> set s" "ce_key x = k" for x
      using that Some assms by (metis cell_iff option.inject)
    then have "cell k (remove_entries P s) = None" using True by (auto simp: cell_None remove_entries_def)
    then show ?thesis using Some True by simp
  next
    case False
    then have "cell k (remove_entries P s) = Some e"
      using e by (simp add: cell_iff [OF keys_remove [OF assms]]) (simp add: remove_entries_def)
    then show ?thesis using Some False by simp
  qed
qed

lemma length_remove: "length (remove_entries P s) + length (filter P s) = length s"
  unfolding remove_entries_def by (rule trans [OF add.commute sum_length_filter_compl])

lemma find_cell: "keys_distinct s \<Longrightarrow> find (\<lambda>e. ce_key e = key \<and> Q e) s =
    (case cell key s of None \<Rightarrow> None | Some e \<Rightarrow> if Q e then Some e else None)"
proof (induction s)
  case (Cons x s)
  then have s: "keys_distinct s" "ce_key x = key \<Longrightarrow> cell key s = None"
    by (auto simp: keys_distinct_def cell_None image_iff)
  then show ?case using Cons by (auto simp: cell_def split: option.split)
qed (simp add: cell_def)

lemmas kv_facade = kv_get_raw_def kv_set_ex_def kv_take_raw_def kv_del_def kv_delete_expired_def
  instant_of_def alive_at_def deadline_def
lemmas kv_simps = cell_upsert keys_upsert cell_remove keys_remove length_remove

lemma expired_keys:
  "keys_distinct s \<Longrightarrow> remove_entries (\<lambda>e. ce_key e \<in> ce_key ` set (filter P s)) s = remove_entries P s"
  unfolding remove_entries_def keys_distinct_def
  by (rule filter_cong) (auto simp: distinct_map inj_on_def)

interpretation pg_cache: kv_contract PgCache
proof
  fix s t :: kv_store and env key v period j k e f and r :: "kv_error + unit" and tv :: "kv_error + json_value option" and n :: "kv_error + nat"
  assume d: "keys_distinct s"
  show "kv_get_raw PgCache env key s = (Inr (view PgCache env key s), s)"
    using d by (auto simp: kv_facade pg_get_raw_def pg_live_def [abs_def] getsM_def find_cell view_def split: option.split)
  show "kv_set_ex PgCache env key v period s = (r, t) \<Longrightarrow>
      (case deadline PgCache env period of None \<Rightarrow> (\<exists>e. r = Inl e) \<and> t = s
       | Some d \<Rightarrow> r = Inr () \<and> keys_distinct t \<and> (\<forall>k. cell k t = (if k = key
           then Some \<lparr>ce_key = key, ce_value = v, ce_expires_at = d\<rparr> else cell k s)))"
    using d by (auto simp: kv_facade pg_set_ex_raw_def monad_defs kv_simps split: option.splits)
  show "kv_take_raw PgCache env key s = (tv, t) \<Longrightarrow>
      tv = Inr (view PgCache env key s) \<and> keys_distinct t \<and> (\<forall>k. k \<noteq> key \<longrightarrow> cell k t = cell k s) \<and>
      (\<forall>e. cell key t = Some e \<longrightarrow> cell key s = Some e \<and> \<not> alive PgCache env e)"
    using d by (auto simp: kv_facade pg_take_raw_def pg_get_raw_def pg_live_def [abs_def] monad_defs kv_simps find_cell view_def
        split: option.splits if_splits dest: cellD)
  show "kv_del PgCache key s = (r, t) \<Longrightarrow> r = Inr () \<and> keys_distinct t \<and> (\<forall>k. cell k t = (if k = key then None else cell k s))"
    using d by (auto simp: kv_facade pg_del_raw_def modM_def kv_simps split: option.splits dest: cellD)
  assume gc: "kv_delete_expired PgCache env s = (n, t)"
  show "(\<exists>m. n = Inr m \<and> length t + m = length s) \<and> keys_distinct t \<and> (\<forall>k. cell k t = cell k s \<or> cell k t = None) \<and>
      (\<forall>k e. cell k s = Some e \<longrightarrow> (alive PgCache env e \<longrightarrow> cell k t = Some e))"
    using d gc by (auto simp: kv_facade pg_delete_expired_def monad_defs kv_simps split: option.splits if_splits)
  show "cell j s = Some e \<Longrightarrow> cell k s = Some f \<Longrightarrow> ce_expires_at e \<le> ce_expires_at f \<Longrightarrow> cell k t = None \<Longrightarrow> cell j t = None"
    using d gc by (auto simp: kv_facade pg_delete_expired_def monad_defs kv_simps split: option.splits if_splits)
qed

interpretation redb_cache: kv_contract RedbCache
proof
  fix s t :: kv_store and env key v period j k e f and r :: "kv_error + unit" and tv :: "kv_error + json_value option" and n :: "kv_error + nat"
  assume d: "keys_distinct s"
  show "kv_get_raw RedbCache env key s = (Inr (view RedbCache env key s), s)"
    by (auto simp: kv_facade redb_get_raw_def getsM_def view_def cell_def split: option.split)
  show "kv_set_ex RedbCache env key v period s = (r, t) \<Longrightarrow>
      (case deadline RedbCache env period of None \<Rightarrow> (\<exists>e. r = Inl e) \<and> t = s
       | Some d \<Rightarrow> r = Inr () \<and> keys_distinct t \<and> (\<forall>k. cell k t = (if k = key
           then Some \<lparr>ce_key = key, ce_value = v, ce_expires_at = d\<rparr> else cell k s)))"
    using d by (auto simp: kv_facade redb_set_ex_raw_def monad_defs kv_simps split: option.splits)
  show "kv_take_raw RedbCache env key s = (tv, t) \<Longrightarrow>
      tv = Inr (view RedbCache env key s) \<and> keys_distinct t \<and> (\<forall>k. k \<noteq> key \<longrightarrow> cell k t = cell k s) \<and>
      (\<forall>e. cell key t = Some e \<longrightarrow> cell key s = Some e \<and> \<not> alive RedbCache env e)"
    using d by (auto simp: kv_facade redb_take_raw_def monad_defs kv_simps view_def cell_def [symmetric]
        split: option.splits if_splits dest: cellD)
  show "kv_del RedbCache key s = (r, t) \<Longrightarrow> r = Inr () \<and> keys_distinct t \<and> (\<forall>k. cell k t = (if k = key then None else cell k s))"
    using d by (auto simp: kv_facade redb_del_raw_def modM_def kv_simps split: option.splits dest: cellD)
  assume gc: "kv_delete_expired RedbCache env s = (n, t)"
  have t: "t = remove_entries (\<lambda>e. ce_expires_at e < now_ms env) s" "n = Inr (length (filter (\<lambda>e. ce_expires_at e < now_ms env) s))"
    using gc expired_keys [OF d, of "\<lambda>e. ce_expires_at e < now_ms env"]
    by (auto simp: kv_facade redb_delete_expired_def monad_defs)
  show "(\<exists>m. n = Inr m \<and> length t + m = length s) \<and> keys_distinct t \<and> (\<forall>k. cell k t = cell k s \<or> cell k t = None) \<and>
      (\<forall>k e. cell k s = Some e \<longrightarrow> (alive RedbCache env e \<longrightarrow> cell k t = Some e))"
    using d unfolding t by (auto simp: kv_facade kv_simps split: option.splits if_splits)
  show "cell j s = Some e \<Longrightarrow> cell k s = Some f \<Longrightarrow> ce_expires_at e \<le> ce_expires_at f \<Longrightarrow> cell k t = None \<Longrightarrow> cell j t = None"
    using d unfolding t by (auto simp: kv_simps split: option.splits if_splits)
qed

interpretation redis_cache: kv_contract RedisCache
proof
  fix s t :: kv_store and env key v period j k e f and r :: "kv_error + unit" and tv :: "kv_error + json_value option" and n :: "kv_error + nat"
  assume d: "keys_distinct s"
  show "kv_get_raw RedisCache env key s = (Inr (view RedisCache env key s), s)"
    by (auto simp: kv_facade redis_get_raw_def getsM_def view_def cell_def split: option.split)
  show "kv_set_ex RedisCache env key v period s = (r, t) \<Longrightarrow>
      (case deadline RedisCache env period of None \<Rightarrow> (\<exists>e. r = Inl e) \<and> t = s
       | Some d \<Rightarrow> r = Inr () \<and> keys_distinct t \<and> (\<forall>k. cell k t = (if k = key
           then Some \<lparr>ce_key = key, ce_value = v, ce_expires_at = d\<rparr> else cell k s)))"
    using d by (auto simp: kv_facade redis_set_ex_raw_def monad_defs kv_simps split: option.splits if_splits)
  show "kv_take_raw RedisCache env key s = (tv, t) \<Longrightarrow>
      tv = Inr (view RedisCache env key s) \<and> keys_distinct t \<and> (\<forall>k. k \<noteq> key \<longrightarrow> cell k t = cell k s) \<and>
      (\<forall>e. cell key t = Some e \<longrightarrow> cell key s = Some e \<and> \<not> alive RedisCache env e)"
    using d by (auto simp: kv_facade redis_take_raw_def redis_get_raw_def monad_defs kv_simps view_def cell_def [symmetric]
        split: option.splits if_splits dest: cellD)
  show "kv_del RedisCache key s = (r, t) \<Longrightarrow> r = Inr () \<and> keys_distinct t \<and> (\<forall>k. cell k t = (if k = key then None else cell k s))"
    using d by (auto simp: kv_facade redis_del_raw_def modM_def kv_simps split: option.splits dest: cellD)
  assume gc: "kv_delete_expired RedisCache env s = (n, t)"
  have t: "t = s" "n = Inr 0" using gc by (auto simp: kv_facade redis_delete_expired_def retM_def)
  show "(\<exists>m. n = Inr m \<and> length t + m = length s) \<and> keys_distinct t \<and> (\<forall>k. cell k t = cell k s \<or> cell k t = None) \<and>
      (\<forall>k e. cell k s = Some e \<longrightarrow> (alive RedisCache env e \<longrightarrow> cell k t = Some e))"
    using d unfolding t by simp
  show "cell j s = Some e \<Longrightarrow> cell k s = Some f \<Longrightarrow> ce_expires_at e \<le> ce_expires_at f \<Longrightarrow> cell k t = None \<Longrightarrow> cell j t = None"
    unfolding t by simp
qed

lemma any_kv: "kv_contract b"
  by (cases b) (simp_all add: pg_cache.kv_contract_axioms redb_cache.kv_contract_axioms redis_cache.kv_contract_axioms)

end
