(* ===== verification/Identity.thy ===== *)
theory Identity
  imports Kv Event_Bus Database
begin

text \<open>
  Accounts and sessions: \<open>features/identity\<close> with its contract crate, the key schema of \<open>libs/authn_kit\<close>, the
  tokens of \<open>infrastructure/jwt\<close> and the middleware of \<open>infrastructure/http_auth\<close>.  A request runs behind the
  middleware where the router puts it, reads and writes the table \<open>accounts\<close>, the audit trail, the outbox of
  the event bus and the key-value store.  The libraries for signatures and password hashes are arguments.
\<close>

section \<open>Data\<close>

datatype identity_error = AccountNotFound | AccountDuplicated | AccountVersionConflict
  | AccountPasswordEncodeFailed | AccountPasswordDecodeFailed | AccountPasswordIncorrect
  | AccountInvalidCredentials | AccountProtected | RefreshTokenInvalid

datatype authn_error = AccessTokenMissing | AccessTokenInvalid | AccessTokenRevoked

datatype id_error = IdDb err | IdIdentity identity_error | IdAuthn authn_error | IdEvent event_error
  | IdKv kv_error | IdToken | IdInvalid string

datatype token_realm = RealmCustomer | RealmAccount

fun realm_text :: "token_realm \<Rightarrow> string" where
  "realm_text RealmCustomer = ''customer''"
| "realm_text RealmAccount = ''account''"

record claims =
  cm_sub :: string
  cm_exp :: int
  cm_iat :: int
  cm_jti :: string

record token_helper =
  th_realm :: token_realm
  th_secret :: string
  th_access_ttl :: nat
  th_refresh_ttl :: nat

record token_pair =
  tp_access_token :: string
  tp_refresh_token :: string
  tp_expires_in :: nat

text \<open>
  The libraries: signing and checking of claims, the latter at an instant in seconds; hashing with a salt,
  whether a text is a hash, and whether a hash is of a password.
\<close>

record jwt_lib =
  jl_encode :: "string \<Rightarrow> claims \<Rightarrow> string option"
  jl_decode :: "int \<Rightarrow> string \<Rightarrow> string \<Rightarrow> claims option"

record hash_lib =
  hl_hash :: "string \<Rightarrow> string \<Rightarrow> string option"
  hl_parses :: "string \<Rightarrow> bool"
  hl_verify :: "string \<Rightarrow> string \<Rightarrow> bool"

record id_ctx =
  cx_kv :: kv_backend
  cx_helper :: token_helper
  cx_jwt :: jwt_lib
  cx_hash :: hash_lib

record id_env =
  ie_db :: env
  ie_kv :: kv_env
  ie_events :: event_env
  ie_seconds :: int
  ie_salt :: string
  ie_jti :: string
  ie_refresh :: string

record id_state =
  is_accounts :: "account list"
  is_db :: db
  is_events :: event_store
  is_kv :: kv_store

type_synonym 'a im = "(id_state, id_error, 'a) rs"

text \<open>A computation on a part of the state.\<close>

definition zoomM :: "('s \<Rightarrow> 't) \<Rightarrow> ('t \<Rightarrow> 's \<Rightarrow> 's) \<Rightarrow> ('f \<Rightarrow> 'e) \<Rightarrow> ('t, 'f, 'a) rs \<Rightarrow> ('s, 'e, 'a) rs" where
  "zoomM get put err m = (\<lambda>s. case m (get s) of (r, t) \<Rightarrow> (map_sum err (\<lambda>x. x) r, put t s))"

definition on_db :: "'a m \<Rightarrow> 'a im" where
  "on_db = zoomM is_db (\<lambda>t s. s\<lparr>is_db := t\<rparr>) IdDb"

definition on_events :: "'a em \<Rightarrow> 'a im" where
  "on_events = zoomM is_events (\<lambda>t s. s\<lparr>is_events := t\<rparr>) IdEvent"

definition on_kv :: "'a km \<Rightarrow> 'a im" where
  "on_kv = zoomM is_kv (\<lambda>t s. s\<lparr>is_kv := t\<rparr>) IdKv"

text \<open>A rolled back transaction: the key-value store is not part of it.\<close>

definition id_rollback :: "id_state \<Rightarrow> id_state \<Rightarrow> id_state" where
  "id_rollback s t = s\<lparr>is_db := rollback (is_db s) (is_db t), is_events := event_rollback (is_events s) (is_events t),
     is_kv := is_kv t\<rparr>"

section \<open>Value objects\<close>

definition is_mainland_china_mobile :: "string \<Rightarrow> bool" where
  "is_mainland_china_mobile s = (length s = 11 \<and> list_all is_digit (lit s) \<and> s ! 0 = CHR ''1'' \<and>
     51 \<le> (of_char (s ! 1) :: nat) \<and> (of_char (s ! 1) :: nat) \<le> 57)"

text \<open>\<open>PhoneNumber\<close>: \<open>modify\<close> trims, \<open>validate\<close> checks; the length is in bytes.\<close>

definition phone_try_new :: "string \<Rightarrow> id_error + string" where
  "phone_try_new raw =
     (let s = trim_string raw in
      if utf8_len s < 11 then Inl (IdInvalid ''phone_number_too_short'')
      else if utf8_len s > 11 then Inl (IdInvalid ''phone_number_too_long'')
      else if \<not> is_mainland_china_mobile s then Inl (IdInvalid ''phone_number_invalid_cn_mobile'')
      else Inr s)"

text \<open>\<open>masked\<close>, what \<open>Debug\<close> prints of a phone number.\<close>

definition masked :: "string \<Rightarrow> string" where
  "masked s = (if length s < 8 then ''****'' else take 3 s @ ''****'' @ drop (length s - 4) s)"

definition MAX_PASSWORD_LEN :: nat where "MAX_PASSWORD_LEN = 64"

definition password_try_new :: "string \<Rightarrow> id_error + string" where
  "password_try_new raw =
     (let p = trim_string raw in
      if length p < 4 then Inl (IdInvalid ''account_password_too_short'')
      else if length p > MAX_PASSWORD_LEN then Inl (IdInvalid ''account_password_too_long'')
      else Inr p)"

text \<open>\<open>HashedPassword\<close>.\<close>

definition hashed_try_new :: "hash_lib \<Rightarrow> string \<Rightarrow> string \<Rightarrow> id_error + string" where
  "hashed_try_new hl salt raw = (case password_try_new raw of
      Inl e \<Rightarrow> Inl e
    | Inr p \<Rightarrow> (case hl_hash hl salt p of None \<Rightarrow> Inl (IdIdentity AccountPasswordEncodeFailed) | Some h \<Rightarrow> Inr h))"

definition hashed_verify :: "hash_lib \<Rightarrow> string \<Rightarrow> string \<Rightarrow> id_error + unit" where
  "hashed_verify hl h p = (if \<not> hl_parses hl h then Inl (IdIdentity AccountPasswordDecodeFailed)
     else if \<not> hl_verify hl h p then Inl (IdIdentity AccountPasswordIncorrect) else Inr ())"

section \<open>The account table\<close>

definition account_by_id :: "int \<Rightarrow> account im" where
  "account_by_id k = bindM (getsM (\<lambda>s. lookup_by acc_id k (is_accounts s))) (\<lambda>r. ok_or r (IdIdentity AccountNotFound))"

definition account_repository_create :: "account \<Rightarrow> int im" where
  "account_repository_create a =
     seqM (guardM (fits 64 (acc_name a) \<and> fits 11 (acc_phone a) \<and> fits 255 (acc_password a)) (IdDb (EDb StringTooLong)))
    (seqM (checkM (\<lambda>s. \<not> has_key acc_id (acc_id a) (is_accounts s) \<and> \<not> has_key acc_phone (acc_phone a) (is_accounts s))
        (IdIdentity AccountDuplicated))
    (seqM (modM (\<lambda>s. s\<lparr>is_accounts := is_accounts s @ [a]\<rparr>))
    (retM (acc_id a))))"

definition account_repository_update :: "account \<Rightarrow> account im" where
  "account_repository_update p =
     bindM (getsM (\<lambda>s. find (\<lambda>a. acc_id a = acc_id p \<and> acc_version a = acc_version p) (is_accounts s))) (\<lambda>row.
     case row of
       None \<Rightarrow> bindM (getsM (\<lambda>s. has_key acc_id (acc_id p) (is_accounts s))) (\<lambda>exists.
         failM (IdIdentity (if exists then AccountVersionConflict else AccountNotFound)))
     | Some a \<Rightarrow>
         let b = a\<lparr>acc_name := acc_name p, acc_phone := acc_phone p, acc_version := acc_version a + 1\<rparr> in
         seqM (guardM (fits 64 (acc_name p) \<and> fits 11 (acc_phone p)) (IdDb (EDb StringTooLong)))
        (seqM (guardM (in_i64 (acc_version a + 1)) (IdDb (EDb NumericOutOfRange)))
        (seqM (checkM (\<lambda>s. \<forall>x \<in> set (is_accounts s). acc_phone x = acc_phone p \<longrightarrow> acc_id x = acc_id p)
            (IdIdentity AccountDuplicated))
        (seqM (modM (\<lambda>s. s\<lparr>is_accounts := update_where (\<lambda>x. acc_id x = acc_id p \<and> acc_version x = acc_version p) (\<lambda>_. b) (is_accounts s)\<rparr>))
        (retM b)))))"

definition account_repository_delete :: "int \<Rightarrow> unit im" where
  "account_repository_delete k = modM (\<lambda>s. s\<lparr>is_accounts := filter (\<lambda>a. acc_id a \<noteq> k) (is_accounts s)\<rparr>)"

definition is_privileged_exists :: "bool im" where
  "is_privileged_exists = getsM (\<lambda>s. list_ex acc_privileged (is_accounts s))"

definition account_repository_update_password :: "int \<Rightarrow> string \<Rightarrow> unit im" where
  "account_repository_update_password k h =
     bindM (getsM (\<lambda>s. filter (\<lambda>a. acc_id a = k) (is_accounts s))) (\<lambda>rows.
     seqM (guardM (rows \<noteq> [] \<longrightarrow> fits 255 h) (IdDb (EDb StringTooLong)))
    (seqM (guardM (list_all (\<lambda>a. in_i64 (acc_version a + 1)) rows) (IdDb (EDb NumericOutOfRange)))
    (seqM (modM (\<lambda>s. s\<lparr>is_accounts := update_where (\<lambda>a. acc_id a = k)
         (\<lambda>a. a\<lparr>acc_password := h, acc_version := acc_version a + 1\<rparr>) (is_accounts s)\<rparr>))
    (guardM (rows \<noteq> []) (IdIdentity AccountNotFound)))))"

definition get_password_hash :: "int \<Rightarrow> string im" where
  "get_password_hash k = bindM (getsM (\<lambda>s. map_option acc_password (lookup_by acc_id k (is_accounts s))))
     (\<lambda>r. ok_or r (IdIdentity AccountNotFound))"

definition snapshot_of :: "account \<Rightarrow> account_snapshot" where
  "snapshot_of a = \<lparr>acs_id = acc_id a, acs_name = acc_name a, acs_phone = acc_phone a, acs_privileged = acc_privileged a\<rparr>"

section \<open>Tokens\<close>

definition refresh_key :: "string \<Rightarrow> string \<Rightarrow> string" where
  "refresh_key realm token = ''auth:'' @ realm @ '':refresh:'' @ token"

definition subject_refresh_key :: "string \<Rightarrow> string \<Rightarrow> string" where
  "subject_refresh_key realm subject = ''auth:'' @ realm @ '':subject_refresh:'' @ subject"

definition access_jti_key :: "string \<Rightarrow> string \<Rightarrow> string" where
  "access_jti_key realm subject = ''auth:'' @ realm @ '':access_jti:'' @ subject"

text \<open>\<open>TokenHelper::encode_access_token\<close>; the sum is of 64 bits.\<close>

definition access_claims :: "id_ctx \<Rightarrow> id_env \<Rightarrow> int \<Rightarrow> string \<Rightarrow> claims" where
  "access_claims cx env user jti = \<lparr>cm_sub = int_string user,
     cm_exp = (ie_seconds env + int (th_access_ttl (cx_helper cx))) mod 2 ^ 64, cm_iat = ie_seconds env, cm_jti = jti\<rparr>"

definition encode_access_token :: "id_ctx \<Rightarrow> id_env \<Rightarrow> int \<Rightarrow> string \<Rightarrow> (string \<times> nat) im" where
  "encode_access_token cx env user jti =
     bindM (ok_or (jl_encode (cx_jwt cx) (th_secret (cx_helper cx)) (access_claims cx env user jti)) IdToken) (\<lambda>token.
     retM (token, th_access_ttl (cx_helper cx)))"

definition decode_access_token :: "id_ctx \<Rightarrow> id_env \<Rightarrow> string \<Rightarrow> claims option" where
  "decode_access_token cx env token = jl_decode (cx_jwt cx) (ie_seconds env) (th_secret (cx_helper cx)) token"

abbreviation realm_of :: "id_ctx \<Rightarrow> string" where
  "realm_of cx \<equiv> realm_text (th_realm (cx_helper cx))"

abbreviation seconds :: "nat \<Rightarrow> nat" where
  "seconds n \<equiv> n * 1000000"

definition drop_refresh :: "id_ctx \<Rightarrow> id_env \<Rightarrow> int \<Rightarrow> unit im" where
  "drop_refresh cx env user =
     bindM (on_kv (kv_get decode_string (cx_kv cx) (ie_kv env) (subject_refresh_key (realm_of cx) (int_string user)))) (\<lambda>old.
     case old of
       None \<Rightarrow> retM ()
     | Some old_refresh_token \<Rightarrow> on_kv (kv_del (cx_kv cx) (refresh_key (realm_of cx) old_refresh_token)))"

definition issue_tokens :: "id_ctx \<Rightarrow> id_env \<Rightarrow> int \<Rightarrow> token_pair im" where
  "issue_tokens cx env user =
     (let set_ex = (\<lambda>key v ttl. on_kv (kv_set_ex (cx_kv cx) (ie_kv env) key (JStr v) (seconds ttl)));
          realm = realm_of cx; sub = int_string user in
      bindM (encode_access_token cx env user (ie_jti env)) (\<lambda>(access_token, expires_in).
      seqM (drop_refresh cx env user)
     (seqM (set_ex (refresh_key realm (ie_refresh env)) sub (th_refresh_ttl (cx_helper cx)))
     (seqM (set_ex (subject_refresh_key realm sub) (ie_refresh env) (th_refresh_ttl (cx_helper cx)))
     (seqM (set_ex (access_jti_key realm sub) (ie_jti env) (th_access_ttl (cx_helper cx)))
     (retM \<lparr>tp_access_token = access_token, tp_refresh_token = ie_refresh env, tp_expires_in = expires_in\<rparr>))))))"

definition consume_refresh_token :: "id_ctx \<Rightarrow> id_env \<Rightarrow> string \<Rightarrow> int im" where
  "consume_refresh_token cx env token =
     bindM (on_kv (kv_take decode_id (cx_kv cx) (ie_kv env) (refresh_key (realm_of cx) token))) (\<lambda>user.
     ok_or user (IdIdentity RefreshTokenInvalid))"

definition revoke_tokens :: "id_ctx \<Rightarrow> id_env \<Rightarrow> int \<Rightarrow> unit im" where
  "revoke_tokens cx env user =
     seqM (drop_refresh cx env user)
    (seqM (on_kv (kv_del (cx_kv cx) (subject_refresh_key (realm_of cx) (int_string user))))
          (on_kv (kv_del (cx_kv cx) (access_jti_key (realm_of cx) (int_string user)))))"

section \<open>The middleware\<close>

text \<open>
  What a request carries: the \<open>Authorization\<close> header, the parameters \<open>access_token\<close> and \<open>token\<close> when the
  query parses, and the client, whose address the server adds.
\<close>

record id_call =
  cl_authorization :: "string option"
  cl_query :: "(string option \<times> string option) option"
  cl_ip :: string
  cl_user_agent :: "string option"

definition get_access_token_from_header :: "id_call \<Rightarrow> string option" where
  "get_access_token_from_header c = Option.bind (cl_authorization c) (\<lambda>v.
     if take 7 v = ''Bearer '' then Some (drop 7 v) else None)"

definition get_access_token_from_query :: "id_call \<Rightarrow> string option" where
  "get_access_token_from_query c = Option.bind (cl_query c) (\<lambda>(access_token, token).
     case access_token of Some t \<Rightarrow> Some t | None \<Rightarrow> token)"

definition access_token_from_parts :: "id_call \<Rightarrow> id_error + string" where
  "access_token_from_parts c = (case get_access_token_from_header c of
      Some t \<Rightarrow> Inr t
    | None \<Rightarrow> (case get_access_token_from_query c of Some t \<Rightarrow> Inr t | None \<Rightarrow> Inl (IdAuthn AccessTokenMissing)))"

text \<open>\<open>AuthVerifier::verify\<close>: a failure of the store counts as an invalid token.\<close>

definition or_invalid :: "'a im \<Rightarrow> 'a im" where
  "or_invalid m = (\<lambda>s. case m s of (Inl e, t) \<Rightarrow> (Inl (IdAuthn AccessTokenInvalid), t) | (Inr a, t) \<Rightarrow> (Inr a, t))"

definition verify :: "id_ctx \<Rightarrow> id_env \<Rightarrow> string \<Rightarrow> (string \<times> string) im" where
  "verify cx env token =
     bindM (ok_or (decode_access_token cx env token) (IdAuthn AccessTokenInvalid)) (\<lambda>c.
     bindM (or_invalid (on_kv (kv_get decode_string (cx_kv cx) (ie_kv env) (access_jti_key (realm_of cx) (cm_sub c))))) (\<lambda>stored.
     if stored = Some (cm_jti c) then retM (cm_sub c, cm_jti c) else failM (IdAuthn AccessTokenRevoked)))"

definition authenticate :: "id_ctx \<Rightarrow> id_env \<Rightarrow> id_call \<Rightarrow> int im" where
  "authenticate cx env c =
     bindM (liftM (access_token_from_parts c)) (\<lambda>token.
     bindM (verify cx env token) (\<lambda>(subject, jti).
     ok_or (parse_i64 (lit subject)) (IdAuthn AccessTokenInvalid)))"

text \<open>\<open>OperatorContext\<close>.\<close>

definition operator_of :: "id_call \<Rightarrow> int \<Rightarrow> operator" where
  "operator_of c k = \<lparr>op_operator_id = k, op_ip = Some (cl_ip c), op_user_agent = cl_user_agent c\<rparr>"

section \<open>Endpoints\<close>

definition ACCOUNT_CREATED :: string where "ACCOUNT_CREATED = ''slab.account.created''"
definition ACCOUNT_LOGGED_IN :: string where "ACCOUNT_LOGGED_IN = ''slab.account.logged_in''"

text \<open>The JSON of an event, a structure with the identifier as a string.\<close>

definition event_json :: "int \<Rightarrow> string" where
  "event_json k = ''{'' @ [char_of (34 :: nat)] @ ''id'' @ [char_of (34 :: nat)] @ '':'' @ [char_of (34 :: nat)] @
     int_string k @ [char_of (34 :: nat)] @ ''}''"

definition account_create :: "id_ctx \<Rightarrow> id_env \<Rightarrow> operator \<Rightarrow> string \<Rightarrow> string \<Rightarrow> string \<Rightarrow> (int \<times> string) im" where
  "account_create cx env op req_name phone req_password =
     bindM (on_db (new_id (ie_db env))) (\<lambda>k.
     let name = trim_string req_name in
     bindM (liftM (hashed_try_new (cx_hash cx) (ie_salt env) req_password)) (\<lambda>password.
     let account = \<lparr>acc_id = k, acc_name = name, acc_phone = phone, acc_password = password, acc_privileged = False, acc_version = 1\<rparr> in
     txnM id_rollback
      (bindM (account_repository_create account) (\<lambda>_.
       seqM (on_db (record_create (ie_db env) ''account'' k op (SnapAccount (snapshot_of account))))
      (seqM (on_events (publish (ie_events env) ACCOUNT_CREATED (Some (event_json k))))
      (retM (k, name)))))))"

definition account_update :: "id_env \<Rightarrow> operator \<Rightarrow> int \<Rightarrow> string \<Rightarrow> string \<Rightarrow> account im" where
  "account_update env op k name phone = txnM id_rollback
     (bindM (account_by_id k) (\<lambda>before.
      seqM (guardM (\<not> acc_privileged before) (IdIdentity AccountProtected))
     (bindM (account_repository_update (before\<lparr>acc_name := name, acc_phone := phone\<rparr>)) (\<lambda>account.
      seqM (on_db (record_updated (ie_db env) ''account'' k op (SnapAccount (snapshot_of before)) (SnapAccount (snapshot_of account))))
     (retM account)))))"

text \<open>The deletion of an unknown account succeeds and is not recorded.\<close>

definition account_delete :: "id_env \<Rightarrow> operator \<Rightarrow> int \<Rightarrow> int im" where
  "account_delete env op k = txnM id_rollback
     (bindM (getsM (\<lambda>s. lookup_by acc_id k (is_accounts s))) (\<lambda>before.
      seqM (guardM (case before of None \<Rightarrow> True | Some target \<Rightarrow> \<not> acc_privileged target) (IdIdentity AccountProtected))
     (seqM (account_repository_delete k)
     (seqM (case before of None \<Rightarrow> retM ()
        | Some b \<Rightarrow> on_db (record_deleted (ie_db env) ''account'' k op (SnapAccount (snapshot_of b))))
     (retM k)))))"

text \<open>No transaction: every statement commits on its own.\<close>

definition account_reset_password :: "id_ctx \<Rightarrow> id_env \<Rightarrow> operator \<Rightarrow> int \<Rightarrow> string \<Rightarrow> unit im" where
  "account_reset_password cx env op k new_password =
     bindM (liftM (hashed_try_new (cx_hash cx) (ie_salt env) new_password)) (\<lambda>new_hashed.
     bindM (account_by_id k) (\<lambda>before.
     seqM (guardM (\<not> acc_privileged before) (IdIdentity AccountProtected))
    (seqM (account_repository_update_password k new_hashed)
    (bindM (account_by_id k) (\<lambda>after.
     on_db (txnM rollback (record_updated (ie_db env) ''account'' k op (SnapAccount (snapshot_of before)) (SnapAccount (snapshot_of after)))))))))"

definition account_update_password :: "id_ctx \<Rightarrow> id_env \<Rightarrow> operator \<Rightarrow> string \<Rightarrow> string \<Rightarrow> unit im" where
  "account_update_password cx env op old_password new_password =
     (let k = op_operator_id op in txnM id_rollback
     (bindM (account_by_id k) (\<lambda>before.
      bindM (get_password_hash k) (\<lambda>old_hashed.
      seqM (liftM (hashed_verify (cx_hash cx) old_hashed old_password))
     (bindM (liftM (hashed_try_new (cx_hash cx) (ie_salt env) new_password)) (\<lambda>new_hashed.
      seqM (account_repository_update_password k new_hashed)
     (bindM (account_by_id k) (\<lambda>after.
      on_db (record_updated (ie_db env) ''account'' k op (SnapAccount (snapshot_of before)) (SnapAccount (snapshot_of after)))))))))))"

definition account_login :: "id_ctx \<Rightarrow> id_env \<Rightarrow> string \<Rightarrow> string \<Rightarrow> token_pair im" where
  "account_login cx env phone password =
     bindM (getsM (\<lambda>s. lookup_by acc_phone phone (is_accounts s))) (\<lambda>row.
     bindM (ok_or row (IdIdentity AccountInvalidCredentials)) (\<lambda>a.
     seqM (guardM (hashed_verify (cx_hash cx) (acc_password a) password = Inr ()) (IdIdentity AccountInvalidCredentials))
    (bindM (issue_tokens cx env (acc_id a)) (\<lambda>tokens.
     seqM (on_events (publish_with_delay (ie_events env) ACCOUNT_LOGGED_IN (Some (event_json (acc_id a))) (seconds 10)))
    (retM tokens)))))"

definition account_logout :: "id_ctx \<Rightarrow> id_env \<Rightarrow> int \<Rightarrow> unit im" where
  "account_logout cx env k = revoke_tokens cx env k"

definition account_refresh_token :: "id_ctx \<Rightarrow> id_env \<Rightarrow> string \<Rightarrow> token_pair im" where
  "account_refresh_token cx env refresh_token =
     bindM (consume_refresh_token cx env refresh_token) (\<lambda>k. issue_tokens cx env k)"

definition account_get :: "int \<Rightarrow> account_snapshot im" where
  "account_get k = bindM (account_by_id k) (\<lambda>a. retM (snapshot_of a))"

definition profile_current :: "int \<Rightarrow> account_snapshot im" where
  "profile_current k = bindM (account_by_id k) (\<lambda>a. retM (snapshot_of a))"

text \<open>The hook at start-up; phone and password are the two environment variables or their defaults.\<close>

definition before_starting :: "id_ctx \<Rightarrow> id_env \<Rightarrow> string option \<Rightarrow> string option \<Rightarrow> unit im" where
  "before_starting cx env seed_phone seed_password = txnM id_rollback
     (bindM is_privileged_exists (\<lambda>exists.
      if exists then retM ()
      else bindM (on_db (new_id (ie_db env))) (\<lambda>k.
        bindM (liftM (phone_try_new (case seed_phone of None \<Rightarrow> ''13888888888'' | Some p \<Rightarrow> p))) (\<lambda>phone.
        bindM (liftM (hashed_try_new (cx_hash cx) (ie_salt env) (case seed_password of None \<Rightarrow> ''admin123!'' | Some p \<Rightarrow> p))) (\<lambda>password.
        bindM (account_repository_create \<lparr>acc_id = k, acc_name = ''admin'', acc_phone = phone, acc_password = password,
             acc_privileged = True, acc_version = 1\<rparr>) (\<lambda>_. retM ()))))))"

section \<open>Requests\<close>

datatype id_request =
    CreateAccount id_call string string string
  | UpdateAccount id_call int string string
  | DeleteAccount id_call int
  | ResetPassword id_call int string
  | UpdatePassword id_call string string
  | Logout id_call
  | GetAccount id_call int
  | CurrentProfile id_call
  | Login string string
  | Refresh string
  | StartUp "string option" "string option"
  | CollectCache

datatype id_reply = RCreated int string | RUpdated int string string | RDeleted int | RDone
  | RProfile account_snapshot | RTokens token_pair

text \<open>
  A request as the router runs it: the middleware first where the module says so, then the extractors, which
  trim and check phone numbers and passwords, then the endpoint.
\<close>

definition replyM :: "('a \<Rightarrow> id_reply) \<Rightarrow> 'a im \<Rightarrow> id_reply im" where
  "replyM f m = bindM m (\<lambda>a. retM (f a))"

fun handler :: "id_ctx \<Rightarrow> id_env \<Rightarrow> id_request \<Rightarrow> id_reply im" where
  "handler cx env (CreateAccount c name phone password) =
     bindM (authenticate cx env c) (\<lambda>k. bindM (liftM (phone_try_new phone)) (\<lambda>phone. bindM (liftM (password_try_new password)) (\<lambda>password.
       replyM (\<lambda>(k, name). RCreated k name) (account_create cx env (operator_of c k) name phone password))))"
| "handler cx env (UpdateAccount c target name phone) =
     bindM (authenticate cx env c) (\<lambda>k. bindM (liftM (phone_try_new phone)) (\<lambda>phone.
       replyM (\<lambda>a. RUpdated (acc_id a) (acc_name a) (acc_phone a)) (account_update env (operator_of c k) target name phone)))"
| "handler cx env (DeleteAccount c target) =
     bindM (authenticate cx env c) (\<lambda>k. replyM RDeleted (account_delete env (operator_of c k) target))"
| "handler cx env (ResetPassword c target password) =
     bindM (authenticate cx env c) (\<lambda>k. bindM (liftM (password_try_new password)) (\<lambda>password.
       replyM (\<lambda>_. RDone) (account_reset_password cx env (operator_of c k) target password)))"
| "handler cx env (UpdatePassword c old new) =
     bindM (authenticate cx env c) (\<lambda>k. bindM (liftM (password_try_new old)) (\<lambda>old. bindM (liftM (password_try_new new)) (\<lambda>new.
       replyM (\<lambda>_. RDone) (account_update_password cx env (operator_of c k) old new))))"
| "handler cx env (Logout c) = bindM (authenticate cx env c) (\<lambda>k. replyM (\<lambda>_. RDone) (account_logout cx env k))"
| "handler cx env (GetAccount c target) = bindM (authenticate cx env c) (\<lambda>k. replyM RProfile (account_get target))"
| "handler cx env (CurrentProfile c) = bindM (authenticate cx env c) (\<lambda>k. replyM RProfile (profile_current k))"
| "handler cx env (Login phone password) =
     bindM (liftM (phone_try_new phone)) (\<lambda>phone. bindM (liftM (password_try_new password)) (\<lambda>password.
       replyM RTokens (account_login cx env phone password)))"
| "handler cx env (Refresh token) = replyM RTokens (account_refresh_token cx env token)"
| "handler cx env (StartUp phone password) = replyM (\<lambda>_. RDone) (before_starting cx env phone password)"
| "handler cx env CollectCache = replyM (\<lambda>_. RDone) (on_kv (kv_delete_expired (cx_kv cx) (ie_kv env)))"

definition id_after :: "id_ctx \<Rightarrow> id_env \<Rightarrow> id_request \<Rightarrow> id_state \<Rightarrow> id_state" where
  "id_after cx env q s = snd (handler cx env q s)"

definition empty_id :: id_state where
  "empty_id = \<lparr>is_accounts = [], is_db = empty_db, is_events = empty_events, is_kv = []\<rparr>"

text \<open>
  The runs: what was requested, when and in which state, and the state after it.  The instants of the store
  do not run backwards.
\<close>

type_synonym id_log = "(id_env \<times> id_request \<times> id_state) list"

inductive id_run :: "id_ctx \<Rightarrow> int \<Rightarrow> id_log \<Rightarrow> id_state \<Rightarrow> bool" for cx where
  start: "id_run cx now [] empty_id"
| step: "id_run cx now log s \<Longrightarrow> now \<le> instant_of (cx_kv cx) (ie_kv env) \<Longrightarrow>
    id_run cx (instant_of (cx_kv cx) (ie_kv env)) (log @ [(env, q, s)]) (id_after cx env q s)"

end
