(* ===== verification/Sessions.thy ===== *)
theory Sessions
  imports Identity
begin

text \<open>
  What accounts and sessions guarantee: the account table stays well formed, privileged accounts are beyond
  the reach of every request, a protected request needs the current session of its account, a token is
  accepted only while it is the last one issued, and an account has at most one usable refresh token.
\<close>

section \<open>Frames\<close>

lemma pres_zoom: "(\<And>s t. I s \<Longrightarrow> I (put t s)) \<Longrightarrow> pres I (zoomM get put err m)"
  by (auto simp: pres_def zoomM_def split: prod.split)

lemma zoom_OK: "zoomM get put err m s = (Inr a, t) \<longleftrightarrow> (\<exists>u. m (get s) = (Inr a, u) \<and> t = put u s)"
  by (cases "m (get s)"; cases "fst (m (get s))") (auto simp: zoomM_def)

lemma pres_on_db: "(\<And>s d. I s \<Longrightarrow> I (s\<lparr>is_db := d\<rparr>)) \<Longrightarrow> pres I (on_db m)"
  unfolding on_db_def by (rule pres_zoom)

lemma pres_on_events: "(\<And>s d. I s \<Longrightarrow> I (s\<lparr>is_events := d\<rparr>)) \<Longrightarrow> pres I (on_events m)"
  unfolding on_events_def by (rule pres_zoom)

lemma pres_on_kv: "(\<And>s d. I s \<Longrightarrow> I (s\<lparr>is_kv := d\<rparr>)) \<Longrightarrow> pres I (on_kv m)"
  unfolding on_kv_def by (rule pres_zoom)

lemmas pres_on = pres_on_db pres_on_events pres_on_kv

text \<open>Reading the store changes nothing.\<close>

lemma kv_get_reads: "snd (kv_get decode b env key s) = s"
  by (cases b) (auto simp: kv_get_def kv_get_raw_def pg_get_raw_def redb_get_raw_def redis_get_raw_def monad_defs)

lemma kv_get_value: "keys_distinct s \<Longrightarrow> kv_get decode b env key s = (Inr (Option.bind (view b env key s) decode), s)"
  by (simp add: kv_get_def kv_contract.get_law [OF any_kv] monad_defs)

lemma on_kv_get: "keys_distinct (is_kv s) \<Longrightarrow>
    on_kv (kv_get decode b env key) s = (Inr (Option.bind (view b env key (is_kv s)) decode), s)"
  by (simp add: on_kv_def zoomM_def kv_get_value)

lemma pres_kv_get: "pres I (on_kv (kv_get decode b env key))"
proof -
  have "snd (on_kv (kv_get decode b env key) s) = s" for s
    using kv_get_reads [of decode b env key "is_kv s"] by (simp add: on_kv_def zoomM_def case_prod_beta)
  then show ?thesis by (simp add: pres_def)
qed

lemma pres_or_invalid: "pres I m \<Longrightarrow> pres I (or_invalid m)"
  by (simp add: pres_wp wpM_def or_invalid_def split: prod.splits sum.splits)

lemma pres_verify: "pres I (verify cx env token)"
  unfolding verify_def by (intro pres_intros pres_or_invalid pres_kv_get)

lemma pres_authenticate: "pres I (authenticate cx env c)"
  unfolding authenticate_def by (intro pres_intros pres_verify)

lemma authenticate_reads: "authenticate cx env c s = (r, t) \<Longrightarrow> t = s"
  using pres_authenticate [of "\<lambda>x. x = s" cx env c] by (auto simp: pres_def)

section \<open>The account table\<close>

text \<open>What the endpoints keep of the accounts and of the store.\<close>

lemma pres_repository:
  assumes "\<And>s l. I s \<Longrightarrow> I (s\<lparr>is_accounts := l\<rparr>)"
  shows "pres I (account_repository_create a)" "pres I (account_repository_update a)"
    "pres I (account_repository_delete k)" "pres I (account_repository_update_password k h)"
    "pres I (account_by_id k)" "pres I (get_password_hash k)" "pres I is_privileged_exists"
  unfolding account_repository_create_def account_repository_update_def account_repository_delete_def Let_def
    account_repository_update_password_def account_by_id_def get_password_hash_def is_privileged_exists_def
  by (intro pres_intros pres_modM assms; assumption)+

text \<open>Only logins, refreshes, logouts and the collector touch the store.\<close>

fun touches_cache :: "id_request \<Rightarrow> bool" where
  "touches_cache (Login _ _) = True"
| "touches_cache (Refresh _) = True"
| "touches_cache (Logout _) = True"
| "touches_cache CollectCache = True"
| "touches_cache _ = False"

lemma pres_id_txn:
  assumes "pres I m" "\<And>s t. I s \<Longrightarrow> I t \<Longrightarrow> I (id_rollback s t)"
  shows "pres I (txnM id_rollback m)"
  using assms by (rule pres_txn)

lemmas endpoint_defs = account_create_def account_update_def account_delete_def account_reset_password_def
  account_update_password_def account_get_def profile_current_def before_starting_def replyM_def

lemma pres_cache: "\<not> touches_cache q \<Longrightarrow> pres (\<lambda>s. is_kv s = x) (handler cx env q)"
  by (cases q) (simp_all add: endpoint_defs Let_def,
      (intro pres_intros pres_authenticate pres_id_txn pres_on_db pres_on_events pres_repository;
       (simp add: id_rollback_def)?)+)

lemma cache_kept: "\<not> touches_cache q \<Longrightarrow> is_kv (id_after cx env q s) = is_kv s"
  using pres_cache [of q "is_kv s" cx env] by (simp add: pres_def id_after_def)

text \<open>A well-formed account table.\<close>

definition account_ok :: "account \<Rightarrow> bool" where
  "account_ok a = (is_mainland_china_mobile (acc_phone a) \<and> length (acc_name a) \<le> 64 \<and> length (acc_password a) \<le> 255 \<and>
     1 \<le> acc_version a \<and> in_i64 (acc_version a))"

definition accounts_ok :: "account list \<Rightarrow> bool" where
  "accounts_ok l = (distinct (map acc_id l) \<and> distinct (map acc_phone l) \<and> (\<forall>a \<in> set l. account_ok a))"

lemma phone_try_new_ok: "phone_try_new raw = Inr p \<Longrightarrow> is_mainland_china_mobile p"
  by (auto simp: phone_try_new_def Let_def split: if_splits)

lemma pres_bind_lift: "(\<And>a. r = Inr a \<Longrightarrow> pres I (f a)) \<Longrightarrow> pres I (bindM (liftM r) f)"
  by (cases r) (auto simp: pres_wp wp)

lemma pres_accounts_create:
  assumes "is_mainland_china_mobile (acc_phone a)" "acc_version a = 1"
  shows "pres (\<lambda>s. accounts_ok (is_accounts s)) (account_repository_create a)"
  unfolding pres_wp account_repository_create_def
  using assms by (auto simp: wp accounts_ok_def account_ok_def fits_def has_key_def i64_range_defs)

lemma update_account_ok:
  assumes "accounts_ok l" "a \<in> set l" "acc_id b = acc_id a" "account_ok b"
    and "\<forall>x \<in> set l. acc_phone x = acc_phone b \<longrightarrow> acc_id x = acc_id a"
    and "\<And>x. x \<in> set l \<Longrightarrow> P x \<longleftrightarrow> acc_id x = acc_id a"
  shows "accounts_ok (update_where P (\<lambda>_. b) l)"
proof -
  let ?g = "\<lambda>x. if P x then b else x"
  have id: "acc_id (?g x) = acc_id x" if "x \<in> set l" for x using assms(3,6) that by simp
  then have "map acc_id (map ?g l) = map acc_id l" by simp
  moreover have "inj_on (\<lambda>x. acc_phone (?g x)) (set l)"
  proof (rule inj_onI)
    fix x y assume x: "x \<in> set l" and y: "y \<in> set l" and eq: "acc_phone (?g x) = acc_phone (?g y)"
    have ids: "inj_on acc_id (set l)" and ph: "inj_on acc_phone (set l)"
      using assms(1) by (simp_all add: accounts_ok_def distinct_map)
    from eq x y assms(5,6) have "acc_id x = acc_id y"
      by (auto split: if_splits dest: inj_onD [OF ph])
    with ids x y show "x = y" by (simp add: inj_on_def)
  qed
  ultimately show ?thesis
    using assms(1,4) by (auto simp: accounts_ok_def update_where_def distinct_map comp_inj_on_iff inj_on_def comp_def)
qed

lemma pres_accounts_update:
  assumes "is_mainland_china_mobile (acc_phone p)"
  shows "pres (\<lambda>s. accounts_ok (is_accounts s)) (account_repository_update p)"
proof (unfold pres_wp, intro allI impI)
  fix s :: id_state
  assume ok: "accounts_ok (is_accounts s)"
  let ?J = "\<lambda>s :: id_state. accounts_ok (is_accounts s)"
  show "wpM (account_repository_update p) (\<lambda>_. ?J) (\<lambda>_. ?J) s"
  proof (cases "find (\<lambda>a. acc_id a = acc_id p \<and> acc_version a = acc_version p) (is_accounts s)")
    case None
    then show ?thesis using ok by (simp add: account_repository_update_def wp)
  next
    case (Some a)
    then have a: "a \<in> set (is_accounts s)" "acc_id a = acc_id p" "acc_version a = acc_version p"
      by (auto simp: find_Some_iff)
    let ?b = "a\<lparr>acc_name := acc_name p, acc_phone := acc_phone p, acc_version := acc_version a + 1\<rparr>"
    have "accounts_ok (update_where (\<lambda>x. acc_id x = acc_id p \<and> acc_version x = acc_version p) (\<lambda>_. ?b) (is_accounts s))"
      if "fits 64 (acc_name p)" "in_i64 (acc_version a + 1)"
        "\<forall>x \<in> set (is_accounts s). acc_phone x = acc_phone p \<longrightarrow> acc_id x = acc_id p"
    proof (rule update_account_ok [OF ok a(1)])
      have "account_ok a" using ok a(1) by (simp add: accounts_ok_def)
      then show "account_ok ?b" using assms that by (simp add: account_ok_def fits_def)
      show "\<forall>x \<in> set (is_accounts s). acc_phone x = acc_phone ?b \<longrightarrow> acc_id x = acc_id a" using that(3) a(2) by simp
      fix x assume "x \<in> set (is_accounts s)"
      moreover have "inj_on acc_id (set (is_accounts s))" using ok by (simp add: accounts_ok_def distinct_map)
      ultimately show "(acc_id x = acc_id p \<and> acc_version x = acc_version p) \<longleftrightarrow> acc_id x = acc_id a"
        using a by (metis inj_onD)
    qed simp
    then show ?thesis using ok Some by (simp add: account_repository_update_def wp)
  qed
qed

lemma pres_accounts_delete: "pres (\<lambda>s. accounts_ok (is_accounts s)) (account_repository_delete k)"
  unfolding pres_wp account_repository_delete_def by (auto simp: wp accounts_ok_def distinct_map_filter)

lemma pres_accounts_password: "pres (\<lambda>s. accounts_ok (is_accounts s)) (account_repository_update_password k h)"
proof (unfold pres_wp account_repository_update_password_def, intro allI impI)
  fix s :: id_state
  assume ok: "accounts_ok (is_accounts s)"
  let ?l = "is_accounts s" and ?f = "\<lambda>a. a\<lparr>acc_password := h, acc_version := acc_version a + 1\<rparr>"
  have "accounts_ok (update_where (\<lambda>a. acc_id a = k) ?f ?l)"
    if "filter (\<lambda>a. acc_id a = k) ?l \<noteq> [] \<longrightarrow> fits 255 h" "list_all (\<lambda>a. in_i64 (acc_version a + 1)) (filter (\<lambda>a. acc_id a = k) ?l)"
    using ok that
    by (auto simp: accounts_ok_def map_update_where ball_update_where account_ok_def fits_def list_all_iff filter_empty_conv)
  then show "wpM (bindM (getsM (\<lambda>s. filter (\<lambda>a. acc_id a = k) (is_accounts s))) (\<lambda>rows.
     seqM (guardM (rows \<noteq> [] \<longrightarrow> fits 255 h) (IdDb (EDb StringTooLong)))
    (seqM (guardM (list_all (\<lambda>a. in_i64 (acc_version a + 1)) rows) (IdDb (EDb NumericOutOfRange)))
    (seqM (modM (\<lambda>s. s\<lparr>is_accounts := update_where (\<lambda>a. acc_id a = k)
         (\<lambda>a. a\<lparr>acc_password := h, acc_version := acc_version a + 1\<rparr>) (is_accounts s)\<rparr>))
    (guardM (rows \<noteq> []) (IdIdentity AccountNotFound)))))) (\<lambda>_ s. accounts_ok (is_accounts s)) (\<lambda>_ s. accounts_ok (is_accounts s)) s"
    using ok by (simp add: wp)
qed

lemma pres_reads: "pres I (account_by_id k)" "pres I (get_password_hash k)" "pres I is_privileged_exists"
  unfolding account_by_id_def get_password_hash_def is_privileged_exists_def by (intro pres_intros)+

text \<open>The endpoints on the session store leave the accounts alone.\<close>

lemma pres_tokens:
  assumes "\<And>s d. I s \<Longrightarrow> I (s\<lparr>is_kv := d\<rparr>)"
  shows "pres I (drop_refresh cx env k)" "pres I (issue_tokens cx env k)" "pres I (consume_refresh_token cx env r)"
    "pres I (revoke_tokens cx env k)"
  unfolding issue_tokens_def consume_refresh_token_def revoke_tokens_def drop_refresh_def encode_access_token_def Let_def
  by (intro pres_intros pres_on_kv assms; assumption)+

lemma pres_accounts: "pres (\<lambda>s. accounts_ok (is_accounts s)) (handler cx env q)"
proof (cases q)
  case (CreateAccount c name phone password)
  then show ?thesis
    by (simp add: endpoint_defs Let_def,
      intro pres_bind pres_bind_lift pres_authenticate pres_id_txn pres_on_db pres_on_events pres_accounts_create pres_seq pres_ret)
      (auto simp: id_rollback_def phone_try_new_ok)
next
  case (UpdateAccount c target name phone)
  then show ?thesis
    by (simp add: endpoint_defs Let_def,
      intro pres_bind pres_bind_lift pres_authenticate pres_id_txn pres_on_db pres_reads pres_accounts_update pres_seq pres_ret pres_guard)
      (auto simp: id_rollback_def phone_try_new_ok)
next
  case (StartUp phone password)
  then show ?thesis
    by (simp add: endpoint_defs Let_def,
      intro pres_bind pres_bind_lift pres_id_txn pres_on_db pres_reads pres_accounts_create pres_if pres_ret)
      (auto simp: id_rollback_def phone_try_new_ok)
qed (simp_all add: endpoint_defs account_login_def account_logout_def account_refresh_token_def Let_def,
    (intro pres_intros pres_authenticate pres_id_txn pres_on_db pres_on_events pres_on_kv pres_reads
       pres_accounts_delete pres_accounts_password pres_tokens; (simp add: id_rollback_def)?)+)

section \<open>Privileged accounts\<close>

text \<open>The privileged accounts, by what identifies them.\<close>

definition privileged_list :: "account list \<Rightarrow> (int \<times> string \<times> string) list" where
  "privileged_list l = map (\<lambda>a. (acc_id a, acc_name a, acc_phone a)) (filter acc_privileged l)"

abbreviation privileged_of :: "id_state \<Rightarrow> (int \<times> string \<times> string) list" where
  "privileged_of s \<equiv> privileged_list (is_accounts s)"

lemma privileged_update_other:
  "(\<forall>x \<in> set l. P x \<longrightarrow> \<not> acc_privileged x) \<Longrightarrow> \<not> acc_privileged b \<Longrightarrow>
     privileged_list (update_where P (\<lambda>_. b) l) = privileged_list l"
  by (induction l) (auto simp: privileged_list_def)

lemma privileged_update_same:
  "(\<And>x. acc_id (f x) = acc_id x \<and> acc_name (f x) = acc_name x \<and> acc_phone (f x) = acc_phone x \<and> acc_privileged (f x) = acc_privileged x)
     \<Longrightarrow> privileged_list (update_where P f l) = privileged_list l"
  by (induction l) (auto simp: privileged_list_def)

lemma privileged_filter:
  "(\<forall>x \<in> set l. acc_privileged x \<longrightarrow> Q x) \<Longrightarrow> privileged_list (filter Q l) = privileged_list l"
  by (induction l) (auto simp: privileged_list_def)

lemma the_account:
  assumes "accounts_ok l" "lookup_by acc_id k l = Some a" "x \<in> set l" "acc_id x = k"
  shows "x = a"
  using assms by (metis accounts_ok_def distinct_lookup_by option.inject)

text \<open>A run that ends with a value, step by step.\<close>

lemma account_by_id_OK: "account_by_id k s = (Inr a, t) \<longleftrightarrow> lookup_by acc_id k (is_accounts s) = Some a \<and> t = s"
  by (auto simp: account_by_id_def monad_OK)

lemma on_db_accounts: "on_db m s = (r, t) \<Longrightarrow> is_accounts t = is_accounts s"
  by (auto simp: on_db_def zoomM_def split: prod.splits)

lemma on_events_accounts: "on_events m s = (r, t) \<Longrightarrow> is_accounts t = is_accounts s"
  by (auto simp: on_events_def zoomM_def split: prod.splits)

lemma update_privileged:
  assumes "accounts_ok (is_accounts s)" "account_repository_update p s = (Inr b, t)"
    and "lookup_by acc_id (acc_id p) (is_accounts s) = Some a" "\<not> acc_privileged a"
  shows "privileged_of t = privileged_of s"
proof -
  obtain x where x: "find (\<lambda>a. acc_id a = acc_id p \<and> acc_version a = acc_version p) (is_accounts s) = Some x"
    and t: "is_accounts t = update_where (\<lambda>x. acc_id x = acc_id p \<and> acc_version x = acc_version p)
      (\<lambda>_. x\<lparr>acc_name := acc_name p, acc_phone := acc_phone p, acc_version := acc_version x + 1\<rparr>) (is_accounts s)"
    using assms(2) by (auto simp: account_repository_update_def monad_OK Let_def split: option.splits)
  from x have "x \<in> set (is_accounts s)" "acc_id x = acc_id p" by (auto simp: find_Some_iff)
  then have "x = a" using the_account [OF assms(1,3)] by simp
  moreover have "\<not> acc_privileged y" if "y \<in> set (is_accounts s)" "acc_id y = acc_id p" for y
    using the_account [OF assms(1,3) that] assms(4) by simp
  ultimately show ?thesis
    unfolding t using assms(4) by (intro privileged_update_other) auto
qed

lemma pres_privileged_password: "pres (\<lambda>s. privileged_of s = X) (account_repository_update_password k h)"
  unfolding account_repository_update_password_def
  by (intro pres_intros pres_modM) (simp add: privileged_update_same)

lemma delete_privileged:
  assumes "accounts_ok l" "case lookup_by acc_id k l of None \<Rightarrow> True | Some a \<Rightarrow> \<not> acc_privileged a"
  shows "privileged_list (filter (\<lambda>a. acc_id a \<noteq> k) l) = privileged_list l"
  using assms the_account [OF assms(1)]
  by (intro privileged_filter) (auto simp: lookup_by_None split: option.splits)

text \<open>One request.\<close>

lemma txn_privileged:
  assumes "\<And>a t. m s = (Inr a, t) \<Longrightarrow> privileged_of t = X" "privileged_of s = X"
  shows "privileged_of (snd (txnM id_rollback m s)) = X"
  using assms by (cases "m s"; cases "fst (m s)") (auto simp: txnM_def id_rollback_def)

lemma update_keeps_privileged:
  assumes "accounts_ok (is_accounts s)"
  shows "privileged_of (snd (account_update env op k name phone s)) = privileged_of s"
  unfolding account_update_def
proof (rule txn_privileged)
  fix a t
  assume "bindM (account_by_id k) (\<lambda>before.
      seqM (guardM (\<not> acc_privileged before) (IdIdentity AccountProtected))
     (bindM (account_repository_update (before\<lparr>acc_name := name, acc_phone := phone\<rparr>)) (\<lambda>account.
      seqM (on_db (record_updated (ie_db env) ''account'' k op (SnapAccount (snapshot_of before)) (SnapAccount (snapshot_of account))))
     (retM account)))) s = (Inr a, t)"
  then obtain before b u where before: "lookup_by acc_id k (is_accounts s) = Some before" "\<not> acc_privileged before"
    and upd: "account_repository_update (before\<lparr>acc_name := name, acc_phone := phone\<rparr>) s = (Inr b, u)"
    and t: "is_accounts t = is_accounts u"
    by (auto simp: monad_OK account_by_id_OK dest: on_db_accounts)
  have "acc_id before = k" using before(1) by (auto dest: lookup_by_SomeD)
  then show "privileged_of t = privileged_of s"
    using update_privileged [OF assms upd] before t by simp
qed simp

lemma delete_keeps_privileged:
  assumes "accounts_ok (is_accounts s)"
  shows "privileged_of (snd (account_delete env op k s)) = privileged_of s"
  unfolding account_delete_def
proof (rule txn_privileged)
  fix a t
  assume "bindM (getsM (\<lambda>s. lookup_by acc_id k (is_accounts s))) (\<lambda>before.
      seqM (guardM (case before of None \<Rightarrow> True | Some target \<Rightarrow> \<not> acc_privileged target) (IdIdentity AccountProtected))
     (seqM (account_repository_delete k)
     (seqM (case before of None \<Rightarrow> retM ()
        | Some b \<Rightarrow> on_db (record_deleted (ie_db env) ''account'' k op (SnapAccount (snapshot_of b))))
     (retM k)))) s = (Inr a, t)"
  then have "case lookup_by acc_id k (is_accounts s) of None \<Rightarrow> True | Some target \<Rightarrow> \<not> acc_privileged target"
    and "is_accounts t = filter (\<lambda>a. acc_id a \<noteq> k) (is_accounts s)"
    by (auto simp: monad_OK account_repository_delete_def split: option.splits dest: on_db_accounts)
  then show "privileged_of t = privileged_of s"
    using delete_privileged [OF assms] by simp
qed simp

lemma pres_privileged_create:
  "\<not> acc_privileged a \<Longrightarrow> pres (\<lambda>s. privileged_of s = X) (account_repository_create a)"
  unfolding account_repository_create_def by (intro pres_intros pres_modM) (simp add: privileged_list_def)

lemma bind_reads_privileged:
  assumes "\<And>x. pres (\<lambda>y. y = x) m" "\<And>a. privileged_of (snd (f a s)) = privileged_of s"
  shows "privileged_of (snd (bindM m f s)) = privileged_of s"
proof (cases "m s")
  case (Pair r t)
  then have "t = s" using assms(1) [of s] by (auto simp: pres_def)
  then show ?thesis using Pair assms(2) by (cases r) (simp_all add: bindM_def)
qed

lemma reply_privileged: "privileged_of (snd (replyM f m s)) = privileged_of (snd (m s))"
  by (cases "m s"; cases "fst (m s)") (simp_all add: replyM_def monad_defs)

lemma request_keeps_privileged:
  assumes "accounts_ok (is_accounts s)" "\<forall>phone password. q = StartUp phone password \<longrightarrow> privileged_of s \<noteq> []"
  shows "privileged_of (id_after cx env q s) = privileged_of s"
proof -
  have pres: "pres (\<lambda>s. privileged_of s = X) (handler cx env q) \<Longrightarrow> privileged_of s = X \<Longrightarrow> ?thesis" for X
    by (auto simp: pres_def id_after_def)
  show ?thesis
  proof (cases q)
    case (UpdateAccount c target name phone)
    show ?thesis unfolding UpdateAccount id_after_def handler.simps
      by (intro bind_reads_privileged pres_authenticate pres_lift) (simp add: reply_privileged update_keeps_privileged assms(1))
  next
    case (DeleteAccount c target)
    show ?thesis unfolding DeleteAccount id_after_def handler.simps
      by (intro bind_reads_privileged pres_authenticate) (simp add: reply_privileged delete_keeps_privileged assms(1))
  next
    case (StartUp phone password)
    then have "list_ex acc_privileged (is_accounts s)"
      using assms(2) by (auto simp: privileged_list_def filter_empty_conv list_ex_iff)
    then show ?thesis
      by (simp add: StartUp id_after_def before_starting_def is_privileged_exists_def replyM_def monad_defs)
  qed (rule pres [OF _ refl]; simp add: endpoint_defs account_login_def account_logout_def account_refresh_token_def Let_def;
      intro pres_intros pres_authenticate pres_id_txn pres_on_db pres_on_events pres_on_kv pres_reads
       pres_privileged_create pres_privileged_password pres_tokens; simp add: id_rollback_def)+
qed

section \<open>The session store\<close>

text \<open>
  The store as a map from keys to entries, and what issuing, consuming and revoking do to it: the code
  refines these functions on maps, whatever the back end.
\<close>

definition cells :: "id_state \<Rightarrow> string \<Rightarrow> cache_entry option" where
  "cells s = (\<lambda>k. cell k (is_kv s))"

definition seen :: "id_ctx \<Rightarrow> id_env \<Rightarrow> (string \<Rightarrow> cache_entry option) \<Rightarrow> string \<Rightarrow> json_value option" where
  "seen cx env c key = (case c key of None \<Rightarrow> None
     | Some e \<Rightarrow> if alive (cx_kv cx) (ie_kv env) e then Some (ce_value e) else None)"

abbreviation refresh_of :: "id_ctx \<Rightarrow> string \<Rightarrow> string" where
  "refresh_of cx token \<equiv> refresh_key (realm_of cx) token"

abbreviation subject_of :: "id_ctx \<Rightarrow> string \<Rightarrow> string" where
  "subject_of cx u \<equiv> subject_refresh_key (realm_of cx) u"

abbreviation jti_of :: "id_ctx \<Rightarrow> string \<Rightarrow> string" where
  "jti_of cx u \<equiv> access_jti_key (realm_of cx) u"

abbreviation usable :: "id_state \<Rightarrow> bool" where
  "usable s \<equiv> keys_distinct (is_kv s)"

lemma view_seen: "view (cx_kv cx) (ie_kv env) key (is_kv s) = seen cx env (cells s) key"
  by (simp add: view_def seen_def cells_def)

text \<open>Keys of different kinds are different, whatever the token a client sends.\<close>

lemma keys_apart [simp]:
  "refresh_key r x \<noteq> access_jti_key r y" "access_jti_key r y \<noteq> refresh_key r x"
  "subject_refresh_key r x \<noteq> access_jti_key r y" "access_jti_key r y \<noteq> subject_refresh_key r x"
  "refresh_key r x \<noteq> subject_refresh_key r y" "subject_refresh_key r y \<noteq> refresh_key r x"
  "refresh_key r x = refresh_key r y \<longleftrightarrow> x = y" "subject_refresh_key r x = subject_refresh_key r y \<longleftrightarrow> x = y"
  "access_jti_key r x = access_jti_key r y \<longleftrightarrow> x = y"
  by (simp_all add: refresh_key_def subject_refresh_key_def access_jti_key_def)

definition dropped :: "id_ctx \<Rightarrow> id_env \<Rightarrow> string \<Rightarrow> (string \<Rightarrow> cache_entry option) \<Rightarrow> string \<Rightarrow> cache_entry option" where
  "dropped cx env u c = (case Option.bind (seen cx env c (subject_of cx u)) decode_string of
      None \<Rightarrow> c | Some old \<Rightarrow> c(refresh_of cx old := None))"

definition lifetime :: "id_ctx \<Rightarrow> id_env \<Rightarrow> nat \<Rightarrow> int option" where
  "lifetime cx env ttl = deadline (cx_kv cx) (ie_kv env) (seconds ttl)"

definition put_cell :: "string \<Rightarrow> string \<Rightarrow> int \<Rightarrow> (string \<Rightarrow> cache_entry option) \<Rightarrow> string \<Rightarrow> cache_entry option" where
  "put_cell key v d c = c(key \<mapsto> \<lparr>ce_key = key, ce_value = JStr v, ce_expires_at = d\<rparr>)"

definition issued_map :: "id_ctx \<Rightarrow> id_env \<Rightarrow> int \<Rightarrow> (string \<Rightarrow> cache_entry option) \<Rightarrow> string \<Rightarrow> cache_entry option" where
  "issued_map cx env user c =
     (let u = int_string user in
      if jl_encode (cx_jwt cx) (th_secret (cx_helper cx)) (access_claims cx env user (ie_jti env)) = None then c
      else case lifetime cx env (th_refresh_ttl (cx_helper cx)) of
        None \<Rightarrow> dropped cx env u c
      | Some d \<Rightarrow>
          let c' = put_cell (subject_of cx u) (ie_refresh env) d (put_cell (refresh_of cx (ie_refresh env)) u d (dropped cx env u c)) in
          (case lifetime cx env (th_access_ttl (cx_helper cx)) of
             None \<Rightarrow> c'
           | Some d' \<Rightarrow> put_cell (jti_of cx u) (ie_jti env) d' c'))"

definition can_issue :: "id_ctx \<Rightarrow> id_env \<Rightarrow> int \<Rightarrow> bool" where
  "can_issue cx env user = (jl_encode (cx_jwt cx) (th_secret (cx_helper cx)) (access_claims cx env user (ie_jti env)) \<noteq> None \<and>
     lifetime cx env (th_refresh_ttl (cx_helper cx)) \<noteq> None \<and> lifetime cx env (th_access_ttl (cx_helper cx)) \<noteq> None)"

definition revoked_map :: "id_ctx \<Rightarrow> id_env \<Rightarrow> string \<Rightarrow> (string \<Rightarrow> cache_entry option) \<Rightarrow> string \<Rightarrow> cache_entry option" where
  "revoked_map cx env u c = (dropped cx env u c)(subject_of cx u := None, jti_of cx u := None)"

text \<open>The operations of the store on the map.\<close>

definition only_kv :: "id_state \<Rightarrow> id_state \<Rightarrow> bool" where
  "only_kv s t = (usable t \<and> is_accounts t = is_accounts s)"

lemma wp_on_kv: "wpM (on_kv m) Q E s = wpM m (\<lambda>a k. Q a (s\<lparr>is_kv := k\<rparr>)) (\<lambda>e k. E (IdKv e) (s\<lparr>is_kv := k\<rparr>)) (is_kv s)"
  by (simp add: wpM_def on_kv_def zoomM_def split: prod.split sum.split)

lemma wp_set_cell:
  assumes "usable s"
    and "\<And>t e. only_kv s t \<Longrightarrow> lifetime cx env ttl = None \<Longrightarrow> cells t = cells s \<Longrightarrow> E e t"
    and "\<And>t d. only_kv s t \<Longrightarrow> lifetime cx env ttl = Some d \<Longrightarrow> cells t = put_cell key v d (cells s) \<Longrightarrow> Q () t"
  shows "wpM (on_kv (kv_set_ex (cx_kv cx) (ie_kv env) key (JStr v) (seconds ttl))) Q E s"
proof -
  obtain r t where run: "kv_set_ex (cx_kv cx) (ie_kv env) key (JStr v) (seconds ttl) (is_kv s) = (r, t)" by fastforce
  note law = kv_contract.set_law [OF any_kv assms(1) run]
  show ?thesis
  proof (cases "lifetime cx env ttl")
    case None
    then obtain e where "r = Inl e" "t = is_kv s" using law by (auto simp: lifetime_def)
    then show ?thesis
      using run assms(1) assms(2) [of "s\<lparr>is_kv := t\<rparr>", OF _ None] unfolding wp_on_kv by (simp add: wpM_def only_kv_def cells_def)
  next
    case (Some d)
    then have "r = Inr ()" "keys_distinct t" "cells (s\<lparr>is_kv := t\<rparr>) = put_cell key v d (cells s)"
      using law by (auto simp: lifetime_def cells_def put_cell_def)
    then show ?thesis
      using run assms(3) [of "s\<lparr>is_kv := t\<rparr>", OF _ Some] unfolding wp_on_kv by (simp add: wpM_def only_kv_def)
  qed
qed

lemma wp_del_cell:
  assumes "usable s" and "\<And>t. only_kv s t \<Longrightarrow> cells t = (cells s)(key := None) \<Longrightarrow> Q () t"
  shows "wpM (on_kv (kv_del (cx_kv cx) key)) Q E s"
proof -
  obtain r t where run: "kv_del (cx_kv cx) key (is_kv s) = (r, t)" by fastforce
  have "r = Inr ()" "keys_distinct t" "cells (s\<lparr>is_kv := t\<rparr>) = (cells s)(key := None)"
    using kv_contract.del_law [OF any_kv assms(1) run] by (auto simp: cells_def)
  then show ?thesis
    using run assms(2) [of "s\<lparr>is_kv := t\<rparr>"] unfolding wp_on_kv by (simp add: wpM_def only_kv_def)
qed

lemma wp_get_cell:
  assumes "usable s" "Q (Option.bind (seen cx env (cells s) key) decode) s"
  shows "wpM (on_kv (kv_get decode (cx_kv cx) (ie_kv env) key)) Q E s"
  using assms by (simp add: wpM_def on_kv_get view_seen)

lemma only_kv_trans [trans]: "only_kv s t \<Longrightarrow> only_kv t u \<Longrightarrow> only_kv s u"
  by (simp add: only_kv_def)

lemma only_kv_usable: "only_kv s t \<Longrightarrow> usable t"
  by (simp add: only_kv_def)

lemma wp_drop:
  assumes "usable s" and "\<And>t. only_kv s t \<Longrightarrow> cells t = dropped cx env (int_string user) (cells s) \<Longrightarrow> Q () t"
  shows "wpM (drop_refresh cx env user) Q E s"
  unfolding drop_refresh_def wp_bind
proof (rule wp_get_cell [OF assms(1)])
  show "wpM (case Option.bind (seen cx env (cells s) (subject_of cx (int_string user))) decode_string of None \<Rightarrow> retM ()
      | Some old \<Rightarrow> on_kv (kv_del (cx_kv cx) (refresh_of cx old))) Q E s"
  proof (cases "Option.bind (seen cx env (cells s) (subject_of cx (int_string user))) decode_string")
    case None
    then show ?thesis using assms by (simp add: wp dropped_def only_kv_def)
  next
    case (Some old)
    then have "cells t = dropped cx env (int_string user) (cells s)" if "cells t = (cells s)(refresh_of cx old := None)" for t
      using that by (simp add: dropped_def)
    then show ?thesis unfolding Some option.case using assms by (intro wp_del_cell) blast+
  qed
qed

lemma wp_issue:
  assumes "usable s"
  shows "wpM (issue_tokens cx env user)
    (\<lambda>p t. only_kv s t \<and> cells t = issued_map cx env user (cells s) \<and> can_issue cx env user \<and> tp_refresh_token p = ie_refresh env \<and>
       Some (tp_access_token p) = jl_encode (cx_jwt cx) (th_secret (cx_helper cx)) (access_claims cx env user (ie_jti env)))
    (\<lambda>e t. only_kv s t \<and> cells t = issued_map cx env user (cells s) \<and> \<not> can_issue cx env user) s"
proof (cases "jl_encode (cx_jwt cx) (th_secret (cx_helper cx)) (access_claims cx env user (ie_jti env))")
  case None
  then show ?thesis
    using assms by (simp add: issue_tokens_def encode_access_token_def wp issued_map_def can_issue_def only_kv_def)
next
  case (Some token)
  note enc = Some
  show ?thesis
    unfolding issue_tokens_def Let_def encode_access_token_def wp_bind wp_ok_or Some option.case wp_ret prod.case wp_seq
  proof (rule wp_drop [OF assms], rule wp_set_cell [OF only_kv_usable])
    fix t u :: id_state and e
    assume t: "only_kv s t" "cells t = dropped cx env (int_string user) (cells s)"
    show "only_kv s t" by fact
    assume u: "only_kv t u"
    { assume d: "lifetime cx env (th_refresh_ttl (cx_helper cx)) = None" "cells u = cells t"
      then show "only_kv s u \<and> cells u = issued_map cx env user (cells s) \<and> \<not> can_issue cx env user"
        using t u enc by (simp add: issued_map_def can_issue_def only_kv_def) }
    { fix d
      assume d: "lifetime cx env (th_refresh_ttl (cx_helper cx)) = Some d"
        and c: "cells u = put_cell (refresh_of cx (ie_refresh env)) (int_string user) d (cells t)"
      have su: "only_kv s u" using t(1) u by (rule only_kv_trans)
      show "wpM (on_kv (kv_set_ex (cx_kv cx) (ie_kv env) (subject_of cx (int_string user)) (JStr (ie_refresh env))
             (seconds (th_refresh_ttl (cx_helper cx)))))
          (\<lambda>_. wpM (on_kv (kv_set_ex (cx_kv cx) (ie_kv env) (jti_of cx (int_string user)) (JStr (ie_jti env))
             (seconds (th_access_ttl (cx_helper cx)))))
           (\<lambda>_ t. only_kv s t \<and> cells t = issued_map cx env user (cells s) \<and> can_issue cx env user \<and>
             tp_refresh_token \<lparr>tp_access_token = token, tp_refresh_token = ie_refresh env, tp_expires_in = th_access_ttl (cx_helper cx)\<rparr> = ie_refresh env \<and>
             Some (tp_access_token \<lparr>tp_access_token = token, tp_refresh_token = ie_refresh env, tp_expires_in = th_access_ttl (cx_helper cx)\<rparr>) = Some token)
           (\<lambda>e t. only_kv s t \<and> cells t = issued_map cx env user (cells s) \<and> \<not> can_issue cx env user))
          (\<lambda>e t. only_kv s t \<and> cells t = issued_map cx env user (cells s) \<and> \<not> can_issue cx env user) u"
        using su t(2) c d enc
        by (intro wp_set_cell only_kv_usable; assumption?)
          (auto simp: issued_map_def can_issue_def only_kv_def Let_def) }
  qed
qed

section \<open>Sessions\<close>

text \<open>The account whose phone and password a login names, and the requests that issue tokens for an account.\<close>

definition login_account :: "id_ctx \<Rightarrow> string \<Rightarrow> string \<Rightarrow> id_state \<Rightarrow> account option" where
  "login_account cx phone password s = (case (phone_try_new phone, password_try_new password) of
      (Inr p, Inr pw) \<Rightarrow> (case lookup_by acc_phone p (is_accounts s) of
         None \<Rightarrow> None
       | Some a \<Rightarrow> if hl_parses (cx_hash cx) (acc_password a) \<and> hl_verify (cx_hash cx) (acc_password a) pw then Some a else None)
    | _ \<Rightarrow> None)"

definition refresh_owner :: "id_ctx \<Rightarrow> id_env \<Rightarrow> string \<Rightarrow> id_state \<Rightarrow> int option" where
  "refresh_owner cx env token s = Option.bind (seen cx env (cells s) (refresh_of cx token)) decode_id"

fun issues_for :: "id_ctx \<Rightarrow> id_env \<Rightarrow> id_request \<Rightarrow> id_state \<Rightarrow> int option" where
  "issues_for cx env (Login phone password) s = map_option acc_id (login_account cx phone password s)"
| "issues_for cx env (Refresh token) s = refresh_owner cx env token s"
| "issues_for cx env _ s = None"

text \<open>A session of an account ends with the next login or refresh of the account that succeeds, and with its logout.\<close>

fun ends_session :: "int \<Rightarrow> id_ctx \<Rightarrow> id_env \<times> id_request \<times> id_state \<Rightarrow> bool" where
  "ends_session k cx (env, q, s) = ((\<exists>r. fst (handler cx env q s) = Inr r) \<and>
     (issues_for cx env q s = Some k \<or> (\<exists>c. q = Logout c \<and> fst (authenticate cx env c s) = Inr k)))"

lemma issued_jti:
  "issued_map cx env user c (jti_of cx u) =
     (if u = int_string user \<and> can_issue cx env user
      then Some \<lparr>ce_key = jti_of cx u, ce_value = JStr (ie_jti env), ce_expires_at = the (lifetime cx env (th_access_ttl (cx_helper cx)))\<rparr>
      else c (jti_of cx u))"
  by (auto simp: issued_map_def can_issue_def Let_def put_cell_def dropped_def split: option.split)

lemma revoked_jti: "revoked_map cx env v c (jti_of cx u) = (if u = v then None else c (jti_of cx u))"
  by (auto simp: revoked_map_def dropped_def split: option.split)

lemma login_effect:
  assumes "usable s"
  shows "wpM (handler cx env (Login phone password))
    (\<lambda>r t. only_kv s t \<and> (\<exists>a. login_account cx phone password s = Some a \<and> can_issue cx env (acc_id a) \<and>
       cells t = issued_map cx env (acc_id a) (cells s) \<and>
       (\<exists>p. r = RTokens p \<and> tp_refresh_token p = ie_refresh env \<and>
         Some (tp_access_token p) = jl_encode (cx_jwt cx) (th_secret (cx_helper cx)) (access_claims cx env (acc_id a) (ie_jti env)))))
    (\<lambda>e t. only_kv s t \<and> (case login_account cx phone password s of
        None \<Rightarrow> t = s \<and> (\<exists>key. e = IdInvalid key) \<or> t = s \<and> e = IdIdentity AccountInvalidCredentials
      | Some a \<Rightarrow> cells t = issued_map cx env (acc_id a) (cells s))) s"
proof (cases "login_account cx phone password s")
  case None
  have inv: "\<exists>key. e = IdInvalid key" if "phone_try_new phone = Inl e \<or> password_try_new password = Inl e" for e
    using that by (auto simp: phone_try_new_def password_try_new_def Let_def split: if_splits)
  show ?thesis
    using None assms inv unfolding handler.simps account_login_def replyM_def login_account_def
    by (auto simp: wp only_kv_def hashed_verify_def split: sum.splits option.splits if_splits)
next
  case (Some a)
  then obtain p pw where ok: "phone_try_new phone = Inr p" "password_try_new password = Inr pw"
    "lookup_by acc_phone p (is_accounts s) = Some a" "hashed_verify (cx_hash cx) (acc_password a) pw = Inr ()"
    by (auto simp: login_account_def hashed_verify_def split: sum.splits option.splits if_splits)
  have event: "wpM (on_events m) (\<lambda>_ u. is_kv u = is_kv t \<and> is_accounts u = is_accounts t) (\<lambda>_ u. is_kv u = is_kv t \<and> is_accounts u = is_accounts t) t"
    for m and t :: id_state
    using pres_on_events [of "\<lambda>u. is_kv u = is_kv t \<and> is_accounts u = is_accounts t" m] by (simp add: pres_wp)
  have ev: "wpM (on_events m) (\<lambda>_. P) (\<lambda>_. R) t" if "\<And>u. is_kv u = is_kv t \<Longrightarrow> is_accounts u = is_accounts t \<Longrightarrow> P u \<and> R u"
    for m P R and t :: id_state
    by (rule wp_mono [OF event]) (use that in blast)+
  have run: "wpM (handler cx env (Login phone password)) Q E s = wpM (issue_tokens cx env (acc_id a))
      (\<lambda>p. wpM (on_events (publish_with_delay (ie_events env) ACCOUNT_LOGGED_IN (Some (event_json (acc_id a))) (seconds 10)))
        (\<lambda>_. Q (RTokens p)) E) E s" for Q E
    unfolding handler.simps account_login_def replyM_def wp_bind wp_seq wp_ret by (simp add: wp ok)
  show ?thesis
    unfolding run Some option.case by (rule wp_mono [OF wp_issue [OF assms]], rule ev) (auto simp: Some only_kv_def cells_def)
qed

definition consumed :: "id_ctx \<Rightarrow> id_env \<Rightarrow> string \<Rightarrow> (string \<Rightarrow> cache_entry option) \<Rightarrow> (string \<Rightarrow> cache_entry option) \<Rightarrow> bool" where
  "consumed cx env key c c' = ((\<forall>k. k \<noteq> key \<longrightarrow> c' k = c k) \<and>
     (\<forall>e. c' key = Some e \<longrightarrow> c key = Some e \<and> \<not> alive (cx_kv cx) (ie_kv env) e))"

lemma wp_take_cell:
  assumes "usable s" and "\<And>t. only_kv s t \<Longrightarrow> consumed cx env key (cells s) (cells t) \<Longrightarrow>
      Q (Option.bind (seen cx env (cells s) key) decode) t"
  shows "wpM (on_kv (kv_take decode (cx_kv cx) (ie_kv env) key)) Q E s"
proof -
  obtain r t where run: "kv_take_raw (cx_kv cx) (ie_kv env) key (is_kv s) = (r, t)" by fastforce
  note law = kv_contract.take_law [OF any_kv assms(1) run]
  then have "kv_take decode (cx_kv cx) (ie_kv env) key (is_kv s) = (Inr (Option.bind (seen cx env (cells s) key) decode), t)"
    using run by (simp add: kv_take_def monad_defs view_seen)
  moreover have "only_kv s (s\<lparr>is_kv := t\<rparr>)" "consumed cx env key (cells s) (cells (s\<lparr>is_kv := t\<rparr>))"
    using law by (simp_all add: only_kv_def consumed_def cells_def)
  ultimately show ?thesis using assms(2) unfolding wp_on_kv by (simp add: wpM_def)
qed

lemma refresh_effect:
  assumes "usable s"
  shows "wpM (handler cx env (Refresh token))
    (\<lambda>r t. only_kv s t \<and> (\<exists>k c. refresh_owner cx env token s = Some k \<and> can_issue cx env k \<and>
       consumed cx env (refresh_of cx token) (cells s) c \<and> cells t = issued_map cx env k c \<and>
       (\<exists>p. r = RTokens p \<and> tp_refresh_token p = ie_refresh env)))
    (\<lambda>e t. only_kv s t \<and> (\<exists>c. consumed cx env (refresh_of cx token) (cells s) c \<and> (case refresh_owner cx env token s of
        None \<Rightarrow> cells t = c \<and> e = IdIdentity RefreshTokenInvalid
      | Some k \<Rightarrow> cells t = issued_map cx env k c \<and> \<not> can_issue cx env k))) s"
  unfolding handler.simps account_refresh_token_def consume_refresh_token_def replyM_def wp_bind
proof (rule wp_take_cell [OF assms])
  fix t assume t: "only_kv s t" "consumed cx env (refresh_of cx token) (cells s) (cells t)"
  let ?Q = "\<lambda>r t. only_kv s t \<and> (\<exists>k c. refresh_owner cx env token s = Some k \<and> can_issue cx env k \<and>
       consumed cx env (refresh_of cx token) (cells s) c \<and> cells t = issued_map cx env k c \<and>
       (\<exists>p. r = RTokens p \<and> tp_refresh_token p = ie_refresh env))"
  let ?E = "\<lambda>e t. only_kv s t \<and> (\<exists>c. consumed cx env (refresh_of cx token) (cells s) c \<and> (case refresh_owner cx env token s of
        None \<Rightarrow> cells t = c \<and> e = IdIdentity RefreshTokenInvalid
      | Some k \<Rightarrow> cells t = issued_map cx env k c \<and> \<not> can_issue cx env k))"
  show "wpM (ok_or (Option.bind (seen cx env (cells s) (refresh_of cx token)) decode_id) (IdIdentity RefreshTokenInvalid))
     (\<lambda>k. wpM (issue_tokens cx env k) (\<lambda>p. wpM (retM (RTokens p)) ?Q ?E) ?E) ?E t"
  proof (cases "refresh_owner cx env token s")
    case None
    then show ?thesis using t by (auto simp: refresh_owner_def [symmetric] wp)
  next
    case (Some k)
    have "wpM (issue_tokens cx env k) (\<lambda>p. wpM (retM (RTokens p)) ?Q ?E) ?E t"
      by (rule wp_mono [OF wp_issue [OF only_kv_usable [OF t(1)]]])
        (use t Some only_kv_trans [OF t(1)] in \<open>auto simp: wp\<close>)
    then show ?thesis using Some by (simp add: refresh_owner_def [symmetric] wp)
  qed
qed

lemma wp_revoke:
  assumes "usable s"
  shows "wpM (revoke_tokens cx env k) (\<lambda>_ t. only_kv s t \<and> cells t = revoked_map cx env (int_string k) (cells s)) (\<lambda>_ _. False) s"
  unfolding revoke_tokens_def wp_seq
proof (rule wp_drop [OF assms])
  fix t assume t: "only_kv s t" "cells t = dropped cx env (int_string k) (cells s)"
  show "wpM (on_kv (kv_del (cx_kv cx) (subject_of cx (int_string k))))
      (\<lambda>_. wpM (on_kv (kv_del (cx_kv cx) (jti_of cx (int_string k))))
         (\<lambda>_ t. only_kv s t \<and> cells t = revoked_map cx env (int_string k) (cells s)) (\<lambda>_ _. False)) (\<lambda>_ _. False) t"
    using t by (intro wp_del_cell only_kv_usable; assumption?) (auto simp: revoked_map_def only_kv_def)
qed

lemma logout_effect:
  assumes "usable s"
  shows "wpM (handler cx env (Logout c))
    (\<lambda>r t. only_kv s t \<and> (\<exists>k. fst (authenticate cx env c s) = Inr k \<and> cells t = revoked_map cx env (int_string k) (cells s)))
    (\<lambda>e t. t = s \<and> fst (authenticate cx env c s) = Inl e) s"
proof (cases "authenticate cx env c s")
  case (Pair r t)
  then have "t = s" by (rule authenticate_reads)
  show ?thesis
  proof (cases r)
    case (Inl e)
    then show ?thesis using Pair \<open>t = s\<close> by (simp add: bindM_def wpM_def)
  next
    case (Inr k)
    have "wpM (handler cx env (Logout c)) Q E s = wpM (replyM (\<lambda>_. RDone) (account_logout cx env k)) Q E s" for Q E
      using Pair Inr \<open>t = s\<close> by (simp add: bindM_def wpM_def)
    then show ?thesis
      using Inr Pair by (simp add: replyM_def account_logout_def wp) (rule wp_mono [OF wp_revoke [OF assms]]; simp add: wp)
  qed
qed

lemma cache_collect_effect:
  assumes "usable s"
  shows "wpM (handler cx env CollectCache)
    (\<lambda>r t. only_kv s t \<and> (\<forall>k. cells t k = cells s k \<or> cells t k = None) \<and>
       (\<forall>j k e f. cells s j = Some e \<longrightarrow> cells s k = Some f \<longrightarrow> ce_expires_at e \<le> ce_expires_at f \<longrightarrow>
          cells t k = None \<longrightarrow> cells t j = None)) (\<lambda>_ _. False) s"
proof -
  obtain r t where run: "kv_delete_expired (cx_kv cx) (ie_kv env) (is_kv s) = (r, t)" by fastforce
  note law = kv_contract.gc_law [OF any_kv assms run] and order = kv_contract.gc_order [OF any_kv assms run]
  then obtain n where "r = Inr n" by blast
  then show ?thesis
    using run law order unfolding handler.simps replyM_def wp_bind wp_on_kv
    by (auto simp: wpM_def retM_def only_kv_def cells_def)
qed

section \<open>What a run guarantees\<close>

lemma handler_cases:
  assumes "wpM (handler cx env q) Q E s" "handler cx env q s = (r, t)"
  shows "case r of Inl e \<Rightarrow> E e t | Inr x \<Rightarrow> Q x t"
  using assms by (simp add: wpM_def)

lemma request_usable: "usable s \<Longrightarrow> usable (id_after cx env q s)"
proof (cases "touches_cache q")
  case True
  assume u: "usable s"
  obtain r t where run: "handler cx env q s = (r, t)" by fastforce
  have "usable t"
  proof (cases q)
    case (Login phone password)
    show ?thesis using handler_cases [OF login_effect [OF u] run [unfolded Login]] by (auto simp: only_kv_def split: sum.splits)
  next
    case (Refresh token)
    show ?thesis using handler_cases [OF refresh_effect [OF u] run [unfolded Refresh]] by (auto simp: only_kv_def split: sum.splits)
  next
    case (Logout c)
    show ?thesis using handler_cases [OF logout_effect [OF u] run [unfolded Logout]] u by (auto simp: only_kv_def split: sum.splits)
  next
    case CollectCache
    show ?thesis using handler_cases [OF cache_collect_effect [OF u] run [unfolded CollectCache]] by (auto simp: only_kv_def split: sum.splits)
  qed (use True in simp_all)
  then show ?thesis using run by (simp add: id_after_def)
qed (simp add: cache_kept)

lemma run_usable: "id_run cx now log s \<Longrightarrow> usable s"
proof (induction rule: id_run.induct)
  case (step now log s env q)
  show ?case using step.IH by (rule request_usable)
qed (simp add: empty_id_def keys_distinct_def)

lemma run_accounts: "id_run cx now log s \<Longrightarrow> accounts_ok (is_accounts s)"
proof (induction rule: id_run.induct)
  case (step now log s env q)
  then show ?case using pres_accounts [of cx env q] by (simp add: pres_def id_after_def)
qed (simp add: empty_id_def accounts_ok_def)

text \<open>The cell of an account's session after one request.\<close>

lemma consumed_jti: "consumed cx env (refresh_of cx r) c c' \<Longrightarrow> c' (jti_of cx u) = c (jti_of cx u)"
  by (simp add: consumed_def)

lemma issues_touch: "issues_for cx env q s = Some k \<Longrightarrow> touches_cache q"
  by (cases q) simp_all

definition fresh_jti :: "id_ctx \<Rightarrow> id_env \<Rightarrow> id_request \<Rightarrow> id_state \<Rightarrow> int \<Rightarrow> cache_entry \<Rightarrow> bool" where
  "fresh_jti cx env q s k e = (issues_for cx env q s = Some k \<and> ce_value e = JStr (ie_jti env))"

lemma jti_step:
  assumes u: "usable s" and run: "handler cx env q s = (r, t)"
  shows "cells t (jti_of cx u) = cells s (jti_of cx u) \<or> cells t (jti_of cx u) = None \<or>
    (\<exists>k e. u = int_string k \<and> cells t (jti_of cx u) = Some e \<and> fresh_jti cx env q s k e)" (is "?step t")
    and "ends_session k cx (env, q, s) \<Longrightarrow> u = int_string k \<Longrightarrow>
      cells t (jti_of cx u) = None \<or> (\<exists>e. cells t (jti_of cx u) = Some e \<and> fresh_jti cx env q s k e)"
proof -
  have "?step t \<and> (ends_session k cx (env, q, s) \<longrightarrow> u = int_string k \<longrightarrow>
      cells t (jti_of cx u) = None \<or> (\<exists>e. cells t (jti_of cx u) = Some e \<and> fresh_jti cx env q s k e))"
  proof (cases q)
    case (Login phone password)
    show ?thesis using handler_cases [OF login_effect [OF u] run [unfolded Login]] run
      by (auto simp: Login issued_jti fresh_jti_def split: sum.splits option.splits)
  next
    case (Refresh token)
    show ?thesis using handler_cases [OF refresh_effect [OF u] run [unfolded Refresh]] run
      by (auto simp: Refresh issued_jti fresh_jti_def consumed_jti split: sum.splits option.splits)
  next
    case (Logout c)
    show ?thesis using handler_cases [OF logout_effect [OF u] run [unfolded Logout]] run
      by (auto simp: Logout revoked_jti split: sum.splits)
  next
    case CollectCache
    show ?thesis using handler_cases [OF cache_collect_effect [OF u] run [unfolded CollectCache]]
      by (auto simp: CollectCache split: sum.splits)
  next
    case (CreateAccount c name phone password)
    then show ?thesis using cache_kept [of q cx env s] run by (simp add: id_after_def cells_def)
  next
    case (UpdateAccount c target name phone)
    then show ?thesis using cache_kept [of q cx env s] run by (simp add: id_after_def cells_def)
  next
    case (DeleteAccount c target)
    then show ?thesis using cache_kept [of q cx env s] run by (simp add: id_after_def cells_def)
  next
    case (ResetPassword c target password)
    then show ?thesis using cache_kept [of q cx env s] run by (simp add: id_after_def cells_def)
  next
    case (UpdatePassword c old new)
    then show ?thesis using cache_kept [of q cx env s] run by (simp add: id_after_def cells_def)
  next
    case (GetAccount c target)
    then show ?thesis using cache_kept [of q cx env s] run by (simp add: id_after_def cells_def)
  next
    case (CurrentProfile c)
    then show ?thesis using cache_kept [of q cx env s] run by (simp add: id_after_def cells_def)
  next
    case (StartUp phone password)
    then show ?thesis using cache_kept [of q cx env s] run by (simp add: id_after_def cells_def)
  qed
  note both = this
  show "?step t" by (rule conjunct1 [OF both])
  show "ends_session k cx (env, q, s) \<Longrightarrow> u = int_string k \<Longrightarrow>
      cells t (jti_of cx u) = None \<or> (\<exists>e. cells t (jti_of cx u) = Some e \<and> fresh_jti cx env q s k e)"
    by (rule conjunct2 [OF both, THEN mp, THEN mp])
qed

text \<open>The session of an account in the store is the one of the last tokens issued, and it has not ended.\<close>

definition issued_last :: "id_ctx \<Rightarrow> id_log \<Rightarrow> string \<Rightarrow> json_value \<Rightarrow> bool" where
  "issued_last cx log u v = (\<exists>earlier env q s later k. log = earlier @ (env, q, s) # later \<and> issues_for cx env q s = Some k \<and>
     u = int_string k \<and> v = JStr (ie_jti env) \<and> (\<forall>x \<in> set later. \<not> ends_session k cx x))"

lemma run_sessions: "id_run cx now log s \<Longrightarrow> cells s (jti_of cx u) = Some e \<Longrightarrow> issued_last cx log u (ce_value e)"
proof (induction arbitrary: e rule: id_run.induct)
  case (start now)
  then show ?case by (simp add: empty_id_def cells_def cell_def)
next
  case (step now log s env q)
  note us = run_usable [OF step.hyps(1)]
  obtain r t where run: "handler cx env q s = (r, t)" by fastforce
  then have cell: "cells t (jti_of cx u) = Some e" using step.prems by (simp add: id_after_def)
  note now_issued = jti_step(2) [OF us run, of _ u]
  have fresh: "issued_last cx (log @ [(env, q, s)]) u (ce_value e)" if "u = int_string k" "fresh_jti cx env q s k e" for k
    using that unfolding issued_last_def fresh_jti_def
    by (intro exI [of _ log] exI [of _ env] exI [of _ q] exI [of _ s] exI [of _ "[]"] exI [of _ k]) simp
  show ?case
  proof (cases "\<exists>k. u = int_string k \<and> fresh_jti cx env q s k e")
    case True
    then show ?thesis using fresh by blast
  next
    case False
    then have "cells s (jti_of cx u) = Some e"
      using jti_step(1) [OF us run, of u] cell by auto
    then have "issued_last cx log u (ce_value e)" by (rule step.IH)
    then obtain earlier env' q' s' later k where log: "log = earlier @ (env', q', s') # later" "issues_for cx env' q' s' = Some k"
      "u = int_string k" "ce_value e = JStr (ie_jti env')" "\<forall>x \<in> set later. \<not> ends_session k cx x"
      unfolding issued_last_def by blast
    have "\<not> ends_session k cx (env, q, s)" using now_issued [of k] log(3) cell False by auto
    then have "\<forall>x \<in> set (later @ [(env, q, s)]). \<not> ends_session k cx x" using log(5) by simp
    moreover have "log @ [(env, q, s)] = earlier @ (env', q', s') # (later @ [(env, q, s)])" using log(1) by simp
    ultimately show ?thesis unfolding issued_last_def using log(2-4) by blast
  qed
qed

lemma verify_accepts:
  assumes "usable s" "verify cx env token s = (Inr (sub, jti), t)"
  shows "\<exists>c. decode_access_token cx env token = Some c \<and> cm_sub c = sub \<and> cm_jti c = jti \<and>
    seen cx env (cells s) (jti_of cx sub) = Some (JStr jti)"
proof -
  obtain c where c: "decode_access_token cx env token = Some c"
    using assms(2) by (auto simp: verify_def monad_OK)
  have "verify cx env token s = (if Option.bind (seen cx env (cells s) (jti_of cx (cm_sub c))) decode_string = Some (cm_jti c)
      then retM (cm_sub c, cm_jti c) s else failM (IdAuthn AccessTokenRevoked) s)"
    using c assms(1) by (simp add: verify_def or_invalid_def bindM_def ok_or_def retM_def on_kv_get view_seen)
  moreover have "x = JStr y" if "decode_string x = Some y" for x y using that by (cases x) simp_all
  ultimately show ?thesis
    using assms(2) c by (auto simp: retM_def failM_def split: if_splits option.splits bind_splits)
qed

section \<open>Refresh tokens\<close>

lemma alive_earlier: "alive_at b now' e \<Longrightarrow> now \<le> now' \<Longrightarrow> alive_at b now e"
  by (auto simp: alive_at_def split: kv_backend.splits)

lemma alive_longer: "alive_at b now e \<Longrightarrow> ce_expires_at e \<le> ce_expires_at f \<Longrightarrow> alive_at b now f"
  by (auto simp: alive_at_def split: kv_backend.splits)

text \<open>Every refresh token that is alive is the one its account has on record, which lives at least as long.\<close>

definition refresh_inv :: "id_ctx \<Rightarrow> int \<Rightarrow> (string \<Rightarrow> cache_entry option) \<Rightarrow> bool" where
  "refresh_inv cx now c = (\<forall>r e. c (refresh_of cx r) = Some e \<longrightarrow> (\<exists>k. ce_value e = JStr (int_string k) \<and>
     (alive_at (cx_kv cx) now e \<longrightarrow> (\<exists>f. c (subject_of cx (int_string k)) = Some f \<and> ce_value f = JStr r \<and>
        ce_expires_at e \<le> ce_expires_at f))))"

lemma refresh_inv_later: "refresh_inv cx now c \<Longrightarrow> now \<le> now' \<Longrightarrow> refresh_inv cx now' c"
  unfolding refresh_inv_def using alive_earlier by meson

lemma refresh_inv_dropped:
  assumes "refresh_inv cx (instant_of (cx_kv cx) (ie_kv env)) c"
  shows "refresh_inv cx (instant_of (cx_kv cx) (ie_kv env)) (dropped cx env u c)"
    and "dropped cx env u c (refresh_of cx r) = Some e \<Longrightarrow> ce_value e = JStr u \<Longrightarrow> \<not> alive (cx_kv cx) (ie_kv env) e"
proof -
  show "refresh_inv cx (instant_of (cx_kv cx) (ie_kv env)) (dropped cx env u c)"
    using assms by (auto simp: refresh_inv_def dropped_def split: option.split)
  assume d: "dropped cx env u c (refresh_of cx r) = Some e" "ce_value e = JStr u"
  show "\<not> alive (cx_kv cx) (ie_kv env) e"
  proof
    assume a: "alive (cx_kv cx) (ie_kv env) e"
    have "c (refresh_of cx r) = Some e" using d(1) by (auto simp: dropped_def split: option.splits if_splits)
    then obtain f where f: "c (subject_of cx u) = Some f" "ce_value f = JStr r" "ce_expires_at e \<le> ce_expires_at f"
      using assms a d(2) unfolding refresh_inv_def by (metis json_value.inject(1))
    then have "alive (cx_kv cx) (ie_kv env) f" using a alive_longer by blast
    then have "dropped cx env u c = c(refresh_of cx r := None)" using f by (simp add: dropped_def seen_def)
    then show False using d(1) by simp
  qed
qed

lemma refresh_inv_issued:
  assumes "refresh_inv cx (instant_of (cx_kv cx) (ie_kv env)) c"
  shows "refresh_inv cx (instant_of (cx_kv cx) (ie_kv env)) (issued_map cx env k c)"
proof -
  let ?now = "instant_of (cx_kv cx) (ie_kv env)" and ?u = "int_string k" and ?new = "ie_refresh env"
  let ?c = "dropped cx env ?u c"
  note inv = refresh_inv_dropped(1) [OF assms, of ?u] and gone = refresh_inv_dropped(2) [OF assms, of ?u]
  have both: "refresh_inv cx ?now (put_cell (subject_of cx ?u) ?new d (put_cell (refresh_of cx ?new) ?u d ?c))" for d
    unfolding refresh_inv_def
  proof (intro allI impI)
    fix r e
    assume e: "put_cell (subject_of cx ?u) ?new d (put_cell (refresh_of cx ?new) ?u d ?c) (refresh_of cx r) = Some e"
    show "\<exists>k'. ce_value e = JStr (int_string k') \<and> (alive_at (cx_kv cx) ?now e \<longrightarrow>
       (\<exists>f. put_cell (subject_of cx ?u) ?new d (put_cell (refresh_of cx ?new) ?u d ?c) (subject_of cx (int_string k')) = Some f \<and>
          ce_value f = JStr r \<and> ce_expires_at e \<le> ce_expires_at f))"
    proof (cases "r = ?new")
      case True
      then show ?thesis using e by (intro exI [of _ k]) (auto simp: put_cell_def)
    next
      case False
      then have old: "?c (refresh_of cx r) = Some e" using e by (simp add: put_cell_def)
      then obtain k' where k': "ce_value e = JStr (int_string k')" "alive_at (cx_kv cx) ?now e \<longrightarrow>
          (\<exists>f. ?c (subject_of cx (int_string k')) = Some f \<and> ce_value f = JStr r \<and> ce_expires_at e \<le> ce_expires_at f)"
        using inv unfolding refresh_inv_def by blast
      then show ?thesis using gone [OF old] by (intro exI [of _ k']) (auto simp: put_cell_def)
    qed
  qed
  have jti: "refresh_inv cx ?now c' \<Longrightarrow> refresh_inv cx ?now (put_cell (jti_of cx ?u) v d c')" for c' v d
    by (simp add: refresh_inv_def put_cell_def)
  show ?thesis
    using assms inv both jti by (auto simp: issued_map_def Let_def split: option.split)
qed

lemma refresh_inv_consumed: "refresh_inv cx now c \<Longrightarrow> consumed cx env (refresh_of cx r) c c' \<Longrightarrow> refresh_inv cx now c'"
  unfolding refresh_inv_def consumed_def by (metis keys_apart(5,7))

lemma refresh_inv_revoked:
  assumes "refresh_inv cx (instant_of (cx_kv cx) (ie_kv env)) c"
  shows "refresh_inv cx (instant_of (cx_kv cx) (ie_kv env)) (revoked_map cx env u c)"
  unfolding refresh_inv_def
proof (intro allI impI)
  let ?now = "instant_of (cx_kv cx) (ie_kv env)"
  fix r e assume "revoked_map cx env u c (refresh_of cx r) = Some e"
  then have old: "dropped cx env u c (refresh_of cx r) = Some e" by (simp add: revoked_map_def)
  then obtain k where k: "ce_value e = JStr (int_string k)" "alive_at (cx_kv cx) ?now e \<longrightarrow>
      (\<exists>f. dropped cx env u c (subject_of cx (int_string k)) = Some f \<and> ce_value f = JStr r \<and> ce_expires_at e \<le> ce_expires_at f)"
    using refresh_inv_dropped(1) [OF assms] unfolding refresh_inv_def by blast
  then show "\<exists>k. ce_value e = JStr (int_string k) \<and> (alive_at (cx_kv cx) ?now e \<longrightarrow>
      (\<exists>f. revoked_map cx env u c (subject_of cx (int_string k)) = Some f \<and> ce_value f = JStr r \<and> ce_expires_at e \<le> ce_expires_at f))"
    using refresh_inv_dropped(2) [OF assms old] by (intro exI [of _ k]) (auto simp: revoked_map_def)
qed

lemma run_refresh: "id_run cx now log s \<Longrightarrow> refresh_inv cx now (cells s)"
proof (induction rule: id_run.induct)
  case (start now)
  then show ?case by (simp add: empty_id_def cells_def cell_def refresh_inv_def)
next
  case (step now log s env q)
  note u = run_usable [OF step.hyps(1)]
  let ?now = "instant_of (cx_kv cx) (ie_kv env)"
  have inv: "refresh_inv cx ?now (cells s)" using step.IH step.hyps(2) by (rule refresh_inv_later)
  obtain r t where run: "handler cx env q s = (r, t)" by fastforce
  have "refresh_inv cx ?now (cells t)"
  proof (cases "touches_cache q")
    case False
    then show ?thesis using cache_kept [of q cx env s] run inv by (simp add: id_after_def cells_def)
  next
    case True
    then show ?thesis
    proof (cases q)
      case (Login phone password)
      show ?thesis using handler_cases [OF login_effect [OF u] run [unfolded Login]] inv
        by (auto simp: refresh_inv_issued split: sum.splits option.splits)
    next
      case (Refresh token)
      show ?thesis using handler_cases [OF refresh_effect [OF u] run [unfolded Refresh]] refresh_inv_consumed [OF inv]
        by (auto simp: refresh_inv_issued split: sum.splits option.splits)
    next
      case (Logout c)
      show ?thesis using handler_cases [OF logout_effect [OF u] run [unfolded Logout]] inv
        by (auto simp: refresh_inv_revoked split: sum.splits)
    next
      case CollectCache
      show ?thesis using handler_cases [OF cache_collect_effect [OF u] run [unfolded CollectCache]] inv
        unfolding refresh_inv_def by (auto split: sum.splits) (metis option.distinct(1))
    qed simp_all
  qed
  then show ?case using run by (simp add: id_after_def)
qed

end
