(* ===== verification/Access.thy ===== *)
theory Access
  imports Sessions Demo
begin

text \<open>
  The properties of accounts and sessions, each with a witness on one run: start-up, a login of the
  administrator, the creation of an account, a login with it.
\<close>

section \<open>A run\<close>

definition demo_jwt :: jwt_lib where
  "demo_jwt = \<lparr>jl_encode = (\<lambda>secret c. Some (cm_sub c @ ''.'' @ cm_jti c)),
     jl_decode = (\<lambda>now secret token. Some \<lparr>cm_sub = takeWhile (\<lambda>x. x \<noteq> CHR ''.'') token, cm_exp = 3602, cm_iat = 2,
        cm_jti = tl (dropWhile (\<lambda>x. x \<noteq> CHR ''.'') token)\<rparr>)\<rparr>"

definition demo_hash :: hash_lib where
  "demo_hash = \<lparr>hl_hash = (\<lambda>salt p. Some (salt @ p)), hl_parses = (\<lambda>_. True), hl_verify = (\<lambda>h p. h = ''s:'' @ p)\<rparr>"

definition demo_cx :: id_ctx where
  "demo_cx = \<lparr>cx_kv = PgCache, cx_helper = \<lparr>th_realm = RealmAccount, th_secret = ''k'', th_access_ttl = 3600, th_refresh_ttl = 86400\<rparr>,
     cx_jwt = demo_jwt, cx_hash = demo_hash\<rparr>"

definition demo_at :: "int \<Rightarrow> string \<Rightarrow> string \<Rightarrow> id_env" where
  "demo_at n jti refresh = \<lparr>ie_db = demo_env, ie_kv = \<lparr>ke_now = n * 1000000, ke_server_now = n * 1000000, ke_latest = 2 ^ 62\<rparr>,
     ie_events = \<lparr>ee_now = n * 1000000, ee_collate = (\<lambda>_. 0), ee_order = (\<lambda>_. 0), ee_json = (\<lambda>_. True)\<rparr>,
     ie_seconds = n, ie_salt = ''s:'', ie_jti = jti, ie_refresh = refresh\<rparr>"

definition with_token :: "string \<Rightarrow> id_call" where
  "with_token token = \<lparr>cl_authorization = Some (''Bearer '' @ token), cl_query = None, cl_ip = ''host'', cl_user_agent = None\<rparr>"

lemma demo_numbers [simp]: "int_string 1000 = ''1000''" "int_string 1001 = ''1001''"
  by (simp_all add: int_string_def dec_string.simps digit_char_def char_of_def bit_iff_odd)

lemma demo_texts [simp]:
  "phone_try_new ''13888888888'' = Inr ''13888888888''" "phone_try_new ''13900000001'' = Inr ''13900000001''"
  "password_try_new ''admin123!'' = Inr ''admin123!''" "password_try_new ''secret'' = Inr ''secret''" "trim_string ''Tom'' = ''Tom''"
  by (simp_all add: phone_try_new_def password_try_new_def trim_string_def is_whitespace_def utf8_len_def
      is_mainland_china_mobile_def is_digit_def MAX_PASSWORD_LEN_def)

lemma demo_ids [simp]: "parse_i64 [49, 48, 48, 48] = Some 1000" "parse_i64 [49, 48, 48, 49] = Some 1001"
  using parse_int_string [of 1000] parse_int_string [of 1001] by (simp_all add: i64_range_defs)

lemmas id_eval = demo_cx_def demo_at_def demo_hash_def demo_jwt_def demo_env_def with_token_def replyM_def monad_defs
  on_db_def on_events_def on_kv_def zoomM_def new_id_def hashed_try_new_def hashed_verify_def fits_def
  account_repository_create_def before_starting_def is_privileged_exists_def account_by_id_def account_delete_def
  account_repository_delete_def account_create_def account_login_def issue_tokens_def drop_refresh_def encode_access_token_def
  access_claims_def authenticate_def verify_def or_invalid_def decode_access_token_def access_token_from_parts_def
  get_access_token_from_header_def operator_of_def snapshot_of_def kv_get_def kv_get_raw_def kv_set_ex_def kv_take_def kv_take_raw_def
  pg_get_raw_def pg_set_ex_raw_def pg_take_raw_def pg_live_def expiry_def upsert_entry_def remove_entries_def has_key_def
  refresh_key_def subject_refresh_key_def access_jti_key_def account_refresh_token_def consume_refresh_token_def
  record_create_def record_deleted_def audit_insert_def insert_row_def publish_def publish_with_delay_def insert_event_def
  ACCOUNT_CREATED_def ACCOUNT_LOGGED_IN_def empty_events_def i64_max_def event_rollback_def id_rollback_def Let_def
  kv_del_def pg_del_raw_def

lemma empty_db_next [simp]: "next_id empty_db = 0" "audit_logs empty_db = []"
  by (simp_all add: empty_db_def)

definition demo_admin :: account where
  "demo_admin = \<lparr>acc_id = 1000, acc_name = ''admin'', acc_phone = ''13888888888'', acc_password = ''s:admin123!'',
     acc_privileged = True, acc_version = 1\<rparr>"

definition demo_tom :: account where
  "demo_tom = \<lparr>acc_id = 1001, acc_name = ''Tom'', acc_phone = ''13900000001'', acc_password = ''s:secret'',
     acc_privileged = False, acc_version = 1\<rparr>"

text \<open>The session an account gets at an instant, and the event of its login.\<close>

definition demo_session :: "int \<Rightarrow> string \<Rightarrow> string \<Rightarrow> string \<Rightarrow> kv_store" where
  "demo_session n u jti refresh =
    [\<lparr>ce_key = refresh_key ''account'' refresh, ce_value = JStr u, ce_expires_at = (n + 86400) * 1000000\<rparr>,
     \<lparr>ce_key = subject_refresh_key ''account'' u, ce_value = JStr refresh, ce_expires_at = (n + 86400) * 1000000\<rparr>,
     \<lparr>ce_key = access_jti_key ''account'' u, ce_value = JStr jti, ce_expires_at = (n + 3600) * 1000000\<rparr>]"

definition demo_outbox_event :: "int \<Rightarrow> string \<Rightarrow> int \<Rightarrow> int \<Rightarrow> event_row" where
  "demo_outbox_event k topic user due = \<lparr>ev_id = k, ev_topic = topic, ev_payload = event_json user, ev_status = DvPending,
     ev_delivered_at = None, ev_attempts = 0, ev_max_attempts = 5, ev_next_attempt_at = At due, ev_last_error = None\<rparr>"

definition demo_s1 :: id_state where
  "demo_s1 = \<lparr>is_accounts = [demo_admin], is_db = empty_db\<lparr>next_id := 1\<rparr>, is_events = empty_events, is_kv = []\<rparr>"

definition demo_s2 :: id_state where
  "demo_s2 = demo_s1\<lparr>is_events := empty_events\<lparr>pg_events := [demo_outbox_event 1 ACCOUNT_LOGGED_IN 1000 12000000], ev_next_id := 2\<rparr>,
     is_kv := demo_session 2 ''1000'' ''j0'' ''r0''\<rparr>"

definition demo_s3 :: id_state where
  "demo_s3 = demo_s2\<lparr>is_accounts := [demo_admin, demo_tom],
     is_db := empty_db\<lparr>next_id := 3, audit_logs := [\<lparr>al_id = 1002, al_operator_id = 1000, al_action = 1, al_entity = ''account'',
       al_entity_id = 1001, al_before = None, al_after = Some (SnapAccount (snapshot_of demo_tom)), al_ip = Some ''host'', al_user_agent = None\<rparr>]\<rparr>,
     is_events := empty_events\<lparr>pg_events := [demo_outbox_event 1 ACCOUNT_LOGGED_IN 1000 12000000, demo_outbox_event 2 ACCOUNT_CREATED 1001 3000000],
       ev_next_id := 3\<rparr>\<rparr>"

definition demo_s4 :: id_state where
  "demo_s4 = demo_s3\<lparr>is_events := empty_events\<lparr>pg_events := [demo_outbox_event 1 ACCOUNT_LOGGED_IN 1000 12000000,
       demo_outbox_event 2 ACCOUNT_CREATED 1001 3000000, demo_outbox_event 3 ACCOUNT_LOGGED_IN 1001 14000000], ev_next_id := 4\<rparr>,
     is_kv := demo_session 2 ''1000'' ''j0'' ''r0'' @ demo_session 4 ''1001'' ''j1'' ''r1''\<rparr>"

lemmas demo_state_defs = demo_s1_def demo_s2_def demo_s3_def demo_s4_def demo_admin_def demo_tom_def demo_session_def demo_outbox_event_def

lemma demo_1: "handler demo_cx (demo_at 1 [] []) (StartUp None None) empty_id = (Inr RDone, demo_s1)"
  by (simp add: id_eval demo_state_defs empty_id_def)

lemma demo_2: "handler demo_cx (demo_at 2 ''j0'' ''r0'') (Login ''13888888888'' ''admin123!'') demo_s1 =
    (Inr (RTokens \<lparr>tp_access_token = ''1000.j0'', tp_refresh_token = ''r0'', tp_expires_in = 3600\<rparr>), demo_s2)"
  by (simp add: id_eval demo_state_defs)

lemma demo_3: "handler demo_cx (demo_at 3 [] []) (CreateAccount (with_token ''1000.j0'') ''Tom'' ''13900000001'' ''secret'') demo_s2 =
    (Inr (RCreated 1001 ''Tom''), demo_s3)"
  by (simp add: id_eval demo_state_defs)

lemma demo_4: "handler demo_cx (demo_at 4 ''j1'' ''r1'') (Login ''13900000001'' ''secret'') demo_s3 =
    (Inr (RTokens \<lparr>tp_access_token = ''1001.j1'', tp_refresh_token = ''r1'', tp_expires_in = 3600\<rparr>), demo_s4)"
  by (simp add: id_eval demo_state_defs)

lemma demo_5: "fst (handler demo_cx (demo_at 5 [] []) (DeleteAccount (with_token ''1000.j0'') 1001) demo_s4) = Inr (RDeleted 1001)"
  by (simp add: id_eval demo_state_defs)

lemma demo_6: "fst (handler demo_cx (demo_at 5 ''j2'' ''r2'') (Refresh ''r0'') demo_s2) =
    Inr (RTokens \<lparr>tp_access_token = ''1000.j2'', tp_refresh_token = ''r2'', tp_expires_in = 3600\<rparr>)"
  by (simp add: id_eval demo_state_defs)

lemma demo_instant [simp]: "instant_of (cx_kv demo_cx) (ie_kv (demo_at n j r)) = n * 1000000"
  by (simp add: demo_cx_def demo_at_def instant_of_def)

abbreviation demo_login :: "id_env \<times> id_request \<times> id_state" where
  "demo_login \<equiv> (demo_at 2 ''j0'' ''r0'', Login ''13888888888'' ''admin123!'', demo_s1)"

abbreviation demo_log :: id_log where
  "demo_log \<equiv> [(demo_at 1 [] [], StartUp None None, empty_id), demo_login]"

lemma demo_run_1: "id_run demo_cx 1000000 [(demo_at 1 [] [], StartUp None None, empty_id)] demo_s1"
  using id_run.step [OF id_run.start, of 0 demo_cx "demo_at 1 [] []" "StartUp None None"] by (simp add: id_after_def demo_1 del: handler.simps)

lemma demo_run_2: "id_run demo_cx 2000000 demo_log demo_s2"
  using id_run.step [OF demo_run_1, of "demo_at 2 ''j0'' ''r0''" "Login ''13888888888'' ''admin123!''"] by (simp add: id_after_def demo_2 del: handler.simps)

lemma demo_run_4: "\<exists>log. id_run demo_cx 4000000 log demo_s4"
proof -
  note three = id_run.step [OF demo_run_2, of "demo_at 3 [] []" "CreateAccount (with_token ''1000.j0'') ''Tom'' ''13900000001'' ''secret''"]
  note four = id_run.step [OF three, of "demo_at 4 ''j1'' ''r1''" "Login ''13900000001'' ''secret''"]
  then show ?thesis by (auto simp: id_after_def demo_3 demo_4 simp del: handler.simps)
qed

lemma id_rollback_self [simp]: "id_rollback s s = s"
  by (simp add: id_rollback_def rollback_def event_rollback_def)

section \<open>The account table\<close>

text \<open>
  C33. Privileged accounts are protected. In every reachable state, identifiers and phone numbers of accounts are
  unique and every phone number is valid, and once there is a privileged account no request adds, removes or
  renames one; an update, a deletion or a password reset aimed at one is refused and changes nothing.
\<close>
theorem privileged_accounts_protected:
  assumes "id_run cx now log s" "privileged_list (is_accounts s) \<noteq> []"
  shows "distinct (map acc_id (is_accounts s)) \<and> distinct (map acc_phone (is_accounts s)) \<and>
     list_all (\<lambda>a. is_mainland_china_mobile (acc_phone a)) (is_accounts s) \<and>
     privileged_list (is_accounts (id_after cx env q s)) = privileged_list (is_accounts s) \<and>
     (lookup_by acc_id k (is_accounts s) = Some a \<longrightarrow> acc_privileged a \<longrightarrow>
        q \<in> {UpdateAccount c k name phone, DeleteAccount c k, ResetPassword c k password} \<longrightarrow>
        (\<exists>e. handler cx env q s = (Inl e, s)))"
proof -
  have ok: "accounts_ok (is_accounts s)" using assms(1) by (rule run_accounts)
  have refused: "\<exists>e. handler cx env q s = (Inl e, s)"
    if a: "lookup_by acc_id k (is_accounts s) = Some a" "acc_privileged a"
      and q: "q \<in> {UpdateAccount c k name phone, DeleteAccount c k, ResetPassword c k password}"
  proof (cases "authenticate cx env c s")
    case (Pair r t)
    then have "t = s" by (rule authenticate_reads)
    then show ?thesis
      using a q Pair by (cases r) (auto simp: endpoint_defs monad_defs account_by_id_def id_rollback_self
          hashed_try_new_def split: sum.split option.split)
  qed
  then show ?thesis
    using ok request_keeps_privileged [OF ok] assms(2) by (auto simp: accounts_ok_def account_ok_def list_all_iff)
qed

lemma privileged_accounts_protected_witness:
  "handler demo_cx (demo_at 3 [] []) (DeleteAccount (with_token ''1000.j0'') 1000) demo_s2 = (Inl (IdIdentity AccountProtected), demo_s2) \<and>
   (\<exists>e. handler demo_cx (demo_at 3 [] []) (DeleteAccount (with_token ''1000.j0'') 1000) demo_s2 = (Inl e, demo_s2))"
proof
  show "handler demo_cx (demo_at 3 [] []) (DeleteAccount (with_token ''1000.j0'') 1000) demo_s2 = (Inl (IdIdentity AccountProtected), demo_s2)"
    by (simp add: id_eval demo_state_defs rollback_def)
  have "privileged_list (is_accounts demo_s2) \<noteq> []" "lookup_by acc_id 1000 (is_accounts demo_s2) = Some demo_admin" "acc_privileged demo_admin"
    by (simp_all add: demo_state_defs privileged_list_def)
  then show "\<exists>e. handler demo_cx (demo_at 3 [] []) (DeleteAccount (with_token ''1000.j0'') 1000) demo_s2 = (Inl e, demo_s2)"
    using privileged_accounts_protected [OF demo_run_2, of "demo_at 3 [] []" "DeleteAccount (with_token ''1000.j0'') 1000" 1000 demo_admin
        "with_token ''1000.j0''"] by blast
qed

section \<open>Sessions\<close>

text \<open>The request as the middleware sees it; the open endpoints and the hooks have none.\<close>

fun call_of :: "id_request \<Rightarrow> id_call option" where
  "call_of (CreateAccount c _ _ _) = Some c"
| "call_of (UpdateAccount c _ _ _) = Some c"
| "call_of (DeleteAccount c _) = Some c"
| "call_of (ResetPassword c _ _) = Some c"
| "call_of (UpdatePassword c _ _) = Some c"
| "call_of (Logout c) = Some c"
| "call_of (GetAccount c _) = Some c"
| "call_of (CurrentProfile c) = Some c"
| "call_of _ = None"

lemma refused_call:
  assumes "call_of q = Some c" "fst (authenticate cx env c s) = Inl e"
  shows "handler cx env q s = (Inl e, s)"
proof -
  have "authenticate cx env c s = (Inl e, s)"
    using assms(2) authenticate_reads [of cx env c s] by (cases "authenticate cx env c s") auto
  then show ?thesis using assms(1) by (cases q) (auto simp: bindM_def)
qed

text \<open>A token that is accepted is of the session of its account that the store holds.\<close>

lemma authenticate_session:
  assumes "usable s" "fst (authenticate cx env c s) = Inr k"
  shows "\<exists>token cl. access_token_from_parts c = Inr token \<and> decode_access_token cx env token = Some cl \<and>
    parse_i64 (lit (cm_sub cl)) = Some k \<and> seen cx env (cells s) (jti_of cx (cm_sub cl)) = Some (JStr (cm_jti cl))"
proof -
  obtain token where token: "access_token_from_parts c = Inr token"
    using assms(2) by (cases "access_token_from_parts c") (auto simp: authenticate_def monad_defs)
  obtain r t where v: "verify cx env token s = (r, t)" by fastforce
  then obtain sub jti where r: "r = Inr (sub, jti)" "parse_i64 (lit sub) = Some k"
    using assms(2) token by (cases r) (auto simp: authenticate_def monad_defs split: option.splits)
  with v verify_accepts [OF assms(1)] show ?thesis using token by blast
qed

lemma seen_cell: "seen cx env c key = Some v \<Longrightarrow> \<exists>e. c key = Some e \<and> ce_value e = v \<and> alive (cx_kv cx) (ie_kv env) e"
  by (auto simp: seen_def split: option.splits if_splits)

text \<open>
  C30. A request behind the middleware needs the latest session of its account. When such a request does anything
  but fail without a trace, in any reachable state, then the token it carries names an account and a session,
  that session is the one of the last login or refresh of the account that issued tokens, and the account has
  not logged out since.
\<close>
theorem protected_request_needs_latest_token:
  assumes "id_run cx now log s" "call_of q = Some c"
    and "handler cx env q s = (r, t)" "t \<noteq> s \<or> (\<exists>x. r = Inr x)"
  shows "\<exists>token cl k earlier e p s' later. access_token_from_parts c = Inr token \<and>
     decode_access_token cx env token = Some cl \<and> cm_sub cl = int_string k \<and> fst (authenticate cx env c s) = Inr k \<and>
     log = earlier @ (e, p, s') # later \<and> issues_for cx e p s' = Some k \<and> cm_jti cl = ie_jti e \<and>
     (\<forall>x \<in> set later. \<not> ends_session k cx x)"
proof -
  have "\<nexists>e. fst (authenticate cx env c s) = Inl e"
    using refused_call [OF assms(2)] assms(3,4) by fastforce
  then obtain k where k: "fst (authenticate cx env c s) = Inr k" by (meson sumE)
  from authenticate_session [OF run_usable [OF assms(1)] k] obtain token cl where cl:
    "access_token_from_parts c = Inr token" "decode_access_token cx env token = Some cl"
    "parse_i64 (lit (cm_sub cl)) = Some k" "seen cx env (cells s) (jti_of cx (cm_sub cl)) = Some (JStr (cm_jti cl))" by blast
  from seen_cell [OF cl(4)] obtain x where "cells s (jti_of cx (cm_sub cl)) = Some x" "ce_value x = JStr (cm_jti cl)" by blast
  with run_sessions [OF assms(1)] have "issued_last cx log (cm_sub cl) (JStr (cm_jti cl))" by metis
  then obtain earlier e p s' later k' where last: "log = earlier @ (e, p, s') # later" "issues_for cx e p s' = Some k'"
    "cm_sub cl = int_string k'" "cm_jti cl = ie_jti e" "\<forall>x \<in> set later. \<not> ends_session k' cx x"
    unfolding issued_last_def by auto
  have "k' = k" using cl(3) last(3) by (simp add: parse_int_string split: if_splits)
  with last k cl(1,2) show ?thesis by blast
qed

lemma protected_request_needs_latest_token_witness:
  "\<exists>token cl k earlier e p s' later. access_token_from_parts (with_token ''1000.j0'') = Inr token \<and>
     decode_access_token demo_cx (demo_at 3 [] []) token = Some cl \<and> cm_sub cl = int_string k \<and>
     fst (authenticate demo_cx (demo_at 3 [] []) (with_token ''1000.j0'') demo_s2) = Inr k \<and>
     demo_log = earlier @ (e, p, s') # later \<and> issues_for demo_cx e p s' = Some k \<and> cm_jti cl = ie_jti e \<and>
     (\<forall>x \<in> set later. \<not> ends_session k demo_cx x)"
  by (rule protected_request_needs_latest_token [OF demo_run_2 _ demo_3]) simp_all

lemma find_phone: "distinct (map acc_phone l) \<Longrightarrow> find (\<lambda>a. acc_phone a = p \<and> Q a) l =
    (case lookup_by acc_phone p l of None \<Rightarrow> None | Some a \<Rightarrow> if Q a then Some a else None)"
proof (induction l)
  case (Cons x l)
  then have "acc_phone x = p \<Longrightarrow> lookup_by acc_phone p l = None" by (auto simp: lookup_by_None image_iff)
  then show ?case using Cons by (auto split: option.splits)
qed simp

lemma alive_before: "now < ce_expires_at e \<Longrightarrow> alive_at b now e"
  by (simp add: alive_at_def split: kv_backend.split)

lemma verify_stored:
  assumes "usable s" "decode_access_token cx env token = Some cl"
    and "cells s (jti_of cx (cm_sub cl)) = Some e" "alive (cx_kv cx) (ie_kv env) e" "ce_value e = JStr (cm_jti cl)"
  shows "verify cx env token s = (Inr (cm_sub cl, cm_jti cl), s)"
proof -
  have "seen cx env (cells s) (jti_of cx (cm_sub cl)) = Some (JStr (cm_jti cl))" using assms(3-5) by (simp add: seen_def)
  then show ?thesis using assms(1,2) by (simp add: verify_def or_invalid_def bindM_def ok_or_def retM_def on_kv_get view_seen)
qed

text \<open>
  C32. A login answers with tokens exactly when the phone number is the one of an account, the password is the
  account's, and the tokens can be signed and stored. A phone number no account has and a wrong password give one
  and the same error and change nothing. A login that succeeds touches no account, and the access token it returns
  is accepted, wherever the signature library gives its claims back, as long as its entry in the store is alive.
\<close>
theorem login_behaviour:
  assumes "id_run cx now log s" "handler cx env (Login phone password) s = (r, t)"
    and "phone_try_new phone = Inr p" "password_try_new password = Inr pw"
  shows "case find (\<lambda>a. acc_phone a = p \<and> hashed_verify (cx_hash cx) (acc_password a) pw = Inr ()) (is_accounts s) of
      None \<Rightarrow> r = Inl (IdIdentity AccountInvalidCredentials) \<and> t = s
    | Some a \<Rightarrow> is_accounts t = is_accounts s \<and> (\<forall>pair. r = Inr (RTokens pair) \<longrightarrow>
        tp_refresh_token pair = ie_refresh env \<and>
        (\<exists>d. deadline (cx_kv cx) (ie_kv env) (th_access_ttl (cx_helper cx) * 1000000) = Some d \<and>
          (\<forall>later. decode_access_token cx later (tp_access_token pair) = Some (access_claims cx env (acc_id a) (ie_jti env)) \<longrightarrow>
             instant_of (cx_kv cx) (ie_kv later) < d \<longrightarrow>
             verify cx later (tp_access_token pair) t = (Inr (int_string (acc_id a), ie_jti env), t))))"
proof -
  let ?P = "\<lambda>a. acc_phone a = p \<and> hashed_verify (cx_hash cx) (acc_password a) pw = Inr ()"
  note u = run_usable [OF assms(1)]
  have "distinct (map acc_phone (is_accounts s))" using run_accounts [OF assms(1)] by (simp add: accounts_ok_def)
  then have found: "find ?P (is_accounts s) = login_account cx phone password s"
    using assms(3,4) by (simp add: login_account_def find_phone hashed_verify_def split: option.split)
  note eff = handler_cases [OF login_effect [OF u] assms(2)]
  show ?thesis
  proof (cases "login_account cx phone password s")
    case None
    then have "\<exists>e. r = Inl e" using eff by (cases r) auto
    moreover have "handler cx env (Login phone password) s = (Inl (IdIdentity AccountInvalidCredentials), s)"
      using None assms(3,4) by (auto simp: login_account_def account_login_def hashed_verify_def replyM_def monad_defs split: option.splits if_splits)
    ultimately show ?thesis using None found assms(2) by simp
  next
    case (Some a)
    have tokens: "tp_refresh_token pair = ie_refresh env \<and> (\<exists>d. lifetime cx env (th_access_ttl (cx_helper cx)) = Some d \<and>
        (\<forall>later. decode_access_token cx later (tp_access_token pair) = Some (access_claims cx env (acc_id a) (ie_jti env)) \<longrightarrow>
           instant_of (cx_kv cx) (ie_kv later) < d \<longrightarrow>
           verify cx later (tp_access_token pair) t = (Inr (int_string (acc_id a), ie_jti env), t)))"
      if "r = Inr (RTokens pair)" for pair
    proof -
      have t: "usable t" "can_issue cx env (acc_id a)" "cells t = issued_map cx env (acc_id a) (cells s)" "tp_refresh_token pair = ie_refresh env"
        using eff that Some by (auto simp: only_kv_def)
      then obtain d where d: "lifetime cx env (th_access_ttl (cx_helper cx)) = Some d" by (auto simp: can_issue_def)
      then have cell: "cells t (jti_of cx (int_string (acc_id a))) =
          Some \<lparr>ce_key = jti_of cx (int_string (acc_id a)), ce_value = JStr (ie_jti env), ce_expires_at = d\<rparr>"
        using t by (simp add: issued_jti)
      have "verify cx later (tp_access_token pair) t = (Inr (int_string (acc_id a), ie_jti env), t)"
        if "decode_access_token cx later (tp_access_token pair) = Some (access_claims cx env (acc_id a) (ie_jti env))"
          "instant_of (cx_kv cx) (ie_kv later) < d" for later
        using verify_stored [OF t(1) that(1)] cell that(2) by (simp add: access_claims_def alive_before)
      then show ?thesis using d t(4) by blast
    qed
    have "is_accounts t = is_accounts s" using eff Some by (cases r) (auto simp: only_kv_def)
    then show ?thesis using tokens unfolding found Some option.case lifetime_def by blast
  qed
qed

lemma login_behaviour_witness:
  "verify demo_cx (demo_at 3 [] []) ''1000.j0'' demo_s2 = (Inr (''1000'', ''j0''), demo_s2)"
proof -
  have find: "find (\<lambda>a. acc_phone a = ''13888888888'' \<and> hashed_verify (cx_hash demo_cx) (acc_password a) ''admin123!'' = Inr ()) (is_accounts demo_s1)
      = Some demo_admin"
    by (simp add: demo_state_defs id_eval)
  have d: "deadline (cx_kv demo_cx) (ie_kv (demo_at 2 ''j0'' ''r0'')) (th_access_ttl (cx_helper demo_cx) * 1000000) = Some 3602000000"
    by (simp add: deadline_def id_eval)
  have claims: "decode_access_token demo_cx (demo_at 3 [] []) ''1000.j0'' =
      Some (access_claims demo_cx (demo_at 2 ''j0'' ''r0'') (acc_id demo_admin) (ie_jti (demo_at 2 ''j0'' ''r0'')))"
    by (simp add: id_eval demo_admin_def)
  note login = login_behaviour [OF demo_run_1 demo_2 demo_texts(1,3), unfolded find option.case, THEN conjunct2, THEN spec, THEN mp, OF refl,
      THEN conjunct2]
  then have "verify demo_cx (demo_at 3 [] []) ''1000.j0'' demo_s2 = (Inr (int_string (acc_id demo_admin), ie_jti (demo_at 2 ''j0'' ''r0'')), demo_s2)"
    using claims d by fastforce
  then show ?thesis by (simp add: demo_admin_def demo_at_def)
qed

text \<open>The owner of a refresh token decides what a refresh with it does.\<close>

lemma refresh_refused:
  assumes "usable s" "refresh_owner cx env token s = None"
  shows "fst (handler cx env (Refresh token) s) = Inl (IdIdentity RefreshTokenInvalid)"
proof -
  obtain r t where run: "handler cx env (Refresh token) s = (r, t)" by fastforce
  show ?thesis using handler_cases [OF refresh_effect [OF assms(1)] run] assms(2) run by (cases r) auto
qed

lemma refresh_granted:
  assumes "usable s" "refresh_owner cx env token s = Some k" "can_issue cx env k"
  shows "\<exists>p. fst (handler cx env (Refresh token) s) = Inr (RTokens p) \<and> tp_refresh_token p = ie_refresh env"
proof -
  obtain r t where run: "handler cx env (Refresh token) s = (r, t)" by fastforce
  show ?thesis using handler_cases [OF refresh_effect [OF assms(1)] run] assms(2,3) run by (cases r) auto
qed

lemma owner_on_record:
  assumes "refresh_inv cx (instant_of (cx_kv cx) (ie_kv env)) (cells s)" "refresh_owner cx env r s = Some k"
  shows "\<exists>f. cells s (subject_of cx (int_string k)) = Some f \<and> ce_value f = JStr r"
proof -
  obtain v where v: "seen cx env (cells s) (refresh_of cx r) = Some v" "decode_id v = Some k"
    using assms(2) by (auto simp: refresh_owner_def bind_eq_Some_conv)
  from seen_cell [OF v(1)] obtain e where e: "cells s (refresh_of cx r) = Some e" "ce_value e = v" "alive (cx_kv cx) (ie_kv env) e" by blast
  then obtain k' f where f: "ce_value e = JStr (int_string k')" "cells s (subject_of cx (int_string k')) = Some f" "ce_value f = JStr r"
    using assms(1) unfolding refresh_inv_def by blast
  then have "k' = k" using v(2) e(2) by (auto simp: parse_int_string split: if_splits)
  with f show ?thesis by blast
qed

lemma spent_token:
  assumes "consumed cx env (refresh_of cx r) c c'" "ie_refresh env \<noteq> r"
    and "issued_map cx env k c' (refresh_of cx r) = Some e"
  shows "\<not> alive (cx_kv cx) (ie_kv env) e"
proof -
  have "c' (refresh_of cx r) = Some e"
    using assms(2,3) by (auto simp: issued_map_def put_cell_def dropped_def Let_def split: option.splits if_splits)
  then show ?thesis using assms(1) by (simp add: consumed_def)
qed

text \<open>
  C31. Refresh tokens rotate. In every reachable state an account has at most one refresh token that can still be
  used, and a token that was exchanged for new ones cannot be used again, at the same instant or later, unless
  the generator drew it again.
\<close>
theorem refresh_tokens_rotate:
  assumes "id_run cx now log s" "now \<le> instant_of (cx_kv cx) (ie_kv env)"
  shows "(refresh_owner cx env r1 s = Some k \<longrightarrow> refresh_owner cx env r2 s = Some k \<longrightarrow> r1 = r2) \<and>
    (handler cx env (Refresh r1) s = (Inr x, t) \<longrightarrow> ie_refresh env \<noteq> r1 \<longrightarrow>
      instant_of (cx_kv cx) (ie_kv env) \<le> instant_of (cx_kv cx) (ie_kv later) \<longrightarrow>
      fst (handler cx later (Refresh r1) t) = Inl (IdIdentity RefreshTokenInvalid))"
proof (intro conjI impI)
  note u = run_usable [OF assms(1)]
  have inv: "refresh_inv cx (instant_of (cx_kv cx) (ie_kv env)) (cells s)"
    using run_refresh [OF assms(1)] assms(2) by (rule refresh_inv_later)
  show "r1 = r2" if "refresh_owner cx env r1 s = Some k" "refresh_owner cx env r2 s = Some k"
    using owner_on_record [OF inv that(1)] owner_on_record [OF inv that(2)] by auto
  assume run: "handler cx env (Refresh r1) s = (Inr x, t)" and new: "ie_refresh env \<noteq> r1"
    and time: "instant_of (cx_kv cx) (ie_kv env) \<le> instant_of (cx_kv cx) (ie_kv later)"
  from handler_cases [OF refresh_effect [OF u] run] obtain k' c where t: "usable t"
    "consumed cx env (refresh_of cx r1) (cells s) c" "cells t = issued_map cx env k' c"
    by (auto simp: only_kv_def)
  have "seen cx later (cells t) (refresh_of cx r1) = None"
    using spent_token [OF t(2) new] alive_earlier [OF _ time] unfolding t(3) by (auto simp: seen_def split: option.split)
  then have "refresh_owner cx later r1 t = None" by (simp add: refresh_owner_def)
  with t(1) show "fst (handler cx later (Refresh r1) t) = Inl (IdIdentity RefreshTokenInvalid)" by (rule refresh_refused)
qed

lemma refresh_tokens_rotate_witness:
  "fst (handler demo_cx (demo_at 6 ''j3'' ''r3'') (Refresh ''r0'')
     (snd (handler demo_cx (demo_at 5 ''j2'' ''r2'') (Refresh ''r0'') demo_s2))) = Inl (IdIdentity RefreshTokenInvalid)"
proof -
  obtain x t where run: "handler demo_cx (demo_at 5 ''j2'' ''r2'') (Refresh ''r0'') demo_s2 = (Inr x, t)"
    using demo_6 by (cases "handler demo_cx (demo_at 5 ''j2'' ''r2'') (Refresh ''r0'') demo_s2") (auto simp del: handler.simps)
  have "fst (handler demo_cx (demo_at 6 ''j3'' ''r3'') (Refresh ''r0'') t) = Inl (IdIdentity RefreshTokenInvalid)"
    by (rule refresh_tokens_rotate [OF demo_run_2, THEN conjunct2, THEN mp, THEN mp, THEN mp, OF _ run]) (simp_all, simp add: demo_at_def)
  then show ?thesis using run by (simp del: handler.simps)
qed

text \<open>
  C34. Deleting an account does not end its session. After a deletion that succeeds no account has the identifier,
  but access tokens of the account verify as before, refresh tokens have the owners they had, and one of the
  deleted account is still exchanged for new tokens.
\<close>
theorem deleted_account_keeps_session:
  assumes "id_run cx now log s" "handler cx env (DeleteAccount c k) s = (Inr x, t)"
  shows "lookup_by acc_id k (is_accounts t) = None \<and>
    (\<forall>later token. fst (verify cx later token t) = fst (verify cx later token s)) \<and>
    (\<forall>later r. refresh_owner cx later r t = refresh_owner cx later r s) \<and>
    (\<forall>later r. refresh_owner cx later r t = Some k \<longrightarrow> can_issue cx later k \<longrightarrow>
       (\<exists>p. fst (handler cx later (Refresh r) t) = Inr (RTokens p) \<and> tp_refresh_token p = ie_refresh later))"
proof -
  have kv: "is_kv t = is_kv s"
    using cache_kept [of "DeleteAccount c k" cx env s] assms(2) by (simp add: id_after_def del: handler.simps)
  have u: "usable s" "usable t" using run_usable [OF assms(1)] kv by simp_all
  obtain a where "account_delete env (operator_of c a) k s = (Inr k, t)"
    using assms(2) by (auto simp: replyM_def monad_OK account_delete_def txnM_OK dest: authenticate_reads)
  then have "is_accounts t = filter (\<lambda>a. acc_id a \<noteq> k) (is_accounts s)"
    by (auto simp: account_delete_def monad_OK txnM_OK account_repository_delete_def split: option.splits dest: on_db_accounts)
  then have gone: "lookup_by acc_id k (is_accounts t) = None" by (simp add: lookup_by_None)
  have "fst (verify cx later token t) = fst (verify cx later token s)" for later token
    using u kv by (simp add: verify_def or_invalid_def bindM_def ok_or_def retM_def failM_def on_kv_get split: option.split)
  moreover have "refresh_owner cx later r t = refresh_owner cx later r s" for later r
    using kv by (simp add: refresh_owner_def cells_def)
  ultimately show ?thesis using gone refresh_granted [OF u(2)] by blast
qed

lemma deleted_account_keeps_session_witness:
  "\<exists>p. fst (handler demo_cx (demo_at 6 ''j3'' ''r3'') (Refresh ''r1'')
     (snd (handler demo_cx (demo_at 5 [] []) (DeleteAccount (with_token ''1000.j0'') 1001) demo_s4))) = Inr (RTokens p)"
proof -
  obtain log where log: "id_run demo_cx 4000000 log demo_s4" using demo_run_4 by blast
  obtain x t where run: "handler demo_cx (demo_at 5 [] []) (DeleteAccount (with_token ''1000.j0'') 1001) demo_s4 = (Inr x, t)"
    using demo_5 by (cases "handler demo_cx (demo_at 5 [] []) (DeleteAccount (with_token ''1000.j0'') 1001) demo_s4") (auto simp del: handler.simps)
  note kept = deleted_account_keeps_session [OF log run, THEN conjunct2, THEN conjunct2]
  have "refresh_owner demo_cx (demo_at 6 ''j3'' ''r3'') ''r1'' demo_s4 = Some 1001" "can_issue demo_cx (demo_at 6 ''j3'' ''r3'') 1001"
    by (simp_all add: refresh_owner_def seen_def cells_def cell_def alive_at_def can_issue_def lifetime_def deadline_def id_eval demo_state_defs instant_of_def)
  then have "\<exists>p. fst (handler demo_cx (demo_at 6 ''j3'' ''r3'') (Refresh ''r1'') t) = Inr (RTokens p)"
    using kept by metis
  then show ?thesis using run by (simp del: handler.simps)
qed

end
