(* ===== verification/Audit_Log.thy ===== *)
theory Audit_Log
  imports Paging Access "HOL-Library.List_Lexorder" "HOL-Library.Char_ord"
begin

text \<open>
  The history of an entity, \<open>features/audit\<close>: the differences between two JSON snapshots, and the listing that
  computes them when it is read.  How an entity is written as JSON is an argument.
\<close>

section \<open>JSON\<close>

text \<open>
  An object is the list of its members, as PostgreSQL returns them: every key once, in its canonical order, so
  that equal objects are equal lists.  A number is its text.
\<close>

datatype json = Null | JBool bool | Number string | Text string | Array "json list" | Object "(string \<times> json) list"

definition get_member :: "(string \<times> json) list \<Rightarrow> string \<Rightarrow> json" where
  "get_member m key = (case map_of m key of None \<Rightarrow> Null | Some v \<Rightarrow> v)"

lemma size_get_member: "size (get_member m key) < size (Object m)"
proof (cases "map_of m key")
  case (Some v)
  then have "(key, v) \<in> set m" by (rule map_of_SomeD)
  then have "size_prod (\<lambda>_. 0) size (key, v) \<le> size_list (size_prod (\<lambda>_. 0) size) m"
    by (rule size_list_estimation') simp
  then show ?thesis using Some by (simp add: get_member_def)
qed (simp add: get_member_def)

section \<open>The difference of two snapshots\<close>

record change_field =
  cf_field :: string
  cf_before :: json
  cf_after :: json

definition child_path :: "string \<Rightarrow> string \<Rightarrow> string" where
  "child_path path key = (if path = [] then key else path @ ''.'' @ key)"

function collect :: "string \<Rightarrow> json \<Rightarrow> (string \<times> json) list" where
  "collect path (Object m) = concat (map (\<lambda>key. collect (child_path path key) (get_member m key)) (sort (map fst m)))"
| "collect path Null = [(path, Null)]"
| "collect path (JBool b) = [(path, JBool b)]"
| "collect path (Number n) = [(path, Number n)]"
| "collect path (Text t) = [(path, Text t)]"
| "collect path (Array xs) = [(path, Array xs)]"
  by pat_completeness auto
termination by (relation "measure (size \<circ> snd)") (simp_all add: size_get_member del: json.size)

text \<open>\<open>sort\<close> and \<open>dedup\<close> on the keys of both objects; a missing member counts as null.\<close>

definition both_keys :: "(string \<times> json) list \<Rightarrow> (string \<times> json) list \<Rightarrow> string list" where
  "both_keys f g = remdups_adj (sort (map fst f @ map fst g))"

function diff_value :: "string \<Rightarrow> json \<Rightarrow> json \<Rightarrow> change_field list" where
  "diff_value path before after =
     (if before = after then []
      else case (before, after) of
        (Object f, Object g) \<Rightarrow>
          concat (map (\<lambda>key. diff_value (child_path path key) (get_member f key) (get_member g key)) (both_keys f g))
      | _ \<Rightarrow> [\<lparr>cf_field = path, cf_before = before, cf_after = after\<rparr>])"
  by pat_completeness auto
termination
  by (relation "measure (\<lambda>(path, before, after). size before + size after)")
    (auto simp: add_strict_mono size_get_member simp del: json.size)

declare diff_value.simps [simp del]

definition json_diff :: "json option \<Rightarrow> json option \<Rightarrow> change_field list" where
  "json_diff before after = (case (before, after) of
      (None, Some a) \<Rightarrow> map (\<lambda>(field, v). \<lparr>cf_field = field, cf_before = Null, cf_after = v\<rparr>) (collect [] a)
    | (Some b, None) \<Rightarrow> map (\<lambda>(field, v). \<lparr>cf_field = field, cf_before = v, cf_after = Null\<rparr>) (collect [] b)
    | (Some b, Some a) \<Rightarrow> diff_value [] b a
    | (None, None) \<Rightarrow> [])"

section \<open>The listing\<close>

record audit_log_item =
  ali_id :: int
  ali_change_type :: string
  ali_diff :: "change_field list"
  ali_operator_id :: int
  ali_operator_name :: "string option"

definition change_type :: "audit_log \<Rightarrow> string" where
  "change_type row = (case (al_before row, al_after row) of
      (None, Some _) \<Rightarrow> ''create'' | (Some _, None) \<Rightarrow> ''delete'' | _ \<Rightarrow> ''update'')"

definition audit_item :: "(snapshot \<Rightarrow> json) \<Rightarrow> account list \<Rightarrow> audit_log \<Rightarrow> audit_log_item" where
  "audit_item to_json accounts row = \<lparr>ali_id = al_id row, ali_change_type = change_type row,
     ali_diff = json_diff (map_option to_json (al_before row)) (map_option to_json (al_after row)),
     ali_operator_id = al_operator_id row,
     ali_operator_name = map_option acc_name (lookup_by acc_id (al_operator_id row) accounts)\<rparr>"

definition history_rows :: "string \<Rightarrow> int \<Rightarrow> db \<Rightarrow> audit_log list" where
  "history_rows entity entity_id d = filter (\<lambda>r. al_entity r = entity \<and> al_entity_id r = entity_id) (audit_logs d)"

definition audit_search :: "(snapshot \<Rightarrow> json) \<Rightarrow> string \<Rightarrow> int \<Rightarrow> cursor_paging_query \<Rightarrow> id_state \<Rightarrow> audit_log_item list \<times> int option" where
  "audit_search to_json entity entity_id paging s =
     (case paginate al_id paging (history_rows entity entity_id (is_db s)) of
        (rows, next) \<Rightarrow> (map (audit_item to_json (is_accounts s)) rows, next))"

section \<open>What the difference says\<close>

text \<open>A path is a list of keys; what is missing is null.\<close>

fun value_at :: "json \<Rightarrow> string list \<Rightarrow> json" where
  "value_at v [] = v"
| "value_at (Object m) (key # p) = value_at (get_member m key) p"
| "value_at _ (key # p) = Null"

fun is_object :: "json \<Rightarrow> bool" where
  "is_object (Object m) = True"
| "is_object _ = False"

definition dotted :: "string list \<Rightarrow> string" where
  "dotted p = foldl child_path [] p"

definition changed_at :: "json \<Rightarrow> json \<Rightarrow> string list \<Rightarrow> string \<Rightarrow> change_field" where
  "changed_at b a p field = \<lparr>cf_field = field, cf_before = value_at b p, cf_after = value_at a p\<rparr>"

lemma value_at_Null [simp]: "value_at Null p = Null"
  by (cases p) simp_all

lemma get_member_other: "key \<notin> fst ` set m \<Longrightarrow> get_member m key = Null"
  by (simp add: get_member_def map_of_eq_None_iff [THEN iffD2])

lemma set_both_keys [simp]: "set (both_keys f g) = fst ` set f \<union> fst ` set g"
  by (auto simp: both_keys_def)

lemma diff_value_leaf:
  "b \<noteq> a \<Longrightarrow> \<not> (is_object b \<and> is_object a) \<Longrightarrow> diff_value path b a = [\<lparr>cf_field = path, cf_before = b, cf_after = a\<rparr>]"
  by (cases b; cases a) (simp_all add: diff_value.simps)

lemma diff_value_objects:
  "Object f \<noteq> Object g \<Longrightarrow> diff_value path (Object f) (Object g) =
     concat (map (\<lambda>key. diff_value (child_path path key) (get_member f key) (get_member g key)) (both_keys f g))"
  by (subst diff_value.simps) simp

lemma diff_sound:
  "c \<in> set (diff_value path b a) \<Longrightarrow>
     \<exists>q. c = changed_at b a q (foldl child_path path q) \<and> cf_before c \<noteq> cf_after c \<and> \<not> (is_object (cf_before c) \<and> is_object (cf_after c))"
proof (induction path b a rule: diff_value.induct)
  case (1 path b a)
  show ?case
  proof (cases "is_object b \<and> is_object a")
    case True
    then obtain f g where fg: "b = Object f" "a = Object g" by (cases b; cases a) simp_all
    have ne: "b \<noteq> a" using "1.prems" by (auto simp: diff_value.simps [of path b a])
    then obtain key where key: "key \<in> set (both_keys f g)"
      "c \<in> set (diff_value (child_path path key) (get_member f key) (get_member g key))"
      using "1.prems" fg by (auto simp: diff_value_objects simp del: set_both_keys)
    from "1.IH" [OF ne _ fg(1) fg(2) key] obtain q where
      "c = changed_at (get_member f key) (get_member g key) q (foldl child_path (child_path path key) q)"
      "cf_before c \<noteq> cf_after c" "\<not> (is_object (cf_before c) \<and> is_object (cf_after c))" by auto
    then show ?thesis using fg by (intro exI [of _ "key # q"]) (simp add: changed_at_def)
  next
    case False
    have ne: "b \<noteq> a" using "1.prems" by (auto simp: diff_value.simps [of path b a])
    then show ?thesis using "1.prems" False
      by (intro exI [of _ "[]"]) (auto simp: diff_value_leaf changed_at_def)
  qed
qed

lemma diff_complete:
  "value_at b p \<noteq> value_at a p \<Longrightarrow> \<not> (is_object (value_at b p) \<and> is_object (value_at a p)) \<Longrightarrow>
     \<exists>q r. p = q @ r \<and> changed_at b a q (foldl child_path path q) \<in> set (diff_value path b a)"
proof (induction p arbitrary: b a path)
  case Nil
  then show ?case by (simp add: diff_value_leaf changed_at_def)
next
  case (Cons key p)
  then have ne: "b \<noteq> a" by auto
  show ?case
  proof (cases "is_object b \<and> is_object a")
    case True
    then obtain f g where fg: "b = Object f" "a = Object g" by (cases b; cases a) simp_all
    with Cons.IH [of "get_member f key" "get_member g key" "child_path path key"] Cons.prems obtain q r where
      q: "p = q @ r" "changed_at (get_member f key) (get_member g key) q (foldl child_path (child_path path key) q)
         \<in> set (diff_value (child_path path key) (get_member f key) (get_member g key))" by auto
    have "key \<in> fst ` set f \<union> fst ` set g"
      using Cons.prems(1) fg get_member_other by fastforce
    then show ?thesis using q fg ne
      by (intro exI [of _ "key # q"] exI [of _ r]) (auto simp: diff_value_objects changed_at_def)
  next
    case False
    then show ?thesis using ne by (intro exI [of _ "[]"] exI [of _ "key # p"]) (simp add: diff_value_leaf changed_at_def)
  qed
qed

lemma collect_sound:
  "(field, v) \<in> set (collect path a) \<Longrightarrow> \<exists>q. field = foldl child_path path q \<and> v = value_at a q \<and> \<not> is_object v"
proof (induction path a rule: collect.induct)
  case (1 path m)
  then obtain key where key: "key \<in> fst ` set m" "(field, v) \<in> set (collect (child_path path key) (get_member m key))" by auto
  then have "key \<in> set (sort (map fst m))" by simp
  from "1.IH" [OF this key(2)] obtain q where "field = foldl child_path (child_path path key) q" "v = value_at (get_member m key) q" "\<not> is_object v"
    by blast
  then show ?case by (intro exI [of _ "key # q"]) simp
qed (auto intro: exI [of _ "[]"])

lemma collect_leaf: "\<not> is_object a \<Longrightarrow> collect path a = [(path, a)]"
  by (cases a) simp_all

lemma collect_complete:
  "value_at a p \<noteq> Null \<Longrightarrow> \<not> is_object (value_at a p) \<Longrightarrow> (foldl child_path path p, value_at a p) \<in> set (collect path a)"
proof (induction p arbitrary: a path)
  case Nil
  then show ?case by (simp add: collect_leaf)
next
  case (Cons key p)
  then obtain m where m: "a = Object m" by (cases a) simp_all
  with Cons.prems have "key \<in> fst ` set m" using get_member_other by fastforce
  then show ?case using Cons m by auto
qed

text \<open>
  C36. The differences shown for a change are the changes. An entry of the difference of two snapshots names a path
  at which they hold the two values it shows, which are different and not both objects; and at every path where the
  snapshots differ, other than in the members of objects that both have, there is an entry for the path or for one
  above it. A creation lists a value for every leaf of the snapshot other than null against null, a deletion the same the other way
  round.
\<close>
theorem audit_diff_correct:
  "(\<forall>c \<in> set (json_diff (Some b) (Some a)). \<exists>q. c = changed_at b a q (dotted q) \<and> cf_before c \<noteq> cf_after c \<and>
      \<not> (is_object (cf_before c) \<and> is_object (cf_after c))) \<and>
   (\<forall>p. value_at b p \<noteq> value_at a p \<longrightarrow> \<not> (is_object (value_at b p) \<and> is_object (value_at a p)) \<longrightarrow>
      (\<exists>q r. p = q @ r \<and> changed_at b a q (dotted q) \<in> set (json_diff (Some b) (Some a)))) \<and>
   (\<forall>c \<in> set (json_diff None (Some a)). \<exists>q. c = changed_at Null a q (dotted q) \<and> \<not> is_object (cf_after c)) \<and>
   (\<forall>p. value_at a p \<noteq> Null \<longrightarrow> \<not> is_object (value_at a p) \<longrightarrow> changed_at Null a p (dotted p) \<in> set (json_diff None (Some a))) \<and>
   json_diff (Some a) None = map (\<lambda>c. c\<lparr>cf_before := cf_after c, cf_after := cf_before c\<rparr>) (json_diff None (Some a))"
proof (intro conjI ballI allI impI)
  show "\<exists>q. c = changed_at b a q (dotted q) \<and> cf_before c \<noteq> cf_after c \<and> \<not> (is_object (cf_before c) \<and> is_object (cf_after c))"
    if "c \<in> set (json_diff (Some b) (Some a))" for c
    using diff_sound [of c "[]" b a] that by (simp add: json_diff_def dotted_def)
  show "\<exists>q r. p = q @ r \<and> changed_at b a q (dotted q) \<in> set (json_diff (Some b) (Some a))"
    if "value_at b p \<noteq> value_at a p" "\<not> (is_object (value_at b p) \<and> is_object (value_at a p))" for p
    using diff_complete [OF that, of "[]"] by (simp add: json_diff_def dotted_def)
  show "\<exists>q. c = changed_at Null a q (dotted q) \<and> \<not> is_object (cf_after c)" if "c \<in> set (json_diff None (Some a))" for c
    using that by (auto simp: json_diff_def dotted_def changed_at_def dest!: collect_sound)
  show "changed_at Null a p (dotted p) \<in> set (json_diff None (Some a))" if "value_at a p \<noteq> Null" "\<not> is_object (value_at a p)" for p
    using collect_complete [OF that, of "[]"] by (force simp: json_diff_def dotted_def changed_at_def)
  show "json_diff (Some a) None = map (\<lambda>c. c\<lparr>cf_before := cf_after c, cf_after := cf_before c\<rparr>) (json_diff None (Some a))"
    by (auto simp: json_diff_def)
qed

text \<open>Two snapshots of an account: a changed name, a note that was added.\<close>

definition demo_before :: json where
  "demo_before = Object [(''name'', Text ''Tom''), (''note'', Object [(''a'', Number ''1'')])]"

definition demo_after :: json where
  "demo_after = Object [(''name'', Text ''Tim''), (''note'', Object [(''a'', Number ''1''), (''b'', JBool True)])]"

lemma audit_diff_correct_witness:
  "\<exists>q r. [''note'', ''b''] = q @ r \<and>
     changed_at demo_before demo_after q (dotted q) \<in> set (json_diff (Some demo_before) (Some demo_after))"
  by (rule audit_diff_correct [THEN conjunct2, THEN conjunct1, THEN spec, THEN mp, THEN mp])
    (simp_all add: demo_before_def demo_after_def get_member_def)

section \<open>The whole history\<close>

text \<open>A client that reads the history of an entity page by page, with at most \<open>n\<close> requests.\<close>

fun read_history :: "nat \<Rightarrow> (snapshot \<Rightarrow> json) \<Rightarrow> string \<Rightarrow> int \<Rightarrow> int option \<Rightarrow> int option \<Rightarrow> id_state \<Rightarrow> audit_log_item list option" where
  "read_history 0 to_json entity k limit cursor s = None"
| "read_history (Suc n) to_json entity k limit cursor s =
     (case audit_search to_json entity k \<lparr>cpq_cursor = cursor, cpq_limit = limit\<rparr> s of
        (page, None) \<Rightarrow> Some page
      | (page, Some c) \<Rightarrow> map_option (append page) (read_history n to_json entity k limit (Some c) s))"

lemma read_history_follow:
  "read_history n to_json entity k limit cursor s =
     map_option (\<lambda>ps. map (audit_item to_json (is_accounts s)) (concat ps))
       (follow n al_id limit cursor (history_rows entity k (is_db s)))"
proof (induction n arbitrary: cursor)
  case (Suc n)
  obtain rows following where page: "paginate al_id \<lparr>cpq_cursor = cursor, cpq_limit = limit\<rparr> (history_rows entity k (is_db s)) = (rows, following)"
    by fastforce
  show ?case
    by (cases following) (simp_all add: audit_search_def page Suc.IH option.map_comp comp_def)
qed simp

text \<open>Identifiers of audit records are unique.\<close>

definition audit_ids :: "db \<Rightarrow> bool" where
  "audit_ids d = distinct (map al_id (audit_logs d))"

lemma pres_audit_ids_insert: "pres audit_ids (audit_insert env e a i op b f)"
  unfolding pres_wp audit_insert_def Let_def
  by (auto simp: wp wp_new_id wp_insert_row audit_ids_def has_key_def)

lemma pres_audit_ids:
  "pres audit_ids (record_create env e i op x)" "pres audit_ids (record_updated env e i op x y)"
  "pres audit_ids (record_deleted env e i op x)" "pres audit_ids (new_id env)"
  by (simp_all add: audit_defs pres_audit_ids_insert) (rule pres_new_id, simp add: audit_ids_def)

lemma pres_db_part: "pres J m \<Longrightarrow> pres (\<lambda>s. J (is_db s)) (on_db m)"
  by (auto simp: pres_def on_db_def zoomM_def split: prod.split)

lemma audit_ids_rollback: "audit_ids (is_db s) \<Longrightarrow> audit_ids (is_db (id_rollback s t))"
  by (simp add: id_rollback_def rollback_def audit_ids_def)

lemma pres_audit_ids_txn: "pres audit_ids m \<Longrightarrow> pres audit_ids (txnM rollback m)"
  by (erule pres_txn) (simp add: rollback_def audit_ids_def)

lemma request_audit_ids: "pres (\<lambda>s. audit_ids (is_db s)) (handler cx env q)"
  by (cases q) (simp_all add: endpoint_defs account_login_def account_logout_def account_refresh_token_def Let_def,
    (intro pres_intros pres_authenticate pres_id_txn pres_db_part pres_audit_ids pres_audit_ids_txn pres_on_events pres_on_kv
       pres_repository pres_tokens; (simp add: audit_ids_rollback)?)+)

lemma run_audit_ids: "id_run cx now log s \<Longrightarrow> audit_ids (is_db s)"
proof (induction rule: id_run.induct)
  case (step now log s env q)
  then show ?case using request_audit_ids [of cx env q] by (simp add: pres_def id_after_def)
qed (simp add: empty_id_def audit_ids_def empty_db_def)

lemma history_read:
  assumes "audit_ids (is_db s)"
  shows "read_history (Suc (length (history_rows entity k (is_db s)))) to_json entity k limit None s =
    Some (map (audit_item to_json (is_accounts s)) (newest_first al_id (history_rows entity k (is_db s))))"
proof -
  let ?rows = "history_rows entity k (is_db s)"
  have "distinct (map al_id ?rows)" using assms by (simp add: audit_ids_def history_rows_def distinct_map_filter)
  from follow_remaining [OF this, of None 0 "Suc (length ?rows)" limit]
  obtain pages where "follow (Suc (length ?rows)) al_id limit None ?rows = Some pages" "concat pages = newest_first al_id ?rows"
    by (auto simp: remaining_def newest_first_def simp del: follow.simps)
  then show ?thesis by (simp add: read_history_follow del: follow.simps read_history.simps)
qed

lemma updated_account:
  assumes "accounts_ok (is_accounts s)" "account_repository_update p s = (Inr b, t)"
  shows "lookup_by acc_id (acc_id p) (is_accounts t) = Some b \<and> is_db t = is_db s"
proof -
  obtain a where a: "find (\<lambda>a. acc_id a = acc_id p \<and> acc_version a = acc_version p) (is_accounts s) = Some a"
    and b: "b = a\<lparr>acc_name := acc_name p, acc_phone := acc_phone p, acc_version := acc_version a + 1\<rparr>"
    and t: "t = s\<lparr>is_accounts := update_where (\<lambda>x. acc_id x = acc_id p \<and> acc_version x = acc_version p) (\<lambda>_. b) (is_accounts s)\<rparr>"
    using assms(2) by (auto simp: account_repository_update_def monad_OK Let_def split: option.splits)
  let ?P = "\<lambda>x. acc_id x = acc_id p \<and> acc_version x = acc_version p" and ?l = "is_accounts s"
  from a have mem: "a \<in> set ?l" "acc_id a = acc_id p" "acc_version a = acc_version p" by (auto simp: find_Some_iff)
  have "map acc_id (update_where ?P (\<lambda>_. b) ?l) = map acc_id ?l" using mem b by (auto simp: update_where_def)
  then have "distinct (map acc_id (update_where ?P (\<lambda>_. b) ?l))" using assms(1) by (simp add: accounts_ok_def)
  moreover have "b \<in> set (update_where ?P (\<lambda>_. b) ?l)" using mem by (force simp: update_where_def)
  ultimately have "lookup_by acc_id (acc_id b) (update_where ?P (\<lambda>_. b) ?l) = Some b" by (rule distinct_lookup_by)
  moreover have "acc_id b = acc_id p" using b mem by simp
  ultimately show ?thesis using t by simp
qed

lemma on_db_OK: "on_db m s = (Inr a, t) \<longleftrightarrow> (\<exists>d. m (is_db s) = (Inr a, d) \<and> t = s\<lparr>is_db := d\<rparr>)"
  by (simp add: on_db_def zoom_OK)

text \<open>
  C37. The history of an account is complete. In every reachable state, an update of an account that succeeds appends
  one audit record that names the caller and holds the account before and after; and a client that reads the history
  of the account page by page, whatever its page size, gets every record of the account once, newest first, this one
  included, each with its difference, in as many requests as there are records, and one.
\<close>
theorem account_update_in_history:
  assumes "id_run cx now log s" "handler cx env (UpdateAccount c target name phone) s = (Inr x, t)"
  shows "\<exists>k before after row. fst (authenticate cx env c s) = Inr k \<and>
    lookup_by acc_id target (is_accounts s) = Some before \<and> lookup_by acc_id target (is_accounts t) = Some after \<and>
    al_operator_id row = k \<and> al_entity row = ''account'' \<and> al_entity_id row = target \<and>
    al_before row = Some (SnapAccount (snapshot_of before)) \<and> al_after row = Some (SnapAccount (snapshot_of after)) \<and>
    audit_logs (is_db t) = audit_logs (is_db s) @ [row] \<and>
    (\<forall>to_json limit. read_history (Suc (length (history_rows ''account'' target (is_db t)))) to_json ''account'' target limit None t =
       Some (map (audit_item to_json (is_accounts t)) (newest_first al_id (history_rows ''account'' target (is_db s) @ [row]))))"
proof -
  have ok: "accounts_ok (is_accounts s)" using assms(1) by (rule run_accounts)
  from assms(2) obtain k v p a where auth: "authenticate cx env c s = (Inr k, v)"
    and run: "account_update env (operator_of c k) target name p v = (Inr a, t)"
    by (auto simp: replyM_def monad_OK)
  have "v = s" using auth by (rule authenticate_reads)
  note auth = auth [unfolded this] and run = run [unfolded this]
  from run obtain before u where before: "lookup_by acc_id target (is_accounts s) = Some before"
    and upd: "account_repository_update (before\<lparr>acc_name := name, acc_phone := p\<rparr>) s = (Inr a, u)"
    and rec: "on_db (record_updated (ie_db env) ''account'' target (operator_of c k) (SnapAccount (snapshot_of before)) (SnapAccount (snapshot_of a))) u
      = (Inr (), t)"
    by (auto simp: account_update_def monad_OK account_by_id_OK)
  have "acc_id before = target" using before by (auto dest: lookup_by_SomeD)
  then have u: "lookup_by acc_id target (is_accounts u) = Some a" "is_db u = is_db s" using updated_account [OF ok upd] by simp_all
  let ?row = "audit_row (ie_db env) (is_db s) ''account'' Updated target (operator_of c k)
    (Some (SnapAccount (snapshot_of before))) (Some (SnapAccount (snapshot_of a)))"
  have logs: "audit_logs (is_db t) = audit_logs (is_db s) @ [?row]" "is_accounts t = is_accounts u"
    using rec u by (auto simp: on_db_OK record_updated_def audit_insert_OK)
  then have rows: "history_rows ''account'' target (is_db t) = history_rows ''account'' target (is_db s) @ [?row]"
    by (simp add: history_rows_def audit_row_def)
  have "audit_ids (is_db t)"
    using request_audit_ids [of cx env "UpdateAccount c target name phone"] run_audit_ids [OF assms(1)] assms(2)
    unfolding pres_def by (metis snd_conv)
  from history_read [OF this, where entity = "''account''" and k = target]
  have "read_history (Suc (length (history_rows ''account'' target (is_db t)))) to_json ''account'' target limit None t =
     Some (map (audit_item to_json (is_accounts t)) (newest_first al_id (history_rows ''account'' target (is_db s) @ [?row])))" for to_json limit
    unfolding rows .
  then show ?thesis
    using auth before u(1) logs
    by (intro exI [of _ k] exI [of _ before] exI [of _ a] exI [of _ ?row]) (simp add: audit_row_def operator_of_def)
qed

lemma demo_rename: "fst (handler demo_cx (demo_at 5 [] []) (UpdateAccount (with_token ''1000.j0'') 1001 ''Tim'' ''13900000001'') demo_s4) =
    Inr (RUpdated 1001 ''Tim'' ''13900000001'')"
  by (simp add: id_eval demo_state_defs account_update_def account_repository_update_def record_updated_def i64_range_defs)

lemma account_update_in_history_witness:
  "\<exists>row. al_operator_id row = 1000 \<and> al_after row = Some (SnapAccount \<lparr>acs_id = 1001, acs_name = ''Tim'', acs_phone = ''13900000001'', acs_privileged = False\<rparr>) \<and>
     audit_logs (is_db (snd (handler demo_cx (demo_at 5 [] []) (UpdateAccount (with_token ''1000.j0'') 1001 ''Tim'' ''13900000001'') demo_s4)))
       = audit_logs (is_db demo_s4) @ [row]"
proof -
  obtain log where log: "id_run demo_cx 4000000 log demo_s4" using demo_run_4 by blast
  let ?q = "UpdateAccount (with_token ''1000.j0'') 1001 ''Tim'' ''13900000001''"
  obtain t where run: "handler demo_cx (demo_at 5 [] []) ?q demo_s4 = (Inr (RUpdated 1001 ''Tim'' ''13900000001''), t)"
    using demo_rename by (cases "handler demo_cx (demo_at 5 [] []) ?q demo_s4") (auto simp del: handler.simps)
  have "fst (authenticate demo_cx (demo_at 5 [] []) (with_token ''1000.j0'') demo_s4) = Inr 1000"
    by (simp add: id_eval demo_state_defs)
  moreover have "lookup_by acc_id 1001 (is_accounts t) = Some (demo_tom\<lparr>acc_name := ''Tim'', acc_version := 2\<rparr>)"
    using arg_cong [OF run, of "\<lambda>r. lookup_by acc_id 1001 (is_accounts (snd r))"]
    by (simp add: id_eval demo_state_defs account_update_def account_repository_update_def record_updated_def i64_range_defs)
  ultimately have "\<exists>row. al_operator_id row = 1000 \<and> al_after row = Some (SnapAccount (snapshot_of (demo_tom\<lparr>acc_name := ''Tim'', acc_version := 2\<rparr>))) \<and>
      audit_logs (is_db t) = audit_logs (is_db demo_s4) @ [row]"
    using account_update_in_history [OF log run] by auto
  then show ?thesis using run by (simp add: snapshot_of_def demo_tom_def del: handler.simps)
qed

end
