(* ===== verification/Web.thy ===== *)
theory Web
  imports Access
begin

text \<open>
  What a client is told when a request fails: \<open>infrastructure/web\<close> (the errors, their status, the extractors'
  classification), \<open>infrastructure/locale\<close> (translation and the middleware that renders the problem) and the trace
  identifiers of \<open>libs/trace_kit\<close>.  Parsers of JSON, queries and multipart bodies and the translations are
  arguments; what a text holds is asked of its characters.
\<close>

section \<open>Texts\<close>

definition starts_with :: "string \<Rightarrow> string \<Rightarrow> bool" where
  "starts_with p s = (take (length p) s = p)"

definition ends_with :: "string \<Rightarrow> string \<Rightarrow> bool" where
  "ends_with p s = starts_with (rev p) (rev s)"

fun contains :: "string \<Rightarrow> string \<Rightarrow> bool" where
  "contains p [] = (p = [])"
| "contains p (c # s) = (starts_with p (c # s) \<or> contains p s)"

text \<open>\<open>str::split\<close> at a character: never empty.\<close>

fun split_at :: "char \<Rightarrow> string \<Rightarrow> string list" where
  "split_at d [] = [[]]"
| "split_at d (c # s) = (if c = d then [] # split_at d s else (c # hd (split_at d s)) # tl (split_at d s))"

section \<open>Errors\<close>

datatype invalid_params_kind = BodyParams | QueryParams | PathParams

datatype web_error = InvalidParams invalid_params_kind string "string option" | L10n string

definition INVALID_REQUEST_BODY :: string where "INVALID_REQUEST_BODY = ''invalid_request_body''"
definition INVALID_PATH_PARAMS :: string where "INVALID_PATH_PARAMS = ''invalid_path_params''"
definition JSON_BODY_SYNTAX :: string where "JSON_BODY_SYNTAX = ''json_body_syntax''"
definition JSON_BODY_MISSING_FIELD :: string where "JSON_BODY_MISSING_FIELD = ''json_body_missing_field''"
definition JSON_BODY_INVALID_TYPE :: string where "JSON_BODY_INVALID_TYPE = ''json_body_invalid_type''"
definition JSON_BODY_UNKNOWN_FIELD :: string where "JSON_BODY_UNKNOWN_FIELD = ''json_body_unknown_field''"
definition JSON_BODY_DUPLICATE_FIELD :: string where "JSON_BODY_DUPLICATE_FIELD = ''json_body_duplicate_field''"
definition JSON_BODY_TRAILING :: string where "JSON_BODY_TRAILING = ''json_body_trailing''"
definition QUERY_MISSING_FIELD :: string where "QUERY_MISSING_FIELD = ''query_missing_field''"
definition QUERY_INVALID_TYPE :: string where "QUERY_INVALID_TYPE = ''query_invalid_type''"
definition QUERY_UNKNOWN_FIELD :: string where "QUERY_UNKNOWN_FIELD = ''query_unknown_field''"
definition QUERY_DUPLICATE_FIELD :: string where "QUERY_DUPLICATE_FIELD = ''query_duplicate_field''"
definition QUERY_INVALID :: string where "QUERY_INVALID = ''query_invalid''"
definition PATH_PARAMS_INVALID_TYPE :: string where "PATH_PARAMS_INVALID_TYPE = ''path_params_invalid_type''"
definition PATH_PARAMS_PARSE_ERROR :: string where "PATH_PARAMS_PARSE_ERROR = ''path_params_parse_error''"
definition PATH_PARAMS_WRONG_COUNT :: string where "PATH_PARAMS_WRONG_COUNT = ''path_params_wrong_count''"
definition MULTIPART_MISSING_FIELD :: string where "MULTIPART_MISSING_FIELD = ''multipart_missing_field''"
definition MULTIPART_WRONG_FIELD_TYPE :: string where "MULTIPART_WRONG_FIELD_TYPE = ''multipart_wrong_field_type''"
definition MULTIPART_DUPLICATE_FIELD :: string where "MULTIPART_DUPLICATE_FIELD = ''multipart_duplicate_field''"
definition MULTIPART_UNKNOWN_FIELD :: string where "MULTIPART_UNKNOWN_FIELD = ''multipart_unknown_field''"
definition MULTIPART_INVALID_ENUM_VALUE :: string where "MULTIPART_INVALID_ENUM_VALUE = ''multipart_invalid_enum_value''"
definition MULTIPART_FIELD_TOO_LARGE :: string where "MULTIPART_FIELD_TOO_LARGE = ''multipart_field_too_large''"

lemmas key_defs = INVALID_REQUEST_BODY_def INVALID_PATH_PARAMS_def JSON_BODY_SYNTAX_def JSON_BODY_MISSING_FIELD_def
  JSON_BODY_INVALID_TYPE_def JSON_BODY_UNKNOWN_FIELD_def JSON_BODY_DUPLICATE_FIELD_def JSON_BODY_TRAILING_def
  QUERY_MISSING_FIELD_def QUERY_INVALID_TYPE_def QUERY_UNKNOWN_FIELD_def QUERY_DUPLICATE_FIELD_def QUERY_INVALID_def
  PATH_PARAMS_INVALID_TYPE_def PATH_PARAMS_PARSE_ERROR_def PATH_PARAMS_WRONG_COUNT_def MULTIPART_MISSING_FIELD_def
  MULTIPART_WRONG_FIELD_TYPE_def MULTIPART_DUPLICATE_FIELD_def MULTIPART_UNKNOWN_FIELD_def
  MULTIPART_INVALID_ENUM_VALUE_def MULTIPART_FIELD_TOO_LARGE_def

fun kind_problem_type :: "invalid_params_kind \<Rightarrow> string" where
  "kind_problem_type BodyParams = ''urn:slab:problem:invalid-request-body''"
| "kind_problem_type QueryParams = ''urn:slab:problem:invalid-query-params''"
| "kind_problem_type PathParams = ''urn:slab:problem:invalid-path-params''"

fun kind_problem_title :: "invalid_params_kind \<Rightarrow> string" where
  "kind_problem_title BodyParams = ''Invalid request body''"
| "kind_problem_title QueryParams = ''Invalid query parameters''"
| "kind_problem_title PathParams = ''Invalid path parameters''"

fun kind_error_code :: "invalid_params_kind \<Rightarrow> string" where
  "kind_error_code BodyParams = INVALID_REQUEST_BODY"
| "kind_error_code QueryParams = ''invalid_query_params''"
| "kind_error_code PathParams = ''invalid_path_params''"

definition l10n_status_code :: "string \<Rightarrow> nat" where
  "l10n_status_code key =
     (if starts_with ''access_token_'' key \<or> key = ''authed_account_not_found'' then 401
      else if key = ''internal_server_error'' then 500
      else if ends_with ''_version_conflict'' key then 409
      else 400)"

fun web_error_text :: "web_error \<Rightarrow> string" where
  "web_error_text (InvalidParams kind key field) = key"
| "web_error_text (L10n key) = key"

fun status_code :: "web_error \<Rightarrow> nat" where
  "status_code (InvalidParams kind key field) = 400"
| "status_code (L10n key) = l10n_status_code key"

fun problem_type :: "web_error \<Rightarrow> string" where
  "problem_type (InvalidParams kind key field) = kind_problem_type kind"
| "problem_type (L10n key) =
     (if l10n_status_code key = 401 then ''urn:slab:problem:unauthorized''
      else if l10n_status_code key = 500 then ''urn:slab:problem:internal-server-error''
      else ''urn:slab:problem:domain-error'')"

fun problem_title :: "web_error \<Rightarrow> string" where
  "problem_title (InvalidParams kind key field) = kind_problem_title kind"
| "problem_title (L10n key) =
     (if l10n_status_code key = 401 then ''Unauthorized''
      else if l10n_status_code key = 500 then ''Internal server error''
      else ''Domain error'')"

fun error_code :: "web_error \<Rightarrow> string" where
  "error_code (InvalidParams kind key field) = kind_error_code kind"
| "error_code (L10n key) = key"

text \<open>Lower case letters, digits and underscores; the text of a report that is one is a key.\<close>

definition key_char :: "char \<Rightarrow> bool" where
  "key_char c = (97 \<le> (of_char c :: nat) \<and> (of_char c :: nat) \<le> 122 \<or> 48 \<le> (of_char c :: nat) \<and> (of_char c :: nat) \<le> 57 \<or> c = CHR ''_'')"

definition report_to_web_error :: "string \<Rightarrow> web_error" where
  "report_to_web_error msg = (if list_all key_char msg then L10n msg else L10n ''internal_server_error'')"

section \<open>Extraction\<close>

datatype serde_error_kind = MissingField | InvalidType | UnknownField | DuplicateField | OtherError

definition normalize_path :: "string \<Rightarrow> string" where
  "normalize_path path = (if path = ''.'' then [] else path)"

definition non_empty :: "string \<Rightarrow> string option" where
  "non_empty path = (let path = normalize_path path in if path = [] then None else Some path)"

definition field_path :: "string \<Rightarrow> string \<Rightarrow> string option" where
  "field_path path msg =
     (let path = normalize_path path; parts = split_at (CHR 0x60) msg in
      if 1 < length parts then Some (if path = [] then parts ! 1 else path @ ''.'' @ parts ! 1) else None)"

definition is_invalid_type_msg :: "string \<Rightarrow> bool" where
  "is_invalid_type_msg msg =
     (contains ''invalid type'' msg \<or> contains ''invalid digit found in string'' msg \<or>
      contains ''invalid float literal'' msg \<or> contains ''cannot parse integer from empty string'' msg \<or>
      contains (''provided string was not '' @ [CHR 0x60] @ ''true'' @ [CHR 0x60] @ '' or '' @ [CHR 0x60] @ ''false'' @ [CHR 0x60]) msg \<or>
      contains ''number too large to fit in target type'' msg)"

definition classify_serde_message :: "string \<Rightarrow> string \<Rightarrow> serde_error_kind \<times> string option" where
  "classify_serde_message path msg =
     (if contains ''missing field'' msg then (MissingField, field_path path msg)
      else if is_invalid_type_msg msg then (InvalidType, non_empty path)
      else if contains ''unknown field'' msg then (UnknownField, field_path path msg)
      else if contains ''duplicate field'' msg then (DuplicateField, field_path path msg)
      else (OtherError, non_empty path))"

fun serde_body_key :: "serde_error_kind \<Rightarrow> string" where
  "serde_body_key MissingField = JSON_BODY_MISSING_FIELD"
| "serde_body_key InvalidType = JSON_BODY_INVALID_TYPE"
| "serde_body_key UnknownField = JSON_BODY_UNKNOWN_FIELD"
| "serde_body_key DuplicateField = JSON_BODY_DUPLICATE_FIELD"
| "serde_body_key OtherError = INVALID_REQUEST_BODY"

fun serde_query_key :: "serde_error_kind \<Rightarrow> string" where
  "serde_query_key MissingField = QUERY_MISSING_FIELD"
| "serde_query_key InvalidType = QUERY_INVALID_TYPE"
| "serde_query_key UnknownField = QUERY_UNKNOWN_FIELD"
| "serde_query_key DuplicateField = QUERY_DUPLICATE_FIELD"
| "serde_query_key OtherError = QUERY_INVALID"

text \<open>An error of \<open>serde_json\<close>: its category and its text.\<close>

datatype json_category = SyntaxError | EofError | IoError | DataError

definition l10n_key_and_field :: "string \<Rightarrow> json_category \<Rightarrow> string \<Rightarrow> string \<times> string option" where
  "l10n_key_and_field path category msg = (case category of
      IoError \<Rightarrow> (INVALID_REQUEST_BODY, None)
    | DataError \<Rightarrow> (case classify_serde_message path msg of (kind, field) \<Rightarrow> (serde_body_key kind, field))
    | _ \<Rightarrow> (if contains ''trailing characters'' msg then (JSON_BODY_TRAILING, None) else (JSON_BODY_SYNTAX, None)))"

definition serde_error_to_web :: "string \<times> json_category \<times> string \<Rightarrow> web_error" where
  "serde_error_to_web e = (case e of (path, category, msg) \<Rightarrow>
     (case l10n_key_and_field path category msg of (key, field) \<Rightarrow> InvalidParams BodyParams key field))"

definition query_error_to_web :: "string \<times> string \<Rightarrow> web_error" where
  "query_error_to_web e = (case e of (path, msg) \<Rightarrow>
     (case classify_serde_message path msg of (kind, field) \<Rightarrow> InvalidParams QueryParams (serde_query_key kind) field))"

text \<open>A validation error: the message, if any, and the code.\<close>

definition validation_key :: "string option \<times> string \<Rightarrow> string" where
  "validation_key e = (case e of (Some m, code) \<Rightarrow> (if m \<noteq> [] then m else code) | (None, code) \<Rightarrow> code)"

definition errors_to_key :: "(string option \<times> string) list \<Rightarrow> string" where
  "errors_to_key errors = (case errors of [] \<Rightarrow> ''invalid_request'' | e # _ \<Rightarrow> validation_key e)"

text \<open>
  The body: content type, bytes, parser, what follows the value, validation.
\<close>

record ('b, 'v) json_source =
  js_parse :: "'b \<Rightarrow> (string \<times> json_category \<times> string) + 'v"
  js_end :: "'b \<Rightarrow> (json_category \<times> string) option"
  js_validify :: "'v \<Rightarrow> (string option \<times> string) list + 'v"

definition valid_json :: "('b, 'v) json_source \<Rightarrow> string option \<Rightarrow> 'b option \<Rightarrow> web_error + 'v" where
  "valid_json src content_type body =
     (if \<not> (case content_type of None \<Rightarrow> False | Some ct \<Rightarrow> starts_with ''application/json'' ct)
      then Inl (InvalidParams BodyParams INVALID_REQUEST_BODY None)
      else case body of
        None \<Rightarrow> Inl (InvalidParams BodyParams INVALID_REQUEST_BODY None)
      | Some bytes \<Rightarrow> (case js_parse src bytes of
          Inl e \<Rightarrow> Inl (serde_error_to_web e)
        | Inr inner \<Rightarrow> (case js_end src bytes of
            Some (category, msg) \<Rightarrow> Inl (serde_error_to_web ([], category, msg))
          | None \<Rightarrow> (case js_validify src inner of
              Inl errors \<Rightarrow> Inl (InvalidParams BodyParams (errors_to_key errors) None)
            | Inr v \<Rightarrow> Inr v))))"

definition valid_query :: "(string \<Rightarrow> (string \<times> string) + 'v) \<Rightarrow> ('v \<Rightarrow> (string option \<times> string) list + 'v) \<Rightarrow>
    string option \<Rightarrow> web_error + 'v" where
  "valid_query parse validify query =
     (case parse (case query of None \<Rightarrow> [] | Some q \<Rightarrow> q) of
        Inl e \<Rightarrow> Inl (query_error_to_web e)
      | Inr inner \<Rightarrow> (case validify inner of
          Inl errors \<Rightarrow> Inl (InvalidParams QueryParams (errors_to_key errors) None)
        | Inr v \<Rightarrow> Inr v))"

text \<open>The rejections of the path extractor and of the multipart library, as far as the code tells them apart.\<close>

datatype path_error_kind = ParseErrorAtKey string | ParseErrorAtIndex | ParseError | InvalidUtf8InPathParam string
  | DeserializeError string | WrongNumberOfParameters | OtherPathError

datatype path_rejection = FailedToDeserializePathParams path_error_kind | OtherPathRejection

fun error_kind_to_l10n :: "path_error_kind \<Rightarrow> string \<times> string option" where
  "error_kind_to_l10n (ParseErrorAtKey key) = (PATH_PARAMS_INVALID_TYPE, Some key)"
| "error_kind_to_l10n ParseErrorAtIndex = (PATH_PARAMS_INVALID_TYPE, None)"
| "error_kind_to_l10n ParseError = (PATH_PARAMS_INVALID_TYPE, None)"
| "error_kind_to_l10n (InvalidUtf8InPathParam key) = (PATH_PARAMS_INVALID_TYPE, Some key)"
| "error_kind_to_l10n (DeserializeError key) = (PATH_PARAMS_PARSE_ERROR, Some key)"
| "error_kind_to_l10n WrongNumberOfParameters = (PATH_PARAMS_WRONG_COUNT, None)"
| "error_kind_to_l10n OtherPathError = (INVALID_PATH_PARAMS, None)"

fun path_rejection_to_web :: "path_rejection \<Rightarrow> web_error" where
  "path_rejection_to_web (FailedToDeserializePathParams e) =
     (case error_kind_to_l10n e of (key, field) \<Rightarrow> InvalidParams PathParams key field)"
| "path_rejection_to_web OtherPathRejection = InvalidParams PathParams INVALID_PATH_PARAMS None"

definition valid_path :: "path_rejection + 'v \<Rightarrow> ('v \<Rightarrow> (string option \<times> string) list + 'v) \<Rightarrow> web_error + 'v" where
  "valid_path extracted validify = (case extracted of
      Inl r \<Rightarrow> Inl (path_rejection_to_web r)
    | Inr inner \<Rightarrow> (case validify inner of
        Inl errors \<Rightarrow> Inl (InvalidParams PathParams (errors_to_key errors) None)
      | Inr v \<Rightarrow> Inr v))"

datatype multipart_error = MultipartMissingField string | WrongFieldType string | MultipartDuplicateField string
  | MultipartUnknownField string | InvalidEnumValue string | FieldTooLarge string | InvalidRequest | InvalidRequestBody
  | NamelessField | OtherMultipart

fun multipart_key_and_field :: "multipart_error \<Rightarrow> string \<times> string option" where
  "multipart_key_and_field (MultipartMissingField f) = (MULTIPART_MISSING_FIELD, Some f)"
| "multipart_key_and_field (WrongFieldType f) = (MULTIPART_WRONG_FIELD_TYPE, Some f)"
| "multipart_key_and_field (MultipartDuplicateField f) = (MULTIPART_DUPLICATE_FIELD, Some f)"
| "multipart_key_and_field (MultipartUnknownField f) = (MULTIPART_UNKNOWN_FIELD, Some f)"
| "multipart_key_and_field (InvalidEnumValue f) = (MULTIPART_INVALID_ENUM_VALUE, Some f)"
| "multipart_key_and_field (FieldTooLarge f) = (MULTIPART_FIELD_TOO_LARGE, Some f)"
| "multipart_key_and_field _ = (INVALID_REQUEST_BODY, None)"

definition multipart_error_to_web :: "multipart_error \<Rightarrow> web_error" where
  "multipart_error_to_web e = (case multipart_key_and_field e of (key, field) \<Rightarrow> InvalidParams BodyParams key field)"

section \<open>Trace identifiers\<close>

definition lower_char :: "char \<Rightarrow> char" where
  "lower_char c = (if 65 \<le> (of_char c :: nat) \<and> (of_char c :: nat) \<le> 90 then char_of ((of_char c :: nat) + 32) else c)"

definition is_hex :: "char \<Rightarrow> bool" where
  "is_hex c = (48 \<le> (of_char c :: nat) \<and> (of_char c :: nat) \<le> 57 \<or> 65 \<le> (of_char c :: nat) \<and> (of_char c :: nat) \<le> 70 \<or>
     97 \<le> (of_char c :: nat) \<and> (of_char c :: nat) \<le> 102)"

definition is_hex_len :: "string \<Rightarrow> nat \<Rightarrow> bool" where
  "is_hex_len v n = (utf8_len v = n \<and> list_all is_hex v)"

definition normalize_trace_id :: "string \<Rightarrow> string option" where
  "normalize_trace_id v =
     (let t = map lower_char (trim_string v) in
      if utf8_len t \<noteq> 32 then None
      else if \<not> list_all is_hex t then None
      else if list_all (\<lambda>c. c = CHR ''0'') t then None
      else Some t)"

definition parse_traceparent_trace_id :: "string \<Rightarrow> string option" where
  "parse_traceparent_trace_id header = (case split_at (CHR ''-'') header of
      [version, trace_id, parent_id, flags] \<Rightarrow>
        if \<not> is_hex_len version 2 then None
        else if \<not> is_hex_len flags 2 then None
        else if \<not> is_hex_len parent_id 16 \<or> list_all (\<lambda>c. c = CHR ''0'') parent_id then None
        else normalize_trace_id trace_id
    | _ \<Rightarrow> None)"

definition or_else :: "'a option \<Rightarrow> 'a option \<Rightarrow> 'a option" where
  "or_else x y = (case x of None \<Rightarrow> y | Some a \<Rightarrow> Some a)"

text \<open>The headers of a request that the middleware reads; the last argument is the span's identifier.\<close>

record web_request =
  wr_path :: string
  wr_traceparent :: "string option"
  wr_request_id :: "string option"
  wr_cookie_language :: "string option"
  wr_accept_language :: "string option"

definition extract_trace_id :: "string option \<Rightarrow> web_request \<Rightarrow> string option" where
  "extract_trace_id span r =
     or_else (or_else (Option.bind (wr_traceparent r) parse_traceparent_trace_id)
                      (Option.bind (wr_request_id r) normalize_trace_id)) span"

section \<open>Translation\<close>

definition DEFAULT_LOCALE :: string where "DEFAULT_LOCALE = ''en-US''"

text \<open>The bundles: the text of a key in a locale with arguments, None when one of the two is unknown.\<close>

type_synonym bundles = "string \<Rightarrow> string \<Rightarrow> (string \<times> string) list \<Rightarrow> utext option"

definition translate :: "bundles \<Rightarrow> string \<Rightarrow> string \<Rightarrow> utext" where
  "translate try locale key = (case try locale key [] of
      Some t \<Rightarrow> t
    | None \<Rightarrow> (case (if locale \<noteq> DEFAULT_LOCALE then try DEFAULT_LOCALE key [] else None) of
        Some t \<Rightarrow> t
      | None \<Rightarrow> lit key))"

definition strip_isolates :: "utext \<Rightarrow> utext" where
  "strip_isolates t = filter (\<lambda>c. c \<noteq> 0x2068 \<and> c \<noteq> 0x2069) t"

definition translate_with_args :: "bundles \<Rightarrow> string \<Rightarrow> string \<Rightarrow> (string \<times> string) list \<Rightarrow> utext" where
  "translate_with_args try locale key arguments = (case try locale key arguments of
      Some t \<Rightarrow> strip_isolates t
    | None \<Rightarrow> (case (if locale \<noteq> DEFAULT_LOCALE then try DEFAULT_LOCALE key arguments else None) of
        Some t \<Rightarrow> strip_isolates t
      | None \<Rightarrow> lit key))"

text \<open>The second argument parses the header \<open>Accept-Language\<close>, the most wanted language first.\<close>

definition parse_locale :: "(string \<Rightarrow> string list) \<Rightarrow> web_request \<Rightarrow> string" where
  "parse_locale accept r =
     (let header_lang = Option.bind (wr_accept_language r) (\<lambda>s. case accept s of [] \<Rightarrow> None | l # _ \<Rightarrow> Some l) in
      case or_else (wr_cookie_language r) header_lang of
        None \<Rightarrow> DEFAULT_LOCALE
      | Some lang \<Rightarrow> (let primary = hd (split_at (CHR ''-'') lang) in
          if primary = ''zh'' then ''zh-CN'' else if primary = ''en'' then ''en-US'' else DEFAULT_LOCALE))"

record problem_details =
  pd_type_url :: string
  pd_title :: string
  pd_status :: nat
  pd_detail :: utext
  pd_instance :: string
  pd_error_code :: string
  pd_trace_id :: "string option"

definition l10n_problem :: "bundles \<Rightarrow> (string \<Rightarrow> string list) \<Rightarrow> string option \<Rightarrow> web_request \<Rightarrow> web_error \<Rightarrow> problem_details" where
  "l10n_problem try accept span r err =
     (let locale = parse_locale accept r;
          info = (case err of
              InvalidParams kind key (Some f) \<Rightarrow> translate_with_args try locale key [(''field'', f)]
            | InvalidParams kind key None \<Rightarrow> translate try locale key
            | L10n key \<Rightarrow> translate try locale key) in
      \<lparr>pd_type_url = problem_type err, pd_title = problem_title err, pd_status = status_code err, pd_detail = info,
       pd_instance = wr_path r, pd_error_code = error_code err, pd_trace_id = extract_trace_id span r\<rparr>)"

section \<open>The errors of accounts and sessions\<close>

fun identity_text :: "identity_error \<Rightarrow> string" where
  "identity_text AccountNotFound = ''account_not_found''"
| "identity_text AccountDuplicated = ''account_duplicated''"
| "identity_text AccountVersionConflict = ''account_version_conflict''"
| "identity_text AccountPasswordEncodeFailed = ''account_password_encode_failed''"
| "identity_text AccountPasswordDecodeFailed = ''account_password_decode_failed''"
| "identity_text AccountPasswordIncorrect = ''account_password_incorrect''"
| "identity_text AccountInvalidCredentials = ''account_invalid_credentials''"
| "identity_text AccountProtected = ''account_protected''"
| "identity_text RefreshTokenInvalid = ''refresh_token_invalid''"

fun authn_text :: "authn_error \<Rightarrow> string" where
  "authn_text AccessTokenMissing = ''access_token_missing''"
| "authn_text AccessTokenInvalid = ''access_token_invalid''"
| "authn_text AccessTokenRevoked = ''access_token_revoked''"

text \<open>The error a request ends with; \<open>text\<close> is what a library's error prints.\<close>

fun id_web_error :: "(id_error \<Rightarrow> string) \<Rightarrow> id_error \<Rightarrow> web_error" where
  "id_web_error report (IdIdentity e) = report_to_web_error (identity_text e)"
| "id_web_error report (IdAuthn e) = L10n (authn_text e)"
| "id_web_error report (IdInvalid key) = InvalidParams BodyParams key None"
| "id_web_error report e = report_to_web_error (report e)"

section \<open>What a client learns\<close>

lemma contains_here: "contains p (p @ s)"
  by (cases p; cases s) (simp_all add: starts_with_def)

lemma contains_after: "contains p s \<Longrightarrow> contains p (x @ s)"
  by (induction x) simp_all

lemma contains_in: "contains p (x @ p @ s)"
  by (rule contains_after [OF contains_here])

lemma split_at_part: "d \<notin> set x \<Longrightarrow> split_at d (x @ d # s) = x # split_at d s"
  by (induction x) auto

lemma split_at_last: "d \<notin> set x \<Longrightarrow> split_at d x = [x]"
  by (induction x) auto

lemma split_at_nonempty: "split_at d s \<noteq> []"
  by (cases s) auto

lemma problem_status: "status_code e \<in> {400, 401, 409, 500}"
  by (cases e) (simp_all add: l10n_status_code_def)

lemma kind_is_not:
  "kind_problem_type k \<noteq> ''urn:slab:problem:unauthorized''" "kind_problem_type k \<noteq> ''urn:slab:problem:internal-server-error''"
  by (cases k; simp)+

lemma problem_kinds:
  "problem_type e = ''urn:slab:problem:unauthorized'' \<longleftrightarrow> status_code e = 401"
  "problem_type e = ''urn:slab:problem:internal-server-error'' \<longleftrightarrow> status_code e = 500"
  by (cases e; simp add: kind_is_not)+

lemma internal_status: "l10n_status_code key = 500 \<longleftrightarrow> key = ''internal_server_error''"
  by (auto simp: l10n_status_code_def starts_with_def)

lemma locale_known: "parse_locale accept r \<in> {''en-US'', ''zh-CN''}"
  by (simp add: parse_locale_def DEFAULT_LOCALE_def Let_def split: option.split)

text \<open>
  C39. The text of an internal error never reaches a client. Whatever the text of the report a request fails with, the
  problem it is answered with carries a code of lower case letters, digits and underscores, a status among 400, 401,
  409 and 500, and a type that says unauthorized exactly for 401 and internal error exactly for 500, in one of the two
  languages there are; and when the text is not a key, the problem is the one of the internal server error, the
  same for all such texts.
\<close>
theorem problems_hide_internals:
  "let p = l10n_problem try accept span r (report_to_web_error msg) in
     list_all key_char (pd_error_code p) \<and> pd_status p \<in> {400, 401, 409, 500} \<and>
     (pd_type_url p = ''urn:slab:problem:unauthorized'' \<longleftrightarrow> pd_status p = 401) \<and>
     (pd_type_url p = ''urn:slab:problem:internal-server-error'' \<longleftrightarrow> pd_status p = 500) \<and>
     (pd_status p = 500 \<longleftrightarrow> pd_error_code p = ''internal_server_error'') \<and>
     parse_locale accept r \<in> {''en-US'', ''zh-CN''} \<and>
     (\<not> list_all key_char msg \<longrightarrow> pd_status p = 500 \<and>
        p = \<lparr>pd_type_url = ''urn:slab:problem:internal-server-error'', pd_title = ''Internal server error'', pd_status = 500,
             pd_detail = translate try (parse_locale accept r) ''internal_server_error'', pd_instance = wr_path r,
             pd_error_code = ''internal_server_error'', pd_trace_id = extract_trace_id span r\<rparr>)"
proof -
  let ?e = "report_to_web_error msg"
  have key: "list_all key_char (error_code ?e)"
    by (simp add: report_to_web_error_def key_char_def)
  have code: "status_code ?e = 500 \<longleftrightarrow> error_code ?e = ''internal_server_error''"
    by (simp add: report_to_web_error_def internal_status)
  have internal: "\<not> list_all key_char msg \<Longrightarrow> ?e = L10n ''internal_server_error''"
    by (simp add: report_to_web_error_def)
  have status: "status_code (L10n ''internal_server_error'') = 500" by (simp add: internal_status)
  show ?thesis
    using problem_status [of ?e] problem_kinds [of ?e] locale_known [of accept r] key code status
    by (auto simp: l10n_problem_def Let_def internal)
qed

lemma problems_hide_internals_witness:
  "pd_error_code (l10n_problem (\<lambda>_ _ _. None) (\<lambda>_. []) None \<lparr>wr_path = ''/'', wr_traceparent = None, wr_request_id = None,
     wr_cookie_language = None, wr_accept_language = None\<rparr> (report_to_web_error ''connection refused'')) = ''internal_server_error''"
proof -
  have "\<not> list_all key_char ''connection refused''" by (simp add: key_char_def)
  then show ?thesis
    using problems_hide_internals [of "\<lambda>_ _ _. None" "\<lambda>_. []" None "\<lparr>wr_path = ''/'', wr_traceparent = None, wr_request_id = None,
     wr_cookie_language = None, wr_accept_language = None\<rparr>" "''connection refused''"] by (simp only: Let_def) simp
qed

lemma authenticate_errors: "fst (authenticate cx env c s) = Inl e \<Longrightarrow> \<exists>a. e = IdAuthn a"
  by (auto simp: authenticate_def access_token_from_parts_def verify_def or_invalid_def monad_defs
      split: option.splits sum.splits prod.splits if_splits)

lemma authn_status: "status_code (L10n (authn_text a)) = 401"
  by (cases a) (simp_all add: l10n_status_code_def starts_with_def)

lemma identity_status:
  "status_code (id_web_error report (IdIdentity i)) = (if i = AccountVersionConflict then 409 else 400)"
  by (cases i) (simp_all add: report_to_web_error_def key_char_def l10n_status_code_def starts_with_def ends_with_def)

text \<open>
  C40. A request without a valid session is answered with 401 and does nothing. When the middleware refuses the token
  of a request, whatever the request is, the state is unchanged and the problem says unauthorized; every error of the
  account domain is answered with 400, a conflict of versions with 409, none with 500.
\<close>
theorem refused_token_unauthorized:
  assumes "call_of q = Some c" "fst (authenticate cx env c s) = Inl e"
  shows "handler cx env q s = (Inl e, s) \<and>
    pd_status (l10n_problem try accept span r (id_web_error report e)) = 401 \<and>
    pd_type_url (l10n_problem try accept span r (id_web_error report e)) = ''urn:slab:problem:unauthorized'' \<and>
    (\<forall>i. pd_status (l10n_problem try accept span r (id_web_error report (IdIdentity i))) =
       (if i = AccountVersionConflict then 409 else 400))"
proof -
  obtain a where "e = IdAuthn a" using authenticate_errors [OF assms(2)] by blast
  then have "status_code (id_web_error report e) = 401" using authn_status by simp
  then show ?thesis
    using refused_call [OF assms] identity_status [of report] problem_kinds(1) [of "id_web_error report e"]
    by (simp add: l10n_problem_def Let_def)
qed

lemma refused_token_unauthorized_witness:
  "pd_status (l10n_problem (\<lambda>_ _ _. None) (\<lambda>_. []) None \<lparr>wr_path = ''/'', wr_traceparent = None, wr_request_id = None,
     wr_cookie_language = None, wr_accept_language = None\<rparr> (id_web_error (\<lambda>_. []) (IdAuthn AccessTokenRevoked))) = 401"
proof -
  have "fst (authenticate demo_cx (demo_at 3 [] []) (with_token ''1000.jx'') demo_s2) = Inl (IdAuthn AccessTokenRevoked)"
    by (simp add: id_eval demo_state_defs)
  moreover have "call_of (Logout (with_token ''1000.jx'')) = Some (with_token ''1000.jx'')" by simp
  ultimately show ?thesis
    by (rule refused_token_unauthorized [THEN conjunct2, THEN conjunct1, rotated])
qed

section \<open>Trace identifiers in normal form\<close>

definition trace_id_ok :: "string \<Rightarrow> bool" where
  "trace_id_ok t = (length t = 32 \<and> list_all (\<lambda>c. is_hex c \<and> lower_char c = c) t \<and> list_ex (\<lambda>c. c \<noteq> CHR ''0'') t)"

lemma lower_lower [simp]: "lower_char (lower_char c) = lower_char c"
  by (simp add: lower_char_def of_char_of)

lemma hex_utf8_len: "list_all is_hex t \<Longrightarrow> utf8_len t = length t"
  by (induction t) (auto simp: utf8_len_def is_hex_def)

lemma hex_not_space: "is_hex c \<Longrightarrow> \<not> is_whitespace (of_char c)"
  by (auto simp: is_hex_def is_whitespace_def)

lemma dropWhile_hex: "list_all is_hex t \<Longrightarrow> dropWhile (\<lambda>c. is_whitespace (of_char c)) t = t"
  by (cases t) (simp_all add: hex_not_space)

lemma trim_hex: "list_all is_hex t \<Longrightarrow> trim_string t = t"
  by (simp add: trim_string_def dropWhile_hex)

lemma normalize_ok:
  assumes "normalize_trace_id v = Some t"
  shows "trace_id_ok t"
proof -
  have t: "t = map lower_char (trim_string v)" and len: "utf8_len t = 32" and hex: "list_all is_hex t"
    and zero: "\<not> list_all (\<lambda>c. c = CHR ''0'') t"
    using assms by (simp_all add: normalize_trace_id_def Let_def split: if_splits)
  have "list_all (\<lambda>c. lower_char c = c) t" unfolding t by (simp add: list_all_iff)
  with hex have "list_all (\<lambda>c. is_hex c \<and> lower_char c = c) t" by (simp add: list_all_iff)
  moreover have "length t = 32" using len hex_utf8_len [OF hex] by simp
  moreover have "list_ex (\<lambda>c. c \<noteq> CHR ''0'') t" using zero by (simp add: list_all_iff list_ex_iff)
  ultimately show ?thesis unfolding trace_id_ok_def by blast
qed

lemma normalize_id: "trace_id_ok t \<Longrightarrow> normalize_trace_id t = Some t"
proof -
  assume ok: "trace_id_ok t"
  then have hex: "list_all is_hex t" by (auto simp: trace_id_ok_def list_all_iff)
  have low: "map lower_char t = t" using ok by (auto simp: trace_id_ok_def list_all_iff intro: map_idI)
  have "\<not> list_all (\<lambda>c. c = CHR ''0'') t" using ok by (auto simp: trace_id_ok_def list_all_iff list_ex_iff)
  then show ?thesis
    using ok hex low by (simp add: normalize_trace_id_def trim_hex hex_utf8_len Let_def) (simp add: trace_id_ok_def)
qed

lemma hex_no_dash: "is_hex_len v n \<Longrightarrow> CHR ''-'' \<notin> set v"
  by (auto simp: is_hex_len_def is_hex_def list_all_iff)

lemma parse_ok: "parse_traceparent_trace_id h = Some t \<Longrightarrow> trace_id_ok t"
  by (auto simp: parse_traceparent_trace_id_def split: list.splits if_splits intro: normalize_ok)

text \<open>
  Trace identifiers are read in normal form. What the headers of a request give as trace identifier is 32 lower
  case hexadecimal digits that are not all zero; and an identifier of this form is read back from a trace parent
  header that carries it between a version, a parent that is not zero, and flags.
\<close>
theorem trace_id_round_trip:
  "(extract_trace_id None r = Some t \<longrightarrow> trace_id_ok t) \<and>
   (trace_id_ok t \<longrightarrow> is_hex_len version 2 \<longrightarrow> is_hex_len parent 16 \<longrightarrow> is_hex_len flags 2 \<longrightarrow> list_ex (\<lambda>c. c \<noteq> CHR ''0'') parent \<longrightarrow>
      extract_trace_id span (r\<lparr>wr_traceparent := Some (version @ ''-'' @ t @ ''-'' @ parent @ ''-'' @ flags)\<rparr>) = Some t)"
proof (intro conjI impI)
  assume "extract_trace_id None r = Some t"
  then show "trace_id_ok t"
    by (auto simp: extract_trace_id_def or_else_def bind_eq_Some_conv split: option.splits intro: parse_ok normalize_ok)
next
  assume t: "trace_id_ok t" and v: "is_hex_len version 2" "is_hex_len parent 16" "is_hex_len flags 2"
    and p: "list_ex (\<lambda>c. c \<noteq> CHR ''0'') parent"
  have dash: "CHR ''-'' \<notin> set t" using t by (auto simp: trace_id_ok_def list_all_iff is_hex_def)
  have "split_at (CHR ''-'') (version @ ''-'' @ t @ ''-'' @ parent @ ''-'' @ flags) = [version, t, parent, flags]"
    using hex_no_dash [OF v(1)] hex_no_dash [OF v(2)] hex_no_dash [OF v(3)] dash
    by (simp add: split_at_part split_at_last)
  moreover have "\<not> list_all (\<lambda>c. c = CHR ''0'') parent" using p by (auto simp: list_all_iff list_ex_iff)
  ultimately have "parse_traceparent_trace_id (version @ ''-'' @ t @ ''-'' @ parent @ ''-'' @ flags) = Some t"
    using v normalize_id [OF t] by (simp add: parse_traceparent_trace_id_def)
  then show "extract_trace_id span (r\<lparr>wr_traceparent := Some (version @ ''-'' @ t @ ''-'' @ parent @ ''-'' @ flags)\<rparr>) = Some t"
    by (simp add: extract_trace_id_def or_else_def)
qed

lemma trace_id_round_trip_witness:
  "extract_trace_id None \<lparr>wr_path = ''/'', wr_traceparent = Some ''00-4bf92f3577b34da6a3ce929d0e0e4736-00f067aa0ba902b7-01'',
     wr_request_id = None, wr_cookie_language = None, wr_accept_language = None\<rparr> = Some ''4bf92f3577b34da6a3ce929d0e0e4736''"
proof -
  have ok: "trace_id_ok ''4bf92f3577b34da6a3ce929d0e0e4736''" "is_hex_len ''00'' 2" "is_hex_len ''00f067aa0ba902b7'' 16" "is_hex_len ''01'' 2"
    "list_ex (\<lambda>c. c \<noteq> CHR ''0'') ''00f067aa0ba902b7''"
    by (simp_all add: trace_id_ok_def is_hex_len_def is_hex_def lower_char_def utf8_len_def)
  from trace_id_round_trip [of "\<lparr>wr_path = ''/'', wr_traceparent = None, wr_request_id = None, wr_cookie_language = None,
      wr_accept_language = None\<rparr>", THEN conjunct2, THEN mp, OF ok(1), THEN mp, OF ok(2), THEN mp, OF ok(3), THEN mp, OF ok(4),
      THEN mp, OF ok(5)]
  show ?thesis by simp
qed

section \<open>Classification of parse errors\<close>

definition member_path :: "string \<Rightarrow> string \<Rightarrow> string" where
  "member_path path name = (if path = [] \<or> path = ''.'' then name else path @ ''.'' @ name)"

lemma quoted_field: "CHR 0x60 \<notin> set x \<Longrightarrow> CHR 0x60 \<notin> set name \<Longrightarrow>
    field_path path (x @ [CHR 0x60] @ name @ [CHR 0x60] @ rest) = Some (member_path path name)"
  using split_at_nonempty [of "CHR 0x60" rest]
  by (auto simp: field_path_def split_at_part member_path_def normalize_path_def Let_def)

text \<open>
  The problem of a missing member names it, and so does the problem of a text that only looks like one. For a
  message of the parser that says that a member is missing, the classification gives that kind and the full path of
  the member; but it searches the message anywhere, and a message about a value of the wrong type quotes the
  client's own text, so a text that contains the words is reported as a missing member that does not exist.
\<close>
theorem missing_field_named:
  assumes "CHR 0x60 \<notin> set name"
  shows "classify_serde_message path (''missing field '' @ [CHR 0x60] @ name @ [CHR 0x60] @ rest) = (MissingField, Some (member_path path name)) \<and>
    classify_serde_message path (''invalid type: string '' @ [CHR 0x22] @ ''missing field '' @ [CHR 0x60] @ name @ [CHR 0x60] @ rest) =
      (MissingField, Some (member_path path name)) \<and>
    serde_error_to_web (path, DataError, ''missing field '' @ [CHR 0x60] @ name @ [CHR 0x60] @ rest) =
      InvalidParams BodyParams JSON_BODY_MISSING_FIELD (Some (member_path path name))"
proof -
  let ?m = "''missing field '' @ [CHR 0x60] @ name @ [CHR 0x60] @ rest"
  have here: "contains ''missing field'' ?m"
    using contains_here [of "''missing field''" "'' '' @ [CHR 0x60] @ name @ [CHR 0x60] @ rest"] by simp
  have there: "contains ''missing field'' (''invalid type: string '' @ [CHR 0x22] @ ?m)"
    using contains_after [OF here, of "''invalid type: string '' @ [CHR 0x22]"] by simp
  have one: "classify_serde_message path ?m = (MissingField, Some (member_path path name))"
    using here quoted_field [of "''missing field ''" name path rest] assms by (simp add: classify_serde_message_def del: contains.simps)
  moreover have "classify_serde_message path (''invalid type: string '' @ [CHR 0x22] @ ?m) = (MissingField, Some (member_path path name))"
    using there quoted_field [of "''invalid type: string '' @ [CHR 0x22] @ ''missing field ''" name path rest] assms
    by (simp add: classify_serde_message_def del: contains.simps)
  ultimately show ?thesis by (simp add: serde_error_to_web_def l10n_key_and_field_def)
qed

lemma missing_field_named_witness:
  "classify_serde_message ''items.0'' (''missing field '' @ [CHR 0x60] @ ''quantity'' @ [CHR 0x60] @ '' at line 1'') =
     (MissingField, Some ''items.0.quantity'')"
  using missing_field_named [of "''quantity''" "''items.0''" "'' at line 1''"] by (simp add: member_path_def)

end
