(* ===== verification/Files.thy ===== *)
theory Files
  imports Web
begin

text \<open>
  Files: the object store with its public addresses (\<open>infrastructure/blob\<close>), staging paths and the check of an
  image (\<open>features/file_contract\<close>), its compression (\<open>libs/image_kit\<close>) and the upload (\<open>features/file\<close>).
  The storage library and the image codecs are records of functions.
\<close>

section \<open>The store\<close>

type_synonym bytes = "nat list"

text \<open>What the code calls of the storage library; an error is its text.\<close>

record 's object_store =
  os_write :: "string \<Rightarrow> bytes \<Rightarrow> 's \<Rightarrow> string + 's"
  os_delete :: "string list \<Rightarrow> 's \<Rightarrow> string + 's"
  os_presign_write :: "string \<Rightarrow> nat \<Rightarrow> string \<Rightarrow> string + string"

datatype blob_backend = Cos | Fs | TestBlob

record 's blob =
  bl_backend :: blob_backend
  bl_op :: "'s object_store"
  bl_domain :: string

datatype file_error = NotImage | FileNameMissing

datatype blob_failure = StoreError string | PresignUnsupported | ReadError string | DecodeError string | FileProblem file_error

definition fill_public_url :: "'s blob \<Rightarrow> string \<Rightarrow> string" where
  "fill_public_url b path =
     (if starts_with ''http://'' path \<or> starts_with ''https://'' path then path else bl_domain b @ ''/'' @ path)"

definition fill_public_url_optional :: "'s blob \<Rightarrow> string option \<Rightarrow> string option" where
  "fill_public_url_optional b path = map_option (fill_public_url b) (case path of Some [] \<Rightarrow> None | _ \<Rightarrow> path)"

definition strip_public_url_prefix :: "'s blob \<Rightarrow> string \<Rightarrow> string" where
  "strip_public_url_prefix b path =
     (let prefix = bl_domain b @ ''/'' in if starts_with prefix path then drop (length prefix) path else path)"

definition strip_public_url_prefix_optional :: "'s blob \<Rightarrow> string option \<Rightarrow> string option" where
  "strip_public_url_prefix_optional b path = map_option (strip_public_url_prefix b) path"

definition blob_write :: "'s blob \<Rightarrow> string \<Rightarrow> string + bytes \<Rightarrow> 's \<Rightarrow> blob_failure + nat \<times> 's" where
  "blob_write b path reader s =
     (case reader of
        Inl e \<Rightarrow> Inl (ReadError e)
      | Inr buf \<Rightarrow> (case os_write (bl_op b) path buf s of
          Inl e \<Rightarrow> Inl (StoreError e)
        | Inr t \<Rightarrow> Inr (length buf, t)))"

text \<open>A stream of files, each a stream of chunks; the size is counted chunk by chunk, the writer is closed at the end.\<close>

fun read_chunks :: "(string + bytes) list \<Rightarrow> nat \<times> bytes \<Rightarrow> string + nat \<times> bytes" where
  "read_chunks [] (n, acc) = Inr (n, acc)"
| "read_chunks (Inl e # cs) (n, acc) = Inl e"
| "read_chunks (Inr c # cs) (n, acc) = read_chunks cs (n + length c, acc @ c)"

fun read_stream :: "(string + (string + bytes) list) list \<Rightarrow> nat \<times> bytes \<Rightarrow> string + nat \<times> bytes" where
  "read_stream [] p = Inr p"
| "read_stream (Inl e # fs) p = Inl e"
| "read_stream (Inr f # fs) p = (case read_chunks f p of Inl e \<Rightarrow> Inl e | Inr q \<Rightarrow> read_stream fs q)"

definition blob_write_stream ::
  "'s blob \<Rightarrow> string \<Rightarrow> (string + (string + bytes) list) list \<Rightarrow> 's \<Rightarrow> blob_failure + nat \<times> 's" where
  "blob_write_stream b path stream s =
     (case read_stream stream (0, []) of
        Inl e \<Rightarrow> Inl (ReadError e)
      | Inr (total_size, buf) \<Rightarrow> (case os_write (bl_op b) path buf s of
          Inl e \<Rightarrow> Inl (StoreError e)
        | Inr t \<Rightarrow> Inr (total_size, t)))"

definition blob_delete_many :: "'s blob \<Rightarrow> string list \<Rightarrow> 's \<Rightarrow> blob_failure + 's" where
  "blob_delete_many b paths s = map_sum StoreError id (os_delete (bl_op b) paths s)"

definition presign_unsupported :: "blob_failure + string" where
  "presign_unsupported = Inl PresignUnsupported"

definition presign_video_upload_url :: "'s blob \<Rightarrow> string \<Rightarrow> string \<Rightarrow> nat \<Rightarrow> blob_failure + string" where
  "presign_video_upload_url b path extension expire =
     (case bl_backend b of
        Cos \<Rightarrow> map_sum StoreError id (os_presign_write (bl_op b) path expire (''video/'' @ extension))
      | _ \<Rightarrow> presign_unsupported)"

definition presign_image_upload_url :: "'s blob \<Rightarrow> string \<Rightarrow> string \<Rightarrow> nat \<Rightarrow> blob_failure + string" where
  "presign_image_upload_url b path extension expire =
     (case bl_backend b of
        Cos \<Rightarrow> map_sum StoreError id (os_presign_write (bl_op b) path expire (''image/'' @ extension))
      | _ \<Rightarrow> presign_unsupported)"

section \<open>Staging paths and images\<close>

definition STORAGE_DIR_PREFIX :: string where
  "STORAGE_DIR_PREFIX = ''staging/''"

definition strip_staging_prefix :: "string \<Rightarrow> string" where
  "strip_staging_prefix path =
     (if starts_with STORAGE_DIR_PREFIX path then drop (length STORAGE_DIR_PREFIX) path else path)"

text \<open>The month and the random name are arguments.\<close>

definition staging_dated_file_path :: "string \<Rightarrow> string \<Rightarrow> string \<Rightarrow> string" where
  "staging_dated_file_path month name extension = STORAGE_DIR_PREFIX @ month @ ''/'' @ name @ ''.'' @ extension"

text \<open>The formats the code tells apart; detection is the library's, and may fail.\<close>

datatype image_format = Jpeg | JpegXl | Png | Webp | OtherFormat

definition ensure_image_reader :: "(bytes \<Rightarrow> image_format option) \<Rightarrow> bytes \<Rightarrow> file_error + unit" where
  "ensure_image_reader detect reader =
     (case detect reader of
        None \<Rightarrow> Inl NotImage
      | Some format \<Rightarrow> if format \<in> {Jpeg, JpegXl, Png, Webp} then Inr () else Inl NotImage)"

record 'i image_codec =
  cd_detect :: "bytes \<Rightarrow> image_format option"
  cd_load :: "bytes \<Rightarrow> string + 'i"
  cd_dimensions :: "'i \<Rightarrow> nat \<times> nat"
  cd_webp :: "'i \<Rightarrow> nat \<Rightarrow> bytes"

definition default_quality :: nat where
  "default_quality = 75"

record compress_output =
  out_bytes :: bytes
  out_width :: nat
  out_height :: nat
  out_size :: nat

definition compress_to_webp :: "'i image_codec \<Rightarrow> bytes \<Rightarrow> nat \<Rightarrow> string + compress_output" where
  "compress_to_webp codec input quality =
     (case cd_load codec input of
        Inl e \<Rightarrow> Inl e
      | Inr picture \<Rightarrow> (let (width, height) = cd_dimensions codec picture; bs = cd_webp codec picture quality in
          Inr \<lparr>out_bytes = bs, out_width = width, out_height = height, out_size = length bs\<rparr>))"

section \<open>The upload\<close>

record upload_image_multipart =
  up_file_name :: "string option"
  up_contents :: bytes

record upload_image_response =
  ur_path :: string
  ur_url :: string

definition file_upload_image ::
  "'s blob \<Rightarrow> 'i image_codec \<Rightarrow> string \<Rightarrow> string \<Rightarrow> upload_image_multipart \<Rightarrow> 's \<Rightarrow> blob_failure + upload_image_response \<times> 's" where
  "file_upload_image b codec month name upload s =
     (case up_file_name upload of
        None \<Rightarrow> Inl (FileProblem FileNameMissing)
      | Some _ \<Rightarrow> (case ensure_image_reader (cd_detect codec) (up_contents upload) of
          Inl e \<Rightarrow> Inl (FileProblem e)
        | Inr _ \<Rightarrow> (case compress_to_webp codec (up_contents upload) default_quality of
            Inl e \<Rightarrow> Inl (DecodeError e)
          | Inr compressed \<Rightarrow>
              (let path = staging_dated_file_path month name ''webp'' in
               case blob_write b path (Inr (out_bytes compressed)) s of
                 Inl e \<Rightarrow> Inl e
               | Inr (_, t) \<Rightarrow> Inr (\<lparr>ur_path = path, ur_url = fill_public_url b path\<rparr>, t)))))"

section \<open>Addresses\<close>

lemma starts_with_append [simp]: "starts_with p (p @ s)"
  by (simp add: starts_with_def)

lemma strip_fill:
  "\<not> starts_with ''http://'' path \<Longrightarrow> \<not> starts_with ''https://'' path \<Longrightarrow>
   strip_public_url_prefix b (fill_public_url b path) = path"
  using starts_with_append [of "bl_domain b @ ''/''" path]
  by (simp add: strip_public_url_prefix_def fill_public_url_def Let_def)

lemma fill_fill:
  "starts_with ''http://'' (bl_domain b) \<or> starts_with ''https://'' (bl_domain b) \<Longrightarrow>
   fill_public_url b (fill_public_url b path) = fill_public_url b path"
  by (auto simp: fill_public_url_def starts_with_def)

lemma staging_is_local: "\<not> starts_with ''http://'' (STORAGE_DIR_PREFIX @ x)" "\<not> starts_with ''https://'' (STORAGE_DIR_PREFIX @ x)"
  by (simp_all add: starts_with_def STORAGE_DIR_PREFIX_def)

lemma read_chunks_spec:
  "read_chunks cs (n, acc) = Inr (m, out) \<Longrightarrow> n = length acc \<Longrightarrow> m = length out \<and> out = acc @ concat (map projr cs)"
  by (induction cs "(n, acc)" arbitrary: n acc rule: read_chunks.induct) auto

lemma read_stream_spec:
  "read_stream fs (n, acc) = Inr (m, out) \<Longrightarrow> n = length acc \<Longrightarrow>
   m = length out \<and> out = acc @ concat (map (\<lambda>f. concat (map projr (projr f))) fs)"
proof (induction fs arbitrary: n acc)
  case (Cons x fs)
  from Cons.prems(1) obtain f k bs where x: "x = Inr f" and f: "read_chunks f (n, acc) = Inr (k, bs)"
    and rest: "read_stream fs (k, bs) = Inr (m, out)"
    by (cases x) (auto split: sum.splits)
  have bs: "k = length bs \<and> bs = acc @ concat (map projr f)" using f Cons.prems(2) by (rule read_chunks_spec)
  then show ?case using Cons.IH [OF rest] x by simp
qed simp

text \<open>A stream that is written is written in full, and counted.\<close>

theorem stream_written_in_full:
  "blob_write_stream b path stream s = Inr (n, t) \<Longrightarrow>
   n = length (concat (map (\<lambda>f. concat (map projr (projr f))) stream)) \<and>
   os_write (bl_op b) path (concat (map (\<lambda>f. concat (map projr (projr f))) stream)) s = Inr t"
  by (auto simp: blob_write_stream_def dest!: read_stream_spec split: sum.splits)

text \<open>
  C38. An uploaded image is where its answer says. When the store keeps what is written, an upload that succeeds has
  put the compressed image, and nothing else, under the path it returns; the address it returns leads back to this
  path, and the path leaves staging as the month and the name. An upload without a file name, or of something that
  is not one of the four formats, is refused with its own error, and any error leaves no state behind.
\<close>
theorem uploaded_image_stored:
  assumes "\<forall>p bs u v. os_write (bl_op b) p bs u = Inr v \<longrightarrow> contents v = (contents u)(p \<mapsto> bs)"
  shows "(up_file_name upload = None \<longrightarrow> file_upload_image b codec month name upload s = Inl (FileProblem FileNameMissing)) \<and>
    (up_file_name upload \<noteq> None \<longrightarrow> cd_detect codec (up_contents upload) \<in> {None, Some OtherFormat} \<longrightarrow>
       file_upload_image b codec month name upload s = Inl (FileProblem NotImage)) \<and>
    (\<forall>r t. file_upload_image b codec month name upload s = Inr (r, t) \<longrightarrow>
       (\<exists>picture. cd_load codec (up_contents upload) = Inr picture \<and>
          contents t = (contents s)(ur_path r \<mapsto> cd_webp codec picture default_quality)) \<and>
       ur_path r = staging_dated_file_path month name ''webp'' \<and>
       strip_public_url_prefix b (ur_url r) = ur_path r \<and>
       strip_staging_prefix (ur_path r) = month @ ''/'' @ name @ ''.webp'')"
proof (intro conjI allI impI)
  fix r t
  assume "file_upload_image b codec month name upload s = Inr (r, t)"
  then obtain picture where picture: "cd_load codec (up_contents upload) = Inr picture"
    and r: "ur_path r = staging_dated_file_path month name ''webp''" "ur_url r = fill_public_url b (ur_path r)"
    and w: "os_write (bl_op b) (ur_path r) (cd_webp codec picture default_quality) s = Inr t"
    by (auto simp: file_upload_image_def compress_to_webp_def blob_write_def Let_def split: option.splits sum.splits prod.splits)
  show "\<exists>picture. cd_load codec (up_contents upload) = Inr picture \<and>
      contents t = (contents s)(ur_path r \<mapsto> cd_webp codec picture default_quality)"
    using picture w assms by blast
  show "ur_path r = staging_dated_file_path month name ''webp''" by (rule r)
  show "strip_public_url_prefix b (ur_url r) = ur_path r"
    unfolding r(2) by (rule strip_fill) (simp_all only: r(1) staging_dated_file_path_def staging_is_local not_False_eq_True)
  show "strip_staging_prefix (ur_path r) = month @ ''/'' @ name @ ''.webp''"
    by (simp add: r strip_staging_prefix_def staging_dated_file_path_def)
qed (auto simp: file_upload_image_def ensure_image_reader_def)

text \<open>A store in memory, a codec that keeps the bytes.\<close>

definition memory_store :: "(string \<Rightarrow> bytes option) object_store" where
  "memory_store = \<lparr>os_write = (\<lambda>p bs u. Inr (u(p \<mapsto> bs))), os_delete = (\<lambda>ps u. Inr (\<lambda>p. if p \<in> set ps then None else u p)),
     os_presign_write = (\<lambda>_ _ _. Inl [])\<rparr>"

definition demo_blob :: "(string \<Rightarrow> bytes option) blob" where
  "demo_blob = \<lparr>bl_backend = TestBlob, bl_op = memory_store, bl_domain = ''http://test.local/files''\<rparr>"

definition plain_codec :: "bytes image_codec" where
  "plain_codec = \<lparr>cd_detect = (\<lambda>bs. if take 1 bs = [137] then Some Png else None), cd_load = Inr, cd_dimensions = (\<lambda>_. (1, 1)),
     cd_webp = (\<lambda>bs _. bs)\<rparr>"

lemma uploaded_image_stored_witness:
  "\<exists>r t. file_upload_image demo_blob plain_codec ''2024/03'' ''x'' \<lparr>up_file_name = Some ''a.png'', up_contents = [137, 80]\<rparr> Map.empty = Inr (r, t) \<and>
     t ''staging/2024/03/x.webp'' = Some [137, 80] \<and> strip_public_url_prefix demo_blob (ur_url r) = ''staging/2024/03/x.webp''"
proof -
  let ?image = "\<lparr>up_file_name = Some ''a.png'', up_contents = [137, 80]\<rparr>"
  have laws: "\<forall>p bs u v. os_write (bl_op demo_blob) p bs u = Inr v \<longrightarrow> id v = (id u)(p \<mapsto> bs)"
    by (simp add: demo_blob_def memory_store_def)
  obtain r t where run: "file_upload_image demo_blob plain_codec ''2024/03'' ''x'' ?image Map.empty = Inr (r, t)"
    by (simp add: file_upload_image_def ensure_image_reader_def compress_to_webp_def blob_write_def Let_def demo_blob_def
        memory_store_def plain_codec_def)
  then have "id t = (id Map.empty)(ur_path r \<mapsto> [137, 80]) \<and> ur_path r = ''staging/2024/03/x.webp'' \<and>
      strip_public_url_prefix demo_blob (ur_url r) = ur_path r"
    using uploaded_image_stored [OF laws, of ?image plain_codec "''2024/03''" "''x''" Map.empty]
    by (simp add: plain_codec_def staging_dated_file_path_def STORAGE_DIR_PREFIX_def)
  then show ?thesis using run by auto
qed

end
