(* ===== verification/Money.thy ===== *)
theory Money
  imports Prelude
begin

text \<open>
  Money and itineraries, \<open>features/shared_contract/value_object\<close>: cents in 64 bits, and the price of a journey.
\<close>

type_synonym money = int

definition money_visit_u64 :: "int \<Rightarrow> money option" where
  "money_visit_u64 v = (if v \<le> i64_max then Some v else None)"

definition money_add :: "money \<Rightarrow> money \<Rightarrow> money" where
  "money_add a b = i64_add a b"

definition money_mul :: "money \<Rightarrow> int \<Rightarrow> money" where
  "money_mul a n = i64_mul a n"

definition money_sum :: "money list \<Rightarrow> money" where
  "money_sum ms = foldl money_add 0 ms"

text \<open>Quantities and days are unsigned 32-bit numbers.\<close>

datatype itinerary_item =
    Hotel string money int int
  | Vehicle string money
  | Attraction string money int
  | Custom string money

fun total_price :: "itinerary_item \<Rightarrow> money" where
  "total_price (Hotel name unit_price quantity days) = money_mul (money_mul unit_price quantity) days"
| "total_price (Vehicle name unit_price) = unit_price"
| "total_price (Attraction name unit_price quantity) = money_mul unit_price quantity"
| "total_price (Custom name unit_price) = unit_price"

record day_plan =
  dp_day :: int
  dp_title :: "string option"
  dp_items :: "itinerary_item list"

definition base_price :: "day_plan list \<Rightarrow> money" where
  "base_price days = money_sum (map total_price (concat (map dp_items days)))"

text \<open>The price without wrap-around, and that the code computes it as long as it fits.\<close>

fun exact_price :: "itinerary_item \<Rightarrow> int" where
  "exact_price (Hotel name unit_price quantity days) = unit_price * quantity * days"
| "exact_price (Vehicle name unit_price) = unit_price"
| "exact_price (Attraction name unit_price quantity) = unit_price * quantity"
| "exact_price (Custom name unit_price) = unit_price"

lemma eq64_mul: "eq64 a b \<Longrightarrow> eq64 (a * n) (b * n)"
  unfolding eq64_def by (metis mod_mult_cong)

lemma total_price_exact: "eq64 (total_price x) (exact_price x)"
proof -
  have one: "eq64 (i64_mul a n) (a * n)" for a n by (simp add: i64_mul_def)
  show ?thesis by (cases x) (auto simp: money_mul_def intro: one eq64_trans [OF one eq64_mul [OF one]])
qed

lemma money_sum_exact: "eq64 (foldl money_add a ms) (a + sum_list ms)"
proof (induction ms arbitrary: a)
  case (Cons m ms)
  have "eq64 (money_add a m + sum_list ms) (a + m + sum_list ms)"
    by (rule eq64_add) (simp_all add: money_add_def i64_add_def)
  from eq64_trans [OF Cons [of "money_add a m"] this] show ?case by (simp add: add.assoc)
qed simp

text \<open>The price of a journey is the exact one modulo \<open>2^64\<close>, and exact when each item and the total fit.\<close>

theorem base_price_exact:
  "eq64 (base_price days) (sum_list (map exact_price (concat (map dp_items days))))"
proof -
  let ?xs = "concat (map dp_items days)"
  have "eq64 (sum_list (map total_price xs)) (sum_list (map exact_price xs))" for xs
  proof (induction xs)
    case (Cons x xs)
    then show ?case using eq64_add [OF total_price_exact [of x] Cons] by simp
  qed simp
  from this [of ?xs] money_sum_exact [of 0 "map total_price ?xs"] show ?thesis
    by (auto simp: base_price_def money_sum_def intro: eq64_trans)
qed

end
