(* ===== verification/Approval.thy ===== *)
theory Approval
  imports Database
begin

text \<open>
  The approval state machine of \<open>cross_domain/approval/lib.rs\<close>, shared by purchase orders,
  purchase returns, sales orders, stock transfers and inventory checks.

  Two interfaces are stated as locales.  \<open>approval_flow\<close> is what a flow constant has to
  satisfy for its documents to make progress; the flow constants interpret it in the theories of
  their domains.  \<open>status_document\<close> is what a repository's action method promises to the
  endpoints: look the row up, ask the flow, write the status; the repositories interpret it.
\<close>

section \<open>The state machine\<close>

record state_transitions =
  submit_pair :: "int \<times> int"
  approvals :: "(int \<times> int) list"
  reject_pair :: "(int list \<times> int) option"

definition submit_status :: "state_transitions \<Rightarrow> int \<Rightarrow> transition_error + int" where
  "submit_status F current =
     (if current = fst (submit_pair F) then Inr (snd (submit_pair F))
      else Inl (InvalidTransition current ''submit''))"

definition approve_status :: "state_transitions \<Rightarrow> int \<Rightarrow> transition_error + int" where
  "approve_status F current =
     (case find (\<lambda>(from, to). from = current) (approvals F) of
        Some (from, to) \<Rightarrow> Inr to
      | None \<Rightarrow> Inl (InvalidTransition current ''approve''))"

definition reject_status :: "state_transitions \<Rightarrow> int \<Rightarrow> transition_error + int" where
  "reject_status F current =
     (case reject_pair F of
        Some (from_states, to) \<Rightarrow>
          (if current \<in> set from_states then Inr to
           else Inl (InvalidTransition current ''reject''))
      | None \<Rightarrow> Inl (InvalidTransition current ''reject''))"

lemmas flow_defs = submit_status_def approve_status_def reject_status_def

text \<open>An error of the state machine inside an endpoint, \<open>?\<close>.\<close>

definition transitionM :: "transition_error + int \<Rightarrow> int m" where
  "transitionM r = (case r of Inl e \<Rightarrow> failM (ETransition e) | Inr x \<Rightarrow> retM x)"

lemma transitionM_OK: "transitionM r s = (Inr x, t) \<longleftrightarrow> r = Inr x \<and> t = s"
  by (auto simp: transitionM_def monad_OK split: sum.splits)

lemma wp_transitionM [wp]:
  "wpM (transitionM r) Q E s = (case r of Inl e \<Rightarrow> E (ETransition e) s | Inr x \<Rightarrow> Q x s)"
  by (simp add: transitionM_def wp split: sum.split)

lemma pres_transitionM [pres_intros]: "pres I (transitionM r)"
  by (simp add: transitionM_def pres_intros split: sum.split)

lemma okp_transitionM [okp_intros]: "okp I (transitionM r)"
  by (auto simp: okp_def transitionM_OK)

section \<open>Flows as step relations\<close>

text \<open>One action of a flow on a status.\<close>

inductive flow_step :: "state_transitions \<Rightarrow> int \<Rightarrow> int \<Rightarrow> bool" for F where
  submit: "submit_status F c = Inr d \<Longrightarrow> flow_step F c d"
| approve: "approve_status F c = Inr d \<Longrightarrow> flow_step F c d"
| reject: "reject_status F c = Inr d \<Longrightarrow> flow_step F c d"

inductive_simps flow_step_iff: "flow_step F c d"

lemma approve_status_Inr: "approve_status F c = Inr d \<Longrightarrow> (c, d) \<in> set (approvals F)"
  by (auto simp: approve_status_def find_Some_iff in_set_conv_nth split: option.splits)

lemma submit_status_Inr: "submit_status F c = Inr d \<longleftrightarrow> submit_pair F = (c, d)"
  by (cases "submit_pair F") (auto simp: submit_status_def)

lemma reject_status_Inr:
  "reject_status F c = Inr d \<longleftrightarrow> (\<exists>fs. reject_pair F = Some (fs, d) \<and> c \<in> set fs)"
  by (auto simp: reject_status_def split: option.splits)

locale approval_flow =
  fixes F :: state_transitions
    and rank :: "int \<Rightarrow> nat"
  assumes submit_up: "submit_pair F = (c, d) \<Longrightarrow> rank c < rank d"
    and approve_up: "(c, d) \<in> set (approvals F) \<Longrightarrow> rank c < rank d"
    and reject_up: "reject_pair F = Some (fs, d) \<Longrightarrow> c \<in> set fs \<Longrightarrow> rank c < rank d"
begin

lemma step_up: "flow_step F c d \<Longrightarrow> rank c < rank d"
  by (auto elim!: flow_step.cases
      simp: submit_status_Inr reject_status_Inr
      dest: submit_up approve_status_Inr approve_up reject_up)

lemma steps_up: "(flow_step F)\<^sup>+\<^sup>+ c d \<Longrightarrow> rank c < rank d"
  by (induction rule: tranclp_induct) (auto dest: step_up)

text \<open>A document never returns to a status it has left.\<close>

lemma no_return: "(flow_step F)\<^sup>+\<^sup>+ c d \<Longrightarrow> c \<noteq> d"
  using steps_up by fastforce

text \<open>A document takes at most as many actions as the rank allows.\<close>

lemma bounded: "(flow_step F ^^ n) c d \<Longrightarrow> rank c + n \<le> rank d"
proof (induction n arbitrary: d)
  case (Suc n)
  then obtain e where "(flow_step F ^^ n) c e" "flow_step F e d" by auto
  then show ?case using Suc.IH step_up by fastforce
qed auto

end

text \<open>A flow with a first and a last status: the last is final and reached by approvals alone.\<close>

locale approval_chain = approval_flow +
  fixes draft approved :: int
  assumes starts: "fst (submit_pair F) = draft"
    and final: "\<not> flow_step F approved d"
    and reaches: "(flow_step F)\<^sup>+\<^sup>+ draft approved"
begin

lemma approved_final: "(flow_step F)\<^sup>*\<^sup>* approved d \<Longrightarrow> d = approved"
  by (induction rule: rtranclp_induct) (auto simp: final)

lemma progress:
  "((flow_step F)\<^sup>+\<^sup>+ c d \<longrightarrow> c \<noteq> d) \<and> ((flow_step F)\<^sup>*\<^sup>* approved d \<longrightarrow> d = approved) \<and>
   (flow_step F)\<^sup>+\<^sup>+ draft approved \<and> ((flow_step F ^^ n) c d \<longrightarrow> rank c + n \<le> rank d)"
  using no_return approved_final reaches bounded by simp

lemma draft_neq_approved: "draft \<noteq> approved"
  using reaches no_return by blast

end

section \<open>Documents with an approval status\<close>

text \<open>
  The interface of the repositories' action methods.  \<open>status_of s k\<close> is the status of the
  document's row, if there is one; \<open>act\<close> is the method, \<open>target\<close> the flow's function.
\<close>

locale status_document =
  fixes status_of :: "db \<Rightarrow> int \<Rightarrow> int option"
    and target :: "int \<Rightarrow> transition_error + int"
    and act :: "int \<Rightarrow> 'a m"
    and not_found :: err
  assumes act_ok:
      "status_of s k = Some c \<Longrightarrow> target c = Inr d \<Longrightarrow>
       \<exists>a t. act k s = (Inr a, t) \<and> status_of t k = Some d \<and>
             (\<forall>j. j \<noteq> k \<longrightarrow> status_of t j = status_of s j)"
    and act_refused:
      "status_of s k = Some c \<Longrightarrow> target c = Inl e \<Longrightarrow> act k s = (Inl (ETransition e), s)"
    and act_missing: "status_of s k = None \<Longrightarrow> act k s = (Inl not_found, s)"
begin

lemma act_iff:
  "(\<exists>a t. act k s = (Inr a, t)) \<longleftrightarrow> (\<exists>c d. status_of s k = Some c \<and> target c = Inr d)"
proof (cases "status_of s k")
  case None
  then show ?thesis using act_missing by fastforce
next
  case (Some c)
  then show ?thesis
    using act_ok [of s k c] act_refused [of s k c] by (cases "target c") fastforce+
qed

lemma act_status:
  assumes "act k s = (Inr a, t)"
  shows "\<exists>c d. status_of s k = Some c \<and> target c = Inr d \<and> status_of t k = Some d \<and>
               (\<forall>j. j \<noteq> k \<longrightarrow> status_of t j = status_of s j)"
proof -
  obtain c d where cd: "status_of s k = Some c" "target c = Inr d"
    using act_iff assms by blast
  then show ?thesis using act_ok [OF cd] assms by auto
qed

lemma act_error_unchanged: "act k s = (Inl e, t) \<Longrightarrow> t = s"
proof (cases "status_of s k")
  case None
  then show "act k s = (Inl e, t) \<Longrightarrow> t = s" using act_missing by simp
next
  case (Some c)
  then show "act k s = (Inl e, t) \<Longrightarrow> t = s"
    using act_ok [of s k c] act_refused [of s k c] by (cases "target c") fastforce+
qed

end

end
