(* ===== verification/Warehouse.thy ===== *)
theory Warehouse
  imports Approval Ledger
begin

text \<open>
  The warehouse domain, \<open>features/warehouse\<close> and \<open>features/warehouse_contract\<close>: warehouses,
  stock transfers and inventory checks with their approval flows, and the initial stock.
\<close>

section \<open>Statuses and flows\<close>

datatype stock_transfer_status = TransferDraft | TransferSubmitted | TransferApproved

fun stock_transfer_status_i16 :: "stock_transfer_status \<Rightarrow> int" where
  "stock_transfer_status_i16 TransferDraft = 0"
| "stock_transfer_status_i16 TransferSubmitted = 1"
| "stock_transfer_status_i16 TransferApproved = 3"

datatype inventory_check_status = CheckDraft | CheckSubmitted | CheckApproved

fun inventory_check_status_i16 :: "inventory_check_status \<Rightarrow> int" where
  "inventory_check_status_i16 CheckDraft = 0"
| "inventory_check_status_i16 CheckSubmitted = 1"
| "inventory_check_status_i16 CheckApproved = 3"

definition TR_FLOW :: state_transitions where
  "TR_FLOW = \<lparr>
     submit_pair = (stock_transfer_status_i16 TransferDraft, stock_transfer_status_i16 TransferSubmitted),
     approvals = [(stock_transfer_status_i16 TransferSubmitted, stock_transfer_status_i16 TransferApproved)],
     reject_pair = None\<rparr>"

definition CH_FLOW :: state_transitions where
  "CH_FLOW = \<lparr>
     submit_pair = (inventory_check_status_i16 CheckDraft, inventory_check_status_i16 CheckSubmitted),
     approvals = [(inventory_check_status_i16 CheckSubmitted, inventory_check_status_i16 CheckApproved)],
     reject_pair = None\<rparr>"

section \<open>Warehouses\<close>

text \<open>\<open>WarehousePort::by_id\<close>.\<close>

definition warehouse_type_of :: "int \<Rightarrow> warehouse_type" where
  "warehouse_type_of n =
     (if n = 1 then RawMaterial else if n = 2 then SemiFinished else if n = 3 then FinishedGood
      else if n = 4 then Packaging else Consumable)"

definition warehouse_by_id :: "int \<Rightarrow> db \<Rightarrow> warehouse option" where
  "warehouse_by_id k s =
     map_option (\<lambda>r. \<lparr>w_id = wh_id r, w_code = wh_code r, w_name = wh_name r,
                       w_type = warehouse_type_of (wh_type r), w_is_active = wh_is_active r\<rparr>)
       (lookup_by wh_id k (warehouses s))"

text \<open>\<open>WarehouseRepository\<close>.\<close>

definition warehouse_repository_create :: "warehouse \<Rightarrow> unit m" where
  "warehouse_repository_create w =
     insert_row (fits 32 (w_code w) \<and> fits 128 (w_name w))
       (\<lambda>s. \<not> has_key wh_id (w_id w) (warehouses s) \<and> \<not> has_key wh_code (w_code w) (warehouses s))
       (\<lambda>s. True)
       (\<lambda>s. s\<lparr>warehouses := warehouses s @
          [\<lparr>wh_id = w_id w, wh_code = w_code w, wh_name = w_name w,
            wh_type = warehouse_type_i16 (w_type w), wh_is_active = w_is_active w\<rparr>]\<rparr>)"

definition warehouse_repository_delete :: "int \<Rightarrow> bool m" where
  "warehouse_repository_delete k =
     bindM (getsM (\<lambda>s. has_key wh_id k (warehouses s))) (\<lambda>affected.
     seqM (modM (\<lambda>s. s\<lparr>warehouses := update_where (\<lambda>r. wh_id r = k) (\<lambda>r. r\<lparr>wh_is_active := False\<rparr>)
                                  (warehouses s)\<rparr>))
     (retM affected))"

record create_warehouse_request =
  cw_name :: string
  cw_type :: warehouse_type

definition warehouse_create :: "env \<Rightarrow> operator \<Rightarrow> create_warehouse_request \<Rightarrow> (int \<times> string) m" where
  "warehouse_create env ctx request =
     bindM (new_id env) (\<lambda>k. transaction (
     bindM (next_seq ''seq_warehouse'') (\<lambda>n.
     let code = ''WH-'' @ zero_pad 3 n;
         w = \<lparr>w_id = k, w_code = code, w_name = cw_name request, w_type = cw_type request,
              w_is_active = True\<rparr> in
     seqM (warehouse_repository_create w)
    (seqM (record_create env ''warehouse'' k ctx (SnapWarehouse w))
    (retM (k, code))))))"

record update_warehouse_request =
  uw_name :: "string option"
  uw_type :: "warehouse_type option"
  uw_is_active :: "bool option"

definition warehouse_update :: "env \<Rightarrow> operator \<Rightarrow> int \<Rightarrow> update_warehouse_request \<Rightarrow> bool m" where
  "warehouse_update env ctx k request = transaction (
     bindM (fetch_or (warehouse_by_id k) (EWarehouse WarehouseNotFound)) (\<lambda>before.
     let name = (case uw_name request of None \<Rightarrow> w_name before | Some n \<Rightarrow> n);
         ty = (case uw_type request of None \<Rightarrow> warehouse_type_i16 (w_type before)
               | Some t \<Rightarrow> warehouse_type_i16 t);
         active = (case uw_is_active request of None \<Rightarrow> w_is_active before | Some b \<Rightarrow> b) in
     seqM (guardM (fits 128 name) (EDb StringTooLong))
    (seqM (modM (\<lambda>s. s\<lparr>warehouses := update_where (\<lambda>r. wh_id r = k)
             (\<lambda>r. r\<lparr>wh_name := name, wh_type := ty, wh_is_active := active\<rparr>) (warehouses s)\<rparr>))
    (bindM (fetch_or (warehouse_by_id k) (EWarehouse WarehouseNotFound)) (\<lambda>after.
     seqM (record_updated env ''warehouse'' k ctx (SnapWarehouse before) (SnapWarehouse after))
     (retM True))))))"

definition warehouse_delete :: "env \<Rightarrow> operator \<Rightarrow> int \<Rightarrow> bool m" where
  "warehouse_delete env ctx k = transaction (
     bindM (getsM (warehouse_by_id k)) (\<lambda>before.
     bindM (warehouse_repository_delete k) (\<lambda>deleted.
     seqM (case before of None \<Rightarrow> retM ()
           | Some b \<Rightarrow> record_deleted env ''warehouse'' k ctx (SnapWarehouse b))
     (retM deleted))))"

section \<open>Stock transfers\<close>

record transfer_item_input =
  tii_item_id :: int
  tii_quantity :: int
  tii_batch_number :: "string option"

record create_transfer_request =
  ctr_from_warehouse_id :: int
  ctr_to_warehouse_id :: int
  ctr_transfer_date :: "int option"
  ctr_remark :: "string option"
  ctr_items :: "transfer_item_input list"

definition insert_stock_transfer :: "stock_transfer_row \<Rightarrow> unit m" where
  "insert_stock_transfer r =
     insert_row (fits 64 (st_code r))
       (\<lambda>s. \<not> has_key st_id (st_id r) (stock_transfers s) \<and> \<not> has_key st_code (st_code r) (stock_transfers s))
       (\<lambda>s. has_key wh_id (st_from_warehouse_id r) (warehouses s) \<and>
            has_key wh_id (st_to_warehouse_id r) (warehouses s))
       (\<lambda>s. s\<lparr>stock_transfers := stock_transfers s @ [r]\<rparr>)"

definition insert_stock_transfer_item :: "stock_transfer_item \<Rightarrow> unit m" where
  "insert_stock_transfer_item r =
     insert_row (fits_opt 64 (sti_batch_number r))
       (\<lambda>s. \<not> has_key sti_id (sti_id r) (stock_transfer_items s))
       (\<lambda>s. has_key st_id (sti_transfer_id r) (stock_transfers s) \<and> has_key it_id (sti_item_id r) (items s))
       (\<lambda>s. s\<lparr>stock_transfer_items := stock_transfer_items s @ [r]\<rparr>)"

text \<open>\<open>StockTransferSnapshot::read\<close> and \<open>read_locked\<close>.\<close>

definition read_stock_transfer :: "int \<Rightarrow> db \<Rightarrow> stock_transfer option" where
  "read_stock_transfer k s = map_option stock_transfer.truncate (lookup_by st_id k (stock_transfers s))"

definition stock_transfer_create ::
  "env \<Rightarrow> operator \<Rightarrow> create_transfer_request \<Rightarrow> (int \<times> string) m" where
  "stock_transfer_create env ctx request = transaction (
     bindM (next_number env ''seq_stock_transfer'' ''TRF'') (\<lambda>code.
     bindM (new_id env) (\<lambda>k.
     seqM (insert_stock_transfer
             \<lparr>st_id = k, st_code = code, st_from_warehouse_id = ctr_from_warehouse_id request,
              st_to_warehouse_id = ctr_to_warehouse_id request,
              st_status = stock_transfer_status_i16 TransferDraft,
              st_transfer_date = (case ctr_transfer_date request of None \<Rightarrow> env_utc_date env | Some d \<Rightarrow> d),
              st_remark = ctr_remark request, st_approved_at = None, st_approved_by = None\<rparr>)
    (seqM (forM (ctr_items request) (\<lambda>item.
             bindM (new_id env) (\<lambda>line_id.
             insert_stock_transfer_item
               \<lparr>sti_id = line_id, sti_transfer_id = k, sti_item_id = tii_item_id item,
                sti_quantity = tii_quantity item, sti_batch_number = tii_batch_number item\<rparr>)))
    (bindM (fetch_or (read_stock_transfer k) (EWarehouse WarehouseNotFound)) (\<lambda>after.
     seqM (record_create env ''stock_transfer'' k ctx (SnapStockTransfer after))
     (retM (k, code))))))))"

text \<open>\<open>StockTransferRepository\<close>.\<close>

definition transfer_lock_status :: "int \<Rightarrow> int m" where
  "transfer_lock_status k =
     fetch_or (\<lambda>s. map_option st_status (lookup_by st_id k (stock_transfers s)))
       (EWarehouse WarehouseNotFound)"

definition transfer_repository_submit :: "int \<Rightarrow> unit m" where
  "transfer_repository_submit k =
     bindM (transfer_lock_status k) (\<lambda>status.
     bindM (transitionM (submit_status TR_FLOW status)) (\<lambda>new_status.
     modM (\<lambda>s. s\<lparr>stock_transfers := update_where (\<lambda>r. st_id r = k)
                   (\<lambda>r. r\<lparr>st_status := new_status\<rparr>) (stock_transfers s)\<rparr>)))"

text \<open>The result is \<open>LockedStockTransfer\<close>: source and target warehouse.\<close>

definition transfer_repository_approve :: "env \<Rightarrow> int \<Rightarrow> (int \<times> int) m" where
  "transfer_repository_approve env k =
     bindM (fetch_or (\<lambda>s. lookup_by st_id k (stock_transfers s)) (EWarehouse WarehouseNotFound)) (\<lambda>row.
     bindM (transitionM (approve_status TR_FLOW (st_status row))) (\<lambda>new_status.
     seqM (modM (\<lambda>s. s\<lparr>stock_transfers := update_where (\<lambda>r. st_id r = k)
                   (\<lambda>r. r\<lparr>st_status := new_status, st_approved_at := Some (env_pg_now env)\<rparr>)
                   (stock_transfers s)\<rparr>))
     (retM (st_from_warehouse_id row, st_to_warehouse_id row))))"

definition stock_transfer_submit :: "env \<Rightarrow> operator \<Rightarrow> int \<Rightarrow> bool m" where
  "stock_transfer_submit env ctx k = transaction (
     bindM (fetch_or (read_stock_transfer k) (EWarehouse WarehouseNotFound)) (\<lambda>before.
     seqM (transfer_repository_submit k)
    (bindM (fetch_or (read_stock_transfer k) (EWarehouse WarehouseNotFound)) (\<lambda>after.
     seqM (record_updated env ''stock_transfer'' k ctx (SnapStockTransfer before) (SnapStockTransfer after))
     (retM True)))))"

text \<open>\<open>SELECT .. FROM stock_transfer_items WHERE transfer_id = $1 ORDER BY id\<close>.\<close>

definition transfer_items :: "int \<Rightarrow> db \<Rightarrow> stock_transfer_item list" where
  "transfer_items k s =
     sort_key sti_id (filter (\<lambda>i. sti_transfer_id i = k) (stock_transfer_items s))"

definition transfer_line :: "env \<Rightarrow> int \<Rightarrow> int \<times> int \<Rightarrow> stock_transfer_item \<Rightarrow> unit m" where
  "transfer_line env k locked item =
     transfer env (sti_item_id item) (fst locked) (snd locked) (sti_quantity item) k None"

definition stock_transfer_approve :: "env \<Rightarrow> operator \<Rightarrow> int \<Rightarrow> bool m" where
  "stock_transfer_approve env ctx k = transaction (
     bindM (fetch_or (read_stock_transfer k) (EWarehouse WarehouseNotFound)) (\<lambda>before.
     bindM (transfer_repository_approve env k) (\<lambda>locked.
     bindM (getsM (transfer_items k)) (\<lambda>items.
     seqM (forM items (transfer_line env k locked))
    (bindM (fetch_or (read_stock_transfer k) (EWarehouse WarehouseNotFound)) (\<lambda>after.
     seqM (record_updated env ''stock_transfer'' k ctx (SnapStockTransfer before) (SnapStockTransfer after))
     (retM True)))))))"

section \<open>Inventory checks\<close>

record check_item_input =
  cii_item_id :: int
  cii_actual_qty :: int
  cii_remark :: "string option"

record create_check_request =
  ccr_warehouse_id :: int
  ccr_plan_date :: int
  ccr_remark :: "string option"
  ccr_items :: "check_item_input list"

definition insert_inventory_check :: "inventory_check_row \<Rightarrow> unit m" where
  "insert_inventory_check r =
     insert_row (fits 64 (ck_code r))
       (\<lambda>s. \<not> has_key ck_id (ck_id r) (inventory_checks s) \<and> \<not> has_key ck_code (ck_code r) (inventory_checks s))
       (\<lambda>s. has_key wh_id (ck_warehouse_id r) (warehouses s))
       (\<lambda>s. s\<lparr>inventory_checks := inventory_checks s @ [r]\<rparr>)"

definition insert_inventory_check_item :: "inventory_check_item \<Rightarrow> unit m" where
  "insert_inventory_check_item r =
     insert_row True
       (\<lambda>s. \<not> has_key cki_id (cki_id r) (inventory_check_items s))
       (\<lambda>s. has_key ck_id (cki_check_id r) (inventory_checks s) \<and> has_key it_id (cki_item_id r) (items s))
       (\<lambda>s. s\<lparr>inventory_check_items := inventory_check_items s @ [r]\<rparr>)"

definition read_inventory_check :: "int \<Rightarrow> db \<Rightarrow> inventory_check option" where
  "read_inventory_check k s = map_option inventory_check.truncate (lookup_by ck_id k (inventory_checks s))"

definition inventory_check_create ::
  "env \<Rightarrow> operator \<Rightarrow> create_check_request \<Rightarrow> (int \<times> string) m" where
  "inventory_check_create env ctx request = transaction (
     bindM (next_number env ''seq_inventory_check'' ''CHK'') (\<lambda>code.
     bindM (new_id env) (\<lambda>k.
     seqM (insert_inventory_check
             \<lparr>ck_id = k, ck_code = code, ck_warehouse_id = ccr_warehouse_id request,
              ck_status = inventory_check_status_i16 CheckDraft, ck_plan_date = ccr_plan_date request,
              ck_remark = ccr_remark request, ck_approved_at = None, ck_actual_date = None,
              ck_approved_by = None\<rparr>)
    (seqM (forM (ccr_items request) (\<lambda>item.
             bindM (read_qty (cii_item_id item) (ccr_warehouse_id request)) (\<lambda>book.
             bindM (new_id env) (\<lambda>line_id.
             insert_inventory_check_item
               \<lparr>cki_id = line_id, cki_check_id = k, cki_item_id = cii_item_id item, cki_book_qty = book,
                cki_actual_qty = cii_actual_qty item, cki_diff_qty = i64_sub (cii_actual_qty item) book,
                cki_remark = cii_remark item\<rparr>))))
    (bindM (fetch_or (read_inventory_check k) (EWarehouse WarehouseNotFound)) (\<lambda>after.
     seqM (record_create env ''inventory_check'' k ctx (SnapInventoryCheck after))
     (retM (k, code))))))))"

text \<open>\<open>InventoryCheckRepository\<close>.\<close>

definition check_lock_status :: "int \<Rightarrow> int m" where
  "check_lock_status k =
     fetch_or (\<lambda>s. map_option ck_status (lookup_by ck_id k (inventory_checks s)))
       (EWarehouse WarehouseNotFound)"

definition check_repository_submit :: "int \<Rightarrow> unit m" where
  "check_repository_submit k =
     bindM (check_lock_status k) (\<lambda>status.
     bindM (transitionM (submit_status CH_FLOW status)) (\<lambda>new_status.
     modM (\<lambda>s. s\<lparr>inventory_checks := update_where (\<lambda>r. ck_id r = k)
                   (\<lambda>r. r\<lparr>ck_status := new_status\<rparr>) (inventory_checks s)\<rparr>)))"

definition check_repository_approve :: "env \<Rightarrow> int \<Rightarrow> int m" where
  "check_repository_approve env k =
     bindM (fetch_or (\<lambda>s. lookup_by ck_id k (inventory_checks s)) (EWarehouse WarehouseNotFound)) (\<lambda>row.
     bindM (transitionM (approve_status CH_FLOW (ck_status row))) (\<lambda>new_status.
     seqM (modM (\<lambda>s. s\<lparr>inventory_checks := update_where (\<lambda>r. ck_id r = k)
                   (\<lambda>r. r\<lparr>ck_status := new_status, ck_approved_at := Some (env_pg_now env)\<rparr>)
                   (inventory_checks s)\<rparr>))
     (retM (ck_warehouse_id row))))"

definition inventory_check_submit :: "env \<Rightarrow> operator \<Rightarrow> int \<Rightarrow> bool m" where
  "inventory_check_submit env ctx k = transaction (
     bindM (fetch_or (read_inventory_check k) (EWarehouse WarehouseNotFound)) (\<lambda>before.
     seqM (check_repository_submit k)
    (bindM (fetch_or (read_inventory_check k) (EWarehouse WarehouseNotFound)) (\<lambda>after.
     seqM (record_updated env ''inventory_check'' k ctx (SnapInventoryCheck before) (SnapInventoryCheck after))
     (retM True)))))"

definition check_line :: "env \<Rightarrow> int \<Rightarrow> int \<Rightarrow> inventory_check_item \<Rightarrow> unit m" where
  "check_line env k warehouse_id item =
     adjust env (cki_item_id item) warehouse_id (cki_actual_qty item) ''inventory_check'' k"

text \<open>The items are selected without \<open>ORDER BY\<close>.\<close>

definition inventory_check_approve :: "env \<Rightarrow> operator \<Rightarrow> int \<Rightarrow> bool m" where
  "inventory_check_approve env ctx k = transaction (
     bindM (fetch_or (read_inventory_check k) (EWarehouse WarehouseNotFound)) (\<lambda>before.
     bindM (check_repository_approve env k) (\<lambda>warehouse_id.
     bindM (getsM (\<lambda>s. scan env (filter (\<lambda>i. cki_check_id i = k) (inventory_check_items s)))) (\<lambda>items.
     seqM (forM items (check_line env k warehouse_id))
    (bindM (fetch_or (read_inventory_check k) (EWarehouse WarehouseNotFound)) (\<lambda>after.
     seqM (record_updated env ''inventory_check'' k ctx (SnapInventoryCheck before) (SnapInventoryCheck after))
     (retM True)))))))"

section \<open>Initial stock\<close>

record initialize_inventory_request =
  iir_item_id :: int
  iir_warehouse_id :: int
  iir_quantity :: int

definition inventory_initial :: "env \<Rightarrow> operator \<Rightarrow> initialize_inventory_request \<Rightarrow> int m" where
  "inventory_initial env ctx request =
     bindM (new_id env) (\<lambda>k. transaction (
     let key = (iir_item_id request, iir_warehouse_id request) in
     bindM (getsM (\<lambda>s. lookup_by inv_key key (inventories s))) (\<lambda>before.
     seqM (adjust env (iir_item_id request) (iir_warehouse_id request) (iir_quantity request)
             ''inventory_initial'' k)
    (bindM (getsM (\<lambda>s. lookup_by inv_key key (inventories s))) (\<lambda>after.
     seqM (case (before, after) of
             (None, Some a) \<Rightarrow> record_create env ''inventory'' (inv_id a) ctx (SnapInventory a)
           | (Some b, Some a) \<Rightarrow>
               record_updated env ''inventory'' (inv_id a) ctx (SnapInventory b) (SnapInventory a)
           | _ \<Rightarrow> retM ())
     (retM k))))))"

section \<open>The flows are approval chains\<close>

interpretation tr: approval_chain TR_FLOW nat 0 3
proof
  show "\<not> flow_step TR_FLOW 3 d" for d
    by (simp add: flow_step_iff flow_defs TR_FLOW_def)
  have "flow_step TR_FLOW 0 1" "flow_step TR_FLOW 1 3"
    by (simp_all add: flow_step_iff flow_defs TR_FLOW_def)
  then show "(flow_step TR_FLOW)\<^sup>+\<^sup>+ 0 3" by auto
qed (auto simp: TR_FLOW_def)

interpretation ch: approval_chain CH_FLOW nat 0 3
proof
  show "\<not> flow_step CH_FLOW 3 d" for d
    by (simp add: flow_step_iff flow_defs CH_FLOW_def)
  have "flow_step CH_FLOW 0 1" "flow_step CH_FLOW 1 3"
    by (simp_all add: flow_step_iff flow_defs CH_FLOW_def)
  then show "(flow_step CH_FLOW)\<^sup>+\<^sup>+ 0 3" by auto
qed (auto simp: CH_FLOW_def)

section \<open>The repositories implement the document interface\<close>

definition transfer_status :: "db \<Rightarrow> int \<Rightarrow> int option" where
  "transfer_status s k = map_option st_status (lookup_by st_id k (stock_transfers s))"

definition check_status :: "db \<Rightarrow> int \<Rightarrow> int option" where
  "check_status s k = map_option ck_status (lookup_by ck_id k (inventory_checks s))"

lemmas repository_defs = transfer_repository_submit_def transfer_repository_approve_def
  transfer_lock_status_def check_repository_submit_def check_repository_approve_def
  check_lock_status_def

interpretation tr_submit: status_document transfer_status "submit_status TR_FLOW"
  transfer_repository_submit "EWarehouse WarehouseNotFound"
  by unfold_locales
    (auto simp: transfer_status_def repository_defs fetch_or_def transitionM_def monad_defs)

interpretation tr_approve: status_document transfer_status "approve_status TR_FLOW"
  "transfer_repository_approve env" "EWarehouse WarehouseNotFound" for env
  by unfold_locales
    (auto simp: transfer_status_def repository_defs fetch_or_def transitionM_def monad_defs)

interpretation ch_submit: status_document check_status "submit_status CH_FLOW"
  check_repository_submit "EWarehouse WarehouseNotFound"
  by unfold_locales
    (auto simp: check_status_def repository_defs fetch_or_def transitionM_def monad_defs)

interpretation ch_approve: status_document check_status "approve_status CH_FLOW"
  "check_repository_approve env" "EWarehouse WarehouseNotFound" for env
  by unfold_locales
    (auto simp: check_status_def repository_defs fetch_or_def transitionM_def monad_defs)

section \<open>Frames\<close>

lemma frame_warehouse_create:
  assumes "admin I" "ignores warehouses_update I"
  shows "pres I (warehouse_create env ctx r)"
  unfolding warehouse_create_def warehouse_repository_create_def using assms
  by (intro pres_bind pres_admin pres_transaction_admin okp_intros okp_leaves)
    (simp_all add: ignores_def)

lemma frame_warehouse_update:
  assumes "admin I" "ignores warehouses_update I"
  shows "pres I (warehouse_update env ctx k r)"
  unfolding warehouse_update_def using assms
  by (intro pres_transaction_admin okp_intros okp_leaves) (simp_all add: ignores_def)

lemma frame_warehouse_delete:
  assumes "admin I" "ignores warehouses_update I"
  shows "pres I (warehouse_delete env ctx k)"
  unfolding warehouse_delete_def warehouse_repository_delete_def using assms
  by (intro pres_transaction_admin okp_intros okp_leaves) (simp_all add: ignores_def)

lemma frame_stock_transfer_create:
  assumes "admin I" "ignores stock_transfers_update I" "ignores stock_transfer_items_update I"
  shows "pres I (stock_transfer_create env ctx r)"
  unfolding stock_transfer_create_def insert_stock_transfer_def insert_stock_transfer_item_def
  using assms by (intro pres_transaction_admin okp_intros okp_leaves) (simp_all add: ignores_def)

lemma frame_stock_transfer_submit:
  assumes "admin I" "ignores stock_transfers_update I"
  shows "pres I (stock_transfer_submit env ctx k)"
  unfolding stock_transfer_submit_def repository_defs using assms
  by (intro pres_transaction_admin okp_intros okp_leaves) (simp_all add: ignores_def)

lemma frame_stock_transfer_approve:
  assumes "admin I" "ignores stock_transfers_update I"
    and "\<And>l x. okp I (transfer_line env k l x)"
  shows "pres I (stock_transfer_approve env ctx k)"
  unfolding stock_transfer_approve_def repository_defs using assms
  by (intro pres_transaction_admin okp_intros okp_leaves) (simp_all add: ignores_def)

lemma frame_inventory_check_create:
  assumes "admin I" "ignores inventory_checks_update I" "ignores inventory_check_items_update I"
  shows "pres I (inventory_check_create env ctx r)"
  unfolding inventory_check_create_def insert_inventory_check_def insert_inventory_check_item_def
  using assms
  by (intro pres_transaction_admin okp_intros okp_leaves pres_okp [OF pres_read_qty])
    (simp_all add: ignores_def)

lemma frame_inventory_check_submit:
  assumes "admin I" "ignores inventory_checks_update I"
  shows "pres I (inventory_check_submit env ctx k)"
  unfolding inventory_check_submit_def repository_defs using assms
  by (intro pres_transaction_admin okp_intros okp_leaves) (simp_all add: ignores_def)

lemma frame_inventory_check_approve:
  assumes "admin I" "ignores inventory_checks_update I"
    and "\<And>w x. okp I (check_line env k w x)"
  shows "pres I (inventory_check_approve env ctx k)"
  unfolding inventory_check_approve_def repository_defs using assms
  by (intro pres_transaction_admin okp_intros okp_leaves) (simp_all add: ignores_def)

lemma frame_inventory_initial:
  assumes "admin I" "\<And>i w q k. okp I (adjust env i w q ''inventory_initial'' k)"
  shows "pres I (inventory_initial env ctx r)"
  unfolding inventory_initial_def Let_def using assms
  by (intro pres_bind pres_admin pres_transaction_admin okp_intros)
    (auto split: option.split intro: okp_intros)

text \<open>The line loops, for a predicate that ignores the ledger and for the ledger's own invariant.\<close>

lemma okp_warehouse_lines:
  assumes "ledger_blind I"
  shows "okp I (transfer_line env k l x)" "okp I (check_line env k w y)"
  unfolding transfer_line_def check_line_def by (intro okp_ledger_blind assms)+

lemma okp_warehouse_lines_ledger:
  "okp ledger_inv (transfer_line env k l x)" "okp ledger_inv (check_line env k w y)"
  unfolding transfer_line_def check_line_def by (intro okp_intros)+

section \<open>What an approval does to the stock\<close>

interpretation transfer_moves: stock_moves "transfer_line env k locked"
  "\<lambda>x key. at (sti_item_id x, fst locked) (- sti_quantity x) key +
           at (sti_item_id x, snd locked) (sti_quantity x) key" for env k locked
  by unfold_locales (simp add: transfer_line_def transfer_moves)

lemma TR_approve: "approve_status TR_FLOW c = Inr d \<longleftrightarrow> c = 1 \<and> d = 3"
  by (auto simp: approve_status_def TR_FLOW_def)

lemma CH_approve: "approve_status CH_FLOW c = Inr d \<longleftrightarrow> c = 1 \<and> d = 3"
  by (auto simp: approve_status_def CH_FLOW_def)

text \<open>The state when the lines start: the transfer is approved already.\<close>

definition transfer_approved :: "env \<Rightarrow> int \<Rightarrow> db \<Rightarrow> db" where
  "transfer_approved env k s =
     s\<lparr>stock_transfers := update_where (\<lambda>r. st_id r = k)
         (\<lambda>r. r\<lparr>st_status := 3, st_approved_at := Some (env_pg_now env)\<rparr>) (stock_transfers s)\<rparr>"

definition check_approved :: "env \<Rightarrow> int \<Rightarrow> db \<Rightarrow> db" where
  "check_approved env k s =
     s\<lparr>inventory_checks := update_where (\<lambda>r. ck_id r = k)
         (\<lambda>r. r\<lparr>ck_status := 3, ck_approved_at := Some (env_pg_now env)\<rparr>) (inventory_checks s)\<rparr>"

lemma approved_simps [simp]:
  "stock (transfer_approved env k s) = stock s" "stock (check_approved env k s) = stock s"
  "ledger_inv (transfer_approved env k s) = ledger_inv s"
  "item_total (transfer_approved env k s) = item_total s"
  by (simp_all add: transfer_approved_def check_approved_def item_total_def stock_def
      ledger_inv_def log_of_def fun_eq_iff)

lemma stock_transfer_approve_OK:
  assumes "stock_transfer_approve env ctx k s = (Inr b, t)"
  shows "\<exists>row v l n. lookup_by st_id k (stock_transfers s) = Some row \<and> st_status row = 1 \<and>
    forM (transfer_items k s)
      (transfer_line env k (st_from_warehouse_id row, st_to_warehouse_id row))
      (transfer_approved env k s) = (Inr (), v) \<and> t = v\<lparr>audit_logs := l, next_id := n\<rparr>"
  using assms
  by (fastforce simp: stock_transfer_approve_def monad_OK stmt_OK repository_defs transitionM_OK
      TR_approve audit_defs audit_insert_OK transfer_approved_def transfer_items_def)

lemma inventory_check_approve_OK:
  assumes "inventory_check_approve env ctx k s = (Inr b, t)"
  shows "\<exists>row v l n. lookup_by ck_id k (inventory_checks s) = Some row \<and> ck_status row = 1 \<and>
    forM (scan env (filter (\<lambda>i. cki_check_id i = k) (inventory_check_items s)))
      (check_line env k (ck_warehouse_id row)) (check_approved env k s) = (Inr (), v) \<and>
    t = v\<lparr>audit_logs := l, next_id := n\<rparr>"
  using assms
  by (fastforce simp: inventory_check_approve_def monad_OK stmt_OK repository_defs transitionM_OK
      CH_approve audit_defs audit_insert_OK check_approved_def)

text \<open>A transfer keeps the quantity of the item over all warehouses.\<close>

lemma transfer_total:
  assumes "transfer env i f w q ri b s = (Inr (), t)" "ledger_inv s"
  shows "eq64 (item_total t j) (item_total s j) \<and> ledger_inv t"
proof -
  let ?out = "\<lparr>lc_item_id = i, lc_warehouse_id = f, lc_quantity = q, lc_tx_type = TransferOut,
    lc_reference_type = ''stock_transfer_out'', lc_reference_id = ri, lc_batch_number = b\<rparr>"
  let ?in = "\<lparr>lc_item_id = i, lc_warehouse_id = w, lc_quantity = q, lc_tx_type = TransferIn,
    lc_reference_type = ''stock_transfer_in'', lc_reference_id = ri, lc_batch_number = b\<rparr>"
  obtain u where u: "issue env ?out s = (Inr (), u)" "receive env ?in u = (Inr (), t)"
    using assms(1) by (auto simp: transfer_def monad_OK)
  have iu: "ledger_inv u" by (rule okpD [OF okp_issue assms(2) u(1)]) (simp add: inbound_def)
  have it: "ledger_inv t" by (rule okpD [OF okp_receive iu u(2)]) (simp add: inbound_def)
  let ?d = "if i = j then q else 0"
  have "item_total u j = item_total s j + (if i = j then i64_sub (stock s (i, f)) q - stock s (i, f) else 0)"
    using issue_OK [OF u(1)] item_total_posted [OF assms(2)] by (simp add: lc_key_def)
  then have "eq64 (item_total u j) (item_total s j + - ?d)"
    using eq64_delta(1) by auto
  moreover have "item_total t j = item_total u j + (if i = j then i64_add (stock u (i, w)) q - stock u (i, w) else 0)"
    using receive_OK [OF u(2)] item_total_posted [OF iu] by (simp add: lc_key_def)
  then have "eq64 (item_total t j) (item_total u j + ?d)"
    using eq64_delta(2) by auto
  ultimately have "eq64 (item_total t j) (item_total s j + - ?d + ?d)"
    using eq64_trans eq64_add [OF _ eq64_refl] by blast
  then show ?thesis using it by simp
qed

lemma transfer_loop_total:
  assumes "forM xs (transfer_line env k l) s = (Inr (), t)" "ledger_inv s"
  shows "eq64 (item_total t j) (item_total s j)"
  using assms
proof (induction xs arbitrary: s)
  case (Cons x xs)
  then obtain u where u: "transfer_line env k l x s = (Inr (), u)" "forM xs (transfer_line env k l) u = (Inr (), t)"
    by (auto simp: monad_OK)
  have "eq64 (item_total u j) (item_total s j) \<and> ledger_inv u"
    using u(1) Cons.prems(2) unfolding transfer_line_def by (rule transfer_total)
  then show ?case using Cons.IH [OF u(2)] eq64_trans by blast
qed (simp add: monad_OK)

text \<open>An approved check leaves the counted quantities.\<close>

definition counted :: "int \<Rightarrow> inventory_check_item list \<Rightarrow> (int \<times> int \<Rightarrow> int) \<Rightarrow> int \<times> int \<Rightarrow> int" where
  "counted w xs f = foldl (\<lambda>f x. f((cki_item_id x, w) := cki_actual_qty x)) f xs"

lemma check_loop_stock:
  assumes "forM xs (check_line env k w) s = (Inr (), t)"
    and "\<forall>x \<in> set xs. in_i64 (cki_actual_qty x)" "\<forall>y. in_i64 (stock s y)"
  shows "stock t = counted w xs (stock s)"
  using assms
proof (induction xs arbitrary: s)
  case Nil
  then show ?case by (simp add: counted_def monad_OK)
next
  case (Cons x xs)
  then obtain u where u: "check_line env k w x s = (Inr (), u)" "forM xs (check_line env k w) u = (Inr (), t)"
    by (auto simp: monad_OK)
  have su: "stock u = (stock s)((cki_item_id x, w) := cki_actual_qty x)"
    using u(1) Cons.prems unfolding check_line_def by (intro adjust_stock) auto
  then have "\<forall>y. in_i64 (stock u y)" using Cons.prems by (simp del: split_paired_All)
  then have "stock t = counted w xs (stock u)" using Cons u(2) by simp
  then show ?case using su by (simp add: counted_def)
qed

lemma counted_other: "\<forall>x \<in> set xs. (cki_item_id x, w) \<noteq> y \<Longrightarrow> counted w xs f y = f y"
  unfolding counted_def by (induction xs arbitrary: f) auto

lemma counted_item:
  "distinct (map cki_item_id xs) \<Longrightarrow> x \<in> set xs \<Longrightarrow> counted w xs f (cki_item_id x, w) = cki_actual_qty x"
proof (induction xs arbitrary: f)
  case (Cons y ys)
  show ?case
  proof (cases "x = y")
    case True
    then have "\<forall>z \<in> set ys. (cki_item_id z, w) \<noteq> (cki_item_id x, w)"
      using Cons.prems by (force simp: image_iff)
    then have "counted w ys (f((cki_item_id y, w) := cki_actual_qty y)) (cki_item_id x, w)
        = (f((cki_item_id y, w) := cki_actual_qty y)) (cki_item_id x, w)"
      by (rule counted_other)
    then show ?thesis using True by (simp add: counted_def)
  next
    case False
    then show ?thesis using Cons by (simp add: counted_def)
  qed
qed simp

end
