(* ===== verification/Costing.thy ===== *)
theory Costing
  imports Ledger
begin

text \<open>
  The weighted average cost of \<open>cross_domain/costing/lib.rs\<close>, recomputed by every line of a
  purchase receipt, and the history table \<open>item_costs\<close> it appends to.  The invariant
  \<open>cost_inv\<close>: an item has at most one current record of a cost type, so the query for
  the current record, which has no \<open>ORDER BY\<close>, has at most one row to return.
\<close>

section \<open>Division\<close>

text \<open>\<open>a / b\<close> on \<open>i64\<close>: panics on a zero divisor and on \<open>i64::MIN / -1\<close>.\<close>

definition i64_div :: "int \<Rightarrow> int \<Rightarrow> int m" where
  "i64_div a b =
     (if b = 0 then failM (EPanic ''attempt to divide by zero'')
      else if a = i64_min \<and> b = - 1 then failM (EPanic ''attempt to divide with overflow'')
      else retM (tdiv a b))"

lemma i64_div_OK: "i64_div a b s = (Inr q, t) \<longleftrightarrow> b \<noteq> 0 \<and> \<not> (a = i64_min \<and> b = - 1) \<and> q = tdiv a b \<and> t = s"
  by (auto simp: i64_div_def monad_OK)

lemma okp_i64_div [okp_intros]: "okp I (i64_div a b)"
  by (auto simp: okp_def i64_div_OK)

section \<open>Recalculation\<close>

definition is_current_average :: "int \<Rightarrow> item_cost_row \<Rightarrow> bool" where
  "is_current_average item_id c =
     (co_item_id c = item_id \<and> co_cost_type c = cost_type_i16 WeightedAverage \<and> co_is_current c)"

text \<open>\<open>(old_stock * unit_cost + receipt_qty * receipt_unit_cost) / (old_stock + receipt_qty)\<close>.\<close>

definition new_average :: "item_cost_row option \<Rightarrow> int \<Rightarrow> int \<Rightarrow> int \<Rightarrow> int m" where
  "new_average current old_stock receipt_qty receipt_unit_cost =
     (case current of
        Some r \<Rightarrow>
          if old_stock > 0 then
            i64_div (i64_add (i64_mul old_stock (co_unit_cost r)) (i64_mul receipt_qty receipt_unit_cost))
                    (i64_add old_stock receipt_qty)
          else retM receipt_unit_cost
      | None \<Rightarrow> retM receipt_unit_cost)"

definition insert_item_cost :: "item_cost \<Rightarrow> unit m" where
  "insert_item_cost cost =
     insert_row (fits 3 (c_currency cost) \<and> fits_opt 255 (c_remark cost))
       (\<lambda>s. \<not> has_key co_id (c_id cost) (item_costs s))
       (\<lambda>s. has_key it_id (c_item_id cost) (items s))
       (\<lambda>s. s\<lparr>item_costs := item_costs s @
          [\<lparr>co_id = c_id cost, co_item_id = c_item_id cost, co_cost_type = cost_type_i16 (c_cost_type cost),
            co_unit_cost = c_unit_cost cost, co_currency = Some (c_currency cost),
            co_effective_at = c_effective_at cost, co_is_current = c_is_current cost,
            co_remark = c_remark cost\<rparr>]\<rparr>)"

definition flip_cost :: "int \<Rightarrow> item_cost_row list \<Rightarrow> item_cost_row list" where
  "flip_cost k = update_where (\<lambda>c. co_id c = k) (\<lambda>c. c\<lparr>co_is_current := False\<rparr>)"

definition recalc_weighted_average :: "env \<Rightarrow> int \<Rightarrow> int \<Rightarrow> int \<Rightarrow> int m" where
  "recalc_weighted_average env item_id receipt_qty receipt_unit_cost =
     bindM (getsM (\<lambda>s. find (is_current_average item_id) (item_costs s))) (\<lambda>current.
     bindM (getsM (\<lambda>s. item_total s item_id)) (\<lambda>total.
     bindM (pg_bigint total) (\<lambda>total_stock.
     let old_stock = i64_sub total_stock receipt_qty in
     bindM (new_average current old_stock receipt_qty receipt_unit_cost) (\<lambda>new_avg.
     seqM (case current of
             None \<Rightarrow> retM ()
           | Some r \<Rightarrow> modM (\<lambda>s. s\<lparr>item_costs := flip_cost (co_id r) (item_costs s)\<rparr>))
    (bindM (new_id env) (\<lambda>k.
     let cost = \<lparr>c_id = k, c_item_id = item_id, c_cost_type = WeightedAverage, c_unit_cost = new_avg,
                 c_currency = ''CNY'', c_effective_at = env_now env, c_is_current = True,
                 c_remark = None\<rparr> in
     seqM (insert_item_cost cost) (retM new_avg)))))))"

section \<open>At most one current record\<close>

definition cost_key :: "item_cost_row \<Rightarrow> int \<times> int" where
  "cost_key c = (co_item_id c, co_cost_type c)"

definition current_keys :: "item_cost_row list \<Rightarrow> (int \<times> int) list" where
  "current_keys cs = map cost_key (filter co_is_current cs)"

definition cost_inv :: "db \<Rightarrow> bool" where
  "cost_inv s = distinct (current_keys (item_costs s))"

lemma cost_inv_empty: "cost_inv empty_db"
  by (simp add: cost_inv_def empty_db_def current_keys_def)

lemma cost_inv_cong: "item_costs s = item_costs t \<Longrightarrow> cost_inv s = cost_inv t"
  by (simp add: cost_inv_def)

lemma current_keys_append: "current_keys (xs @ ys) = current_keys xs @ current_keys ys"
  by (simp add: current_keys_def)

text \<open>Clearing flags keeps a selection of the keys.\<close>

lemma current_keys_simps [simp]:
  "current_keys [] = []"
  "current_keys (c # cs) = (if co_is_current c then cost_key c # current_keys cs else current_keys cs)"
  by (simp_all add: current_keys_def)

lemma set_current_keys_clear:
  assumes "\<And>c. f c = c \<or> f c = c\<lparr>co_is_current := False\<rparr>"
  shows "set (current_keys (map f cs)) \<subseteq> set (current_keys cs)"
proof (induction cs)
  case (Cons c cs)
  then show ?case using assms [of c] by auto
qed simp

lemma distinct_current_keys_clear:
  assumes "\<And>c. f c = c \<or> f c = c\<lparr>co_is_current := False\<rparr>" "distinct (current_keys cs)"
  shows "distinct (current_keys (map f cs))"
  using assms(2)
proof (induction cs)
  case (Cons c cs)
  then show ?case using assms(1) [of c] set_current_keys_clear [of f cs, OF assms(1)]
    by (auto split: if_splits)
qed simp

lemma find_None: "find P xs = None \<longleftrightarrow> (\<forall>x \<in> set xs. \<not> P x)"
  by (induction xs) auto

lemma flip_cost_map: "flip_cost k = map (\<lambda>c. if co_id c = k then c\<lparr>co_is_current := False\<rparr> else c)"
  by (simp add: flip_cost_def update_where_def fun_eq_iff)

lemma key_current_keys: "k \<in> set (current_keys cs) \<longleftrightarrow> (\<exists>c \<in> set cs. co_is_current c \<and> cost_key c = k)"
  by (auto simp: current_keys_def)

lemma current_unique:
  "distinct (current_keys cs) \<Longrightarrow> c \<in> set cs \<Longrightarrow> d \<in> set cs \<Longrightarrow> co_is_current c \<Longrightarrow> co_is_current d \<Longrightarrow>
   cost_key c = cost_key d \<Longrightarrow> c = d"
  by (auto simp: current_keys_def distinct_map inj_on_def)

lemma flip_cost_clears:
  assumes "distinct (current_keys cs)" "find (is_current_average i) cs = Some r"
  shows "(i, cost_type_i16 WeightedAverage) \<notin> set (current_keys (flip_cost (co_id r) cs))"
proof -
  have r: "r \<in> set cs" "is_current_average i r" using assms(2) by (auto simp: find_Some_iff)
  have "c = r" if "c \<in> set cs" "co_is_current c" "cost_key c = (i, cost_type_i16 WeightedAverage)" for c
    using current_unique [OF assms(1) that(1) r(1)] that(2,3) r(2)
    by (auto simp: is_current_average_def cost_key_def)
  then show ?thesis
    by (fastforce simp: key_current_keys flip_cost_map cost_key_def split: if_splits)
qed

text \<open>The cost history after a recalculation.\<close>

definition recalc_costs :: "env \<Rightarrow> int \<Rightarrow> int \<Rightarrow> nat \<Rightarrow> item_cost_row list \<Rightarrow> item_cost_row list" where
  "recalc_costs env i avg n cs =
     (case find (is_current_average i) cs of None \<Rightarrow> cs | Some r \<Rightarrow> flip_cost (co_id r) cs) @
     [\<lparr>co_id = env_tsid env n, co_item_id = i, co_cost_type = cost_type_i16 WeightedAverage,
       co_unit_cost = avg, co_currency = Some ''CNY'', co_effective_at = env_now env,
       co_is_current = True, co_remark = None\<rparr>]"

lemma recalc_OK:
  assumes "recalc_weighted_average env i q c s = (Inr avg, t)"
  shows "new_average (find (is_current_average i) (item_costs s)) (i64_sub (item_total s i) q) q c s
           = (Inr avg, s) \<and> in_i64 (item_total s i) \<and>
         t = s\<lparr>item_costs := recalc_costs env i avg (next_id s) (item_costs s), next_id := next_id s + 1\<rparr>"
proof -
  have n: "new_average x a b d u = (Inr v, w) \<Longrightarrow> w = u" for x a b d u v w
    by (auto simp: new_average_def monad_OK i64_div_OK split: option.splits if_splits)
  show ?thesis
    using assms
    by (auto simp: recalc_weighted_average_def monad_OK stmt_OK new_id_OK insert_item_cost_def Let_def
        recalc_costs_def split: option.splits dest: n)
qed

lemma cost_inv_recalc:
  "distinct (current_keys cs) \<Longrightarrow> distinct (current_keys (recalc_costs env i avg n cs))"
proof (cases "find (is_current_average i) cs")
  case None
  then have "(i, cost_type_i16 WeightedAverage) \<notin> set (current_keys cs)"
    by (auto simp: find_None key_current_keys is_current_average_def cost_key_def)
  then show "distinct (current_keys cs) \<Longrightarrow> ?thesis"
    using None by (simp add: recalc_costs_def current_keys_append cost_key_def)
next
  case (Some r)
  assume d: "distinct (current_keys cs)"
  have "distinct (current_keys (flip_cost (co_id r) cs))"
    unfolding flip_cost_map by (rule distinct_current_keys_clear [OF _ d]) simp
  then show ?thesis using flip_cost_clears [OF d Some] Some
    by (simp add: recalc_costs_def current_keys_append cost_key_def)
qed

lemma okp_recalc_cost_inv [okp_intros]: "okp cost_inv (recalc_weighted_average env i q c)"
  by (auto intro!: okpI dest!: recalc_OK simp: cost_inv_def cost_inv_recalc)

lemma okp_recalc_blind:
  assumes "ignores item_costs_update I" "ignores next_id_update I"
  shows "okp I (recalc_weighted_average env i q c)"
  using assms by (auto intro!: okpI dest!: recalc_OK simp: ignores_def)

section \<open>What the average is\<close>

text \<open>The average without machine arithmetic: rounded down value over quantity.\<close>

definition average :: "int \<Rightarrow> int \<Rightarrow> int \<Rightarrow> int \<Rightarrow> int" where
  "average old u q c = (old * u + q * c) div (old + q)"

lemma average_bounds:
  assumes "0 < old" "0 \<le> q"
  shows "min u c \<le> average old u q c" and "average old u q c \<le> max u c"
proof -
  have d: "0 < old + q" using assms by simp
  have "(old + q) * min u c = old * min u c + q * min u c" by (simp add: algebra_simps)
  also have "\<dots> \<le> old * u + q * c" using assms by (intro add_mono mult_left_mono) auto
  finally have lo: "(old + q) * min u c \<le> old * u + q * c" .
  have "min u c = ((old + q) * min u c) div (old + q)" using d by simp
  also have "\<dots> \<le> average old u q c"
    unfolding average_def using lo d by (rule zdiv_mono1)
  finally show "min u c \<le> average old u q c" .
  have "old * u + q * c \<le> old * max u c + q * max u c"
    using assms by (intro add_mono mult_left_mono) auto
  also have "\<dots> = (old + q) * max u c" by (simp add: algebra_simps)
  finally have hi: "old * u + q * c \<le> (old + q) * max u c" .
  have "average old u q c \<le> ((old + q) * max u c) div (old + q)"
    unfolding average_def using hi d by (rule zdiv_mono1)
  also have "\<dots> = max u c" using d by simp
  finally show "average old u q c \<le> max u c" .
qed

lemma average_rounding:
  assumes "0 < old + q"
  shows "average old u q c * (old + q) \<le> old * u + q * c"
    and "old * u + q * c < (average old u q c + 1) * (old + q)"
proof -
  let ?v = "old * u + q * c"
  have e: "?v = average old u q c * (old + q) + ?v mod (old + q)"
    unfolding average_def by (rule div_mult_mod_eq [symmetric])
  have m: "0 \<le> ?v mod (old + q)" "?v mod (old + q) < old + q" using assms by simp_all
  show "average old u q c * (old + q) \<le> ?v" using e m(1) by linarith
  show "?v < (average old u q c + 1) * (old + q)" using e m(2) by (simp add: algebra_simps)
qed

lemma new_average_exact:
  assumes "0 < old" "0 \<le> q" "0 \<le> co_unit_cost r" "0 \<le> c"
    and "in_i64 (old * co_unit_cost r)" "in_i64 (q * c)" "in_i64 (old * co_unit_cost r + q * c)"
    and "in_i64 (old + q)"
  shows "new_average (Some r) old q c s = (Inr (average old (co_unit_cost r) q c), s)"
proof -
  have "0 \<le> old * co_unit_cost r + q * c" using assms by simp
  then show ?thesis using assms
    by (simp add: new_average_def i64_div_def monad_defs i64_mul_exact i64_add_exact average_def
        tdiv_nonneg i64_range_defs)
qed

end
