(* ===== verification/Fulfilment.thy ===== *)
theory Fulfilment
  imports Prelude
begin

text \<open>
  Order lines that are fulfilled piece by piece: purchase order lines by receipts, sales order
  lines by deliveries.  Both domains lock the line, add the quantity to what is done, refuse to
  exceed the ordered quantity, append a fulfilment line and write the new amount back.  The
  bookkeeping is stated and proved once, in the locale \<open>fulfilment\<close>.
\<close>

text \<open>
  \<open>fulfil_ok\<close>: order lines have distinct identifiers, fulfilment lines point to order lines, what
  is recorded as done is a 64-bit number, it is the sum of the fulfilment lines modulo \<open>2^64\<close>, and
  either nothing is done or it is within the ordered quantity.
\<close>

definition done_sum :: "('f \<Rightarrow> int) \<Rightarrow> ('f \<Rightarrow> int) \<Rightarrow> 'f list \<Rightarrow> int \<Rightarrow> int" where
  "done_sum target amount fs k = sum_list (map amount (filter (\<lambda>f. target f = k) fs))"

definition fulfil_ok ::
  "('l \<Rightarrow> int) \<Rightarrow> ('l \<Rightarrow> int) \<Rightarrow> ('l \<Rightarrow> int) \<Rightarrow> ('f \<Rightarrow> int) \<Rightarrow> ('f \<Rightarrow> int) \<Rightarrow> 'l list \<Rightarrow> 'f list \<Rightarrow> bool" where
  "fulfil_ok key quota fdone target amount ls fs =
     (distinct (map key ls) \<and> (\<forall>f \<in> set fs. has_key key (target f) ls) \<and>
      (\<forall>l \<in> set ls. (fdone l = 0 \<or> fdone l \<le> quota l) \<and> in_i64 (fdone l) \<and>
         eq64 (fdone l) (done_sum target amount fs (key l))))"

text \<open>When the sum fits 64 bits, what is recorded as done is the sum itself.\<close>

lemma fulfil_ok_exact:
  assumes "fulfil_ok key quota fdone target amount ls fs" "l \<in> set ls"
    and "in_i64 (done_sum target amount fs (key l))"
  shows "fdone l = done_sum target amount fs (key l)"
  using assms by (auto simp: fulfil_ok_def intro: eq64_exact)

lemma done_sum_snoc [simp]:
  "done_sum target amount (fs @ [f]) k = done_sum target amount fs k + (if target f = k then amount f else 0)"
  by (simp add: done_sum_def)

lemma done_sum_none: "\<forall>f \<in> set fs. target f \<noteq> k \<Longrightarrow> done_sum target amount fs k = 0"
  by (simp add: done_sum_def filter_empty_conv)

locale fulfilment =
  fixes key quota fdone :: "'l \<Rightarrow> int"
    and target amount :: "'f \<Rightarrow> int"
    and post :: "int \<Rightarrow> 'l \<Rightarrow> 'l"
  assumes key_post [simp]: "key (post d l) = key l"
    and quota_post [simp]: "quota (post d l) = quota l"
    and done_post [simp]: "fdone (post d l) = d"
begin

lemma empty_ok: "fulfil_ok key quota fdone target amount [] []"
  by (simp add: fulfil_ok_def)

text \<open>A new order line, with nothing done and an identifier not in use.\<close>

lemma new_line_ok:
  assumes "fulfil_ok key quota fdone target amount ls fs" "\<not> has_key key (key l) ls" "fdone l = 0"
  shows "fulfil_ok key quota fdone target amount (ls @ [l]) fs"
proof -
  have "\<forall>f \<in> set fs. target f \<noteq> key l"
    using assms(1,2) by (auto simp: fulfil_ok_def)
  then show ?thesis
    using assms by (auto simp: fulfil_ok_def done_sum_none has_key_def)
qed

text \<open>A fulfilment step within the ordered quantity.\<close>

lemma fulfil_step:
  assumes ok: "fulfil_ok key quota fdone target amount ls fs"
    and l: "l \<in> set ls" "target f = key l"
    and new: "d = i64_add (fdone l) (amount f)" "d \<le> quota l"
  shows "fulfil_ok key quota fdone target amount (update_where (\<lambda>r. key r = key l) (post d) ls) (fs @ [f])"
proof -
  have uniq: "r = l" if "r \<in> set ls" "key r = key l" for r
    using ok l that by (auto simp: fulfil_ok_def distinct_map inj_on_def)
  have "eq64 d (done_sum target amount fs (key l) + amount f)"
  proof -
    have "eq64 d (fdone l + amount f)" using new by simp
    also have "eq64 \<dots> (done_sum target amount fs (key l) + amount f)"
      using ok l by (auto intro!: eq64_add simp: fulfil_ok_def)
    finally show ?thesis .
  qed
  moreover have "map key (update_where (\<lambda>r. key r = key l) (post d) ls) = map key ls"
    by (simp add: map_update_where)
  moreover have "\<forall>f' \<in> set (fs @ [f]). has_key key (target f') ls"
    using ok l by (auto simp: fulfil_ok_def has_key_def)
  moreover have "d \<le> quota r" if "r \<in> set ls" "key r = key l" for r
    using uniq [OF that] new(2) by simp
  moreover have "in_i64 d" using new(1) by simp
  ultimately show ?thesis
    unfolding fulfil_ok_def ball_update_where
    using ok l(2) by (auto simp: fulfil_ok_def has_key_update_where)
qed

text \<open>An update of other columns.\<close>

lemma other_update_ok:
  assumes "\<And>l. key (g l) = key l" "\<And>l. quota (g l) = quota l" "\<And>l. fdone (g l) = fdone l"
  shows "fulfil_ok key quota fdone target amount (update_where P g ls) fs =
         fulfil_ok key quota fdone target amount ls fs"
proof -
  have "map key (update_where P g ls) = map key ls" by (simp add: map_update_where assms)
  then show ?thesis
    unfolding fulfil_ok_def ball_update_where
    by (simp add: has_key_update_where assms if_distrib [of fdone] if_distrib [of quota] if_distrib [of key])
qed

end

end
