(* ===== verification/Purchase.thy ===== *)
theory Purchase
  imports Approval Costing Fulfilment Demo
begin

text \<open>
  The purchase domain, \<open>features/purchase\<close> and \<open>features/purchase_contract\<close>: orders with their
  approval flow, receipts into stock with the weighted average cost, returns and invoices.
\<close>

section \<open>Statuses and flows\<close>

datatype purchase_order_status = PODraft | POSubmitted | POPendingSupervisor | POApproved
  | PORejected | PODeleted

fun purchase_order_status_i16 :: "purchase_order_status \<Rightarrow> int" where
  "purchase_order_status_i16 PODraft = 0"
| "purchase_order_status_i16 POSubmitted = 1"
| "purchase_order_status_i16 POPendingSupervisor = 2"
| "purchase_order_status_i16 POApproved = 3"
| "purchase_order_status_i16 PORejected = 4"
| "purchase_order_status_i16 PODeleted = - 1"

datatype purchase_return_status = ReturnDraft | ReturnSubmitted | ReturnApproved

fun purchase_return_status_i16 :: "purchase_return_status \<Rightarrow> int" where
  "purchase_return_status_i16 ReturnDraft = 0"
| "purchase_return_status_i16 ReturnSubmitted = 1"
| "purchase_return_status_i16 ReturnApproved = 3"

text \<open>\<open>PurchaseReceiptStatus::Posted\<close>.\<close>

definition receipt_posted :: int where "receipt_posted = 1"

definition PO_FLOW :: state_transitions where
  "PO_FLOW = \<lparr>
     submit_pair = (purchase_order_status_i16 PODraft, purchase_order_status_i16 POSubmitted),
     approvals = [(purchase_order_status_i16 POSubmitted, purchase_order_status_i16 POPendingSupervisor),
                  (purchase_order_status_i16 POPendingSupervisor, purchase_order_status_i16 POApproved)],
     reject_pair = Some ([purchase_order_status_i16 POSubmitted, purchase_order_status_i16 POPendingSupervisor],
                         purchase_order_status_i16 PORejected)\<rparr>"

definition RET_FLOW :: state_transitions where
  "RET_FLOW = \<lparr>
     submit_pair = (purchase_return_status_i16 ReturnDraft, purchase_return_status_i16 ReturnSubmitted),
     approvals = [(purchase_return_status_i16 ReturnSubmitted, purchase_return_status_i16 ReturnApproved)],
     reject_pair = None\<rparr>"

section \<open>Orders\<close>

record create_order_line =
  col_item_id :: int
  col_quantity :: int
  col_unit :: string
  col_unit_price :: int
  col_remark :: "string option"

record create_purchase_order_request =
  cpo_supplier_id :: int
  cpo_expected_delivery_date :: "int option"
  cpo_payment_terms :: "string option"
  cpo_remark :: "string option"
  cpo_lines :: "create_order_line list"

definition insert_purchase_order :: "purchase_order_row \<Rightarrow> unit m" where
  "insert_purchase_order r =
     insert_row (fits 64 (po_code r) \<and> fits 3 (po_currency r) \<and> fits_opt 64 (po_payment_terms r))
       (\<lambda>s. \<not> has_key po_id (po_id r) (purchase_orders s) \<and> \<not> has_key po_code (po_code r) (purchase_orders s))
       (\<lambda>s. has_key su_id (po_supplier_id r) (suppliers s))
       (\<lambda>s. s\<lparr>purchase_orders := purchase_orders s @ [r]\<rparr>)"

definition insert_purchase_order_line :: "purchase_order_line \<Rightarrow> unit m" where
  "insert_purchase_order_line r =
     insert_row (fits 16 (pl_unit r))
       (\<lambda>s. \<not> has_key pl_id (pl_id r) (purchase_order_lines s))
       (\<lambda>s. has_key po_id (pl_order_id r) (purchase_orders s) \<and> has_key it_id (pl_item_id r) (items s))
       (\<lambda>s. s\<lparr>purchase_order_lines := purchase_order_lines s @ [r]\<rparr>)"

text \<open>\<open>PurchasePort::order_by_id\<close> and the locked read of the action endpoints.\<close>

definition read_purchase_order :: "int \<Rightarrow> db \<Rightarrow> purchase_order option" where
  "read_purchase_order k s = map_option purchase_order.truncate (lookup_by po_id k (purchase_orders s))"

text \<open>\<open>line.quantity * line.unit_price\<close>, summed up in \<open>total_amount\<close>.\<close>

definition order_line_total :: "create_order_line \<Rightarrow> int" where
  "order_line_total l = i64_mul (col_quantity l) (col_unit_price l)"

definition order_total :: "create_order_line list \<Rightarrow> int" where
  "order_total ls = foldl (\<lambda>total l. i64_add total (order_line_total l)) 0 ls"

text \<open>\<open>line_no as i16 + 1\<close>.\<close>

definition line_number :: "nat \<Rightarrow> int" where
  "line_number n = to_i16 (to_i16 (int n) + 1)"

definition new_order_line :: "int \<Rightarrow> nat \<times> int \<times> create_order_line \<Rightarrow> purchase_order_line" where
  "new_order_line k x =
     \<lparr>pl_id = fst (snd x), pl_order_id = k, pl_line_no = line_number (fst x),
      pl_item_id = col_item_id (snd (snd x)), pl_quantity = col_quantity (snd (snd x)),
      pl_unit = col_unit (snd (snd x)), pl_unit_price = col_unit_price (snd (snd x)),
      pl_line_total = order_line_total (snd (snd x)), pl_received_qty = 0, pl_returned_qty = 0,
      pl_closed = False, pl_remark = col_remark (snd (snd x))\<rparr>"

definition purchase_order_create ::
  "env \<Rightarrow> operator \<Rightarrow> create_purchase_order_request \<Rightarrow> (int \<times> string) m" where
  "purchase_order_create env ctx request =
     (if cpo_lines request = [] then failM (EPurchase PurchaseEmptyOrder)
      else
        bindM (new_id env) (\<lambda>k. transaction (
        bindM (next_number env ''seq_purchase_order'' ''PO'') (\<lambda>code.
        bindM (with_ids env (cpo_lines request)) (\<lambda>lines.
        seqM (insert_purchase_order
                \<lparr>po_id = k, po_code = code, po_supplier_id = cpo_supplier_id request, po_status = 0,
                 po_order_date = env_pg_date env,
                 po_expected_delivery_date = cpo_expected_delivery_date request, po_currency = ''CNY'',
                 po_total_amount = order_total (cpo_lines request),
                 po_payment_terms = cpo_payment_terms request, po_remark = cpo_remark request,
                 po_created_by = None, po_approved_by = None, po_approved_at = None,
                 po_rejected_at = None\<rparr>)
       (seqM (forM (enumerate 0 lines) (\<lambda>x. insert_purchase_order_line (new_order_line k x)))
       (bindM (fetch_or (read_purchase_order k) (EPurchase PurchaseNotFound)) (\<lambda>order.
        seqM (record_create env ''purchase_order'' k ctx (SnapPurchaseOrder order))
        (retM (k, code))))))))))"

text \<open>\<open>PurchaseOrderRepository\<close>.\<close>

definition po_lock_status :: "int \<Rightarrow> int m" where
  "po_lock_status k =
     fetch_or (\<lambda>s. map_option po_status (lookup_by po_id k (purchase_orders s)))
       (EPurchase PurchaseNotFound)"

definition po_update_status :: "int \<Rightarrow> int \<Rightarrow> unit m" where
  "po_update_status k status =
     modM (\<lambda>s. s\<lparr>purchase_orders := update_where (\<lambda>r. po_id r = k) (\<lambda>r. r\<lparr>po_status := status\<rparr>)
                   (purchase_orders s)\<rparr>)"

definition po_repository_submit :: "int \<Rightarrow> int m" where
  "po_repository_submit k =
     bindM (po_lock_status k) (\<lambda>status.
     bindM (transitionM (submit_status PO_FLOW status)) (\<lambda>new_status.
     seqM (po_update_status k new_status) (retM new_status)))"

definition po_repository_approve :: "env \<Rightarrow> int \<Rightarrow> int m" where
  "po_repository_approve env k =
     bindM (po_lock_status k) (\<lambda>status.
     bindM (transitionM (approve_status PO_FLOW status)) (\<lambda>new_status.
     seqM (modM (\<lambda>s. s\<lparr>purchase_orders := update_where (\<lambda>r. po_id r = k)
             (\<lambda>r. r\<lparr>po_status := new_status, po_approved_at := Some (env_pg_now env)\<rparr>) (purchase_orders s)\<rparr>))
     (retM new_status)))"

definition po_repository_reject :: "env \<Rightarrow> int \<Rightarrow> int m" where
  "po_repository_reject env k =
     bindM (po_lock_status k) (\<lambda>status.
     bindM (transitionM (reject_status PO_FLOW status)) (\<lambda>new_status.
     seqM (modM (\<lambda>s. s\<lparr>purchase_orders := update_where (\<lambda>r. po_id r = k)
             (\<lambda>r. r\<lparr>po_status := new_status, po_rejected_at := Some (env_pg_now env)\<rparr>) (purchase_orders s)\<rparr>))
     (retM new_status)))"

text \<open>The action endpoints share their shape: locked read, action, read back, audit.\<close>

definition purchase_order_submit :: "env \<Rightarrow> operator \<Rightarrow> int \<Rightarrow> bool m" where
  "purchase_order_submit env ctx k = transaction (
     bindM (fetch_or (read_purchase_order k) (EPurchase PurchaseNotFound)) (\<lambda>before.
     bindM (po_repository_submit k) (\<lambda>_.
     bindM (fetch_one (read_purchase_order k)) (\<lambda>after.
     seqM (record_updated env ''purchase_order'' k ctx (SnapPurchaseOrder before) (SnapPurchaseOrder after))
     (retM True)))))"

definition purchase_order_approve :: "env \<Rightarrow> operator \<Rightarrow> int \<Rightarrow> (bool \<times> int) m" where
  "purchase_order_approve env ctx k = transaction (
     bindM (fetch_or (read_purchase_order k) (EPurchase PurchaseNotFound)) (\<lambda>before.
     bindM (po_repository_approve env k) (\<lambda>new_status.
     bindM (fetch_one (read_purchase_order k)) (\<lambda>after.
     seqM (record_updated env ''purchase_order'' k ctx (SnapPurchaseOrder before) (SnapPurchaseOrder after))
     (retM (True, new_status))))))"

definition purchase_order_reject :: "env \<Rightarrow> operator \<Rightarrow> int \<Rightarrow> bool m" where
  "purchase_order_reject env ctx k = transaction (
     bindM (fetch_or (read_purchase_order k) (EPurchase PurchaseNotFound)) (\<lambda>before.
     bindM (po_repository_reject env k) (\<lambda>_.
     bindM (fetch_one (read_purchase_order k)) (\<lambda>after.
     seqM (record_updated env ''purchase_order'' k ctx (SnapPurchaseOrder before) (SnapPurchaseOrder after))
     (retM True)))))"

definition purchase_order_delete :: "env \<Rightarrow> operator \<Rightarrow> int \<Rightarrow> bool m" where
  "purchase_order_delete env ctx k = transaction (
     bindM (fetch_or (read_purchase_order k) (EPurchase PurchaseNotFound)) (\<lambda>before.
     seqM (guardM (po_status before = purchase_order_status_i16 PODraft) (EPurchase PurchaseNotDraft))
    (seqM (po_update_status k (purchase_order_status_i16 PODeleted))
    (seqM (record_deleted env ''purchase_order'' k ctx (SnapPurchaseOrder before))
    (retM True)))))"

text \<open>\<open>GET /purchase-orders/{id}\<close>: the order and its lines, \<open>ORDER BY line_no\<close>.\<close>

definition purchase_order_get :: "env \<Rightarrow> int \<Rightarrow> (purchase_order \<times> purchase_order_line list) m" where
  "purchase_order_get env k =
     bindM (fetch_or (read_purchase_order k) (EPurchase PurchaseNotFound)) (\<lambda>order.
     bindM (getsM (\<lambda>s. sort_key pl_line_no (scan env (filter (\<lambda>l. pl_order_id l = k) (purchase_order_lines s)))))
       (\<lambda>lines. retM (order, lines)))"

section \<open>Receipts\<close>

record create_receipt_line =
  crl_order_line_id :: int
  crl_item_id :: int
  crl_warehouse_id :: int
  crl_quantity :: int
  crl_batch_number :: "string option"
  crl_unit_cost :: int

record create_receipt_request =
  crr_order_id :: int
  crr_receipt_date :: "int option"
  crr_remark :: "string option"
  crr_lines :: "create_receipt_line list"

definition insert_purchase_receipt :: "purchase_receipt \<Rightarrow> unit m" where
  "insert_purchase_receipt r =
     insert_row (fits 64 (pr_code r))
       (\<lambda>s. \<not> has_key pr_id (pr_id r) (purchase_receipts s) \<and> \<not> has_key pr_code (pr_code r) (purchase_receipts s))
       (\<lambda>s. has_key po_id (pr_order_id r) (purchase_orders s) \<and> has_key su_id (pr_supplier_id r) (suppliers s))
       (\<lambda>s. s\<lparr>purchase_receipts := purchase_receipts s @ [r]\<rparr>)"

definition insert_purchase_receipt_line :: "purchase_receipt_line \<Rightarrow> unit m" where
  "insert_purchase_receipt_line r =
     insert_row (fits_opt 64 (prl_batch_number r))
       (\<lambda>s. \<not> has_key prl_id (prl_id r) (purchase_receipt_lines s))
       (\<lambda>s. has_key pr_id (prl_receipt_id r) (purchase_receipts s) \<and>
            has_key pl_id (prl_order_line_id r) (purchase_order_lines s) \<and>
            has_key it_id (prl_item_id r) (items s) \<and> has_key wh_id (prl_warehouse_id r) (warehouses s))
       (\<lambda>s. s\<lparr>purchase_receipt_lines := purchase_receipt_lines s @ [r]\<rparr>)"

definition post_received :: "int \<Rightarrow> purchase_order_line \<Rightarrow> purchase_order_line" where
  "post_received d l = l\<lparr>pl_received_qty := d, pl_closed := (d \<ge> pl_quantity l)\<rparr>"

text \<open>The body of the loop over the request's lines.\<close>

definition receipt_line :: "env \<Rightarrow> int \<Rightarrow> int \<Rightarrow> create_receipt_line \<Rightarrow> unit m" where
  "receipt_line env order_id receipt_id line =
     bindM (new_id env) (\<lambda>line_id.
     bindM (fetch_or (\<lambda>s. find (\<lambda>l. pl_id l = crl_order_line_id line \<and> pl_order_id l = order_id)
                           (purchase_order_lines s)) (EPurchase PurchaseLineNotFound)) (\<lambda>ol.
     let new_received = i64_add (pl_received_qty ol) (crl_quantity line) in
     seqM (guardM (\<not> new_received > pl_quantity ol) (EPurchase OverReceipt))
    (seqM (insert_purchase_receipt_line
             \<lparr>prl_id = line_id, prl_receipt_id = receipt_id, prl_order_line_id = crl_order_line_id line,
              prl_item_id = crl_item_id line, prl_warehouse_id = crl_warehouse_id line,
              prl_quantity = crl_quantity line, prl_batch_number = crl_batch_number line,
              prl_unit_cost = crl_unit_cost line\<rparr>)
    (seqM (modM (\<lambda>s. s\<lparr>purchase_order_lines := update_where (\<lambda>l. pl_id l = crl_order_line_id line)
             (post_received new_received) (purchase_order_lines s)\<rparr>))
    (seqM (receive env
             \<lparr>lc_item_id = crl_item_id line, lc_warehouse_id = crl_warehouse_id line,
              lc_quantity = crl_quantity line, lc_tx_type = Inbound,
              lc_reference_type = ''purchase_receipt'', lc_reference_id = line_id,
              lc_batch_number = crl_batch_number line\<rparr>)
    (bindM (recalc_weighted_average env (crl_item_id line) (crl_quantity line) (crl_unit_cost line)) (\<lambda>_.
     retM ())))))))"

definition purchase_receipt_create ::
  "env \<Rightarrow> operator \<Rightarrow> create_receipt_request \<Rightarrow> (int \<times> string) m" where
  "purchase_receipt_create env ctx request = transaction (
     bindM (fetch_or (\<lambda>s. lookup_by po_id (crr_order_id request) (purchase_orders s))
              (EPurchase PurchaseNotFound)) (\<lambda>order.
     seqM (guardM (po_status order = purchase_order_status_i16 POApproved)
             (EPurchase PurchaseOrderNotApproved))
    (bindM (next_number env ''seq_purchase_receipt'' ''RCV'') (\<lambda>code.
     bindM (new_id env) (\<lambda>receipt_id.
     seqM (insert_purchase_receipt
             \<lparr>pr_id = receipt_id, pr_code = code, pr_order_id = crr_order_id request,
              pr_supplier_id = po_supplier_id order,
              pr_receipt_date = (case crr_receipt_date request of None \<Rightarrow> env_local_date env | Some d \<Rightarrow> d),
              pr_status = receipt_posted, pr_remark = crr_remark request\<rparr>)
    (seqM (forM (crr_lines request) (receipt_line env (crr_order_id request) receipt_id))
    (bindM (fetch_one (\<lambda>s. lookup_by pr_id receipt_id (purchase_receipts s))) (\<lambda>receipt.
     seqM (record_create env ''purchase_receipt'' receipt_id ctx (SnapPurchaseReceipt receipt))
     (retM (receipt_id, code))))))))))"

section \<open>Returns\<close>

record create_return_line =
  ctl_receipt_line_id :: int
  ctl_item_id :: int
  ctl_quantity :: int
  ctl_reason :: "string option"

record create_return_request =
  crt_order_id :: int
  crt_reason :: "string option"
  crt_lines :: "create_return_line list"

definition insert_purchase_return :: "purchase_return_row \<Rightarrow> unit m" where
  "insert_purchase_return r =
     insert_row (fits 64 (rt_code r))
       (\<lambda>s. \<not> has_key rt_id (rt_id r) (purchase_returns s) \<and> \<not> has_key rt_code (rt_code r) (purchase_returns s))
       (\<lambda>s. has_key po_id (rt_order_id r) (purchase_orders s) \<and> has_key su_id (rt_supplier_id r) (suppliers s))
       (\<lambda>s. s\<lparr>purchase_returns := purchase_returns s @ [r]\<rparr>)"

definition insert_purchase_return_line :: "purchase_return_line \<Rightarrow> unit m" where
  "insert_purchase_return_line r =
     insert_row True
       (\<lambda>s. \<not> has_key rtl_id (rtl_id r) (purchase_return_lines s))
       (\<lambda>s. has_key rt_id (rtl_return_id r) (purchase_returns s) \<and>
            has_key prl_id (rtl_receipt_line_id r) (purchase_receipt_lines s) \<and>
            has_key it_id (rtl_item_id r) (items s))
       (\<lambda>s. s\<lparr>purchase_return_lines := purchase_return_lines s @ [r]\<rparr>)"

definition read_purchase_return :: "int \<Rightarrow> db \<Rightarrow> purchase_return option" where
  "read_purchase_return k s = map_option purchase_return.truncate (lookup_by rt_id k (purchase_returns s))"

definition purchase_return_create ::
  "env \<Rightarrow> operator \<Rightarrow> create_return_request \<Rightarrow> (int \<times> string) m" where
  "purchase_return_create env ctx request = transaction (
     bindM (fetch_or (\<lambda>s. lookup_by po_id (crt_order_id request) (purchase_orders s))
              (EPurchase PurchaseNotFound)) (\<lambda>order.
     bindM (next_number env ''seq_purchase_return'' ''RET'') (\<lambda>code.
     bindM (new_id env) (\<lambda>return_id.
     seqM (insert_purchase_return
             \<lparr>rt_id = return_id, rt_code = code, rt_order_id = crt_order_id request,
              rt_supplier_id = po_supplier_id order, rt_return_date = env_pg_date env, rt_status = 0,
              rt_reason = crt_reason request, rt_remark = None, rt_approved_by = None,
              rt_approved_at = None\<rparr>)
    (seqM (forM (crt_lines request) (\<lambda>line.
             bindM (new_id env) (\<lambda>line_id.
             insert_purchase_return_line
               \<lparr>rtl_id = line_id, rtl_return_id = return_id,
                rtl_receipt_line_id = ctl_receipt_line_id line, rtl_item_id = ctl_item_id line,
                rtl_quantity = ctl_quantity line, rtl_reason = ctl_reason line\<rparr>)))
    (bindM (fetch_one (read_purchase_return return_id)) (\<lambda>ret.
     seqM (record_create env ''purchase_return'' return_id ctx (SnapPurchaseReturn ret))
     (retM (return_id, code)))))))))"

text \<open>\<open>PurchaseReturnRepository\<close>.\<close>

definition return_lock_status :: "int \<Rightarrow> int m" where
  "return_lock_status k =
     fetch_or (\<lambda>s. map_option rt_status (lookup_by rt_id k (purchase_returns s)))
       (EPurchase PurchaseNotFound)"

definition return_repository_submit :: "int \<Rightarrow> unit m" where
  "return_repository_submit k =
     bindM (return_lock_status k) (\<lambda>status.
     bindM (transitionM (submit_status RET_FLOW status)) (\<lambda>new_status.
     modM (\<lambda>s. s\<lparr>purchase_returns := update_where (\<lambda>r. rt_id r = k) (\<lambda>r. r\<lparr>rt_status := new_status\<rparr>)
                   (purchase_returns s)\<rparr>)))"

definition return_repository_approve :: "env \<Rightarrow> int \<Rightarrow> int m" where
  "return_repository_approve env k =
     bindM (return_lock_status k) (\<lambda>status.
     bindM (transitionM (approve_status RET_FLOW status)) (\<lambda>new_status.
     seqM (modM (\<lambda>s. s\<lparr>purchase_returns := update_where (\<lambda>r. rt_id r = k)
             (\<lambda>r. r\<lparr>rt_status := new_status, rt_approved_at := Some (env_pg_now env)\<rparr>) (purchase_returns s)\<rparr>))
     (retM new_status)))"

definition purchase_return_submit :: "int \<Rightarrow> bool m" where
  "purchase_return_submit k = transaction (seqM (return_repository_submit k) (retM True))"

text \<open>The join of the return's lines with their receipt lines.\<close>

record return_join_row =
  rj_id :: int
  rj_item_id :: int
  rj_quantity :: int
  rj_warehouse_id :: int
  rj_order_line_id :: int

definition return_join :: "int \<Rightarrow> db \<Rightarrow> return_join_row list" where
  "return_join k s =
     concat (map (\<lambda>l. map (\<lambda>r. \<lparr>rj_id = rtl_id l, rj_item_id = rtl_item_id l, rj_quantity = rtl_quantity l,
                             rj_warehouse_id = prl_warehouse_id r, rj_order_line_id = prl_order_line_id r\<rparr>)
                       (filter (\<lambda>r. prl_id r = rtl_receipt_line_id l) (purchase_receipt_lines s)))
                  (filter (\<lambda>l. rtl_return_id l = k) (purchase_return_lines s)))"

text \<open>The body of the loop: stock out, even below zero, then \<open>returned_qty = returned_qty + $1\<close>.\<close>

definition return_line :: "env \<Rightarrow> return_join_row \<Rightarrow> unit m" where
  "return_line env line =
     seqM (force_issue env
             \<lparr>lc_item_id = rj_item_id line, lc_warehouse_id = rj_warehouse_id line,
              lc_quantity = rj_quantity line, lc_tx_type = PurchaseReturn,
              lc_reference_type = ''purchase_return'', lc_reference_id = rj_id line,
              lc_batch_number = None\<rparr>)
    (seqM (checkM (\<lambda>s. list_all (\<lambda>l. pl_id l = rj_order_line_id line \<longrightarrow> in_i64 (pl_returned_qty l + rj_quantity line))
             (purchase_order_lines s)) (EDb NumericOutOfRange))
          (modM (\<lambda>s. s\<lparr>purchase_order_lines := update_where (\<lambda>l. pl_id l = rj_order_line_id line)
             (\<lambda>l. l\<lparr>pl_returned_qty := pl_returned_qty l + rj_quantity line\<rparr>) (purchase_order_lines s)\<rparr>)))"

definition purchase_return_approve :: "env \<Rightarrow> operator \<Rightarrow> int \<Rightarrow> bool m" where
  "purchase_return_approve env ctx k = transaction (
     bindM (fetch_or (read_purchase_return k) (EPurchase PurchaseNotFound)) (\<lambda>before.
     bindM (return_repository_approve env k) (\<lambda>_.
     bindM (fetch_one (read_purchase_return k)) (\<lambda>after.
     seqM (record_updated env ''purchase_return'' k ctx (SnapPurchaseReturn before) (SnapPurchaseReturn after))
    (bindM (getsM (\<lambda>s. scan env (return_join k s))) (\<lambda>lines.
     seqM (forM lines (return_line env))
     (retM True)))))))"

section \<open>Invoices\<close>

record create_invoice_request =
  cir_order_id :: int
  cir_invoice_number :: "string option"
  cir_invoice_date :: "int option"
  cir_amount :: int
  cir_tax_amount :: "int option"
  cir_remark :: "string option"

definition tax_or_zero :: "create_invoice_request \<Rightarrow> int" where
  "tax_or_zero r = (case cir_tax_amount r of None \<Rightarrow> 0 | Some t \<Rightarrow> t)"

definition insert_purchase_invoice :: "purchase_invoice_row \<Rightarrow> unit m" where
  "insert_purchase_invoice r =
     insert_row (fits 64 (pi_code r) \<and> fits_opt 64 (pi_invoice_number r))
       (\<lambda>s. \<not> has_key pi_id (pi_id r) (purchase_invoices s) \<and> \<not> has_key pi_code (pi_code r) (purchase_invoices s))
       (\<lambda>s. has_key po_id (pi_order_id r) (purchase_orders s) \<and> has_key su_id (pi_supplier_id r) (suppliers s))
       (\<lambda>s. s\<lparr>purchase_invoices := purchase_invoices s @ [r]\<rparr>)"

definition purchase_invoice_create ::
  "env \<Rightarrow> operator \<Rightarrow> create_invoice_request \<Rightarrow> (int \<times> string) m" where
  "purchase_invoice_create env ctx request = transaction (
     bindM (fetch_or (\<lambda>s. lookup_by po_id (cir_order_id request) (purchase_orders s))
              (EPurchase PurchaseNotFound)) (\<lambda>order.
     bindM (next_number env ''seq_purchase_invoice'' ''INV'') (\<lambda>code.
     bindM (new_id env) (\<lambda>k.
     seqM (insert_purchase_invoice
             \<lparr>pi_id = k, pi_code = code, pi_order_id = cir_order_id request,
              pi_supplier_id = po_supplier_id order, pi_invoice_number = cir_invoice_number request,
              pi_invoice_date = Some (case cir_invoice_date request of None \<Rightarrow> env_local_date env | Some d \<Rightarrow> d),
              pi_amount = cir_amount request, pi_tax_amount = tax_or_zero request,
              pi_total_amount = i64_add (cir_amount request) (tax_or_zero request), pi_status = 0,
              pi_remark = cir_remark request, pi_paid_amount = 0\<rparr>)
    (bindM (fetch_one (\<lambda>s. map_option purchase_invoice.truncate (lookup_by pi_id k (purchase_invoices s)))) (\<lambda>invoice.
     seqM (record_create env ''purchase_invoice'' k ctx (SnapPurchaseInvoice invoice))
     (retM (k, code))))))))"

section \<open>The flows are approval chains\<close>

interpretation po: approval_chain PO_FLOW nat 0 3
proof
  show "\<not> flow_step PO_FLOW 3 d" for d
    by (simp add: flow_step_iff flow_defs PO_FLOW_def)
  have "flow_step PO_FLOW 0 1" "flow_step PO_FLOW 1 2" "flow_step PO_FLOW 2 3"
    by (simp_all add: flow_step_iff flow_defs PO_FLOW_def)
  then show "(flow_step PO_FLOW)\<^sup>+\<^sup>+ 0 3" by (meson tranclp.r_into_trancl tranclp_trans)
qed (auto simp: PO_FLOW_def)

interpretation ret: approval_chain RET_FLOW nat 0 3
proof
  show "\<not> flow_step RET_FLOW 3 d" for d
    by (simp add: flow_step_iff flow_defs RET_FLOW_def)
  have "flow_step RET_FLOW 0 1" "flow_step RET_FLOW 1 3"
    by (simp_all add: flow_step_iff flow_defs RET_FLOW_def)
  then show "(flow_step RET_FLOW)\<^sup>+\<^sup>+ 0 3" by auto
qed (auto simp: RET_FLOW_def)

section \<open>The repositories implement the document interface\<close>

definition po_status_of :: "db \<Rightarrow> int \<Rightarrow> int option" where
  "po_status_of s k = map_option po_status (lookup_by po_id k (purchase_orders s))"

definition return_status_of :: "db \<Rightarrow> int \<Rightarrow> int option" where
  "return_status_of s k = map_option rt_status (lookup_by rt_id k (purchase_returns s))"

lemmas purchase_repository_defs = po_repository_submit_def po_repository_approve_def
  po_repository_reject_def po_lock_status_def po_update_status_def return_repository_submit_def
  return_repository_approve_def return_lock_status_def

interpretation po_submit: status_document po_status_of "submit_status PO_FLOW"
  po_repository_submit "EPurchase PurchaseNotFound"
  by unfold_locales
    (auto simp: po_status_of_def purchase_repository_defs fetch_or_def transitionM_def monad_defs)

interpretation po_approve: status_document po_status_of "approve_status PO_FLOW"
  "po_repository_approve env" "EPurchase PurchaseNotFound" for env
  by unfold_locales
    (auto simp: po_status_of_def purchase_repository_defs fetch_or_def transitionM_def monad_defs)

interpretation po_reject: status_document po_status_of "reject_status PO_FLOW"
  "po_repository_reject env" "EPurchase PurchaseNotFound" for env
  by unfold_locales
    (auto simp: po_status_of_def purchase_repository_defs fetch_or_def transitionM_def monad_defs)

interpretation ret_submit: status_document return_status_of "submit_status RET_FLOW"
  return_repository_submit "EPurchase PurchaseNotFound"
  by unfold_locales
    (auto simp: return_status_of_def purchase_repository_defs fetch_or_def transitionM_def monad_defs)

interpretation ret_approve: status_document return_status_of "approve_status RET_FLOW"
  "return_repository_approve env" "EPurchase PurchaseNotFound" for env
  by unfold_locales
    (auto simp: return_status_of_def purchase_repository_defs fetch_or_def transitionM_def monad_defs)

section \<open>Frames\<close>

lemma frame_purchase_order_create:
  assumes "admin I" "ignores purchase_orders_update I"
    and "\<And>r. pl_received_qty r = 0 \<Longrightarrow> okp I (insert_purchase_order_line r)"
  shows "pres I (purchase_order_create env ctx r)"
  unfolding purchase_order_create_def insert_purchase_order_def using assms
  by (intro pres_if pres_fail pres_bind pres_admin pres_transaction_admin okp_intros okp_insert_row)
    (simp_all add: ignores_def new_order_line_def)

lemma frame_purchase_order_actions:
  assumes "admin I" "ignores purchase_orders_update I"
  shows "pres I (purchase_order_submit env ctx k)" "pres I (purchase_order_approve env ctx k)"
    "pres I (purchase_order_reject env ctx k)" "pres I (purchase_order_delete env ctx k)"
  unfolding purchase_order_submit_def purchase_order_approve_def purchase_order_reject_def
    purchase_order_delete_def purchase_repository_defs using assms
  by (intro pres_transaction_admin okp_intros okp_leaves; simp add: ignores_def)+

lemma frame_purchase_receipt_create:
  assumes "admin I" "ignores purchase_receipts_update I"
    and "\<And>od r l. okp I (receipt_line env od r l)"
  shows "pres I (purchase_receipt_create env ctx r)"
  unfolding purchase_receipt_create_def insert_purchase_receipt_def using assms
  by (intro pres_transaction_admin okp_intros okp_leaves) (simp_all add: ignores_def)

lemma frame_purchase_return_create:
  assumes "admin I" "ignores purchase_returns_update I" "ignores purchase_return_lines_update I"
  shows "pres I (purchase_return_create env ctx r)"
  unfolding purchase_return_create_def insert_purchase_return_def insert_purchase_return_line_def
  using assms by (intro pres_transaction_admin okp_intros okp_leaves) (simp_all add: ignores_def)

lemma frame_purchase_return_submit:
  assumes "admin I" "ignores purchase_returns_update I"
  shows "pres I (purchase_return_submit k)"
  unfolding purchase_return_submit_def purchase_repository_defs using assms
  by (intro pres_transaction_admin okp_intros okp_leaves) (simp_all add: ignores_def)

lemma frame_purchase_return_approve:
  assumes "admin I" "ignores purchase_returns_update I" "\<And>l. okp I (return_line env l)"
  shows "pres I (purchase_return_approve env ctx k)"
  unfolding purchase_return_approve_def purchase_repository_defs using assms
  by (intro pres_transaction_admin okp_intros okp_leaves) (simp_all add: ignores_def)

lemma frame_purchase_invoice_create:
  assumes "admin I" "\<And>r. pi_paid_amount r = 0 \<Longrightarrow> okp I (insert_purchase_invoice r)"
  shows "pres I (purchase_invoice_create env ctx r)"
  unfolding purchase_invoice_create_def using assms
  by (intro pres_transaction_admin okp_intros) simp_all

lemma okp_purchase_lines_blind:
  assumes "admin I" "ledger_blind I" "ignores purchase_order_lines_update I"
    "ignores purchase_receipt_lines_update I" "ignores item_costs_update I"
  shows "okp I (receipt_line env od r l)" "okp I (return_line env j)"
    "okp I (insert_purchase_order_line pl)"
  unfolding receipt_line_def return_line_def insert_purchase_order_line_def
    insert_purchase_receipt_line_def using assms
  by (intro okp_intros okp_leaves okp_ledger_blind okp_recalc_blind;
      simp add: ignores_def admin_def ledger_blind_def posted_def)+

lemma okp_insert_purchase_invoice_blind:
  "ignores purchase_invoices_update I \<Longrightarrow> okp I (insert_purchase_invoice r)"
  unfolding insert_purchase_invoice_def by (intro okp_leaves) (simp add: ignores_def)

section \<open>Received quantities\<close>

interpretation receipts: fulfilment pl_id pl_quantity pl_received_qty prl_order_line_id prl_quantity
  post_received
  by unfold_locales (simp_all add: post_received_def)

definition receipt_inv :: "db \<Rightarrow> bool" where
  "receipt_inv s = fulfil_ok pl_id pl_quantity pl_received_qty prl_order_line_id prl_quantity
     (purchase_order_lines s) (purchase_receipt_lines s)"

lemma receipt_inv_empty: "receipt_inv empty_db"
  by (simp add: receipt_inv_def empty_db_def receipts.empty_ok)

lemma receipt_line_OK:
  assumes "receipt_line env od r l s = (Inr u, t)"
  shows "\<exists>ol rl. ol \<in> set (purchase_order_lines s) \<and> pl_id ol = crl_order_line_id l \<and> pl_order_id ol = od \<and>
     i64_add (pl_received_qty ol) (crl_quantity l) \<le> pl_quantity ol \<and>
     prl_order_line_id rl = crl_order_line_id l \<and> prl_quantity rl = crl_quantity l \<and>
     prl_item_id rl = crl_item_id l \<and>
     purchase_receipt_lines t = purchase_receipt_lines s @ [rl] \<and>
     purchase_order_lines t = update_where (\<lambda>x. pl_id x = crl_order_line_id l)
       (post_received (i64_add (pl_received_qty ol) (crl_quantity l))) (purchase_order_lines s)"
  using assms
  by (fastforce simp: receipt_line_def insert_purchase_receipt_line_def monad_OK stmt_OK new_id_OK
      Let_def not_less posted_def find_Some_iff in_set_conv_nth dest!: receive_OK recalc_OK)

lemma okp_receipt_line_inv: "okp receipt_inv (receipt_line env od r l)"
proof (rule okpI)
  fix s u t
  assume inv: "receipt_inv s" and run: "receipt_line env od r l s = (Inr u, t)"
  obtain ol rl where ol: "ol \<in> set (purchase_order_lines s)" "pl_id ol = crl_order_line_id l"
    "i64_add (pl_received_qty ol) (crl_quantity l) \<le> pl_quantity ol"
    and rl: "prl_order_line_id rl = crl_order_line_id l" "prl_quantity rl = crl_quantity l"
    and t: "purchase_receipt_lines t = purchase_receipt_lines s @ [rl]"
      "purchase_order_lines t = update_where (\<lambda>x. pl_id x = crl_order_line_id l)
         (post_received (i64_add (pl_received_qty ol) (crl_quantity l))) (purchase_order_lines s)"
    using receipt_line_OK [OF run] by blast
  show "receipt_inv t"
    using receipts.fulfil_step [of "purchase_order_lines s" "purchase_receipt_lines s" ol rl] inv ol rl t
    by (simp add: receipt_inv_def)
qed

lemma okp_return_line_inv: "okp receipt_inv (return_line env l)"
  unfolding return_line_def
proof (intro okp_seq okp_check okp_modM)
  show "okp receipt_inv (force_issue env c)" for c
    by (rule okp_ledger_blind) (simp add: ledger_blind_def posted_def ignores_def receipt_inv_def)
qed (simp add: receipt_inv_def receipts.other_update_ok)

lemma okp_new_order_line_inv:
  "pl_received_qty r = 0 \<Longrightarrow> okp receipt_inv (insert_purchase_order_line r)"
  unfolding insert_purchase_order_line_def
  by (intro okp_insert_row) (simp add: receipt_inv_def receipts.new_line_ok)

lemma okp_purchase_lines_ledger:
  "okp ledger_inv (receipt_line env od r l)" "okp ledger_inv (return_line env j)"
proof -
  have b: "ignores item_costs_update ledger_inv" "ignores next_id_update ledger_inv"
    by (simp_all add: ignores_def ledger_inv_def log_of_def stock_def)
  show "okp ledger_inv (receipt_line env od r l)"
    unfolding receipt_line_def insert_purchase_receipt_line_def
    by (intro okp_intros okp_leaves okp_recalc_blind b)
      (simp_all add: inbound_def admin_def ignores_def ledger_inv_def log_of_def stock_def)
  show "okp ledger_inv (return_line env j)"
    unfolding return_line_def
    by (intro okp_intros okp_leaves)
      (simp_all add: inbound_def ledger_inv_def log_of_def stock_def)
qed

lemma okp_receipt_line_cost: "okp cost_inv (receipt_line env od r l)"
  unfolding receipt_line_def insert_purchase_receipt_line_def
  by (intro okp_intros okp_leaves okp_ledger_blind)
    (simp_all add: admin_def ledger_blind_def posted_def ignores_def cost_inv_def)

section \<open>What receipts and returns do to the stock\<close>

interpretation receipt_moves: stock_moves "receipt_line env od r"
  "\<lambda>l. at (crl_item_id l, crl_warehouse_id l) (crl_quantity l)" for env od r
proof
  fix l s t k
  assume run: "receipt_line env od r l s = (Inr (), t)"
  then show "eq64 (stock t k) (stock s k + at (crl_item_id l, crl_warehouse_id l) (crl_quantity l) k)"
    by (auto simp: receipt_line_def insert_purchase_receipt_line_def monad_OK stmt_OK new_id_OK
        Let_def stock_simps at_def lc_key_def dest!: recalc_OK receive_OK)
qed

interpretation return_moves: stock_moves "return_line env"
  "\<lambda>l. at (rj_item_id l, rj_warehouse_id l) (- rj_quantity l)" for env
proof
  fix l s t k
  assume run: "return_line env l s = (Inr (), t)"
  then show "eq64 (stock t k) (stock s k + at (rj_item_id l, rj_warehouse_id l) (- rj_quantity l) k)"
    using eq64_i64(2)
    by (auto simp: return_line_def monad_OK stock_simps at_def lc_key_def dest!: force_issue_OK)
qed


lemma purchase_receipt_moves:
  "moves k (sum_list (map (\<lambda>l. at (crl_item_id l, crl_warehouse_id l) (crl_quantity l) k) (crr_lines r)))
     (purchase_receipt_create env ctx r)"
proof -
  have loop: "moves k (sum_list (map (\<lambda>l. at (crl_item_id l, crl_warehouse_id l) (crl_quantity l) k) (crr_lines r)))
      (forM (crr_lines r) (receipt_line env od rc))" for od rc
    using receipt_moves.loop_stock by (simp add: moves_def)
  show ?thesis
    unfolding purchase_receipt_create_def insert_purchase_receipt_def
    by (intro moves_txn moves_after moves_after_seq moves_before loop quietI okp_intros okp_leaves stock_admin)
      (simp_all add: stock_def fun_eq_iff)
qed

section \<open>The total of an order\<close>

lemma foldl_i64_add: "eq64 (foldl (\<lambda>a x. i64_add a (f x)) a xs) (a + sum_list (map f xs))"
proof (induction xs arbitrary: a)
  case (Cons x xs)
  have "eq64 (foldl (\<lambda>a x. i64_add a (f x)) (i64_add a (f x)) xs) (i64_add a (f x) + sum_list (map f xs))"
    by (rule Cons.IH)
  also have "eq64 \<dots> (a + f x + sum_list (map f xs))" by (intro eq64_add) auto
  finally show ?case by (simp add: algebra_simps)
qed simp

text \<open>The loop of inserts appends one row for every line.\<close>

lemma order_line_loop_OK:
  assumes "forM xs (\<lambda>x. insert_purchase_order_line (g x)) s = (Inr u, t)"
  shows "t = s\<lparr>purchase_order_lines := purchase_order_lines s @ map g xs\<rparr>"
  using assms
proof (induction xs arbitrary: s)
  case (Cons x xs)
  then have "forM xs (\<lambda>x. insert_purchase_order_line (g x))
      (s\<lparr>purchase_order_lines := purchase_order_lines s @ [g x]\<rparr>) = (Inr u, t)"
    by (auto simp: monad_OK insert_purchase_order_line_def stmt_OK)
  from Cons.IH [OF this] show ?case by simp
qed (simp add: monad_OK)

lemma purchase_order_create_OK:
  assumes "purchase_order_create env ctx r s = (Inr x, t)"
  shows "\<exists>row ids. purchase_orders t = purchase_orders s @ [row] \<and> po_id row = fst x \<and>
     po_status row = 0 \<and> po_total_amount row = order_total (cpo_lines r) \<and>
     length ids = length (cpo_lines r) \<and> purchase_order_lines t = purchase_order_lines s @
       map (new_order_line (fst x)) (enumerate 0 (zip ids (cpo_lines r)))" (is "?Q x t")
proof -
  have ids: "wpM (with_ids env xs) Q (\<lambda>_ _. True) s"
    if "\<And>ids. length ids = length xs \<Longrightarrow> Q (zip ids xs) (s\<lparr>next_id := next_id s + length xs\<rparr>)"
    for xs :: "create_order_line list" and Q s
    using that by (simp add: wp_success with_ids_OK)
  have loop: "wpM (forM xs (\<lambda>x. insert_purchase_order_line (g x))) Q (\<lambda>_ _. True) s"
    if "Q () (s\<lparr>purchase_order_lines := purchase_order_lines s @ map g xs\<rparr>)"
    for xs g s and Q :: "unit \<Rightarrow> db \<Rightarrow> bool"
    using that by (auto simp: wp_success dest!: order_line_loop_OK)
  have "wpM (purchase_order_create env ctx r) ?Q (\<lambda>_ _. True) s"
    unfolding purchase_order_create_def insert_purchase_order_def
    by (auto simp: wp audit_defs audit_insert_def Let_def intro!: ids loop split: option.split;
        intro exI conjI, assumption, rule refl)
  then show ?thesis using assms unfolding wp_success by blast
qed

end
