(* ===== verification/Sales.thy ===== *)
theory Sales
  imports Approval Ledger Fulfilment Demo
begin

text \<open>
  The sales domain, \<open>features/sales\<close> and \<open>features/sales_contract\<close>: orders with their approval
  flow, deliveries out of stock and invoices.
\<close>

section \<open>Statuses and flow\<close>

datatype sales_order_status = SODraft | SOSubmitted | SOPendingSupervisor | SOApproved

fun sales_order_status_i16 :: "sales_order_status \<Rightarrow> int" where
  "sales_order_status_i16 SODraft = 0"
| "sales_order_status_i16 SOSubmitted = 1"
| "sales_order_status_i16 SOPendingSupervisor = 2"
| "sales_order_status_i16 SOApproved = 3"

text \<open>\<open>SalesDeliveryStatus::Posted\<close>.\<close>

definition delivery_posted :: int where "delivery_posted = 1"

definition SO_FLOW :: state_transitions where
  "SO_FLOW = \<lparr>
     submit_pair = (sales_order_status_i16 SODraft, sales_order_status_i16 SOSubmitted),
     approvals = [(sales_order_status_i16 SOSubmitted, sales_order_status_i16 SOPendingSupervisor),
                  (sales_order_status_i16 SOPendingSupervisor, sales_order_status_i16 SOApproved)],
     reject_pair = None\<rparr>"

section \<open>Orders\<close>

record sales_line_input =
  sli_item_id :: int
  sli_quantity :: int
  sli_unit :: string
  sli_unit_price :: int
  sli_remark :: "string option"

record create_sales_order_request =
  cso_customer_id :: int
  cso_remark :: "string option"
  cso_lines :: "sales_line_input list"

definition insert_sales_order :: "sales_order_row \<Rightarrow> unit m" where
  "insert_sales_order r =
     insert_row (fits 64 (so_code r) \<and> fits 3 (so_currency r))
       (\<lambda>s. \<not> has_key so_id (so_id r) (sales_orders s) \<and> \<not> has_key so_code (so_code r) (sales_orders s))
       (\<lambda>s. has_key cu_id (so_customer_id r) (customers s))
       (\<lambda>s. s\<lparr>sales_orders := sales_orders s @ [r]\<rparr>)"

definition insert_sales_order_line :: "sales_order_line \<Rightarrow> unit m" where
  "insert_sales_order_line r =
     insert_row (fits 16 (sl_unit r))
       (\<lambda>s. \<not> has_key sl_id (sl_id r) (sales_order_lines s))
       (\<lambda>s. has_key so_id (sl_order_id r) (sales_orders s) \<and> has_key it_id (sl_item_id r) (items s))
       (\<lambda>s. s\<lparr>sales_order_lines := sales_order_lines s @ [r]\<rparr>)"

definition read_sales_order :: "int \<Rightarrow> db \<Rightarrow> sales_order option" where
  "read_sales_order k s = map_option sales_order.truncate (lookup_by so_id k (sales_orders s))"

definition sales_line_total :: "sales_line_input \<Rightarrow> int" where
  "sales_line_total l = i64_mul (sli_quantity l) (sli_unit_price l)"

definition sales_total :: "sales_line_input list \<Rightarrow> int" where
  "sales_total ls = foldl (\<lambda>total l. i64_add total (sales_line_total l)) 0 ls"

definition sales_line_number :: "nat \<Rightarrow> int" where
  "sales_line_number n = to_i16 (to_i16 (int n) + 1)"

definition sales_order_create ::
  "env \<Rightarrow> operator \<Rightarrow> create_sales_order_request \<Rightarrow> (int \<times> string) m" where
  "sales_order_create env ctx request =
     (if cso_lines request = [] then failM (ESales SalesEmptyOrder)
      else
        bindM (new_id env) (\<lambda>k. transaction (
        bindM (next_number env ''seq_sales_order'' ''SO'') (\<lambda>code.
        bindM (with_ids env (cso_lines request)) (\<lambda>lines.
        seqM (insert_sales_order
                \<lparr>so_id = k, so_code = code, so_customer_id = cso_customer_id request, so_status = 0,
                 so_order_date = env_pg_date env, so_currency = ''CNY'',
                 so_total_amount = sales_total (cso_lines request), so_remark = cso_remark request,
                 so_created_by = None, so_approved_by = None, so_approved_at = None,
                 so_rejected_at = None\<rparr>)
       (seqM (forM (enumerate 0 lines) (\<lambda>(i, line_id, line).
                insert_sales_order_line
                  \<lparr>sl_id = line_id, sl_order_id = k, sl_line_no = sales_line_number i,
                   sl_item_id = sli_item_id line, sl_quantity = sli_quantity line,
                   sl_unit = sli_unit line, sl_unit_price = sli_unit_price line,
                   sl_line_total = sales_line_total line, sl_delivered_qty = 0, sl_returned_qty = 0,
                   sl_closed = False, sl_remark = sli_remark line\<rparr>))
       (bindM (fetch_one (read_sales_order k)) (\<lambda>order.
        seqM (record_create env ''sales_order'' k ctx (SnapSalesOrder order))
        (retM (k, code))))))))))"

text \<open>\<open>SalesOrderRepository\<close>.\<close>

definition so_lock_status :: "int \<Rightarrow> int m" where
  "so_lock_status k =
     fetch_or (\<lambda>s. map_option so_status (lookup_by so_id k (sales_orders s))) (ESales SalesNotFound)"

definition so_repository_submit :: "int \<Rightarrow> unit m" where
  "so_repository_submit k =
     bindM (so_lock_status k) (\<lambda>status.
     bindM (transitionM (submit_status SO_FLOW status)) (\<lambda>new_status.
     modM (\<lambda>s. s\<lparr>sales_orders := update_where (\<lambda>r. so_id r = k) (\<lambda>r. r\<lparr>so_status := new_status\<rparr>)
                   (sales_orders s)\<rparr>)))"

definition so_repository_approve :: "env \<Rightarrow> int \<Rightarrow> unit m" where
  "so_repository_approve env k =
     bindM (so_lock_status k) (\<lambda>status.
     bindM (transitionM (approve_status SO_FLOW status)) (\<lambda>new_status.
     modM (\<lambda>s. s\<lparr>sales_orders := update_where (\<lambda>r. so_id r = k)
             (\<lambda>r. r\<lparr>so_status := new_status, so_approved_at := Some (env_pg_now env)\<rparr>) (sales_orders s)\<rparr>)))"

text \<open>\<open>lock_read_sales_order\<close>.\<close>

definition lock_read_sales_order :: "int \<Rightarrow> sales_order m" where
  "lock_read_sales_order k = fetch_or (read_sales_order k) (ESales SalesNotFound)"

definition sales_order_submit :: "env \<Rightarrow> operator \<Rightarrow> int \<Rightarrow> bool m" where
  "sales_order_submit env ctx k = transaction (
     bindM (lock_read_sales_order k) (\<lambda>before.
     seqM (so_repository_submit k)
    (bindM (lock_read_sales_order k) (\<lambda>after.
     seqM (record_updated env ''sales_order'' k ctx (SnapSalesOrder before) (SnapSalesOrder after))
     (retM True)))))"

definition sales_order_approve :: "env \<Rightarrow> operator \<Rightarrow> int \<Rightarrow> bool m" where
  "sales_order_approve env ctx k = transaction (
     bindM (lock_read_sales_order k) (\<lambda>before.
     seqM (so_repository_approve env k)
    (bindM (lock_read_sales_order k) (\<lambda>after.
     seqM (record_updated env ''sales_order'' k ctx (SnapSalesOrder before) (SnapSalesOrder after))
     (retM True)))))"

section \<open>Deliveries\<close>

record delivery_line_input =
  dli_order_line_id :: int
  dli_item_id :: int
  dli_warehouse_id :: int
  dli_quantity :: int
  dli_batch_number :: "string option"

record create_delivery_request =
  cdr_order_id :: int
  cdr_remark :: "string option"
  cdr_lines :: "delivery_line_input list"

definition insert_sales_delivery :: "sales_delivery \<Rightarrow> unit m" where
  "insert_sales_delivery r =
     insert_row (fits 64 (sd_code r))
       (\<lambda>s. \<not> has_key sd_id (sd_id r) (sales_deliveries s) \<and> \<not> has_key sd_code (sd_code r) (sales_deliveries s))
       (\<lambda>s. has_key so_id (sd_order_id r) (sales_orders s) \<and> has_key cu_id (sd_customer_id r) (customers s))
       (\<lambda>s. s\<lparr>sales_deliveries := sales_deliveries s @ [r]\<rparr>)"

definition insert_sales_delivery_line :: "sales_delivery_line \<Rightarrow> unit m" where
  "insert_sales_delivery_line r =
     insert_row (fits_opt 64 (sdl_batch_number r))
       (\<lambda>s. \<not> has_key sdl_id (sdl_id r) (sales_delivery_lines s))
       (\<lambda>s. has_key sd_id (sdl_delivery_id r) (sales_deliveries s) \<and>
            has_key sl_id (sdl_order_line_id r) (sales_order_lines s) \<and>
            has_key it_id (sdl_item_id r) (items s) \<and> has_key wh_id (sdl_warehouse_id r) (warehouses s))
       (\<lambda>s. s\<lparr>sales_delivery_lines := sales_delivery_lines s @ [r]\<rparr>)"

definition post_delivered :: "int \<Rightarrow> sales_order_line \<Rightarrow> sales_order_line" where
  "post_delivered d l = l\<lparr>sl_delivered_qty := d, sl_closed := (d \<ge> sl_quantity l)\<rparr>"

text \<open>The body of the loop over the request's lines.\<close>

definition delivery_line :: "env \<Rightarrow> int \<Rightarrow> int \<Rightarrow> delivery_line_input \<Rightarrow> unit m" where
  "delivery_line env order_id delivery_id line =
     bindM (new_id env) (\<lambda>line_id.
     bindM (fetch_or (\<lambda>s. find (\<lambda>l. sl_id l = dli_order_line_id line \<and> sl_order_id l = order_id)
                           (sales_order_lines s)) (ESales SalesLineNotFound)) (\<lambda>ol.
     let new_delivered = i64_add (sl_delivered_qty ol) (dli_quantity line) in
     seqM (guardM (\<not> new_delivered > sl_quantity ol) (ESales OverDelivery))
    (seqM (insert_sales_delivery_line
             \<lparr>sdl_id = line_id, sdl_delivery_id = delivery_id, sdl_order_line_id = dli_order_line_id line,
              sdl_item_id = dli_item_id line, sdl_warehouse_id = dli_warehouse_id line,
              sdl_quantity = dli_quantity line, sdl_batch_number = dli_batch_number line\<rparr>)
    (seqM (modM (\<lambda>s. s\<lparr>sales_order_lines := update_where (\<lambda>l. sl_id l = dli_order_line_id line)
             (post_delivered new_delivered) (sales_order_lines s)\<rparr>))
    (issue env
       \<lparr>lc_item_id = dli_item_id line, lc_warehouse_id = dli_warehouse_id line,
        lc_quantity = dli_quantity line, lc_tx_type = Outbound,
        lc_reference_type = ''sales_delivery'', lc_reference_id = line_id,
        lc_batch_number = dli_batch_number line\<rparr>)))))"

definition sales_delivery_create ::
  "env \<Rightarrow> operator \<Rightarrow> create_delivery_request \<Rightarrow> (int \<times> string) m" where
  "sales_delivery_create env ctx request = transaction (
     bindM (fetch_or (\<lambda>s. lookup_by so_id (cdr_order_id request) (sales_orders s))
              (ESales SalesNotFound)) (\<lambda>order.
     seqM (guardM (so_status order = sales_order_status_i16 SOApproved) (ESales SalesOrderNotApproved))
    (bindM (next_number env ''seq_sales_delivery'' ''DLV'') (\<lambda>code.
     bindM (new_id env) (\<lambda>delivery_id.
     seqM (insert_sales_delivery
             \<lparr>sd_id = delivery_id, sd_code = code, sd_order_id = cdr_order_id request,
              sd_customer_id = so_customer_id order, sd_delivery_date = env_pg_date env,
              sd_status = delivery_posted, sd_remark = cdr_remark request\<rparr>)
    (bindM (fetch_one (\<lambda>s. lookup_by sd_id delivery_id (sales_deliveries s))) (\<lambda>delivery.
     seqM (record_create env ''sales_delivery'' delivery_id ctx (SnapSalesDelivery delivery))
    (seqM (forM (cdr_lines request) (delivery_line env (cdr_order_id request) delivery_id))
     (retM (delivery_id, code))))))))))"

section \<open>Invoices\<close>

record create_sales_invoice_request =
  csi_order_id :: int
  csi_invoice_number :: "string option"
  csi_invoice_date :: "int option"
  csi_amount :: int
  csi_tax_amount :: "int option"
  csi_remark :: "string option"

definition sales_tax_or_zero :: "create_sales_invoice_request \<Rightarrow> int" where
  "sales_tax_or_zero r = (case csi_tax_amount r of None \<Rightarrow> 0 | Some t \<Rightarrow> t)"

definition insert_sales_invoice :: "sales_invoice_row \<Rightarrow> unit m" where
  "insert_sales_invoice r =
     insert_row (fits 64 (si_code r) \<and> fits_opt 64 (si_invoice_number r))
       (\<lambda>s. \<not> has_key si_id (si_id r) (sales_invoices s) \<and> \<not> has_key si_code (si_code r) (sales_invoices s))
       (\<lambda>s. has_key so_id (si_order_id r) (sales_orders s) \<and> has_key cu_id (si_customer_id r) (customers s))
       (\<lambda>s. s\<lparr>sales_invoices := sales_invoices s @ [r]\<rparr>)"

text \<open>This endpoint has no transaction: every statement commits by itself.\<close>

definition sales_invoice_create ::
  "env \<Rightarrow> operator \<Rightarrow> create_sales_invoice_request \<Rightarrow> (int \<times> string) m" where
  "sales_invoice_create env ctx request =
     bindM (fetch_or (\<lambda>s. lookup_by so_id (csi_order_id request) (sales_orders s))
              (ESales SalesNotFound)) (\<lambda>order.
     bindM (next_number env ''seq_sales_invoice'' ''SINV'') (\<lambda>code.
     bindM (new_id env) (\<lambda>k.
     seqM (insert_sales_invoice
             \<lparr>si_id = k, si_code = code, si_order_id = csi_order_id request,
              si_customer_id = so_customer_id order, si_invoice_number = csi_invoice_number request,
              si_invoice_date = Some (case csi_invoice_date request of None \<Rightarrow> env_local_date env | Some d \<Rightarrow> d),
              si_amount = csi_amount request, si_tax_amount = sales_tax_or_zero request,
              si_total_amount = i64_add (csi_amount request) (sales_tax_or_zero request), si_status = 0,
              si_remark = csi_remark request, si_paid_amount = 0\<rparr>)
    (bindM (fetch_one (\<lambda>s. map_option sales_invoice.truncate (lookup_by si_id k (sales_invoices s)))) (\<lambda>invoice.
     seqM (record_create env ''sales_invoice'' k ctx (SnapSalesInvoice invoice))
     (retM (k, code)))))))"

section \<open>The flow is an approval chain\<close>

interpretation so: approval_chain SO_FLOW nat 0 3
proof
  show "\<not> flow_step SO_FLOW 3 d" for d
    by (simp add: flow_step_iff flow_defs SO_FLOW_def)
  have "flow_step SO_FLOW 0 1" "flow_step SO_FLOW 1 2" "flow_step SO_FLOW 2 3"
    by (simp_all add: flow_step_iff flow_defs SO_FLOW_def)
  then show "(flow_step SO_FLOW)\<^sup>+\<^sup>+ 0 3" by (meson tranclp.r_into_trancl tranclp_trans)
qed (auto simp: SO_FLOW_def)

definition so_status_of :: "db \<Rightarrow> int \<Rightarrow> int option" where
  "so_status_of s k = map_option so_status (lookup_by so_id k (sales_orders s))"

lemmas sales_repository_defs = so_repository_submit_def so_repository_approve_def so_lock_status_def

interpretation so_submit: status_document so_status_of "submit_status SO_FLOW"
  so_repository_submit "ESales SalesNotFound"
  by unfold_locales
    (auto simp: so_status_of_def sales_repository_defs fetch_or_def transitionM_def monad_defs)

interpretation so_approve: status_document so_status_of "approve_status SO_FLOW"
  "so_repository_approve env" "ESales SalesNotFound" for env
  by unfold_locales
    (auto simp: so_status_of_def sales_repository_defs fetch_or_def transitionM_def monad_defs)

section \<open>Frames\<close>

lemma frame_sales_order_create:
  assumes "admin I" "ignores sales_orders_update I"
    and "\<And>r. sl_delivered_qty r = 0 \<Longrightarrow> okp I (insert_sales_order_line r)"
  shows "pres I (sales_order_create env ctx r)"
  unfolding sales_order_create_def insert_sales_order_def using assms
  by (intro pres_if pres_fail pres_bind pres_admin pres_transaction_admin okp_intros okp_insert_row)
    (simp_all add: ignores_def)

lemma frame_sales_order_actions:
  assumes "admin I" "ignores sales_orders_update I"
  shows "pres I (sales_order_submit env ctx k)" "pres I (sales_order_approve env ctx k)"
  unfolding sales_order_submit_def sales_order_approve_def lock_read_sales_order_def
    sales_repository_defs using assms
  by (intro pres_transaction_admin okp_intros okp_leaves; simp add: ignores_def)+

lemma frame_sales_delivery_create:
  assumes "admin I" "ignores sales_deliveries_update I"
    and "\<And>od d l. okp I (delivery_line env od d l)"
  shows "pres I (sales_delivery_create env ctx r)"
  unfolding sales_delivery_create_def insert_sales_delivery_def using assms
  by (intro pres_transaction_admin okp_intros okp_leaves) (simp_all add: ignores_def)

lemma frame_sales_invoice_create:
  assumes "admin I" "\<And>r. si_paid_amount r = 0 \<Longrightarrow> pres I (insert_sales_invoice r)"
  shows "pres I (sales_invoice_create env ctx r)"
  unfolding sales_invoice_create_def using assms by (intro pres_intros) simp_all

lemma okp_sales_lines_blind:
  assumes "admin I" "ledger_blind I" "ignores sales_order_lines_update I"
    "ignores sales_delivery_lines_update I"
  shows "okp I (delivery_line env od d l)" "okp I (insert_sales_order_line sl)"
  unfolding delivery_line_def insert_sales_order_line_def insert_sales_delivery_line_def using assms
  by (intro okp_intros okp_leaves okp_ledger_blind; simp add: ignores_def)+

lemma pres_insert_sales_invoice_blind:
  "ignores sales_invoices_update I \<Longrightarrow> pres I (insert_sales_invoice r)"
  unfolding insert_sales_invoice_def by (intro pres_leaves) (simp add: ignores_def)

section \<open>Delivered quantities\<close>

interpretation deliveries: fulfilment sl_id sl_quantity sl_delivered_qty sdl_order_line_id
  sdl_quantity post_delivered
  by unfold_locales (simp_all add: post_delivered_def)

definition delivery_inv :: "db \<Rightarrow> bool" where
  "delivery_inv s = fulfil_ok sl_id sl_quantity sl_delivered_qty sdl_order_line_id sdl_quantity
     (sales_order_lines s) (sales_delivery_lines s)"

lemma delivery_inv_empty: "delivery_inv empty_db"
  by (simp add: delivery_inv_def empty_db_def deliveries.empty_ok)

lemma delivery_line_OK:
  assumes "delivery_line env od d l s = (Inr u, t)"
  shows "\<exists>ol rl. ol \<in> set (sales_order_lines s) \<and> sl_id ol = dli_order_line_id l \<and> sl_order_id ol = od \<and>
     i64_add (sl_delivered_qty ol) (dli_quantity l) \<le> sl_quantity ol \<and>
     sdl_order_line_id rl = dli_order_line_id l \<and> sdl_quantity rl = dli_quantity l \<and>
     sales_delivery_lines t = sales_delivery_lines s @ [rl] \<and>
     sales_order_lines t = update_where (\<lambda>x. sl_id x = dli_order_line_id l)
       (post_delivered (i64_add (sl_delivered_qty ol) (dli_quantity l))) (sales_order_lines s) \<and>
     dli_quantity l \<le> stock s (dli_item_id l, dli_warehouse_id l)"
  using assms
  by (fastforce simp: delivery_line_def insert_sales_delivery_line_def monad_OK stmt_OK new_id_OK
      Let_def not_less stock_simps lc_key_def find_Some_iff in_set_conv_nth dest!: issue_OK)

lemma okp_delivery_line_inv: "okp delivery_inv (delivery_line env od d l)"
proof (rule okpI)
  fix s u t
  assume inv: "delivery_inv s" and run: "delivery_line env od d l s = (Inr u, t)"
  obtain ol rl where ol: "ol \<in> set (sales_order_lines s)" "sl_id ol = dli_order_line_id l"
    "i64_add (sl_delivered_qty ol) (dli_quantity l) \<le> sl_quantity ol"
    and rl: "sdl_order_line_id rl = dli_order_line_id l" "sdl_quantity rl = dli_quantity l"
    and t: "sales_delivery_lines t = sales_delivery_lines s @ [rl]"
      "sales_order_lines t = update_where (\<lambda>x. sl_id x = dli_order_line_id l)
         (post_delivered (i64_add (sl_delivered_qty ol) (dli_quantity l))) (sales_order_lines s)"
    using delivery_line_OK [OF run] by blast
  show "delivery_inv t"
    using deliveries.fulfil_step [of "sales_order_lines s" "sales_delivery_lines s" ol rl] inv ol rl t
    by (simp add: delivery_inv_def)
qed

lemma okp_new_sales_line_inv:
  "sl_delivered_qty r = 0 \<Longrightarrow> okp delivery_inv (insert_sales_order_line r)"
  unfolding insert_sales_order_line_def
  by (intro okp_insert_row) (simp add: delivery_inv_def deliveries.new_line_ok)

lemma okp_delivery_line_ledger: "okp ledger_inv (delivery_line env od d l)"
  unfolding delivery_line_def insert_sales_delivery_line_def
  by (intro okp_intros okp_leaves)
    (simp_all add: inbound_def admin_def ignores_def ledger_inv_def log_of_def stock_def)

interpretation delivery_moves: stock_moves "delivery_line env od d"
  "\<lambda>l. at (dli_item_id l, dli_warehouse_id l) (- dli_quantity l)" for env od d
proof
  fix l s t k
  assume "delivery_line env od d l s = (Inr (), t)"
  then show "eq64 (stock t k) (stock s k + at (dli_item_id l, dli_warehouse_id l) (- dli_quantity l) k)"
    using eq64_i64(2)
    by (auto simp: delivery_line_def insert_sales_delivery_line_def monad_OK stmt_OK new_id_OK
        Let_def stock_simps at_def lc_key_def dest!: issue_OK)
qed


lemma sales_delivery_moves:
  "moves k (sum_list (map (\<lambda>l. at (dli_item_id l, dli_warehouse_id l) (- dli_quantity l) k) (cdr_lines r)))
     (sales_delivery_create env ctx r)"
proof -
  have loop: "moves k (sum_list (map (\<lambda>l. at (dli_item_id l, dli_warehouse_id l) (- dli_quantity l) k) (cdr_lines r)))
      (forM (cdr_lines r) (delivery_line env od d))" for od d
    using delivery_moves.loop_stock by (simp add: moves_def)
  show ?thesis
    unfolding sales_delivery_create_def insert_sales_delivery_def
    by (intro moves_txn moves_after moves_after_seq moves_before loop quietI okp_intros okp_leaves stock_admin)
      (simp_all add: stock_def fun_eq_iff)
qed

end
