(* ===== verification/Production.thy ===== *)
theory Production
  imports Ledger Costing Demo
begin

text \<open>
  The production domain, \<open>features/production\<close> and \<open>features/production_contract\<close>: work orders
  with the explosion of their bill of materials, material picking, operation reports, completion
  and the receipt of finished goods.
\<close>

section \<open>Statuses\<close>

datatype work_order_status = WODraft | WOReleased | WOInProgress | WOCompleted | WOClosed

fun work_order_status_i16 :: "work_order_status \<Rightarrow> int" where
  "work_order_status_i16 WODraft = 0"
| "work_order_status_i16 WOReleased = 1"
| "work_order_status_i16 WOInProgress = 2"
| "work_order_status_i16 WOCompleted = 3"
| "work_order_status_i16 WOClosed = 4"

datatype work_order_operation_status = OpPending | OpInProgress | OpCompleted

fun work_order_operation_status_i16 :: "work_order_operation_status \<Rightarrow> int" where
  "work_order_operation_status_i16 OpPending = 0"
| "work_order_operation_status_i16 OpInProgress = 1"
| "work_order_operation_status_i16 OpCompleted = 2"

section \<open>Work orders\<close>

record operation_input =
  opi_name :: string
  opi_sequence :: int

record create_work_order_request =
  cwo_bom_id :: int
  cwo_item_id :: int
  cwo_planned_qty :: int
  cwo_due_date :: "int option"
  cwo_remark :: "string option"
  cwo_operations :: "operation_input list"

definition insert_work_order :: "work_order \<Rightarrow> unit m" where
  "insert_work_order r =
     insert_row (fits 64 (wo_code r))
       (\<lambda>s. \<not> has_key wo_id (wo_id r) (work_orders s) \<and> \<not> has_key wo_code (wo_code r) (work_orders s))
       (\<lambda>s. has_key bm_id (wo_bom_id r) (boms s) \<and> has_key it_id (wo_item_id r) (items s))
       (\<lambda>s. s\<lparr>work_orders := work_orders s @ [r]\<rparr>)"

definition insert_work_order_operation :: "work_order_operation \<Rightarrow> unit m" where
  "insert_work_order_operation r =
     insert_row (fits 64 (wop_name r))
       (\<lambda>s. \<not> has_key wop_id (wop_id r) (work_order_operations s))
       (\<lambda>s. has_key wo_id (wop_work_order_id r) (work_orders s))
       (\<lambda>s. s\<lparr>work_order_operations := work_order_operations s @ [r]\<rparr>)"

definition insert_work_order_material :: "work_order_material \<Rightarrow> unit m" where
  "insert_work_order_material r =
     insert_row True
       (\<lambda>s. \<not> has_key wm_id (wm_id r) (work_order_materials s))
       (\<lambda>s. has_key wo_id (wm_work_order_id r) (work_orders s) \<and> has_key it_id (wm_item_id r) (items s) \<and>
            fk_opt wh_id (wm_warehouse_id r) (warehouses s))
       (\<lambda>s. s\<lparr>work_order_materials := work_order_materials s @ [r]\<rparr>)"

definition read_work_order :: "int \<Rightarrow> db \<Rightarrow> work_order option" where
  "read_work_order k s = lookup_by wo_id k (work_orders s)"

text \<open>The two loops of \<open>work_order_create\<close>: operations, and one material per line of the bill.\<close>

definition operation_line :: "env \<Rightarrow> int \<Rightarrow> int \<Rightarrow> operation_input \<Rightarrow> unit m" where
  "operation_line env k planned op =
     bindM (new_id env) (\<lambda>op_id.
     insert_work_order_operation
       \<lparr>wop_id = op_id, wop_work_order_id = k, wop_name = opi_name op, wop_sequence = opi_sequence op,
        wop_planned_qty = planned, wop_completed_qty = 0, wop_scrap_qty = 0,
        wop_status = work_order_operation_status_i16 OpPending\<rparr>)"

definition explode_line :: "env \<Rightarrow> int \<Rightarrow> int \<Rightarrow> bom_item \<Rightarrow> unit m" where
  "explode_line env k planned bi =
     bindM (new_id env) (\<lambda>mat_id.
     let qty = i64_mul (bi_quantity bi) planned in
     insert_work_order_material
       \<lparr>wm_id = mat_id, wm_work_order_id = k, wm_item_id = bi_item_id bi, wm_required_qty = qty,
        wm_picked_qty = Some 0, wm_warehouse_id = None\<rparr>)"

text \<open>The number is drawn before the transaction starts, on the same connection.\<close>

definition work_order_create ::
  "env \<Rightarrow> operator \<Rightarrow> create_work_order_request \<Rightarrow> (int \<times> string) m" where
  "work_order_create env ctx request =
     bindM (new_id env) (\<lambda>k.
     bindM (next_number env ''seq_work_order'' ''MO'') (\<lambda>code. transaction (
     seqM (insert_work_order
             \<lparr>wo_id = k, wo_code = code, wo_bom_id = cwo_bom_id request, wo_item_id = cwo_item_id request,
              wo_planned_qty = cwo_planned_qty request, wo_completed_qty = 0, wo_scrap_qty = 0,
              wo_status = work_order_status_i16 WODraft, wo_due_date = cwo_due_date request,
              wo_remark = cwo_remark request\<rparr>)
    (seqM (forM (cwo_operations request) (operation_line env k (cwo_planned_qty request)))
    (bindM (getsM (\<lambda>s. scan env (filter (\<lambda>bi. bi_bom_id bi = cwo_bom_id request) (bom_items s)))) (\<lambda>lines.
     seqM (forM lines (explode_line env k (cwo_planned_qty request)))
    (bindM (fetch_one (read_work_order k)) (\<lambda>work_order.
     seqM (record_create env ''work_order'' k ctx (SnapWorkOrder work_order))
     (retM (k, code))))))))))"

definition set_work_order_status :: "int \<Rightarrow> int \<Rightarrow> unit m" where
  "set_work_order_status k st =
     modM (\<lambda>s. s\<lparr>work_orders := update_where (\<lambda>r. wo_id r = k) (\<lambda>r. r\<lparr>wo_status := st\<rparr>) (work_orders s)\<rparr>)"

text \<open>\<open>work_order_release\<close> has no transaction: every statement commits by itself.\<close>

definition work_order_release :: "env \<Rightarrow> operator \<Rightarrow> int \<Rightarrow> bool m" where
  "work_order_release env ctx k =
     bindM (fetch_or (read_work_order k) (EProduction ProductionNotFound)) (\<lambda>before.
     seqM (guardM (\<not> wo_status before \<noteq> work_order_status_i16 WODraft)
             (EProduction ProductionInvalidStatus))
    (seqM (set_work_order_status k (work_order_status_i16 WOReleased))
    (bindM (fetch_one (read_work_order k)) (\<lambda>after.
     seqM (record_updated env ''work_order'' k ctx (SnapWorkOrder before) (SnapWorkOrder after))
     (retM True)))))"

definition work_order_complete :: "env \<Rightarrow> operator \<Rightarrow> int \<Rightarrow> bool m" where
  "work_order_complete env ctx k = transaction (
     bindM (fetch_or (read_work_order k) (EProduction ProductionNotFound)) (\<lambda>before.
     seqM (guardM (\<not> (wo_status before < work_order_status_i16 WOReleased \<or>
                      wo_status before \<ge> work_order_status_i16 WOCompleted))
             (EProduction ProductionInvalidStatus))
    (seqM (set_work_order_status k (work_order_status_i16 WOCompleted))
    (bindM (fetch_one (read_work_order k)) (\<lambda>after.
     seqM (record_updated env ''work_order'' k ctx (SnapWorkOrder before) (SnapWorkOrder after))
     (retM True))))))"

section \<open>Picking material\<close>

record pick_item =
  pk_material_id :: int
  pk_item_id :: int
  pk_warehouse_id :: int
  pk_quantity :: int

definition unwrap_or_zero :: "int option \<Rightarrow> int" where
  "unwrap_or_zero x = (case x of None \<Rightarrow> 0 | Some v \<Rightarrow> v)"

text \<open>The body of the loop over the request's items.\<close>

definition pick_line :: "env \<Rightarrow> int \<Rightarrow> pick_item \<Rightarrow> unit m" where
  "pick_line env k p =
     bindM (fetch_or (\<lambda>s. find (\<lambda>r. wm_id r = pk_material_id p \<and> wm_work_order_id r = k)
                           (work_order_materials s)) (EProduction ProductionNotFound)) (\<lambda>mat.
     let current_picked = unwrap_or_zero (wm_picked_qty mat);
         new_picked = i64_add current_picked (pk_quantity p) in
     seqM (guardM (\<not> new_picked > wm_required_qty mat) (EProduction InsufficientMaterials))
    (seqM (modM (\<lambda>s. s\<lparr>work_order_materials := update_where (\<lambda>r. wm_id r = pk_material_id p)
             (\<lambda>r. r\<lparr>wm_picked_qty := Some new_picked\<rparr>) (work_order_materials s)\<rparr>))
    (issue env
       \<lparr>lc_item_id = pk_item_id p, lc_warehouse_id = pk_warehouse_id p, lc_quantity = pk_quantity p,
        lc_tx_type = MaterialPick, lc_reference_type = ''work_order_pick'', lc_reference_id = k,
        lc_batch_number = None\<rparr>)))"

definition work_order_material_pick :: "env \<Rightarrow> operator \<Rightarrow> int \<Rightarrow> pick_item list \<Rightarrow> bool m" where
  "work_order_material_pick env ctx k picks = transaction (
     bindM (fetch_or (read_work_order k) (EProduction ProductionNotFound)) (\<lambda>before.
     seqM (guardM (\<not> wo_status before < work_order_status_i16 WOReleased)
             (EProduction ProductionInvalidStatus))
    (seqM (forM picks (pick_line env k))
    (bindM (fetch_one (read_work_order k)) (\<lambda>after.
     seqM (record_updated env ''work_order'' k ctx (SnapWorkOrder before) (SnapWorkOrder after))
     (retM True))))))"

section \<open>Reporting operations\<close>

record report_request =
  rep_completed_qty :: int
  rep_scrap_qty :: "int option"

text \<open>
  \<open>UPDATE work_order_operations SET completed_qty = completed_qty + $1, ...\<close>: the database adds,
  and refuses a sum out of range.
\<close>

definition report_operation :: "int \<Rightarrow> int \<Rightarrow> int \<Rightarrow> int \<Rightarrow> unit m" where
  "report_operation k op_id completed scrap =
     seqM (checkM (\<lambda>s. \<forall>r \<in> set (work_order_operations s). wop_id r = op_id \<and> wop_work_order_id r = k \<longrightarrow>
             in_i64 (wop_completed_qty r + completed) \<and> in_i64 (wop_scrap_qty r + scrap))
             (EDb NumericOutOfRange))
    (modM (\<lambda>s. s\<lparr>work_order_operations :=
       update_where (\<lambda>r. wop_id r = op_id \<and> wop_work_order_id r = k)
         (\<lambda>r. r\<lparr>wop_completed_qty := wop_completed_qty r + completed,
                wop_scrap_qty := wop_scrap_qty r + scrap,
                wop_status := work_order_operation_status_i16 OpCompleted\<rparr>)
         (work_order_operations s)\<rparr>))"

definition operations_sum :: "(work_order_operation \<Rightarrow> int) \<Rightarrow> int \<Rightarrow> db \<Rightarrow> int" where
  "operations_sum col k s =
     sum_list (map col (filter (\<lambda>r. wop_work_order_id r = k) (work_order_operations s)))"

definition sum_up_work_order :: "int \<Rightarrow> unit m" where
  "sum_up_work_order k =
     bindM (getsM (operations_sum wop_completed_qty k)) (\<lambda>c.
     bindM (getsM (operations_sum wop_scrap_qty k)) (\<lambda>sc.
     bindM (pg_bigint c) (\<lambda>completed. bindM (pg_bigint sc) (\<lambda>scrap.
     modM (\<lambda>s. s\<lparr>work_orders := update_where (\<lambda>r. wo_id r = k)
             (\<lambda>r. r\<lparr>wo_completed_qty := completed, wo_scrap_qty := scrap\<rparr>) (work_orders s)\<rparr>)))))"

text \<open>No transaction here either.\<close>

definition work_order_operation_report :: "env \<Rightarrow> operator \<Rightarrow> int \<Rightarrow> int \<Rightarrow> report_request \<Rightarrow> bool m" where
  "work_order_operation_report env ctx k op_id request =
     bindM (fetch_or (read_work_order k) (EProduction ProductionNotFound)) (\<lambda>before.
     seqM (report_operation k op_id (rep_completed_qty request) (unwrap_or_zero (rep_scrap_qty request)))
    (seqM (sum_up_work_order k)
    (bindM (fetch_one (read_work_order k)) (\<lambda>after.
     seqM (record_updated env ''work_order'' k ctx (SnapWorkOrder before) (SnapWorkOrder after))
     (retM True)))))"

section \<open>Receiving finished goods\<close>

record create_production_receipt_request =
  cpr_work_order_id :: int
  cpr_warehouse_id :: int
  cpr_quantity :: int
  cpr_batch_number :: "string option"

definition insert_production_receipt :: "production_receipt \<Rightarrow> unit m" where
  "insert_production_receipt r =
     insert_row (fits 64 (prc_code r) \<and> fits_opt 64 (prc_batch_number r))
       (\<lambda>s. \<not> has_key prc_id (prc_id r) (production_receipts s) \<and>
            \<not> has_key prc_code (prc_code r) (production_receipts s))
       (\<lambda>s. has_key wo_id (prc_work_order_id r) (work_orders s) \<and> has_key it_id (prc_item_id r) (items s) \<and>
            has_key wh_id (prc_warehouse_id r) (warehouses s))
       (\<lambda>s. s\<lparr>production_receipts := production_receipts s @ [r]\<rparr>)"

definition production_receipt_create ::
  "env \<Rightarrow> operator \<Rightarrow> create_production_receipt_request \<Rightarrow> (int \<times> string) m" where
  "production_receipt_create env ctx request = transaction (
     bindM (fetch_or (read_work_order (cpr_work_order_id request)) (EProduction ProductionNotFound)) (\<lambda>wo.
     bindM (next_number env ''seq_production_receipt'' ''PR'') (\<lambda>code.
     bindM (new_id env) (\<lambda>k.
     seqM (insert_production_receipt
             \<lparr>prc_id = k, prc_code = code, prc_work_order_id = cpr_work_order_id request,
              prc_item_id = wo_item_id wo, prc_warehouse_id = cpr_warehouse_id request,
              prc_quantity = cpr_quantity request, prc_batch_number = cpr_batch_number request\<rparr>)
    (seqM (receive env
             \<lparr>lc_item_id = wo_item_id wo, lc_warehouse_id = cpr_warehouse_id request,
              lc_quantity = cpr_quantity request, lc_tx_type = Inbound,
              lc_reference_type = ''production_receipt'', lc_reference_id = k,
              lc_batch_number = cpr_batch_number request\<rparr>)
    (bindM (fetch_one (\<lambda>s. lookup_by prc_id k (production_receipts s))) (\<lambda>receipt.
     seqM (record_create env ''production_receipt'' k ctx (SnapProductionReceipt receipt))
     (retM (k, code)))))))))"

section \<open>Reading work orders\<close>

record material_cost_line =
  mcl_item_id :: int
  mcl_item_code :: string
  mcl_item_name :: string
  mcl_picked_qty :: int
  mcl_unit_cost :: int
  mcl_line_cost :: int

text \<open>
  The query of \<open>work_order_material_cost_get\<close>: materials joined with their item, left joined
  with the current weighted average, 0 where there is none.
\<close>

definition current_unit_costs :: "int \<Rightarrow> db \<Rightarrow> int list" where
  "current_unit_costs i s =
     (case filter (is_current_average i) (item_costs s) of [] \<Rightarrow> [0] | cs \<Rightarrow> map co_unit_cost cs)"

definition material_cost_rows :: "int \<Rightarrow> db \<Rightarrow> material_cost_line list" where
  "material_cost_rows k s =
     concat (map (\<lambda>wm. concat (map (\<lambda>i. map (\<lambda>u.
       \<lparr>mcl_item_id = wm_item_id wm, mcl_item_code = it_code i, mcl_item_name = it_name i,
        mcl_picked_qty = unwrap_or_zero (wm_picked_qty wm), mcl_unit_cost = u,
        mcl_line_cost = i64_mul (unwrap_or_zero (wm_picked_qty wm)) u\<rparr>)
       (current_unit_costs (wm_item_id wm) s))
     (filter (\<lambda>i. it_id i = wm_item_id wm) (items s))))
     (filter (\<lambda>wm. wm_work_order_id wm = k) (work_order_materials s)))"

definition work_order_material_cost_get :: "env \<Rightarrow> int \<Rightarrow> (int \<times> material_cost_line list \<times> int) m" where
  "work_order_material_cost_get env k =
     bindM (fetch_or (read_work_order k) (EProduction ProductionNotFound)) (\<lambda>_.
     bindM (getsM (\<lambda>s. scan env (material_cost_rows k s))) (\<lambda>lines.
     retM (k, lines, foldl i64_add 0 (map mcl_line_cost lines))))"

definition work_order_get ::
  "env \<Rightarrow> int \<Rightarrow> (work_order \<times> work_order_material list \<times> work_order_operation list) m" where
  "work_order_get env k =
     bindM (fetch_or (read_work_order k) (EProduction ProductionNotFound)) (\<lambda>row.
     bindM (getsM (\<lambda>s. scan env (filter (\<lambda>r. wm_work_order_id r = k) (work_order_materials s)))) (\<lambda>materials.
     bindM (getsM (\<lambda>s. sort_key wop_sequence (scan env (filter (\<lambda>r. wop_work_order_id r = k)
                         (work_order_operations s))))) (\<lambda>operations.
     retM (row, map (\<lambda>r. r\<lparr>wm_picked_qty := Some (unwrap_or_zero (wm_picked_qty r))\<rparr>) materials, operations))))"

section \<open>Frames\<close>

lemmas work_order_line_defs = operation_line_def explode_line_def insert_work_order_operation_def
  insert_work_order_material_def

lemma frame_work_order_create:
  assumes "admin I" "ignores work_orders_update I" "ignores work_order_operations_update I"
    and "\<And>r. wm_picked_qty r = Some 0 \<Longrightarrow> okp I (insert_work_order_material r)"
  shows "pres I (work_order_create env ctx r)"
  unfolding work_order_create_def insert_work_order_def operation_line_def explode_line_def
    insert_work_order_operation_def using assms
  by (intro pres_bind pres_admin pres_transaction_admin okp_intros okp_insert_row)
    (simp_all add: ignores_def)

lemma frame_work_order_actions:
  assumes "admin I" "ignores work_orders_update I"
  shows "pres I (work_order_release env ctx k)" "pres I (work_order_complete env ctx k)"
proof -
  show "pres I (work_order_release env ctx k)"
    unfolding work_order_release_def set_work_order_status_def using assms
    by (intro pres_intros pres_leaves) (simp_all add: ignores_def)
  show "pres I (work_order_complete env ctx k)"
    unfolding work_order_complete_def set_work_order_status_def using assms
    by (intro pres_transaction_admin okp_intros okp_leaves) (simp_all add: ignores_def)
qed

lemma frame_operation_report:
  assumes "admin I" "ignores work_orders_update I" "ignores work_order_operations_update I"
  shows "pres I (work_order_operation_report env ctx k op_id r)"
  unfolding work_order_operation_report_def report_operation_def sum_up_work_order_def using assms
  by (intro pres_intros pres_leaves) (simp_all add: ignores_def)

lemma frame_material_pick:
  assumes "admin I" "\<And>p. okp I (pick_line env k p)"
  shows "pres I (work_order_material_pick env ctx k ps)"
  unfolding work_order_material_pick_def using assms
  by (intro pres_transaction_admin okp_intros okp_leaves) simp_all

lemma frame_production_receipt_create:
  assumes "admin I" "ignores production_receipts_update I"
    and "\<And>cmd. lc_tx_type cmd = Inbound \<Longrightarrow> okp I (receive env cmd)"
  shows "pres I (production_receipt_create env ctx r)"
  unfolding production_receipt_create_def insert_production_receipt_def using assms(1,2)
  by (intro pres_transaction_admin okp_intros okp_insert_row assms(3)) (simp_all add: ignores_def)

lemma okp_pick_line_blind:
  assumes "ledger_blind I" "ignores work_order_materials_update I"
  shows "okp I (pick_line env k p)" "okp I (insert_work_order_material r)"
  unfolding pick_line_def insert_work_order_material_def using assms
  by (intro okp_intros okp_leaves okp_ledger_blind; simp add: ignores_def)+

lemma okp_pick_line_ledger: "okp ledger_inv (pick_line env k p)"
  unfolding pick_line_def
  by (intro okp_intros okp_leaves)
    (simp_all add: inbound_def admin_def ignores_def ledger_inv_def log_of_def stock_def)

section \<open>Picked quantities\<close>

definition pick_inv :: "db \<Rightarrow> bool" where
  "pick_inv s = (distinct (map wm_id (work_order_materials s)) \<and>
     (\<forall>r \<in> set (work_order_materials s). unwrap_or_zero (wm_picked_qty r) \<le> max 0 (wm_required_qty r)))"

lemma pick_inv_empty: "pick_inv empty_db"
  by (simp add: pick_inv_def empty_db_def)

lemma pick_line_OK:
  assumes "pick_line env k p s = (Inr u, t)"
  shows "\<exists>mat. mat \<in> set (work_order_materials s) \<and> wm_id mat = pk_material_id p \<and>
     wm_work_order_id mat = k \<and>
     i64_add (unwrap_or_zero (wm_picked_qty mat)) (pk_quantity p) \<le> wm_required_qty mat \<and>
     pk_quantity p \<le> stock s (pk_item_id p, pk_warehouse_id p) \<and>
     work_order_materials t = update_where (\<lambda>r. wm_id r = pk_material_id p)
       (\<lambda>r. r\<lparr>wm_picked_qty := Some (i64_add (unwrap_or_zero (wm_picked_qty mat)) (pk_quantity p))\<rparr>)
       (work_order_materials s)"
  using assms
  by (fastforce simp: pick_line_def monad_OK stmt_OK Let_def not_less stock_simps lc_key_def
      find_Some_iff in_set_conv_nth dest!: issue_OK)

lemma okp_pick_line_inv: "okp pick_inv (pick_line env k p)"
proof (rule okpI)
  fix s u t
  assume inv: "pick_inv s" and run: "pick_line env k p s = (Inr u, t)"
  obtain mat where mat: "mat \<in> set (work_order_materials s)" "wm_id mat = pk_material_id p"
    "i64_add (unwrap_or_zero (wm_picked_qty mat)) (pk_quantity p) \<le> wm_required_qty mat"
    and t: "work_order_materials t = update_where (\<lambda>r. wm_id r = pk_material_id p)
       (\<lambda>r. r\<lparr>wm_picked_qty := Some (i64_add (unwrap_or_zero (wm_picked_qty mat)) (pk_quantity p))\<rparr>)
       (work_order_materials s)"
    using pick_line_OK [OF run] by blast
  have uniq: "r = mat" if "r \<in> set (work_order_materials s)" "wm_id r = pk_material_id p" for r
    using inv mat that by (auto simp: pick_inv_def distinct_map inj_on_def)
  show "pick_inv t"
    unfolding pick_inv_def t ball_update_where
    using inv mat(3) uniq by (auto simp: pick_inv_def map_update_where unwrap_or_zero_def)
qed

lemma okp_new_material_inv: "wm_picked_qty r = Some 0 \<Longrightarrow> okp pick_inv (insert_work_order_material r)"
  unfolding insert_work_order_material_def
  by (intro okp_insert_row) (auto simp: pick_inv_def unwrap_or_zero_def has_key_def)

interpretation pick_moves: stock_moves "pick_line env k"
  "\<lambda>p. at (pk_item_id p, pk_warehouse_id p) (- pk_quantity p)" for env k
proof
  fix p s t key
  assume "pick_line env k p s = (Inr (), t)"
  then show "eq64 (stock t key) (stock s key + at (pk_item_id p, pk_warehouse_id p) (- pk_quantity p) key)"
    using eq64_i64(2)
    by (auto simp: pick_line_def monad_OK stmt_OK Let_def stock_simps at_def lc_key_def dest!: issue_OK)
qed

section \<open>Life cycle\<close>

definition wo_status_of :: "db \<Rightarrow> int \<Rightarrow> int option" where
  "wo_status_of s k = map_option wo_status (lookup_by wo_id k (work_orders s))"

lemma wo_status_set:
  "wo_status_of (s\<lparr>work_orders := update_where (\<lambda>r. wo_id r = k) (\<lambda>r. r\<lparr>wo_status := st\<rparr>) (work_orders s)\<rparr>) k' =
   (if k' = k then map_option (\<lambda>_. st) (wo_status_of s k) else wo_status_of s k')"
  by (cases "lookup_by wo_id k (work_orders s)") (auto simp: wo_status_of_def)

section \<open>What a new work order needs\<close>

definition new_material :: "int \<Rightarrow> int \<Rightarrow> int \<times> bom_item \<Rightarrow> work_order_material" where
  "new_material k planned x =
     \<lparr>wm_id = fst x, wm_work_order_id = k, wm_item_id = bi_item_id (snd x),
      wm_required_qty = i64_mul (bi_quantity (snd x)) planned, wm_picked_qty = Some 0, wm_warehouse_id = None\<rparr>"

lemma explode_loop_OK:
  assumes "forM xs (explode_line env k planned) s = (Inr u, t)"
  shows "\<exists>ids. length ids = length xs \<and>
     work_order_materials t = work_order_materials s @ map (new_material k planned) (zip ids xs)"
  using assms
proof (induction xs arbitrary: s)
  case (Cons x xs)
  then obtain v where v: "explode_line env k planned x s = (Inr (), v)" "forM xs (explode_line env k planned) v = (Inr u, t)"
    by (auto simp: monad_OK)
  from Cons.IH [OF v(2)] obtain ids where ids: "length ids = length xs"
    "work_order_materials t = work_order_materials v @ map (new_material k planned) (zip ids xs)" by blast
  have "work_order_materials v = work_order_materials s @ [new_material k planned (env_tsid env (next_id s), x)]"
    using v(1) by (auto simp: explode_line_def insert_work_order_material_def monad_OK stmt_OK new_id_OK
        Let_def new_material_def)
  then show ?case using ids by (intro exI [of _ "env_tsid env (next_id s) # ids"]) simp
qed (simp add: monad_OK)

lemma work_order_create_OK:
  assumes "work_order_create env ctx r s = (Inr x, t)"
  shows "\<exists>ids. length ids = length (scan env (filter (\<lambda>b. bi_bom_id b = cwo_bom_id r) (bom_items s))) \<and>
    work_order_materials t = work_order_materials s @ map (new_material (fst x) (cwo_planned_qty r))
      (zip ids (scan env (filter (\<lambda>b. bi_bom_id b = cwo_bom_id r) (bom_items s))))"
proof -
  have ops: "bom_items v = bom_items u \<and> work_order_materials v = work_order_materials u"
    if "forM xs (operation_line env k p) u = (Inr y, v)" for xs k p u y v
  proof -
    have "okp (\<lambda>s. bom_items s = bom_items u \<and> work_order_materials s = work_order_materials u)
        (forM xs (operation_line env k p))"
      unfolding operation_line_def insert_work_order_operation_def
      by (intro okp_intros okp_leaves) (simp_all add: ignores_def admin_def)
    from okpD [OF this _ that] show ?thesis by simp
  qed
  show ?thesis
    using assms
    by (auto simp: work_order_create_def insert_work_order_def monad_OK stmt_OK new_id_OK next_number_OK
        audit_defs audit_insert_OK dest!: ops explode_loop_OK)
qed

end
