(* ===== verification/Finance.thy ===== *)
theory Finance
  imports Purchase Sales
begin

text \<open>
  The finance domain, \<open>features/finance\<close> and \<open>features/finance_contract\<close>: payments against
  invoices, balances, aging, the income statement and fiscal periods.

  The calendar is the crate \<open>chrono\<close>: \<open>NaiveDate::from_ymd_opt\<close> and \<open>NaiveDate::pred_opt\<close> are
  parameters of the definitions that use them.  Dates are day numbers.
\<close>

section \<open>Invoices as the finance domain reads them\<close>

datatype invoice_type = SalesInvoice | PurchaseInvoice

definition invoice_type_from_str :: "string \<Rightarrow> err + invoice_type" where
  "invoice_type_from_str x =
     (if x = ''sales_invoice'' then Inr SalesInvoice
      else if x = ''purchase_invoice'' then Inr PurchaseInvoice
      else Inl (EFinance InvalidInvoiceType))"

fun invoice_type_table_name :: "invoice_type \<Rightarrow> string" where
  "invoice_type_table_name SalesInvoice = ''sales_invoices''"
| "invoice_type_table_name PurchaseInvoice = ''purchase_invoices''"

fun invoice_type_as_str :: "invoice_type \<Rightarrow> string" where
  "invoice_type_as_str SalesInvoice = ''sales_invoice''"
| "invoice_type_as_str PurchaseInvoice = ''purchase_invoice''"

record invoice_info =
  ii_total_amount :: int
  ii_paid_amount :: int

definition by_sales_id :: "int \<Rightarrow> invoice_info m" where
  "by_sales_id k = fetch_or (\<lambda>s. map_option (\<lambda>r. \<lparr>ii_total_amount = si_total_amount r,
     ii_paid_amount = si_paid_amount r\<rparr>) (lookup_by si_id k (sales_invoices s))) (EFinance InvoiceNotFound)"

definition by_purchase_id :: "int \<Rightarrow> invoice_info m" where
  "by_purchase_id k = fetch_or (\<lambda>s. map_option (\<lambda>r. \<lparr>ii_total_amount = pi_total_amount r,
     ii_paid_amount = pi_paid_amount r\<rparr>) (lookup_by pi_id k (purchase_invoices s))) (EFinance InvoiceNotFound)"

definition invoice_by_id :: "invoice_type \<Rightarrow> int \<Rightarrow> invoice_info m" where
  "invoice_by_id ty k =
     (case ty of SalesInvoice \<Rightarrow> by_sales_id k | PurchaseInvoice \<Rightarrow> by_purchase_id k)"

section \<open>Payments\<close>

record create_payment_request =
  cpy_payment_type :: int
  cpy_invoice_type :: string
  cpy_invoice_id :: int
  cpy_amount :: int
  cpy_payment_date :: "int option"
  cpy_payment_method :: "string option"
  cpy_remark :: "string option"

definition insert_payment :: "payment \<Rightarrow> unit m" where
  "insert_payment r =
     insert_row (fits 64 (pay_code r) \<and> fits 32 (pay_invoice_type r) \<and> fits_opt 32 (pay_payment_method r))
       (\<lambda>s. \<not> has_key pay_id (pay_id r) (payments s) \<and> \<not> has_key pay_code (pay_code r) (payments s))
       (\<lambda>s. True)
       (\<lambda>s. s\<lparr>payments := payments s @ [r]\<rparr>)"

definition set_sales_paid :: "int \<Rightarrow> sales_invoice_row \<Rightarrow> sales_invoice_row" where
  "set_sales_paid p r = r\<lparr>si_paid_amount := p\<rparr>"

definition set_purchase_paid :: "int \<Rightarrow> purchase_invoice_row \<Rightarrow> purchase_invoice_row" where
  "set_purchase_paid p r = r\<lparr>pi_paid_amount := p\<rparr>"

definition update_paid :: "invoice_type \<Rightarrow> int \<Rightarrow> int \<Rightarrow> unit m" where
  "update_paid ty k new_paid =
     (case ty of
        SalesInvoice \<Rightarrow> modM (\<lambda>s. s\<lparr>sales_invoices :=
          update_where (\<lambda>r. si_id r = k) (set_sales_paid new_paid) (sales_invoices s)\<rparr>)
      | PurchaseInvoice \<Rightarrow> modM (\<lambda>s. s\<lparr>purchase_invoices :=
          update_where (\<lambda>r. pi_id r = k) (set_purchase_paid new_paid) (purchase_invoices s)\<rparr>))"

text \<open>\<open>payment_create\<close>, the part inside the transaction.\<close>

definition payment_txn :: "env \<Rightarrow> operator \<Rightarrow> create_payment_request \<Rightarrow> (int \<times> string) m" where
  "payment_txn env ctx request =
     bindM (liftM (invoice_type_from_str (cpy_invoice_type request))) (\<lambda>ty.
     bindM (invoice_by_id ty (cpy_invoice_id request)) (\<lambda>inv.
     let new_paid = i64_add (ii_paid_amount inv) (cpy_amount request) in
     seqM (guardM (\<not> new_paid > ii_total_amount inv) (EFinance InvoiceAlreadyFullyPaid))
    (bindM (next_number env ''seq_payment'' ''PAY'') (\<lambda>code.
     bindM (new_id env) (\<lambda>k.
     seqM (insert_payment
             \<lparr>pay_id = k, pay_code = code, pay_payment_type = cpy_payment_type request,
              pay_invoice_type = cpy_invoice_type request, pay_invoice_id = cpy_invoice_id request,
              pay_amount = cpy_amount request,
              pay_payment_date = (case cpy_payment_date request of None \<Rightarrow> env_utc_date env | Some d \<Rightarrow> d),
              pay_payment_method = cpy_payment_method request, pay_remark = cpy_remark request\<rparr>)
    (bindM (fetch_one (\<lambda>s. lookup_by pay_id k (payments s))) (\<lambda>payment.
     seqM (record_create env ''payment'' k ctx (SnapPayment payment))
    (seqM (update_paid ty (cpy_invoice_id request) new_paid)
     (retM (k, code))))))))))"

definition payment_create :: "env \<Rightarrow> operator \<Rightarrow> create_payment_request \<Rightarrow> (int \<times> string) m" where
  "payment_create env ctx request =
     (if cpy_amount request \<le> 0 then failM (EFinance InvalidPaymentAmount)
      else transaction (payment_txn env ctx request))"

definition payment_get :: "int \<Rightarrow> payment m" where
  "payment_get k = fetch_or (\<lambda>s. lookup_by pay_id k (payments s)) (EFinance PaymentNotFound)"

section \<open>Balances and aging\<close>

text \<open>What the reports read of an invoice: total, paid amount and date.\<close>

type_synonym invoice_view = "int \<times> int \<times> int option"

definition invoice_views :: "invoice_type \<Rightarrow> db \<Rightarrow> invoice_view list" where
  "invoice_views ty s =
     (case ty of
        SalesInvoice \<Rightarrow> map (\<lambda>r. (si_total_amount r, si_paid_amount r, si_invoice_date r)) (sales_invoices s)
      | PurchaseInvoice \<Rightarrow>
          map (\<lambda>r. (pi_total_amount r, pi_paid_amount r, pi_invoice_date r)) (purchase_invoices s))"

definition open_amount :: "invoice_view \<Rightarrow> int" where
  "open_amount v = fst v - fst (snd v)"

text \<open>
  \<open>COALESCE(SUM(total_amount - paid_amount), 0)::BIGINT\<close>: each difference is a \<open>BIGINT\<close>, their sum a
  \<open>NUMERIC\<close> that is cast back; both can be out of range.
\<close>

definition pg_sum_open :: "invoice_view list \<Rightarrow> int m" where
  "pg_sum_open vs =
     seqM (guardM (\<forall>v \<in> set vs. in_i64 (open_amount v)) (EDb NumericOutOfRange))
          (pg_bigint (sum_list (map open_amount vs)))"

definition unpaid_total :: "invoice_type \<Rightarrow> int m" where
  "unpaid_total ty = bindM (getsM (invoice_views ty)) pg_sum_open"

definition balances :: "(int \<times> int) m" where
  "balances =
     bindM (unpaid_total SalesInvoice) (\<lambda>ar.
     bindM (unpaid_total PurchaseInvoice) (\<lambda>ap. retM (ar, ap)))"

record unpaid_bucket =
  ub_bucket :: string
  ub_count :: int
  ub_amount :: int

text \<open>The \<open>CASE\<close> on \<open>CURRENT_DATE - invoice_date\<close>; the labels in the order of \<open>ORDER BY bucket\<close>.\<close>

definition bucket_label :: "int \<Rightarrow> string" where
  "bucket_label age =
     (if age \<le> 30 then ''0-30'' else if age \<le> 60 then ''31-60'' else if age \<le> 90 then ''61-90'' else ''90+'')"

definition bucket_labels :: "string list" where
  "bucket_labels = [''0-30'', ''31-60'', ''61-90'', ''90+'']"

definition unpaid_views :: "invoice_type \<Rightarrow> db \<Rightarrow> invoice_view list" where
  "unpaid_views ty s = filter (\<lambda>(total, paid, date). total > paid \<and> date \<noteq> None) (invoice_views ty s)"

definition in_bucket :: "int \<Rightarrow> string \<Rightarrow> invoice_view \<Rightarrow> bool" where
  "in_bucket today b v =
     (case snd (snd v) of None \<Rightarrow> False | Some d \<Rightarrow> bucket_label (today - d) = b)"

fun bucket_rows :: "int \<Rightarrow> invoice_view list \<Rightarrow> string list \<Rightarrow> unpaid_bucket list m" where
  "bucket_rows today vs [] = retM []"
| "bucket_rows today vs (b # bs) =
     (let mine = filter (in_bucket today b) vs in
      if mine = [] then bucket_rows today vs bs
      else bindM (pg_sum_open mine) (\<lambda>amount.
           bindM (bucket_rows today vs bs) (\<lambda>rest.
           retM (\<lparr>ub_bucket = b, ub_count = int (length mine), ub_amount = amount\<rparr> # rest))))"

definition unpaid_aging :: "env \<Rightarrow> invoice_type \<Rightarrow> unpaid_bucket list m" where
  "unpaid_aging env ty =
     bindM (getsM (unpaid_views ty)) (\<lambda>vs. bucket_rows (env_pg_date env) vs bucket_labels)"

definition aging :: "env \<Rightarrow> (unpaid_bucket list \<times> unpaid_bucket list) m" where
  "aging env =
     bindM (unpaid_aging env SalesInvoice) (\<lambda>ar.
     bindM (unpaid_aging env PurchaseInvoice) (\<lambda>ap. retM (ar, ap)))"

section \<open>Fiscal periods and the income statement\<close>

record fiscal_period =
  fp_year :: int
  fp_month_start :: int
  fp_month_end :: int
  fp_start :: int
  fp_end :: int

type_synonym from_ymd = "int \<Rightarrow> int \<Rightarrow> int \<Rightarrow> int option"
type_synonym pred_day = "int \<Rightarrow> int option"

definition period_end :: "from_ymd \<Rightarrow> pred_day \<Rightarrow> int \<Rightarrow> int \<Rightarrow> int option" where
  "period_end from_ymd_opt pred_opt year month_end =
     (if month_end = 12 then from_ymd_opt year 12 31
      else Option.bind (from_ymd_opt year (month_end + 1) 1) pred_opt)"

definition fiscal_try_new ::
  "from_ymd \<Rightarrow> pred_day \<Rightarrow> int \<Rightarrow> int option \<Rightarrow> int option \<Rightarrow> err + fiscal_period" where
  "fiscal_try_new from_ymd_opt pred_opt year month_start month_end =
     (if year < 1 then Inl (EFinance InvalidPeriod)
      else
        let ms = (case month_start of None \<Rightarrow> 1 | Some m \<Rightarrow> m);
            me = (case month_end of None \<Rightarrow> (if month_start \<noteq> None then ms else 12) | Some m \<Rightarrow> m) in
        if \<not> (1 \<le> ms \<and> ms \<le> 12) \<or> \<not> (1 \<le> me \<and> me \<le> 12) \<or> me < ms then Inl (EFinance InvalidPeriod)
        else case from_ymd_opt year ms 1 of
          None \<Rightarrow> Inl (EFinance InvalidPeriod)
        | Some start \<Rightarrow>
            (case period_end from_ymd_opt pred_opt year me of
               None \<Rightarrow> Inl (EFinance InvalidPeriod)
             | Some stop \<Rightarrow> Inr \<lparr>fp_year = year, fp_month_start = ms, fp_month_end = me,
                                 fp_start = start, fp_end = stop\<rparr>))"

definition fiscal_label :: "fiscal_period \<Rightarrow> string" where
  "fiscal_label p =
     (let month = (\<lambda>m. dec_string (nat (fp_year p)) @ ''-'' @ zero_pad 2 (nat m)) in
      if fp_month_start p = fp_month_end p then month (fp_month_start p)
      else month (fp_month_start p) @ ''~'' @ month (fp_month_end p))"

text \<open>\<open>m as u32\<close>.\<close>

definition as_u32 :: "int \<Rightarrow> int" where
  "as_u32 m = m mod 2 ^ 32"

record income_statement_response =
  is_period :: string
  is_total_income :: int
  is_total_expense :: int
  is_gross_profit :: int
  is_sales_invoice_count :: int
  is_purchase_invoice_count :: int

definition views_between :: "int \<Rightarrow> int \<Rightarrow> invoice_type \<Rightarrow> db \<Rightarrow> invoice_view list" where
  "views_between start stop ty s =
     filter (\<lambda>(total, paid, date). case date of None \<Rightarrow> False | Some d \<Rightarrow> start \<le> d \<and> d \<le> stop)
       (invoice_views ty s)"

definition income_statement ::
  "from_ymd \<Rightarrow> pred_day \<Rightarrow> int \<Rightarrow> int option \<Rightarrow> int option \<Rightarrow> income_statement_response m" where
  "income_statement from_ymd_opt pred_opt year month_start month_end =
     bindM (liftM (fiscal_try_new from_ymd_opt pred_opt year
                     (map_option as_u32 month_start) (map_option as_u32 month_end))) (\<lambda>fiscal.
     bindM (getsM (views_between (fp_start fiscal) (fp_end fiscal) SalesInvoice)) (\<lambda>sales.
     bindM (pg_bigint (sum_list (map fst sales))) (\<lambda>income.
     bindM (getsM (views_between (fp_start fiscal) (fp_end fiscal) PurchaseInvoice)) (\<lambda>purchases.
     bindM (pg_bigint (sum_list (map fst purchases))) (\<lambda>expense.
     retM \<lparr>is_period = fiscal_label fiscal, is_total_income = income, is_total_expense = expense,
           is_gross_profit = i64_sub income expense, is_sales_invoice_count = int (length sales),
           is_purchase_invoice_count = int (length purchases)\<rparr>)))))"

section \<open>Frames\<close>

lemma okp_invoice_by_id [okp_intros]: "okp I (invoice_by_id ty k)"
  by (cases ty) (simp_all add: invoice_by_id_def by_sales_id_def by_purchase_id_def okp_intros)

lemma frame_payment_create:
  assumes "admin I" "ignores payments_update I" "ignores sales_invoices_update I"
    "ignores purchase_invoices_update I"
  shows "pres I (payment_create env ctx r)"
proof -
  have "okp I (update_paid ty k p)" for ty k p
    unfolding update_paid_def using assms by (cases ty) (auto intro!: okp_leaves simp: ignores_def)
  then show ?thesis
    unfolding payment_create_def payment_txn_def insert_payment_def using assms
    by (intro pres_if pres_fail pres_transaction_admin okp_intros okp_insert_row)
      (simp_all add: ignores_def)
qed

section \<open>Paid amounts\<close>

interpretation sales_paid: fulfilment si_id si_total_amount si_paid_amount pay_invoice_id pay_amount
  set_sales_paid
  by unfold_locales (simp_all add: set_sales_paid_def)

interpretation purchase_paid: fulfilment pi_id pi_total_amount pi_paid_amount pay_invoice_id pay_amount
  set_purchase_paid
  by unfold_locales (simp_all add: set_purchase_paid_def)

definition payments_of :: "invoice_type \<Rightarrow> payment list \<Rightarrow> payment list" where
  "payments_of ty ps = filter (\<lambda>p. pay_invoice_type p = invoice_type_as_str ty) ps"

definition payment_inv :: "db \<Rightarrow> bool" where
  "payment_inv s =
     (fulfil_ok si_id si_total_amount si_paid_amount pay_invoice_id pay_amount
        (sales_invoices s) (payments_of SalesInvoice (payments s)) \<and>
      fulfil_ok pi_id pi_total_amount pi_paid_amount pay_invoice_id pay_amount
        (purchase_invoices s) (payments_of PurchaseInvoice (payments s)) \<and>
      (\<forall>p \<in> set (payments s). 0 < pay_amount p))"

text \<open>What the invariant says of the invoices of one kind: identifier, total and paid amount.\<close>

definition invoice_amounts :: "invoice_type \<Rightarrow> db \<Rightarrow> (int \<times> int \<times> int) list" where
  "invoice_amounts ty s =
     (case ty of
        SalesInvoice \<Rightarrow> map (\<lambda>r. (si_id r, si_total_amount r, si_paid_amount r)) (sales_invoices s)
      | PurchaseInvoice \<Rightarrow> map (\<lambda>r. (pi_id r, pi_total_amount r, pi_paid_amount r)) (purchase_invoices s))"

definition payments_sum :: "invoice_type \<Rightarrow> int \<Rightarrow> db \<Rightarrow> int" where
  "payments_sum ty k s = done_sum pay_invoice_id pay_amount (payments_of ty (payments s)) k"

lemma payment_inv_amounts:
  assumes "payment_inv s" "(k, owed, paid) \<in> set (invoice_amounts ty s)"
  shows "(paid = 0 \<or> paid \<le> owed) \<and> in_i64 paid \<and> eq64 paid (payments_sum ty k s)"
  using assms by (cases ty) (auto simp: payment_inv_def fulfil_ok_def invoice_amounts_def payments_sum_def)

lemma payments_sum_nonneg: "payment_inv s \<Longrightarrow> 0 \<le> payments_sum ty k s"
  unfolding payments_sum_def done_sum_def payments_of_def payment_inv_def
  by (intro sum_list_nonneg) force

lemma payment_inv_empty: "payment_inv empty_db"
  by (simp add: payment_inv_def empty_db_def payments_of_def sales_paid.empty_ok purchase_paid.empty_ok)

lemma invoice_type_round_trip: "invoice_type_from_str x = Inr ty \<longleftrightarrow> x = invoice_type_as_str ty"
  by (cases ty) (auto simp: invoice_type_from_str_def)

lemma payments_of_snoc:
  "payments_of ty (ps @ [p]) =
   payments_of ty ps @ (if pay_invoice_type p = invoice_type_as_str ty then [p] else [])"
  by (simp add: payments_of_def)

lemma payment_txn_OK:
  assumes "payment_txn env ctx r s = (Inr x, t)"
  obtains (sales) inv p where "cpy_invoice_type r = ''sales_invoice''"
      "inv \<in> set (sales_invoices s)" "si_id inv = cpy_invoice_id r"
      "i64_add (si_paid_amount inv) (cpy_amount r) \<le> si_total_amount inv"
      "payments t = payments s @ [p]" "pay_invoice_type p = ''sales_invoice''"
      "pay_invoice_id p = si_id inv" "pay_amount p = cpy_amount r" "purchase_invoices t = purchase_invoices s"
      "sales_invoices t = update_where (\<lambda>i. si_id i = si_id inv)
         (set_sales_paid (i64_add (si_paid_amount inv) (cpy_amount r))) (sales_invoices s)"
  | (purchase) inv p where "cpy_invoice_type r = ''purchase_invoice''"
      "inv \<in> set (purchase_invoices s)" "pi_id inv = cpy_invoice_id r"
      "i64_add (pi_paid_amount inv) (cpy_amount r) \<le> pi_total_amount inv"
      "payments t = payments s @ [p]" "pay_invoice_type p = ''purchase_invoice''"
      "pay_invoice_id p = pi_id inv" "pay_amount p = cpy_amount r" "sales_invoices t = sales_invoices s"
      "purchase_invoices t = update_where (\<lambda>i. pi_id i = pi_id inv)
         (set_purchase_paid (i64_add (pi_paid_amount inv) (cpy_amount r))) (purchase_invoices s)"
proof -
  obtain ty where ty: "cpy_invoice_type r = invoice_type_as_str ty"
    using assms by (auto simp: payment_txn_def monad_OK invoice_type_round_trip)
  note run = assms[unfolded payment_txn_def invoice_by_id_def by_sales_id_def by_purchase_id_def
      update_paid_def insert_payment_def]
  show thesis
  proof (cases ty)
    case SalesInvoice
    with ty run show thesis
      by (auto simp: monad_OK stmt_OK new_id_OK next_number_OK audit_defs audit_insert_OK Let_def
          invoice_type_from_str_def not_less dest!: lookup_by_SomeD intro!: sales)
  next
    case PurchaseInvoice
    with ty run show thesis
      by (auto simp: monad_OK stmt_OK new_id_OK next_number_OK audit_defs audit_insert_OK Let_def
          invoice_type_from_str_def not_less dest!: lookup_by_SomeD intro!: purchase)
  qed
qed

text \<open>
  What a payment needs besides the comparison with the total: texts that fit their columns, a number
  left in the sequence, and a new identifier and code.
\<close>

definition payment_writable :: "env \<Rightarrow> create_payment_request \<Rightarrow> db \<Rightarrow> bool" where
  "payment_writable env r s =
     (let n = sequences s ''seq_payment'' + 1; code = doc_code ''PAY'' (env_ymd env) n in
      n \<le> seq_max \<and> fits 64 code \<and> fits_opt 32 (cpy_payment_method r) \<and>
      \<not> has_key pay_id (env_tsid env (next_id s)) (payments s) \<and> \<not> has_key pay_code code (payments s) \<and>
      \<not> has_key al_id (env_tsid env (next_id s + 1)) (audit_logs s))"

lemma payment_accepted:
  assumes "cpy_invoice_type r = invoice_type_as_str ty" "0 < cpy_amount r" "payment_writable env r s"
    and "invoice_by_id ty (cpy_invoice_id r) s = (Inr v, s)"
    and "i64_add (ii_paid_amount v) (cpy_amount r) \<le> ii_total_amount v"
  shows "\<exists>x t p. payment_create env ctx r s = (Inr x, t) \<and>
     invoice_by_id ty (cpy_invoice_id r) t =
       (Inr (v\<lparr>ii_paid_amount := i64_add (ii_paid_amount v) (cpy_amount r)\<rparr>), t) \<and>
     payments t = payments s @ [p] \<and> pay_invoice_type p = cpy_invoice_type r \<and>
     pay_invoice_id p = cpy_invoice_id r \<and> pay_amount p = cpy_amount r"
proof -
  let ?d = "i64_add (ii_paid_amount v) (cpy_amount r)"
  note defs = payment_create_def payment_txn_def invoice_by_id_def by_sales_id_def by_purchase_id_def
    fetch_or_def fetch_one_def update_paid_def insert_payment_def insert_row_def audit_defs audit_insert_def
    new_id_def next_number_def next_seq_def set_sales_paid_def set_purchase_paid_def monad_defs Let_def
  have lk: "lookup_by pay_id (env_tsid env (next_id s)) (payments s) = None"
    using assms(3) by (simp add: payment_writable_def has_key_lookup Let_def)
  have f: "fits 32 (cpy_invoice_type r)" "fits 64 ''payment''"
    using assms(1) by (cases ty; simp add: fits_def)+
  have ty: "invoice_type_from_str (cpy_invoice_type r) = Inr ty"
    using assms(1) by (simp add: invoice_type_round_trip)
  show ?thesis
  proof (cases ty)
    case SalesInvoice
    with assms(4) obtain i where "lookup_by si_id (cpy_invoice_id r) (sales_invoices s) = Some i"
        "v = \<lparr>ii_total_amount = si_total_amount i, ii_paid_amount = si_paid_amount i\<rparr>"
      by (auto simp: defs split: option.splits)
    with SalesInvoice assms lk f ty show ?thesis
      by (simp add: defs payment_writable_def)
  next
    case PurchaseInvoice
    with assms(4) obtain i where "lookup_by pi_id (cpy_invoice_id r) (purchase_invoices s) = Some i"
        "v = \<lparr>ii_total_amount = pi_total_amount i, ii_paid_amount = pi_paid_amount i\<rparr>"
      by (auto simp: defs split: option.splits)
    with PurchaseInvoice assms lk f ty show ?thesis
      by (simp add: defs payment_writable_def)
  qed
qed

lemma okp_payment_txn: "0 < cpy_amount r \<Longrightarrow> okp payment_inv (payment_txn env ctx r)"
proof (rule okpI)
  fix s x t
  assume pos: "0 < cpy_amount r" and inv: "payment_inv s" and run: "payment_txn env ctx r s = (Inr x, t)"
  from run show "payment_inv t"
  proof (cases rule: payment_txn_OK)
    case (sales i p)
    with sales_paid.fulfil_step [of "sales_invoices s" "payments_of SalesInvoice (payments s)" i p]
    show ?thesis using inv pos by (auto simp: payment_inv_def payments_of_snoc)
  next
    case (purchase i p)
    with purchase_paid.fulfil_step [of "purchase_invoices s" "payments_of PurchaseInvoice (payments s)" i p]
    show ?thesis using inv pos by (auto simp: payment_inv_def payments_of_snoc)
  qed
qed

lemma payment_inv_admin: "admin payment_inv"
  by (simp add: admin_def ignores_def payment_inv_def)

lemma pres_payment_create: "pres payment_inv (payment_create env ctx r)"
  unfolding payment_create_def
  by (intro pres_if pres_fail pres_transaction_admin okp_payment_txn payment_inv_admin) simp

lemma pres_new_sales_invoice: "si_paid_amount r = 0 \<Longrightarrow> pres payment_inv (insert_sales_invoice r)"
  unfolding insert_sales_invoice_def
  by (intro pres_insert_row) (simp add: payment_inv_def sales_paid.new_line_ok)

lemma okp_new_purchase_invoice: "pi_paid_amount r = 0 \<Longrightarrow> okp payment_inv (insert_purchase_invoice r)"
  unfolding insert_purchase_invoice_def
  by (intro okp_insert_row) (simp add: payment_inv_def purchase_paid.new_line_ok)

section \<open>Aging\<close>

text \<open>The rows of the report for a list of distinct labels partition the invoices that have one of them.\<close>

lemma bucket_rows_OK:
  assumes "bucket_rows today vs bs s = (Inr rows, t)" "distinct bs"
  shows "distinct (map ub_bucket rows) \<and> set (map ub_bucket rows) \<subseteq> set bs \<and> (\<forall>r \<in> set rows. 0 < ub_count r) \<and>
    sum_list (map ub_count rows) = int (length (filter (\<lambda>v. \<exists>b \<in> set bs. in_bucket today b v) vs)) \<and>
    sum_list (map ub_amount rows) = sum_list (map open_amount (filter (\<lambda>v. \<exists>b \<in> set bs. in_bucket today b v) vs)) \<and> t = s"
  using assms
proof (induction bs arbitrary: rows s)
  case Nil
  then show ?case by (simp add: monad_OK)
next
  case (Cons b bs)
  let ?mine = "filter (in_bucket today b) vs"
  let ?rest = "\<lambda>v. \<exists>b' \<in> set bs. in_bucket today b' v"
  have disj: "in_bucket today b v \<Longrightarrow> \<not> ?rest v" for v
    using Cons.prems(2) by (auto simp: in_bucket_def split: option.splits)
  have split: "length (filter (\<lambda>v. in_bucket today b v \<or> ?rest v) vs) = length ?mine + length (filter ?rest vs)"
    "sum_list (map open_amount (filter (\<lambda>v. in_bucket today b v \<or> ?rest v) vs)) =
     sum_list (map open_amount ?mine) + sum_list (map open_amount (filter ?rest vs))"
    using disj by (induction vs) auto
  show ?case
  proof (cases "?mine = []")
    case True
    then show ?thesis using Cons.IH [of s rows] Cons.prems split by auto
  next
    case False
    then obtain a u rs where a: "pg_sum_open ?mine s = (Inr a, u)" "bucket_rows today vs bs u = (Inr rs, t)"
      "rows = \<lparr>ub_bucket = b, ub_count = int (length ?mine), ub_amount = a\<rparr> # rs"
      using Cons.prems(1) by (auto simp: monad_OK Let_def)
    then have "a = sum_list (map open_amount ?mine)" "u = s"
      by (auto simp: pg_sum_open_def pg_bigint_def monad_OK split: if_splits)
    then show ?thesis using Cons.IH [OF a(2)] Cons.prems(2) a(3) split False by auto
  qed
qed

end
