(* ===== verification/Item.thy ===== *)
theory Item
  imports Costing "HOL-Library.Product_Lexorder" "HOL-Library.Option_ord"
begin

text \<open>
  The item domain, \<open>features/item\<close> and \<open>features/item_contract\<close>: categories and their tree, items and
  their codes, unit conversions and costs.
\<close>

section \<open>Categories\<close>

record create_category_request =
  ccr_name :: string
  ccr_parent_id :: "int option"
  ccr_sort_order :: "int option"

text \<open>\<open>parent_id: Option<Option<ID>>\<close>: not given, set to null, or set to a value.\<close>

record update_category_request =
  ucr_name :: "string option"
  ucr_parent_id :: "int option option"
  ucr_sort_order :: "int option"

definition category_repository_create :: "item_category \<Rightarrow> unit m" where
  "category_repository_create c =
     insert_row (fits 64 (ic_name c))
       (\<lambda>s. \<not> has_key ic_id (ic_id c) (item_categories s))
       (\<lambda>s. fk_opt ic_id (ic_parent_id c) (item_categories s @ [c]))
       (\<lambda>s. s\<lparr>item_categories := item_categories s @ [c]\<rparr>)"

text \<open>
  One \<open>UPDATE item_categories SET ... WHERE id = $2\<close>: the constraints are checked for the rows the
  statement changes.
\<close>

definition update_category :: "int \<Rightarrow> (item_category \<Rightarrow> item_category) \<Rightarrow> unit m" where
  "update_category k f =
     seqM (checkM (\<lambda>s. \<forall>r \<in> set (item_categories s). ic_id r = k \<longrightarrow> fits 64 (ic_name (f r))) (EDb StringTooLong))
    (seqM (checkM (\<lambda>s. \<forall>r \<in> set (item_categories s). ic_id r = k \<longrightarrow>
             fk_opt ic_id (ic_parent_id (f r)) (item_categories s)) (EDb ForeignKeyViolation))
    (modM (\<lambda>s. s\<lparr>item_categories := update_where (\<lambda>r. ic_id r = k) f (item_categories s)\<rparr>)))"

definition category_repository_update :: "int \<Rightarrow> update_category_request \<Rightarrow> bool m" where
  "category_repository_update k request =
     seqM (case ucr_name request of None \<Rightarrow> retM ()
           | Some name \<Rightarrow> update_category k (\<lambda>r. r\<lparr>ic_name := name\<rparr>))
    (seqM (case ucr_parent_id request of
             Some (Some p) \<Rightarrow> update_category k (\<lambda>r. r\<lparr>ic_parent_id := Some p\<rparr>)
           | Some None \<Rightarrow> update_category k (\<lambda>r. r\<lparr>ic_parent_id := None\<rparr>)
           | None \<Rightarrow> retM ())
    (seqM (case ucr_sort_order request of None \<Rightarrow> retM ()
           | Some n \<Rightarrow> update_category k (\<lambda>r. r\<lparr>ic_sort_order := n\<rparr>))
    (retM True)))"

definition category_repository_delete :: "int \<Rightarrow> bool m" where
  "category_repository_delete k =
     bindM (getsM (\<lambda>s. length (filter (\<lambda>r. ic_parent_id r = Some k) (item_categories s)))) (\<lambda>child_count.
     seqM (guardM (\<not> child_count > 0) (EItem CategoryNotEmpty))
    (bindM (getsM (\<lambda>s. has_key ic_id k (item_categories s))) (\<lambda>affected.
     seqM (checkM (\<lambda>s. affected \<longrightarrow> (\<forall>i \<in> set (items s). it_category_id i \<noteq> Some k))
             (EDb ForeignKeyViolation))
    (seqM (modM (\<lambda>s. s\<lparr>item_categories := filter (\<lambda>r. ic_id r \<noteq> k) (item_categories s)\<rparr>))
     (retM affected)))))"

definition read_category :: "int \<Rightarrow> db \<Rightarrow> item_category option" where
  "read_category k s = lookup_by ic_id k (item_categories s)"

definition item_category_create :: "env \<Rightarrow> operator \<Rightarrow> create_category_request \<Rightarrow> int m" where
  "item_category_create env ctx request =
     bindM (new_id env) (\<lambda>k.
     let category = \<lparr>ic_id = k, ic_name = ccr_name request, ic_parent_id = ccr_parent_id request,
                     ic_sort_order = (case ccr_sort_order request of None \<Rightarrow> 0 | Some n \<Rightarrow> n),
                     ic_is_active = True\<rparr> in
     transaction (
     seqM (category_repository_create category)
    (seqM (record_create env ''item_category'' k ctx (SnapItemCategory category))
     (retM k))))"

text \<open>\<open>if let (Some(before), Some(after)) = (before, after) { record_updated }\<close>.\<close>

definition record_updated_opt ::
  "env \<Rightarrow> string \<Rightarrow> int \<Rightarrow> operator \<Rightarrow> snapshot option \<Rightarrow> snapshot option \<Rightarrow> unit m" where
  "record_updated_opt env entity k ctx before after =
     (case before of None \<Rightarrow> retM ()
      | Some b \<Rightarrow> (case after of None \<Rightarrow> retM () | Some a \<Rightarrow> record_updated env entity k ctx b a))"

definition record_deleted_opt :: "env \<Rightarrow> string \<Rightarrow> int \<Rightarrow> operator \<Rightarrow> snapshot option \<Rightarrow> unit m" where
  "record_deleted_opt env entity k ctx before =
     (case before of None \<Rightarrow> retM () | Some b \<Rightarrow> record_deleted env entity k ctx b)"

definition item_category_update ::
  "env \<Rightarrow> operator \<Rightarrow> int \<Rightarrow> update_category_request \<Rightarrow> bool m" where
  "item_category_update env ctx k request = transaction (
     bindM (getsM (read_category k)) (\<lambda>before.
     bindM (category_repository_update k request) (\<lambda>updated.
     bindM (getsM (read_category k)) (\<lambda>after.
     seqM (record_updated_opt env ''item_category'' k ctx
             (map_option SnapItemCategory before) (map_option SnapItemCategory after))
     (retM updated)))))"

definition item_category_delete :: "env \<Rightarrow> operator \<Rightarrow> int \<Rightarrow> bool m" where
  "item_category_delete env ctx k = transaction (
     bindM (getsM (read_category k)) (\<lambda>before.
     bindM (category_repository_delete k) (\<lambda>deleted.
     seqM (record_deleted_opt env ''item_category'' k ctx (map_option SnapItemCategory before))
     (retM deleted))))"

subsection \<open>The tree\<close>

datatype category_tree_node = CategoryTreeNode int string int "category_tree_node list"

text \<open>
  \<open>build_tree\<close> calls itself for the children of every node.  \<open>None\<close> is a run that has not returned
  within the given depth.
\<close>

fun build_tree :: "nat \<Rightarrow> item_category list \<Rightarrow> int option \<Rightarrow> category_tree_node list option" where
  "build_tree 0 nodes parent_id = None"
| "build_tree (Suc n) nodes parent_id =
     those (map (\<lambda>c. map_option (CategoryTreeNode (ic_id c) (ic_name c) (ic_sort_order c))
                       (build_tree n nodes (Some (ic_id c))))
                (filter (\<lambda>c. ic_parent_id c = parent_id) nodes))"

definition category_rows :: "db \<Rightarrow> item_category list" where
  "category_rows s = sort_key (\<lambda>c. (ic_parent_id c, ic_sort_order c, ic_id c)) (item_categories s)"

definition item_category_tree :: "nat \<Rightarrow> db \<Rightarrow> category_tree_node list option" where
  "item_category_tree depth s = build_tree depth (category_rows s) None"

section \<open>Items\<close>

record create_item_request =
  cir_name :: string
  cir_category_id :: int
  cir_item_type :: item_type
  cir_base_unit :: string
  cir_parent_item_id :: "int option"
  cir_spec :: "string option"

record update_item_request =
  uir_name :: "string option"
  uir_category_id :: "int option"
  uir_base_unit :: "string option"
  uir_parent_item_id :: "int option option"
  uir_spec :: "string option option"
  uir_is_active :: "bool option"
  uir_reorder_point :: "int option"
  uir_safety_stock :: "int option"

fun item_prefix :: "item_type \<Rightarrow> string \<times> string" where
  "item_prefix ItemRawMaterial = (''RAW'', ''seq_item_raw'')"
| "item_prefix MadeInHouse = (''MFT'', ''seq_item_mft'')"
| "item_prefix Purchased = (''PUR'', ''seq_item_pur'')"
| "item_prefix ItemSemiFinished = (''SUB'', ''seq_item_sub'')"
| "item_prefix ItemFinishedGood = (''PRD'', ''seq_item_prd'')"
| "item_prefix ItemPackaging = (''PKG'', ''seq_item_pkg'')"
| "item_prefix ItemConsumable = (''CON'', ''seq_item_con'')"

definition generate_code :: "item_type \<Rightarrow> string m" where
  "generate_code ty =
     bindM (next_seq (snd (item_prefix ty))) (\<lambda>n. retM (fst (item_prefix ty) @ ''-'' @ zero_pad 6 n))"

definition item_type_of :: "int \<Rightarrow> item_type" where
  "item_type_of n =
     (if n = 1 then ItemRawMaterial else if n = 2 then MadeInHouse else if n = 3 then Purchased
      else if n = 4 then ItemSemiFinished else if n = 5 then ItemFinishedGood
      else if n = 6 then ItemPackaging else ItemConsumable)"

definition item_of_row :: "item_row \<Rightarrow> item" where
  "item_of_row r =
     \<lparr>i_id = it_id r, i_code = it_code r, i_name = it_name r,
      i_category_id = (case it_category_id r of None \<Rightarrow> 0 | Some c \<Rightarrow> c),
      i_item_type = item_type_of (it_item_type r), i_base_unit = it_base_unit r,
      i_parent_item_id = it_parent_item_id r, i_spec = it_spec r, i_is_active = it_is_active r,
      i_reorder_point = it_reorder_point r, i_safety_stock = it_safety_stock r,
      i_version = it_version r\<rparr>"

text \<open>\<open>ItemPort\<close>.\<close>

definition item_by_id :: "int \<Rightarrow> db \<Rightarrow> item option" where
  "item_by_id k s = map_option item_of_row (lookup_by it_id k (items s))"

definition item_by_code :: "string \<Rightarrow> db \<Rightarrow> item option" where
  "item_by_code c s = map_option item_of_row (lookup_by it_code c (items s))"

definition exists_by_category :: "int \<Rightarrow> db \<Rightarrow> bool" where
  "exists_by_category c s = (length (filter (\<lambda>r. it_category_id r = Some c) (items s)) > 0)"

text \<open>\<open>ItemRepository\<close>.\<close>

definition row_of_item :: "item \<Rightarrow> item_row" where
  "row_of_item i =
     \<lparr>it_id = i_id i, it_code = i_code i, it_name = i_name i, it_category_id = Some (i_category_id i),
      it_item_type = item_type_i16 (i_item_type i), it_base_unit = i_base_unit i,
      it_parent_item_id = i_parent_item_id i, it_spec = i_spec i, it_is_active = i_is_active i,
      it_version = i_version i, it_reorder_point = i_reorder_point i,
      it_safety_stock = i_safety_stock i\<rparr>"

definition item_repository_create :: "item \<Rightarrow> unit m" where
  "item_repository_create i =
     insert_row (fits 64 (i_code i) \<and> fits 128 (i_name i) \<and> fits 16 (i_base_unit i) \<and> fits_opt 255 (i_spec i))
       (\<lambda>s. \<not> has_key it_id (i_id i) (items s) \<and> \<not> has_key it_code (i_code i) (items s))
       (\<lambda>s. has_key ic_id (i_category_id i) (item_categories s) \<and>
            fk_opt it_id (i_parent_item_id i) (items s @ [row_of_item i]))
       (\<lambda>s. s\<lparr>items := items s @ [row_of_item i]\<rparr>)"

definition updated_item :: "update_item_request \<Rightarrow> item_row \<Rightarrow> item_row" where
  "updated_item request c =
     c\<lparr>it_name := (case uir_name request of None \<Rightarrow> it_name c | Some n \<Rightarrow> n),
       it_category_id := (case uir_category_id request of None \<Rightarrow> it_category_id c | Some v \<Rightarrow> Some v),
       it_base_unit := (case uir_base_unit request of None \<Rightarrow> it_base_unit c | Some u \<Rightarrow> u),
       it_parent_item_id := (case uir_parent_item_id request of None \<Rightarrow> it_parent_item_id c | Some p \<Rightarrow> p),
       it_spec := (case uir_spec request of None \<Rightarrow> it_spec c | Some v \<Rightarrow> v),
       it_is_active := (case uir_is_active request of None \<Rightarrow> it_is_active c | Some b \<Rightarrow> b),
       it_reorder_point := (case uir_reorder_point request of None \<Rightarrow> it_reorder_point c | Some p \<Rightarrow> p),
       it_safety_stock := (case uir_safety_stock request of None \<Rightarrow> it_safety_stock c | Some p \<Rightarrow> p)\<rparr>"

definition item_repository_update :: "int \<Rightarrow> update_item_request \<Rightarrow> bool m" where
  "item_repository_update k request =
     bindM (fetch_or (\<lambda>s. lookup_by it_id k (items s)) (EItem ItemNotFound)) (\<lambda>current.
     let new = updated_item request current in
     seqM (guardM (fits 128 (it_name new) \<and> fits 16 (it_base_unit new) \<and> fits_opt 255 (it_spec new))
             (EDb StringTooLong))
    (seqM (checkM (\<lambda>s. fk_opt ic_id (it_category_id new) (item_categories s) \<and>
                       fk_opt it_id (it_parent_item_id new) (items s)) (EDb ForeignKeyViolation))
    (seqM (modM (\<lambda>s. s\<lparr>items := update_where (\<lambda>r. it_id r = k) (\<lambda>_. new) (items s)\<rparr>))
     (retM True))))"

definition item_repository_delete :: "int \<Rightarrow> bool m" where
  "item_repository_delete k =
     bindM (getsM (\<lambda>s. has_key it_id k (items s))) (\<lambda>affected.
     seqM (modM (\<lambda>s. s\<lparr>items := update_where (\<lambda>r. it_id r = k) (\<lambda>r. r\<lparr>it_is_active := False\<rparr>) (items s)\<rparr>))
     (retM affected))"

definition item_create :: "env \<Rightarrow> operator \<Rightarrow> create_item_request \<Rightarrow> (int \<times> string) m" where
  "item_create env ctx request =
     bindM (new_id env) (\<lambda>k. transaction (
     bindM (generate_code (cir_item_type request)) (\<lambda>code.
     let item = \<lparr>i_id = k, i_code = code, i_name = cir_name request,
                 i_category_id = cir_category_id request, i_item_type = cir_item_type request,
                 i_base_unit = cir_base_unit request, i_parent_item_id = cir_parent_item_id request,
                 i_spec = cir_spec request, i_is_active = True, i_reorder_point = 0,
                 i_safety_stock = 0, i_version = 1\<rparr> in
     seqM (item_repository_create item)
    (seqM (record_create env ''item'' k ctx (SnapItem item))
     (retM (k, code))))))"

definition item_update :: "env \<Rightarrow> operator \<Rightarrow> int \<Rightarrow> update_item_request \<Rightarrow> bool m" where
  "item_update env ctx k request = transaction (
     bindM (getsM (item_by_id k)) (\<lambda>before.
     bindM (item_repository_update k request) (\<lambda>updated.
     bindM (getsM (item_by_id k)) (\<lambda>after.
     seqM (record_updated_opt env ''item'' k ctx (map_option SnapItem before) (map_option SnapItem after))
     (retM updated)))))"

definition item_delete :: "env \<Rightarrow> operator \<Rightarrow> int \<Rightarrow> bool m" where
  "item_delete env ctx k = transaction (
     bindM (getsM (item_by_id k)) (\<lambda>before.
     bindM (item_repository_delete k) (\<lambda>deleted.
     seqM (record_deleted_opt env ''item'' k ctx (map_option SnapItem before))
     (retM deleted))))"

definition item_get :: "int \<Rightarrow> item m" where
  "item_get k = fetch_or (item_by_id k) (EItem ItemNotFound)"

section \<open>Units and costs\<close>

definition unit_repository_create :: "item_unit \<Rightarrow> unit m" where
  "unit_repository_create u =
     insert_row (fits 16 (iu_unit u))
       (\<lambda>s. \<not> has_key iu_id (iu_id u) (item_units s) \<and>
            \<not> has_key (\<lambda>r. (iu_item_id r, iu_unit r)) (iu_item_id u, iu_unit u) (item_units s))
       (\<lambda>s. has_key it_id (iu_item_id u) (items s))
       (\<lambda>s. s\<lparr>item_units := item_units s @ [u]\<rparr>)"

definition item_unit_create :: "env \<Rightarrow> operator \<Rightarrow> int \<Rightarrow> string \<Rightarrow> int \<Rightarrow> int m" where
  "item_unit_create env ctx item_id unit rate =
     bindM (new_id env) (\<lambda>k.
     let u = \<lparr>iu_id = k, iu_item_id = item_id, iu_unit = unit, iu_rate = rate\<rparr> in
     transaction (
     seqM (unit_repository_create u)
    (seqM (record_create env ''item_unit'' k ctx (SnapItemUnit u))
     (retM k))))"

record create_cost_request =
  ccq_cost_type :: cost_type
  ccq_unit_cost :: int
  ccq_currency :: "string option"
  ccq_is_current :: "bool option"
  ccq_remark :: "string option"

definition clear_current :: "int \<Rightarrow> int \<Rightarrow> item_cost_row list \<Rightarrow> item_cost_row list" where
  "clear_current i ty =
     update_where (\<lambda>c. co_item_id c = i \<and> co_cost_type c = ty \<and> co_is_current c)
       (\<lambda>c. c\<lparr>co_is_current := False\<rparr>)"

definition cost_repository_create :: "item_cost \<Rightarrow> unit m" where
  "cost_repository_create cost =
     seqM (if c_is_current cost
           then modM (\<lambda>s. s\<lparr>item_costs := clear_current (c_item_id cost) (cost_type_i16 (c_cost_type cost)) (item_costs s)\<rparr>)
           else retM ())
          (insert_item_cost cost)"

definition item_cost_create :: "env \<Rightarrow> operator \<Rightarrow> int \<Rightarrow> create_cost_request \<Rightarrow> int m" where
  "item_cost_create env ctx item_id request =
     bindM (new_id env) (\<lambda>k.
     let cost = \<lparr>c_id = k, c_item_id = item_id, c_cost_type = ccq_cost_type request,
                 c_unit_cost = ccq_unit_cost request,
                 c_currency = (case ccq_currency request of None \<Rightarrow> ''CNY'' | Some c \<Rightarrow> c),
                 c_effective_at = env_now env,
                 c_is_current = (case ccq_is_current request of None \<Rightarrow> True | Some b \<Rightarrow> b),
                 c_remark = ccq_remark request\<rparr> in
     transaction (
     seqM (cost_repository_create cost)
    (seqM (record_create env ''item_cost'' k ctx (SnapItemCost cost))
     (retM k))))"

definition item_weighted_cost_get :: "int \<Rightarrow> (int \<times> int \<times> string) m" where
  "item_weighted_cost_get k =
     bindM (fetch_or (\<lambda>s. find (is_current_average k) (item_costs s)) (EItem ItemNotFound)) (\<lambda>row.
     retM (k, co_unit_cost row, case co_currency row of None \<Rightarrow> ''CNY'' | Some c \<Rightarrow> c))"

definition item_unit_list :: "env \<Rightarrow> int \<Rightarrow> (int \<times> string \<times> int) list m" where
  "item_unit_list env k =
     bindM (getsM (\<lambda>s. scan env (filter (\<lambda>u. iu_item_id u = k) (item_units s)))) (\<lambda>rows.
     retM (map (\<lambda>r. (iu_id r, iu_unit r, iu_rate r)) rows))"

section \<open>Frames\<close>

lemma okp_record_opt [okp_intros]:
  assumes "admin I"
  shows "okp I (record_updated_opt env e k ctx b a)" "okp I (record_deleted_opt env e k ctx b)"
  unfolding record_updated_opt_def record_deleted_opt_def using assms by (intro okp_intros; simp)+

lemma okp_update_category: "ignores item_categories_update I \<Longrightarrow> okp I (update_category k f)"
  unfolding update_category_def by (intro okp_intros okp_leaves) (simp add: ignores_def)

lemma frame_item_categories:
  assumes "admin I" "ignores item_categories_update I"
  shows "pres I (item_category_create env ctx r)" "pres I (item_category_update env ctx k u)"
    "pres I (item_category_delete env ctx k)"
proof -
  show "pres I (item_category_create env ctx r)"
    unfolding item_category_create_def category_repository_create_def using assms
    by (intro pres_bind pres_let pres_admin pres_transaction_admin okp_intros okp_leaves)
      (simp_all add: ignores_def)
  have "okp I (category_repository_update k u)"
    unfolding category_repository_update_def using assms
    by (intro okp_intros okp_update_category) auto
  then show "pres I (item_category_update env ctx k u)"
    unfolding item_category_update_def using assms
    by (intro pres_transaction_admin okp_intros)
  show "pres I (item_category_delete env ctx k)"
    unfolding item_category_delete_def category_repository_delete_def using assms
    by (intro pres_transaction_admin okp_intros okp_leaves) (simp_all add: ignores_def)
qed

lemma frame_items:
  assumes "admin I" "ignores items_update I"
  shows "pres I (item_create env ctx r)" "pres I (item_update env ctx k u)" "pres I (item_delete env ctx k)"
proof -
  show "pres I (item_create env ctx r)"
    unfolding item_create_def generate_code_def item_repository_create_def using assms
    by (intro pres_bind pres_admin pres_transaction_admin okp_intros okp_leaves) (simp_all add: ignores_def)
  show "pres I (item_update env ctx k u)"
    unfolding item_update_def item_repository_update_def using assms
    by (intro pres_transaction_admin okp_intros okp_leaves) (simp_all add: ignores_def)
  show "pres I (item_delete env ctx k)"
    unfolding item_delete_def item_repository_delete_def using assms
    by (intro pres_transaction_admin okp_intros okp_leaves) (simp_all add: ignores_def)
qed

lemma frame_item_unit_create:
  assumes "admin I" "ignores item_units_update I"
  shows "pres I (item_unit_create env ctx i x r)"
  unfolding item_unit_create_def unit_repository_create_def using assms
  by (intro pres_bind pres_let pres_admin pres_transaction_admin okp_intros okp_leaves)
    (simp_all add: ignores_def)

lemma frame_item_cost_create:
  assumes "admin I" "\<And>c. okp I (cost_repository_create c)"
  shows "pres I (item_cost_create env ctx i r)"
  unfolding item_cost_create_def using assms
  by (intro pres_bind pres_let pres_admin pres_transaction_admin okp_intros)

lemma okp_cost_repository_blind: "ignores item_costs_update I \<Longrightarrow> okp I (cost_repository_create c)"
  unfolding cost_repository_create_def insert_item_cost_def
  by (intro okp_intros okp_leaves) (simp_all add: ignores_def)

section \<open>One current cost of a kind\<close>

lemma clear_current_map:
  "clear_current i ty = map (\<lambda>c. if co_item_id c = i \<and> co_cost_type c = ty \<and> co_is_current c
                                  then c\<lparr>co_is_current := False\<rparr> else c)"
  by (simp add: clear_current_def update_where_def fun_eq_iff)

lemma clear_current_clears: "(i, ty) \<notin> set (current_keys (clear_current i ty cs))"
  unfolding clear_current_map by (induction cs) (auto simp: cost_key_def)

lemma okp_cost_repository_inv: "okp cost_inv (cost_repository_create c)"
proof (rule okpI)
  fix s u t
  assume inv: "cost_inv s" and run: "cost_repository_create c s = (Inr u, t)"
  show "cost_inv t"
  proof (cases "c_is_current c")
    case True
    let ?cs = "clear_current (c_item_id c) (cost_type_i16 (c_cost_type c)) (item_costs s)"
    have "distinct (current_keys ?cs)"
      unfolding clear_current_map using inv
      by (intro distinct_current_keys_clear) (auto simp: cost_inv_def)
    then show ?thesis
      using run True clear_current_clears [of "c_item_id c" "cost_type_i16 (c_cost_type c)" "item_costs s"]
      by (auto simp: cost_repository_create_def insert_item_cost_def monad_OK stmt_OK cost_inv_def
          current_keys_append cost_key_def)
  next
    case False
    then show ?thesis
      using run inv by (auto simp: cost_repository_create_def insert_item_cost_def monad_OK stmt_OK
          cost_inv_def current_keys_append)
  qed
qed

section \<open>The tree is always built\<close>

text \<open>
  A path from a category up to a root, nearest first.  Identifiers are unique, so a category has one
  path at most: the depth of the recursion is bounded, whatever parents the rows have.
\<close>

definition head_of :: "int list \<Rightarrow> int option" where
  "head_of xs = (case xs of [] \<Rightarrow> None | j # _ \<Rightarrow> Some j)"

lemma head_of_simps [simp]: "head_of [] = None" "head_of (j # xs) = Some j"
  by (simp_all add: head_of_def)

fun rooted_path :: "item_category list \<Rightarrow> int list \<Rightarrow> bool" where
  "rooted_path nodes [] = True"
| "rooted_path nodes (i # xs) =
     ((\<exists>c \<in> set nodes. ic_id c = i \<and> ic_parent_id c = head_of xs) \<and> rooted_path nodes xs)"

lemma rooted_unique:
  assumes "distinct (map ic_id nodes)" "rooted_path nodes (i # xs)" "rooted_path nodes (i # ys)"
  shows "xs = ys"
  using assms(2,3)
proof (induction xs arbitrary: i ys)
  case (Cons x xs)
  obtain c d where cd: "c \<in> set nodes" "ic_id c = i" "ic_parent_id c = Some x"
    "d \<in> set nodes" "ic_id d = i" "ic_parent_id d = head_of ys"
    using Cons.prems by auto
  then have "c = d" using assms(1) by (auto simp: distinct_map inj_on_def)
  then obtain zs where "ys = x # zs" using cd by (cases ys) auto
  then show ?case using Cons by auto
next
  case Nil
  then obtain c d where cd: "c \<in> set nodes" "ic_id c = i" "ic_parent_id c = None"
    "d \<in> set nodes" "ic_id d = i" "ic_parent_id d = head_of ys"
    by auto
  then have "c = d" using assms(1) by (auto simp: distinct_map inj_on_def)
  then show ?case using cd by (cases ys) auto
qed

lemma rooted_append: "rooted_path nodes (xs @ ys) \<Longrightarrow> rooted_path nodes ys"
  by (induction xs) auto

lemma rooted_distinct:
  assumes "distinct (map ic_id nodes)" "rooted_path nodes xs"
  shows "distinct xs"
  using assms(2)
proof (induction xs)
  case (Cons i xs)
  have "i \<notin> set xs"
  proof
    assume "i \<in> set xs"
    then obtain ys zs where xs: "xs = ys @ i # zs" by (meson split_list)
    then have "rooted_path nodes (i # zs)" using Cons.prems rooted_append [of nodes ys "i # zs"] by simp
    then have "xs = zs" using rooted_unique assms(1) Cons.prems by blast
    then show False using xs by simp
  qed
  then show ?case using Cons by simp
qed simp

lemma rooted_length:
  assumes "distinct (map ic_id nodes)" "rooted_path nodes xs"
  shows "length xs \<le> length nodes"
proof -
  have "set xs \<subseteq> set (map ic_id nodes)" using assms(2) by (induction xs) auto
  then have "card (set xs) \<le> card (set (map ic_id nodes))" by (intro card_mono) auto
  then show ?thesis
    using rooted_distinct [OF assms] distinct_card [OF assms(1)] by (simp add: distinct_card)
qed

lemma those_Some: "(\<forall>x \<in> set xs. x \<noteq> None) \<Longrightarrow> \<exists>ys. those xs = Some ys"
  by (induction xs) auto

lemma build_tree_returns:
  assumes "distinct (map ic_id nodes)" "rooted_path nodes xs" "length nodes < length xs + n"
  shows "build_tree n nodes (head_of xs) \<noteq> None"
  using assms(2,3)
proof (induction n arbitrary: xs)
  case 0
  then show ?case using rooted_length [OF assms(1)] by fastforce
next
  case (Suc n)
  have "build_tree n nodes (Some (ic_id c)) \<noteq> None" if "c \<in> set nodes" "ic_parent_id c = head_of xs" for c
    using Suc.IH [of "ic_id c # xs"] Suc.prems that by auto
  then show ?case by (auto intro!: those_Some)
qed

lemma category_rows_ids: "distinct (map ic_id (category_rows s)) = distinct (map ic_id (item_categories s))"
  by (simp add: category_rows_def distinct_map)

text \<open>What the tree holds: the categories that have a path to a root.\<close>

fun node_ids :: "category_tree_node \<Rightarrow> int list" where
  "node_ids (CategoryTreeNode i n o' cs) = i # concat (map node_ids cs)"

lemma those_map_Some: "those (map f xs) = Some ys \<longleftrightarrow> map f xs = map Some ys"
proof (induction xs arbitrary: ys)
  case (Cons x xs)
  then show ?case by (cases "f x"; cases ys) auto
qed auto

lemma build_tree_ids:
  assumes "distinct (map ic_id nodes)" "rooted_path nodes xs" "build_tree n nodes (head_of xs) = Some ts"
  shows "\<forall>t \<in> set ts. \<forall>i \<in> set (node_ids t). \<exists>ys. rooted_path nodes (i # ys @ xs)"
  using assms(2,3)
proof (induction n arbitrary: xs ts)
  case (Suc n)
  have step: "\<exists>ys. rooted_path nodes (i # ys @ xs)"
    if c: "c \<in> set nodes" "ic_parent_id c = head_of xs" "build_tree n nodes (Some (ic_id c)) = Some cs"
      and i: "i = ic_id c \<or> (\<exists>t \<in> set cs. i \<in> set (node_ids t))" for c cs i
  proof -
    have r: "rooted_path nodes (ic_id c # xs)" using c Suc.prems by auto
    show ?thesis
    proof (cases "i = ic_id c")
      case True
      then show ?thesis using r by (metis append_Nil)
    next
      case False
      then obtain t where "t \<in> set cs" "i \<in> set (node_ids t)" using i by blast
      then obtain ys where "rooted_path nodes (i # ys @ ic_id c # xs)"
        using Suc.IH [OF r, of cs] c(3) by (simp del: rooted_path.simps) blast
      then show ?thesis by (metis append.assoc append_Cons append_Nil)
    qed
  qed
  show ?case
  proof (intro ballI)
    fix t i assume t: "t \<in> set ts" and i: "i \<in> set (node_ids t)"
    have "map Some ts = map (\<lambda>c. map_option (CategoryTreeNode (ic_id c) (ic_name c) (ic_sort_order c))
        (build_tree n nodes (Some (ic_id c)))) (filter (\<lambda>c. ic_parent_id c = head_of xs) nodes)"
      using Suc.prems(2) by (simp add: those_map_Some)
    then have "Some t \<in> set (map (\<lambda>c. map_option (CategoryTreeNode (ic_id c) (ic_name c) (ic_sort_order c))
        (build_tree n nodes (Some (ic_id c)))) (filter (\<lambda>c. ic_parent_id c = head_of xs) nodes))"
      using t by (metis image_eqI list.set_map)
    then obtain c cs where "c \<in> set nodes" "ic_parent_id c = head_of xs"
      "build_tree n nodes (Some (ic_id c)) = Some cs"
      "t = CategoryTreeNode (ic_id c) (ic_name c) (ic_sort_order c) cs"
      by (auto simp: map_option_case split: option.splits)
    then show "\<exists>ys. rooted_path nodes (i # ys @ xs)" using step [of c cs i] i by auto
  qed
qed simp

lemma item_type_round_trip: "item_type_of (item_type_i16 ty) = ty"
  by (cases ty) (simp_all add: item_type_of_def)

lemma item_row_round_trip: "item_of_row (row_of_item i) = i"
  by (simp add: item_of_row_def row_of_item_def item_type_round_trip)

text \<open>Conversely the tree holds every category that has a path to a root.\<close>

lemma build_tree_complete:
  assumes "build_tree n nodes (head_of xs) = Some ts" "rooted_path nodes (i # ys @ xs)"
  shows "\<exists>t \<in> set ts. i \<in> set (node_ids t)"
  using assms
proof (induction n arbitrary: xs ys ts)
  case (Suc n)
  obtain c ys' where split: "i # ys = ys' @ [c]" by (metis list.discI rev_exhaust)
  then have "rooted_path nodes (ys' @ c # xs)" using Suc.prems(2) by (metis append.assoc append_Cons append_Nil)
  then have "rooted_path nodes (c # xs)" by (rule rooted_append)
  then obtain d where d: "d \<in> set nodes" "ic_id d = c" "ic_parent_id d = head_of xs" by auto
  have m: "map Some ts = map (\<lambda>c. map_option (CategoryTreeNode (ic_id c) (ic_name c) (ic_sort_order c))
      (build_tree n nodes (Some (ic_id c)))) (filter (\<lambda>c. ic_parent_id c = head_of xs) nodes)"
    using Suc.prems(1) by (simp add: those_map_Some)
  then have "map_option (CategoryTreeNode c (ic_name d) (ic_sort_order d)) (build_tree n nodes (Some c)) \<in> set (map Some ts)"
    unfolding m using d by force
  then obtain cs where cs: "build_tree n nodes (Some c) = Some cs"
    "CategoryTreeNode c (ic_name d) (ic_sort_order d) cs \<in> set ts" by auto
  show ?case
  proof (cases ys')
    case Nil
    then have "i = c" using split by simp
    then show ?thesis using cs(2) by force
  next
    case (Cons j zs)
    then have "j = i" "ys = zs @ [c]" using split by simp_all
    then have "rooted_path nodes (i # zs @ c # xs)" using Suc.prems(2) by simp
    then have "\<exists>t \<in> set cs. i \<in> set (node_ids t)" using Suc.IH [of "c # xs" cs zs] cs(1) by simp
    then have "i \<in> set (node_ids (CategoryTreeNode c (ic_name d) (ic_sort_order d) cs))" by simp
    then show ?thesis using cs(2) by blast
  qed
qed simp

end
