(* ===== verification/Party.thy ===== *)
theory Party
  imports Item
begin

text \<open>
  Customers and suppliers: \<open>features/customer\<close>, \<open>features/supplier\<close> and their contracts.  A deleted
  party stays in its table, inactive.
\<close>

section \<open>Customers\<close>

record create_customer_request =
  ccu_name :: string
  ccu_contact_person :: "string option"
  ccu_phone :: "string option"
  ccu_address :: "string option"
  ccu_payment_terms :: "string option"

record update_customer_request =
  ucu_name :: "string option"
  ucu_contact_person :: "string option option"
  ucu_phone :: "string option option"
  ucu_address :: "string option option"
  ucu_payment_terms :: "string option option"
  ucu_is_active :: "bool option"

definition customer_fits :: "customer \<Rightarrow> bool" where
  "customer_fits r = (fits 64 (cu_code r) \<and> fits 128 (cu_name r) \<and> fits_opt 64 (cu_contact_person r) \<and>
     fits_opt 20 (cu_phone r) \<and> fits_opt 64 (cu_payment_terms r))"

text \<open>\<open>CustomerPort::by_id\<close> and \<open>CustomerRepository\<close>.\<close>

definition customer_by_id :: "int \<Rightarrow> db \<Rightarrow> customer option" where
  "customer_by_id k s = lookup_by cu_id k (customers s)"

definition customer_repository_create :: "customer \<Rightarrow> unit m" where
  "customer_repository_create r =
     insert_row (customer_fits r)
       (\<lambda>s. \<not> has_key cu_id (cu_id r) (customers s) \<and> \<not> has_key cu_code (cu_code r) (customers s))
       (\<lambda>s. True)
       (\<lambda>s. s\<lparr>customers := customers s @ [r]\<rparr>)"

definition updated_customer :: "update_customer_request \<Rightarrow> customer \<Rightarrow> customer" where
  "updated_customer request c =
     c\<lparr>cu_name := (case ucu_name request of None \<Rightarrow> cu_name c | Some n \<Rightarrow> n),
       cu_contact_person := (case ucu_contact_person request of None \<Rightarrow> cu_contact_person c | Some v \<Rightarrow> v),
       cu_phone := (case ucu_phone request of None \<Rightarrow> cu_phone c | Some v \<Rightarrow> v),
       cu_address := (case ucu_address request of None \<Rightarrow> cu_address c | Some v \<Rightarrow> v),
       cu_payment_terms := (case ucu_payment_terms request of None \<Rightarrow> cu_payment_terms c | Some v \<Rightarrow> v),
       cu_is_active := (case ucu_is_active request of None \<Rightarrow> cu_is_active c | Some b \<Rightarrow> b)\<rparr>"

definition customer_repository_update :: "int \<Rightarrow> update_customer_request \<Rightarrow> bool m" where
  "customer_repository_update k request =
     bindM (fetch_or (\<lambda>s. lookup_by cu_id k (customers s)) (ECustomer PartyNotFound)) (\<lambda>current.
     let new = updated_customer request current in
     seqM (guardM (customer_fits new) (EDb StringTooLong))
    (seqM (modM (\<lambda>s. s\<lparr>customers := update_where (\<lambda>r. cu_id r = k) (\<lambda>_. new) (customers s)\<rparr>))
     (retM True)))"

definition customer_repository_delete :: "int \<Rightarrow> bool m" where
  "customer_repository_delete k =
     bindM (getsM (\<lambda>s. has_key cu_id k (customers s))) (\<lambda>affected.
     seqM (modM (\<lambda>s. s\<lparr>customers := update_where (\<lambda>r. cu_id r = k) (\<lambda>r. r\<lparr>cu_is_active := False\<rparr>)
                                  (customers s)\<rparr>))
     (retM affected))"

definition customer_create :: "env \<Rightarrow> operator \<Rightarrow> create_customer_request \<Rightarrow> (int \<times> string) m" where
  "customer_create env ctx request =
     bindM (new_id env) (\<lambda>k. transaction (
     bindM (next_seq ''seq_customer'') (\<lambda>n.
     let code = ''C-'' @ zero_pad 6 n;
         row = \<lparr>cu_id = k, cu_code = code, cu_name = ccu_name request,
                cu_contact_person = ccu_contact_person request, cu_phone = ccu_phone request,
                cu_address = ccu_address request, cu_payment_terms = ccu_payment_terms request,
                cu_is_active = True\<rparr> in
     seqM (customer_repository_create row)
    (seqM (record_create env ''customer'' k ctx (SnapCustomer row))
     (retM (k, code))))))"

definition customer_update :: "env \<Rightarrow> operator \<Rightarrow> int \<Rightarrow> update_customer_request \<Rightarrow> bool m" where
  "customer_update env ctx k request = transaction (
     bindM (fetch_or (customer_by_id k) (ECustomer PartyNotFound)) (\<lambda>before.
     bindM (customer_repository_update k request) (\<lambda>updated.
     bindM (fetch_or (customer_by_id k) (ECustomer PartyNotFound)) (\<lambda>after.
     seqM (record_updated env ''customer'' k ctx (SnapCustomer before) (SnapCustomer after))
     (retM updated)))))"

definition customer_delete :: "env \<Rightarrow> operator \<Rightarrow> int \<Rightarrow> bool m" where
  "customer_delete env ctx k = transaction (
     bindM (getsM (customer_by_id k)) (\<lambda>before.
     bindM (customer_repository_delete k) (\<lambda>deleted.
     seqM (record_deleted_opt env ''customer'' k ctx (map_option SnapCustomer before))
     (retM deleted))))"

lemma frame_customers:
  assumes "admin I" "ignores customers_update I"
  shows "pres I (customer_create env ctx r)" "pres I (customer_update env ctx k u)"
    "pres I (customer_delete env ctx k)"
proof -
  show "pres I (customer_create env ctx r)"
    unfolding customer_create_def customer_repository_create_def using assms
    by (intro pres_bind pres_admin pres_transaction_admin okp_intros okp_leaves) (simp_all add: ignores_def)
  show "pres I (customer_update env ctx k u)"
    unfolding customer_update_def customer_repository_update_def using assms
    by (intro pres_transaction_admin okp_intros okp_leaves) (simp_all add: ignores_def)
  show "pres I (customer_delete env ctx k)"
    unfolding customer_delete_def customer_repository_delete_def using assms
    by (intro pres_transaction_admin okp_intros okp_leaves) (simp_all add: ignores_def)
qed

section \<open>Suppliers\<close>

record create_supplier_request =
  csu_name :: string
  csu_contact_person :: "string option"
  csu_phone :: "string option"
  csu_address :: "string option"
  csu_payment_terms :: "string option"

record update_supplier_request =
  usu_name :: "string option"
  usu_contact_person :: "string option option"
  usu_phone :: "string option option"
  usu_address :: "string option option"
  usu_payment_terms :: "string option option"
  usu_is_active :: "bool option"

definition supplier_fits :: "supplier \<Rightarrow> bool" where
  "supplier_fits r = (fits 64 (su_code r) \<and> fits 128 (su_name r) \<and> fits_opt 64 (su_contact_person r) \<and>
     fits_opt 20 (su_phone r) \<and> fits_opt 64 (su_payment_terms r))"

text \<open>\<open>SupplierPort::by_id\<close> and \<open>SupplierRepository\<close>.\<close>

definition supplier_by_id :: "int \<Rightarrow> db \<Rightarrow> supplier option" where
  "supplier_by_id k s = lookup_by su_id k (suppliers s)"

definition supplier_repository_create :: "supplier \<Rightarrow> unit m" where
  "supplier_repository_create r =
     insert_row (supplier_fits r)
       (\<lambda>s. \<not> has_key su_id (su_id r) (suppliers s) \<and> \<not> has_key su_code (su_code r) (suppliers s))
       (\<lambda>s. True)
       (\<lambda>s. s\<lparr>suppliers := suppliers s @ [r]\<rparr>)"

definition updated_supplier :: "update_supplier_request \<Rightarrow> supplier \<Rightarrow> supplier" where
  "updated_supplier request c =
     c\<lparr>su_name := (case usu_name request of None \<Rightarrow> su_name c | Some n \<Rightarrow> n),
       su_contact_person := (case usu_contact_person request of None \<Rightarrow> su_contact_person c | Some v \<Rightarrow> v),
       su_phone := (case usu_phone request of None \<Rightarrow> su_phone c | Some v \<Rightarrow> v),
       su_address := (case usu_address request of None \<Rightarrow> su_address c | Some v \<Rightarrow> v),
       su_payment_terms := (case usu_payment_terms request of None \<Rightarrow> su_payment_terms c | Some v \<Rightarrow> v),
       su_is_active := (case usu_is_active request of None \<Rightarrow> su_is_active c | Some b \<Rightarrow> b)\<rparr>"

definition supplier_repository_update :: "int \<Rightarrow> update_supplier_request \<Rightarrow> bool m" where
  "supplier_repository_update k request =
     bindM (fetch_or (\<lambda>s. lookup_by su_id k (suppliers s)) (ESupplier PartyNotFound)) (\<lambda>current.
     let new = updated_supplier request current in
     seqM (guardM (supplier_fits new) (EDb StringTooLong))
    (seqM (modM (\<lambda>s. s\<lparr>suppliers := update_where (\<lambda>r. su_id r = k) (\<lambda>_. new) (suppliers s)\<rparr>))
     (retM True)))"

definition supplier_repository_delete :: "int \<Rightarrow> bool m" where
  "supplier_repository_delete k =
     bindM (getsM (\<lambda>s. has_key su_id k (suppliers s))) (\<lambda>affected.
     seqM (modM (\<lambda>s. s\<lparr>suppliers := update_where (\<lambda>r. su_id r = k) (\<lambda>r. r\<lparr>su_is_active := False\<rparr>)
                                  (suppliers s)\<rparr>))
     (retM affected))"

definition supplier_create :: "env \<Rightarrow> operator \<Rightarrow> create_supplier_request \<Rightarrow> (int \<times> string) m" where
  "supplier_create env ctx request =
     bindM (new_id env) (\<lambda>k. transaction (
     bindM (next_seq ''seq_supplier'') (\<lambda>n.
     let code = ''S-'' @ zero_pad 6 n;
         row = \<lparr>su_id = k, su_code = code, su_name = csu_name request,
                su_contact_person = csu_contact_person request, su_phone = csu_phone request,
                su_address = csu_address request, su_payment_terms = csu_payment_terms request,
                su_is_active = True\<rparr> in
     seqM (supplier_repository_create row)
    (seqM (record_create env ''supplier'' k ctx (SnapSupplier row))
     (retM (k, code))))))"

definition supplier_update :: "env \<Rightarrow> operator \<Rightarrow> int \<Rightarrow> update_supplier_request \<Rightarrow> bool m" where
  "supplier_update env ctx k request = transaction (
     bindM (fetch_or (supplier_by_id k) (ESupplier PartyNotFound)) (\<lambda>before.
     bindM (supplier_repository_update k request) (\<lambda>updated.
     bindM (fetch_or (supplier_by_id k) (ESupplier PartyNotFound)) (\<lambda>after.
     seqM (record_updated env ''supplier'' k ctx (SnapSupplier before) (SnapSupplier after))
     (retM updated)))))"

definition supplier_delete :: "env \<Rightarrow> operator \<Rightarrow> int \<Rightarrow> bool m" where
  "supplier_delete env ctx k = transaction (
     bindM (getsM (supplier_by_id k)) (\<lambda>before.
     bindM (supplier_repository_delete k) (\<lambda>deleted.
     seqM (record_deleted_opt env ''supplier'' k ctx (map_option SnapSupplier before))
     (retM deleted))))"

lemma frame_suppliers:
  assumes "admin I" "ignores suppliers_update I"
  shows "pres I (supplier_create env ctx r)" "pres I (supplier_update env ctx k u)"
    "pres I (supplier_delete env ctx k)"
proof -
  show "pres I (supplier_create env ctx r)"
    unfolding supplier_create_def supplier_repository_create_def using assms
    by (intro pres_bind pres_admin pres_transaction_admin okp_intros okp_leaves) (simp_all add: ignores_def)
  show "pres I (supplier_update env ctx k u)"
    unfolding supplier_update_def supplier_repository_update_def using assms
    by (intro pres_transaction_admin okp_intros okp_leaves) (simp_all add: ignores_def)
  show "pres I (supplier_delete env ctx k)"
    unfolding supplier_delete_def supplier_repository_delete_def using assms
    by (intro pres_transaction_admin okp_intros okp_leaves) (simp_all add: ignores_def)
qed

end
