(* ===== verification/Product.thy ===== *)
theory Product
  imports Database
begin

text \<open>
  The product domain, \<open>features/product\<close> and \<open>features/product_contract\<close>: bills of materials with
  their release, and molds.
\<close>

datatype bom_status = BomDraft | BomReleased | BomObsolete

fun bom_status_i16 :: "bom_status \<Rightarrow> int" where
  "bom_status_i16 BomDraft = 0"
| "bom_status_i16 BomReleased = 1"
| "bom_status_i16 BomObsolete = 2"

record bom_item_input =
  bii_item_id :: int
  bii_quantity :: int
  bii_unit :: string
  bii_wastage_rate :: "int option"

record create_bom_request =
  cbr_name :: string
  cbr_item_id :: int
  cbr_total_qty :: "int option"
  cbr_remark :: "string option"
  cbr_items :: "bom_item_input list"

definition insert_bom :: "bom \<Rightarrow> unit m" where
  "insert_bom r =
     insert_row (fits 64 (bm_code r) \<and> fits 128 (bm_name r))
       (\<lambda>s. \<not> has_key bm_id (bm_id r) (boms s) \<and> \<not> has_key bm_code (bm_code r) (boms s))
       (\<lambda>s. has_key it_id (bm_item_id r) (items s))
       (\<lambda>s. s\<lparr>boms := boms s @ [r]\<rparr>)"

definition insert_bom_item :: "bom_item \<Rightarrow> unit m" where
  "insert_bom_item r =
     insert_row (fits 16 (bi_unit r))
       (\<lambda>s. \<not> has_key bi_id (bi_id r) (bom_items s))
       (\<lambda>s. has_key bm_id (bi_bom_id r) (boms s) \<and> has_key it_id (bi_item_id r) (items s) \<and>
            fk_opt bi_id (bi_parent_item_id r) (bom_items s @ [r]))
       (\<lambda>s. s\<lparr>bom_items := bom_items s @ [r]\<rparr>)"

text \<open>The body of the loop over the request's items; \<open>i as i16\<close> is the sort order.\<close>

definition bom_line :: "env \<Rightarrow> int \<Rightarrow> nat \<times> bom_item_input \<Rightarrow> unit m" where
  "bom_line env k x =
     bindM (new_id env) (\<lambda>line_id.
     insert_bom_item
       \<lparr>bi_id = line_id, bi_bom_id = k, bi_item_id = bii_item_id (snd x),
        bi_quantity = bii_quantity (snd x), bi_unit = bii_unit (snd x),
        bi_wastage_rate = Some (case bii_wastage_rate (snd x) of None \<Rightarrow> 0 | Some w \<Rightarrow> w),
        bi_parent_item_id = None, bi_sort_order = to_i16 (int (fst x)), bi_remark = None\<rparr>)"

definition read_bom :: "int \<Rightarrow> db \<Rightarrow> bom option" where
  "read_bom k s = lookup_by bm_id k (boms s)"

definition bom_create :: "env \<Rightarrow> operator \<Rightarrow> create_bom_request \<Rightarrow> (int \<times> string) m" where
  "bom_create env ctx request =
     bindM (new_id env) (\<lambda>k.
     bindM (next_number env ''seq_bom'' ''BOM'') (\<lambda>code. transaction (
     seqM (insert_bom
             \<lparr>bm_id = k, bm_code = code, bm_name = cbr_name request, bm_item_id = cbr_item_id request,
              bm_version = 1, bm_status = bom_status_i16 BomDraft,
              bm_total_qty = (case cbr_total_qty request of None \<Rightarrow> 1 | Some q \<Rightarrow> q),
              bm_remark = cbr_remark request\<rparr>)
    (seqM (forM (enumerate 0 (cbr_items request)) (bom_line env k))
    (bindM (fetch_one (read_bom k)) (\<lambda>bom.
     seqM (record_create env ''bom'' k ctx (SnapBom bom))
     (retM (k, code))))))))"

definition bom_release :: "env \<Rightarrow> operator \<Rightarrow> int \<Rightarrow> bool m" where
  "bom_release env ctx k = transaction (
     bindM (fetch_or (read_bom k) (EProduct BomNotFound)) (\<lambda>before.
     seqM (guardM (\<not> bm_status before \<noteq> bom_status_i16 BomDraft) (EProduct ProductInvalidStatus))
    (seqM (modM (\<lambda>s. s\<lparr>boms := update_where (\<lambda>r. bm_id r = k)
             (\<lambda>r. r\<lparr>bm_status := bom_status_i16 BomReleased\<rparr>) (boms s)\<rparr>))
    (bindM (fetch_one (read_bom k)) (\<lambda>after.
     seqM (record_updated env ''bom'' k ctx (SnapBom before) (SnapBom after))
     (retM True))))))"

record create_mold_request =
  cmr_name :: string
  cmr_item_id :: int
  cmr_cavity_count :: "int option"
  cmr_life_expectancy :: "int option"
  cmr_maintenance_cycle :: "int option"
  cmr_remark :: "string option"

datatype mold_status = MoldActive | MoldMaintenance | MoldRetired

fun mold_status_i16 :: "mold_status \<Rightarrow> int" where
  "mold_status_i16 MoldActive = 0"
| "mold_status_i16 MoldMaintenance = 1"
| "mold_status_i16 MoldRetired = 2"

definition insert_mold :: "mold \<Rightarrow> unit m" where
  "insert_mold r =
     insert_row (fits 64 (mo_code r) \<and> fits 128 (mo_name r))
       (\<lambda>s. \<not> has_key mo_id (mo_id r) (molds s) \<and> \<not> has_key mo_code (mo_code r) (molds s))
       (\<lambda>s. has_key it_id (mo_item_id r) (items s))
       (\<lambda>s. s\<lparr>molds := molds s @ [r]\<rparr>)"

text \<open>No transaction here; the columns not named in the statement have the defaults of the table.\<close>

definition mold_create :: "env \<Rightarrow> operator \<Rightarrow> create_mold_request \<Rightarrow> (int \<times> string) m" where
  "mold_create env ctx request =
     bindM (new_id env) (\<lambda>k.
     bindM (next_number env ''seq_bom'' ''MOLD'') (\<lambda>code.
     seqM (insert_mold
             \<lparr>mo_id = k, mo_code = code, mo_name = cmr_name request, mo_item_id = cmr_item_id request,
              mo_cavity_count = (case cmr_cavity_count request of None \<Rightarrow> 1 | Some n \<Rightarrow> n),
              mo_life_expectancy = cmr_life_expectancy request, mo_life_used = Some 0,
              mo_status = mold_status_i16 MoldActive,
              mo_maintenance_cycle = cmr_maintenance_cycle request, mo_remark = cmr_remark request\<rparr>)
    (bindM (fetch_one (\<lambda>s. lookup_by mo_id k (molds s))) (\<lambda>mold.
     seqM (record_create env ''mold'' k ctx (SnapMold mold))
     (retM (k, code))))))"

section \<open>Frames\<close>

lemma frame_products:
  assumes "admin I" "ignores boms_update I" "ignores bom_items_update I" "ignores molds_update I"
  shows "pres I (bom_create env ctx r)" "pres I (bom_release env ctx k)" "pres I (mold_create env ctx q)"
proof -
  show "pres I (bom_create env ctx r)"
    unfolding bom_create_def insert_bom_def bom_line_def insert_bom_item_def using assms
    by (intro pres_bind pres_admin pres_transaction_admin okp_intros okp_leaves) (simp_all add: ignores_def)
  show "pres I (bom_release env ctx k)"
    unfolding bom_release_def using assms
    by (intro pres_transaction_admin okp_intros okp_leaves) (simp_all add: ignores_def)
  show "pres I (mold_create env ctx q)"
    unfolding mold_create_def insert_mold_def using assms
    by (intro pres_intros pres_leaves) (simp_all add: ignores_def)
qed

end
