(* ===== verification/Quality.thy ===== *)
theory Quality
  imports Database
begin

text \<open>
  The quality domain, \<open>features/quality\<close> and \<open>features/quality_contract\<close>: inspection templates,
  inspection orders with their verdict, and non-conformances.
\<close>

datatype inspection_order_status = InspectionPending | Inspected

fun inspection_order_status_i16 :: "inspection_order_status \<Rightarrow> int" where
  "inspection_order_status_i16 InspectionPending = 0"
| "inspection_order_status_i16 Inspected = 10"

datatype verdict = Pass | Fail | Conditional

fun verdict_i16 :: "verdict \<Rightarrow> int" where
  "verdict_i16 Pass = 1"
| "verdict_i16 Fail = 2"
| "verdict_i16 Conditional = 3"

text \<open>\<open>NonConformanceStatus::Open\<close>.\<close>

definition nc_open :: int where "nc_open = 0"

section \<open>Templates\<close>

record template_item_input =
  tii_name :: string
  tii_specification :: "string option"
  tii_tolerance_upper :: "string option"
  tii_tolerance_lower :: "string option"
  tii_method :: "string option"
  tii_is_required :: "bool option"

record create_template_request =
  ctp_name :: string
  ctp_category :: int
  ctp_items :: "template_item_input list"

definition insert_template :: "inspection_template \<Rightarrow> unit m" where
  "insert_template r =
     insert_row (fits 64 (tpl_code r) \<and> fits 128 (tpl_name r))
       (\<lambda>s. \<not> has_key tpl_id (tpl_id r) (inspection_templates s) \<and>
            \<not> has_key tpl_code (tpl_code r) (inspection_templates s))
       (\<lambda>s. True)
       (\<lambda>s. s\<lparr>inspection_templates := inspection_templates s @ [r]\<rparr>)"

definition insert_template_item :: "inspection_template_item \<Rightarrow> unit m" where
  "insert_template_item r =
     insert_row (fits 128 (ti_name r) \<and> fits_opt 255 (ti_specification r) \<and> fits_opt 64 (ti_tolerance_upper r) \<and>
                 fits_opt 64 (ti_tolerance_lower r) \<and> fits_opt 255 (ti_method r))
       (\<lambda>s. \<not> has_key ti_id (ti_id r) (inspection_template_items s))
       (\<lambda>s. has_key tpl_id (ti_template_id r) (inspection_templates s))
       (\<lambda>s. s\<lparr>inspection_template_items := inspection_template_items s @ [r]\<rparr>)"

definition template_prefix :: "int \<Rightarrow> string" where
  "template_prefix category = (if category = 2 then ''IPQC'' else if category = 3 then ''OQC'' else ''IQC'')"

definition template_line :: "env \<Rightarrow> int \<Rightarrow> nat \<times> template_item_input \<Rightarrow> unit m" where
  "template_line env k x =
     bindM (new_id env) (\<lambda>line_id.
     insert_template_item
       \<lparr>ti_id = line_id, ti_template_id = k, ti_name = tii_name (snd x),
        ti_specification = tii_specification (snd x), ti_tolerance_upper = tii_tolerance_upper (snd x),
        ti_tolerance_lower = tii_tolerance_lower (snd x), ti_method = tii_method (snd x),
        ti_is_required = (case tii_is_required (snd x) of None \<Rightarrow> True | Some b \<Rightarrow> b),
        ti_sort_order = to_i16 (int (fst x))\<rparr>)"

definition inspection_template_create ::
  "env \<Rightarrow> operator \<Rightarrow> create_template_request \<Rightarrow> (int \<times> string) m" where
  "inspection_template_create env ctx request =
     bindM (new_id env) (\<lambda>k.
     bindM (next_seq ''seq_inspection_order'') (\<lambda>n.
     let code = template_prefix (ctp_category request) @ ''-'' @ zero_pad 6 n in
     transaction (
     seqM (insert_template
             \<lparr>tpl_id = k, tpl_code = code, tpl_name = ctp_name request,
              tpl_category = ctp_category request, tpl_is_active = True\<rparr>)
    (seqM (forM (enumerate 0 (ctp_items request)) (template_line env k))
    (bindM (fetch_one (\<lambda>s. lookup_by tpl_id k (inspection_templates s))) (\<lambda>template.
     seqM (record_create env ''inspection_template'' k ctx (SnapInspectionTemplate template))
     (retM (k, code))))))))"

section \<open>Inspection orders\<close>

record create_inspection_order_request =
  cio_template_id :: int
  cio_source_type :: string
  cio_source_id :: int
  cio_item_id :: int
  cio_lot_qty :: int
  cio_sample_qty :: "int option"
  cio_inspector :: "string option"

definition insert_inspection_order :: "inspection_order \<Rightarrow> unit m" where
  "insert_inspection_order r =
     insert_row (fits 64 (io_code r) \<and> fits 32 (io_source_type r) \<and> fits_opt 64 (io_inspector r))
       (\<lambda>s. \<not> has_key io_id (io_id r) (inspection_orders s) \<and>
            \<not> has_key io_code (io_code r) (inspection_orders s))
       (\<lambda>s. fk_opt tpl_id (io_template_id r) (inspection_templates s) \<and>
            has_key it_id (io_item_id r) (items s))
       (\<lambda>s. s\<lparr>inspection_orders := inspection_orders s @ [r]\<rparr>)"

definition read_inspection_order :: "int \<Rightarrow> db \<Rightarrow> inspection_order option" where
  "read_inspection_order k s = lookup_by io_id k (inspection_orders s)"

text \<open>No transaction: the insert and the audit record commit one by one.\<close>

definition inspection_order_create ::
  "env \<Rightarrow> operator \<Rightarrow> create_inspection_order_request \<Rightarrow> (int \<times> string) m" where
  "inspection_order_create env ctx request =
     bindM (next_number env ''seq_inspection_order'' ''IQC'') (\<lambda>code.
     bindM (new_id env) (\<lambda>k.
     seqM (insert_inspection_order
             \<lparr>io_id = k, io_code = code, io_template_id = Some (cio_template_id request),
              io_source_type = cio_source_type request, io_source_id = cio_source_id request,
              io_item_id = cio_item_id request, io_lot_qty = cio_lot_qty request,
              io_sample_qty = (case cio_sample_qty request of None \<Rightarrow> cio_lot_qty request | Some q \<Rightarrow> q),
              io_inspector = cio_inspector request, io_result = None,
              io_status = inspection_order_status_i16 InspectionPending, io_inspected_at = None\<rparr>)
    (bindM (fetch_one (read_inspection_order k)) (\<lambda>order.
     seqM (record_create env ''inspection_order'' k ctx (SnapInspectionOrder order))
     (retM (k, code))))))"

record record_result =
  rr_template_item_id :: int
  rr_result :: int
  rr_actual_value :: "string option"
  rr_remark :: "string option"

text \<open>The overall verdict: one failed item fails the inspection.\<close>

definition overall_verdict :: "record_result list \<Rightarrow> int" where
  "overall_verdict rs =
     (if list_ex (\<lambda>r. rr_result r = verdict_i16 Fail) rs then verdict_i16 Fail else verdict_i16 Pass)"

definition insert_inspection_result :: "inspection_result \<Rightarrow> unit m" where
  "insert_inspection_result r =
     insert_row (fits_opt 255 (ir_actual_value r))
       (\<lambda>s. \<not> has_key ir_id (ir_id r) (inspection_results s))
       (\<lambda>s. has_key io_id (ir_inspection_id r) (inspection_orders s) \<and>
            has_key ti_id (ir_template_item_id r) (inspection_template_items s))
       (\<lambda>s. s\<lparr>inspection_results := inspection_results s @ [r]\<rparr>)"

definition result_line :: "env \<Rightarrow> int \<Rightarrow> record_result \<Rightarrow> unit m" where
  "result_line env k r =
     bindM (new_id env) (\<lambda>rid.
     insert_inspection_result
       \<lparr>ir_id = rid, ir_inspection_id = k, ir_template_item_id = rr_template_item_id r,
        ir_result = rr_result r, ir_actual_value = rr_actual_value r, ir_remark = rr_remark r\<rparr>)"

definition inspection_order_complete :: "env \<Rightarrow> operator \<Rightarrow> int \<Rightarrow> record_result list \<Rightarrow> int m" where
  "inspection_order_complete env ctx k results = transaction (
     bindM (fetch_or (read_inspection_order k) (EQuality InspectionNotFound)) (\<lambda>before.
     seqM (guardM (\<not> io_status before = inspection_order_status_i16 Inspected) (EQuality QualityInvalidStatus))
    (seqM (forM results (result_line env k))
    (seqM (modM (\<lambda>s. s\<lparr>inspection_orders := update_where (\<lambda>r. io_id r = k)
             (\<lambda>r. r\<lparr>io_result := Some (overall_verdict results),
                    io_status := inspection_order_status_i16 Inspected,
                    io_inspected_at := Some (env_pg_now env)\<rparr>) (inspection_orders s)\<rparr>))
    (bindM (fetch_one (read_inspection_order k)) (\<lambda>after.
     seqM (record_updated env ''inspection_order'' k ctx (SnapInspectionOrder before) (SnapInspectionOrder after))
     (retM (overall_verdict results))))))))"

section \<open>Non-conformances\<close>

record create_nc_request =
  cnc_inspection_id :: "int option"
  cnc_item_id :: int
  cnc_quantity :: int
  cnc_severity :: int
  cnc_disposition :: "int option"
  cnc_remark :: "string option"

definition insert_non_conformance :: "non_conformance_row \<Rightarrow> unit m" where
  "insert_non_conformance r =
     insert_row (fits 64 (nc_code r))
       (\<lambda>s. \<not> has_key nc_id (nc_id r) (non_conformances s) \<and>
            \<not> has_key nc_code (nc_code r) (non_conformances s))
       (\<lambda>s. fk_opt io_id (nc_inspection_id r) (inspection_orders s) \<and> has_key it_id (nc_item_id r) (items s))
       (\<lambda>s. s\<lparr>non_conformances := non_conformances s @ [r]\<rparr>)"

definition non_conformance_create ::
  "env \<Rightarrow> operator \<Rightarrow> create_nc_request \<Rightarrow> (int \<times> string) m" where
  "non_conformance_create env ctx request =
     bindM (next_number env ''seq_non_conformance'' ''NC'') (\<lambda>code.
     bindM (new_id env) (\<lambda>k.
     seqM (insert_non_conformance
             \<lparr>nc_id = k, nc_code = code, nc_inspection_id = cnc_inspection_id request,
              nc_item_id = cnc_item_id request, nc_quantity = cnc_quantity request,
              nc_severity = cnc_severity request, nc_disposition = cnc_disposition request,
              nc_status = nc_open, nc_remark = cnc_remark request, nc_approved_by = None,
              nc_approved_at = None\<rparr>)
    (bindM (fetch_one (\<lambda>s. map_option non_conformance.truncate (lookup_by nc_id k (non_conformances s)))) (\<lambda>nc.
     seqM (record_create env ''non_conformance'' k ctx (SnapNonConformance nc))
     (retM (k, code))))))"

section \<open>Frames\<close>

lemma frame_template_create:
  assumes "admin I" "ignores inspection_templates_update I" "ignores inspection_template_items_update I"
  shows "pres I (inspection_template_create env ctx r)"
  unfolding inspection_template_create_def insert_template_def template_line_def insert_template_item_def
  using assms
  by (intro pres_bind pres_let pres_admin pres_transaction_admin okp_intros okp_leaves)
    (simp_all add: ignores_def)

lemma frame_inspection_order_create:
  assumes "admin I" "ignores inspection_orders_update I"
  shows "pres I (inspection_order_create env ctx q)"
  unfolding inspection_order_create_def insert_inspection_order_def using assms
  by (intro pres_intros pres_leaves) (simp_all add: ignores_def)

lemma frame_non_conformance_create:
  assumes "admin I" "ignores non_conformances_update I"
  shows "pres I (non_conformance_create env ctx n)"
  unfolding non_conformance_create_def insert_non_conformance_def using assms
  by (intro pres_intros pres_leaves) (simp_all add: ignores_def)

lemma frame_inspection_complete:
  assumes "admin I" "ignores inspection_orders_update I" "ignores inspection_results_update I"
  shows "pres I (inspection_order_complete env ctx k rs)"
  unfolding inspection_order_complete_def result_line_def insert_inspection_result_def using assms
  by (intro pres_transaction_admin okp_intros okp_leaves) (simp_all add: ignores_def)

section \<open>Verdicts\<close>

text \<open>
  \<open>verdict_inv\<close>: an order has a verdict exactly when it is inspected, and the verdict is what the
  recorded results say.  Results belong to orders, and a pending order has none.
\<close>

definition results_of :: "int \<Rightarrow> inspection_result list \<Rightarrow> inspection_result list" where
  "results_of k rs = filter (\<lambda>r. ir_inspection_id r = k) rs"

definition verdict_of :: "inspection_result list \<Rightarrow> int" where
  "verdict_of rs = (if list_ex (\<lambda>r. ir_result r = verdict_i16 Fail) rs then verdict_i16 Fail else verdict_i16 Pass)"

definition order_verdict_ok :: "inspection_result list \<Rightarrow> inspection_order \<Rightarrow> bool" where
  "order_verdict_ok rs r =
     (if io_status r = 10 then io_result r = Some (verdict_of (results_of (io_id r) rs))
      else io_status r = 0 \<and> io_result r = None \<and> results_of (io_id r) rs = [])"

definition verdict_inv :: "db \<Rightarrow> bool" where
  "verdict_inv s =
     (distinct (map io_id (inspection_orders s)) \<and>
      (\<forall>x \<in> set (inspection_results s). has_key io_id (ir_inspection_id x) (inspection_orders s)) \<and>
      (\<forall>r \<in> set (inspection_orders s). order_verdict_ok (inspection_results s) r))"

lemma verdict_inv_empty: "verdict_inv empty_db"
  by (simp add: verdict_inv_def empty_db_def)

text \<open>The loop over the results appends the rows of the request.\<close>

lemma result_loop_OK:
  assumes "forM rs (result_line env k) s = (Inr u, t)"
  shows "inspection_orders t = inspection_orders s \<and>
         (\<exists>xs. inspection_results t = inspection_results s @ xs \<and>
               map ir_result xs = map rr_result rs \<and> (\<forall>x \<in> set xs. ir_inspection_id x = k))"
  using assms
proof (induction rs arbitrary: s)
  case Nil
  then show ?case by (simp add: monad_OK)
next
  case (Cons r rs)
  then obtain v where v: "result_line env k r s = (Inr (), v)" "forM rs (result_line env k) v = (Inr u, t)"
    by (auto simp: monad_OK)
  have "inspection_orders v = inspection_orders s \<and>
        (\<exists>x. inspection_results v = inspection_results s @ [x] \<and> ir_result x = rr_result r \<and>
             ir_inspection_id x = k)"
    using v(1) by (auto simp: result_line_def insert_inspection_result_def monad_OK stmt_OK new_id_OK)
  then obtain x where x: "inspection_orders v = inspection_orders s"
    "inspection_results v = inspection_results s @ [x]" "ir_result x = rr_result r" "ir_inspection_id x = k"
    by blast
  obtain xs where t: "inspection_orders t = inspection_orders v"
    "inspection_results t = inspection_results v @ xs"
    "map ir_result xs = map rr_result rs" "\<forall>x \<in> set xs. ir_inspection_id x = k"
    using Cons.IH [OF v(2)] by auto
  then show ?case using x by (auto intro!: exI [of _ "x # xs"])
qed

lemma list_ex_map: "list_ex (\<lambda>r. f r = v) xs \<longleftrightarrow> v \<in> set (map f xs)"
  by (auto simp: list_ex_iff)

lemma verdict_of_request: "map ir_result xs = map rr_result rs \<Longrightarrow> verdict_of xs = overall_verdict rs"
  by (simp only: verdict_of_def overall_verdict_def list_ex_map)

lemma results_of_append [simp]: "results_of k (xs @ ys) = results_of k xs @ results_of k ys"
  by (simp add: results_of_def)

lemma results_of_all: "\<forall>x \<in> set xs. ir_inspection_id x = j \<Longrightarrow> results_of k xs = (if k = j then xs else [])"
  by (auto simp: results_of_def)

lemma inspection_complete_OK:
  assumes "inspection_order_complete env ctx k rs s = (Inr v, t)"
  shows "v = overall_verdict rs \<and>
    (\<exists>r xs. lookup_by io_id k (inspection_orders s) = Some r \<and> io_status r \<noteq> 10 \<and>
       inspection_results t = inspection_results s @ xs \<and> map ir_result xs = map rr_result rs \<and>
       (\<forall>x \<in> set xs. ir_inspection_id x = k) \<and>
       inspection_orders t = update_where (\<lambda>r. io_id r = k)
         (\<lambda>r. r\<lparr>io_result := Some (overall_verdict rs), io_status := 10,
                io_inspected_at := Some (env_pg_now env)\<rparr>) (inspection_orders s))"
  using assms
  by (fastforce simp: inspection_order_complete_def monad_OK stmt_OK read_inspection_order_def
      audit_defs audit_insert_OK dest!: result_loop_OK)

lemma transaction_twice: "transaction (transaction m) = transaction m"
  by (auto simp: txnM_def rollback_def fun_eq_iff split: prod.split sum.split)

lemma verdict_inv_complete: "pres verdict_inv (inspection_order_complete env ctx k rs)"
proof -
  have "okp verdict_inv (inspection_order_complete env ctx k rs)"
  proof (rule okpI)
    fix s v t
    assume inv: "verdict_inv s" and run: "inspection_order_complete env ctx k rs s = (Inr v, t)"
    obtain r xs where r: "lookup_by io_id k (inspection_orders s) = Some r" "io_status r \<noteq> 10"
      and xs: "inspection_results t = inspection_results s @ xs" "map ir_result xs = map rr_result rs"
        "\<forall>x \<in> set xs. ir_inspection_id x = k"
      and t: "inspection_orders t = update_where (\<lambda>r. io_id r = k)
         (\<lambda>r. r\<lparr>io_result := Some (overall_verdict rs), io_status := 10,
                io_inspected_at := Some (env_pg_now env)\<rparr>) (inspection_orders s)"
      using inspection_complete_OK [OF run] by blast
    have rk: "r \<in> set (inspection_orders s)" "io_id r = k" using lookup_by_SomeD [OF r(1)] by auto
    then have empty: "results_of k (inspection_results s) = []"
      using inv r(2) by (auto simp: verdict_inv_def order_verdict_ok_def)
    have key: "has_key io_id k (inspection_orders s)" using rk by (auto simp: has_key_def)
    have rx: "results_of j xs = (if j = k then xs else [])" for j using results_of_all [OF xs(3)] .
    have "order_verdict_ok (inspection_results t) q"
      if "q \<in> set (inspection_orders s)" "io_id q \<noteq> k" for q
      using inv that xs by (auto simp: verdict_inv_def order_verdict_ok_def rx)
    then show "verdict_inv t"
      unfolding verdict_inv_def t ball_update_where
      using inv xs key empty
      by (auto simp: verdict_inv_def order_verdict_ok_def map_update_where has_key_update_where
          rx verdict_of_request)
  qed
  then have "pres verdict_inv (transaction (inspection_order_complete env ctx k rs))"
    by (rule pres_transaction_admin) (simp add: admin_def ignores_def verdict_inv_def)
  then show ?thesis by (simp add: inspection_order_complete_def transaction_twice)
qed

lemma verdict_inv_new: "pres verdict_inv (inspection_order_create env ctx q)"
proof -
  have "pres verdict_inv (insert_inspection_order r)" if "io_status r = 0" "io_result r = None" for r
    unfolding insert_inspection_order_def
  proof (rule pres_insert_row)
    fix s
    assume "verdict_inv s" "\<not> has_key io_id (io_id r) (inspection_orders s) \<and>
            \<not> has_key io_code (io_code r) (inspection_orders s)"
    then show "verdict_inv (s\<lparr>inspection_orders := inspection_orders s @ [r]\<rparr>)"
      using that by (auto simp: verdict_inv_def order_verdict_ok_def has_key_def results_of_def filter_empty_conv)
  qed
  then show ?thesis
    unfolding inspection_order_create_def
    by (intro pres_intros) (simp_all add: admin_def ignores_def verdict_inv_def)
qed

end
