(* ===== verification/System.thy ===== *)
theory System
  imports Warehouse Purchase Sales Production Finance Party Product Quality "HOL-Library.Sublist"
begin

text \<open>
  The system: every write endpoint of the domains as a request, the database after a request, the
  reachable databases, and the invariants of the domains over all of them.

  The locale \<open>system_invariant\<close> is the interface between an invariant and the system: what the steps
  that touch its tables must keep.  Its lemmas give the invariant for every reachable database.
\<close>

section \<open>Requests\<close>

text \<open>Master data, and everything else.\<close>

datatype master_request =
    ItemCategoryCreate create_category_request
  | ItemCategoryUpdate int update_category_request
  | ItemCategoryDelete int
  | ItemCreate create_item_request
  | ItemUpdate int update_item_request
  | ItemDelete int
  | ItemUnitCreate int string int
  | ItemCostCreate int create_cost_request
  | CustomerCreate create_customer_request
  | CustomerUpdate int update_customer_request
  | CustomerDelete int
  | SupplierCreate create_supplier_request
  | SupplierUpdate int update_supplier_request
  | SupplierDelete int
  | BomCreate create_bom_request
  | BomRelease int
  | MoldCreate create_mold_request
  | InspectionTemplateCreate create_template_request
  | InspectionOrderCreate create_inspection_order_request
  | InspectionOrderComplete int "record_result list"
  | NonConformanceCreate create_nc_request

datatype request =
    MasterData master_request
  | WarehouseCreate create_warehouse_request
  | WarehouseUpdate int update_warehouse_request
  | WarehouseDelete int
  | StockTransferCreate create_transfer_request
  | StockTransferSubmit int
  | StockTransferApprove int
  | InventoryCheckCreate create_check_request
  | InventoryCheckSubmit int
  | InventoryCheckApprove int
  | InventoryInitial initialize_inventory_request
  | PurchaseOrderCreate create_purchase_order_request
  | PurchaseOrderSubmit int
  | PurchaseOrderApprove int
  | PurchaseOrderReject int
  | PurchaseOrderDelete int
  | PurchaseReceiptCreate create_receipt_request
  | PurchaseReturnCreate create_return_request
  | PurchaseReturnSubmit int
  | PurchaseReturnApprove int
  | PurchaseInvoiceCreate create_invoice_request
  | SalesOrderCreate create_sales_order_request
  | SalesOrderSubmit int
  | SalesOrderApprove int
  | SalesDeliveryCreate create_delivery_request
  | SalesInvoiceCreate create_sales_invoice_request
  | WorkOrderCreate create_work_order_request
  | WorkOrderRelease int
  | WorkOrderComplete int
  | WorkOrderMaterialPick int "pick_item list"
  | WorkOrderOperationReport int int report_request
  | ProductionReceiptCreate create_production_receipt_request
  | PaymentCreate create_payment_request

text \<open>The database after a request, whether it succeeds or fails.\<close>

fun perform_master :: "env \<Rightarrow> operator \<Rightarrow> master_request \<Rightarrow> db \<Rightarrow> db" where
  "perform_master env ctx (ItemCategoryCreate r) s = snd (item_category_create env ctx r s)"
| "perform_master env ctx (ItemCategoryUpdate k r) s = snd (item_category_update env ctx k r s)"
| "perform_master env ctx (ItemCategoryDelete k) s = snd (item_category_delete env ctx k s)"
| "perform_master env ctx (ItemCreate r) s = snd (item_create env ctx r s)"
| "perform_master env ctx (ItemUpdate k r) s = snd (item_update env ctx k r s)"
| "perform_master env ctx (ItemDelete k) s = snd (item_delete env ctx k s)"
| "perform_master env ctx (ItemUnitCreate i u r) s = snd (item_unit_create env ctx i u r s)"
| "perform_master env ctx (ItemCostCreate i r) s = snd (item_cost_create env ctx i r s)"
| "perform_master env ctx (CustomerCreate r) s = snd (customer_create env ctx r s)"
| "perform_master env ctx (CustomerUpdate k r) s = snd (customer_update env ctx k r s)"
| "perform_master env ctx (CustomerDelete k) s = snd (customer_delete env ctx k s)"
| "perform_master env ctx (SupplierCreate r) s = snd (supplier_create env ctx r s)"
| "perform_master env ctx (SupplierUpdate k r) s = snd (supplier_update env ctx k r s)"
| "perform_master env ctx (SupplierDelete k) s = snd (supplier_delete env ctx k s)"
| "perform_master env ctx (BomCreate r) s = snd (bom_create env ctx r s)"
| "perform_master env ctx (BomRelease k) s = snd (bom_release env ctx k s)"
| "perform_master env ctx (MoldCreate r) s = snd (mold_create env ctx r s)"
| "perform_master env ctx (InspectionTemplateCreate r) s = snd (inspection_template_create env ctx r s)"
| "perform_master env ctx (InspectionOrderCreate r) s = snd (inspection_order_create env ctx r s)"
| "perform_master env ctx (InspectionOrderComplete k rs) s = snd (inspection_order_complete env ctx k rs s)"
| "perform_master env ctx (NonConformanceCreate r) s = snd (non_conformance_create env ctx r s)"

fun perform :: "env \<Rightarrow> operator \<Rightarrow> request \<Rightarrow> db \<Rightarrow> db" where
  "perform env ctx (MasterData r) s = perform_master env ctx r s"
| "perform env ctx (WarehouseCreate r) s = snd (warehouse_create env ctx r s)"
| "perform env ctx (WarehouseUpdate k r) s = snd (warehouse_update env ctx k r s)"
| "perform env ctx (WarehouseDelete k) s = snd (warehouse_delete env ctx k s)"
| "perform env ctx (StockTransferCreate r) s = snd (stock_transfer_create env ctx r s)"
| "perform env ctx (StockTransferSubmit k) s = snd (stock_transfer_submit env ctx k s)"
| "perform env ctx (StockTransferApprove k) s = snd (stock_transfer_approve env ctx k s)"
| "perform env ctx (InventoryCheckCreate r) s = snd (inventory_check_create env ctx r s)"
| "perform env ctx (InventoryCheckSubmit k) s = snd (inventory_check_submit env ctx k s)"
| "perform env ctx (InventoryCheckApprove k) s = snd (inventory_check_approve env ctx k s)"
| "perform env ctx (InventoryInitial r) s = snd (inventory_initial env ctx r s)"
| "perform env ctx (PurchaseOrderCreate r) s = snd (purchase_order_create env ctx r s)"
| "perform env ctx (PurchaseOrderSubmit k) s = snd (purchase_order_submit env ctx k s)"
| "perform env ctx (PurchaseOrderApprove k) s = snd (purchase_order_approve env ctx k s)"
| "perform env ctx (PurchaseOrderReject k) s = snd (purchase_order_reject env ctx k s)"
| "perform env ctx (PurchaseOrderDelete k) s = snd (purchase_order_delete env ctx k s)"
| "perform env ctx (PurchaseReceiptCreate r) s = snd (purchase_receipt_create env ctx r s)"
| "perform env ctx (PurchaseReturnCreate r) s = snd (purchase_return_create env ctx r s)"
| "perform env ctx (PurchaseReturnSubmit k) s = snd (purchase_return_submit k s)"
| "perform env ctx (PurchaseReturnApprove k) s = snd (purchase_return_approve env ctx k s)"
| "perform env ctx (PurchaseInvoiceCreate r) s = snd (purchase_invoice_create env ctx r s)"
| "perform env ctx (SalesOrderCreate r) s = snd (sales_order_create env ctx r s)"
| "perform env ctx (SalesOrderSubmit k) s = snd (sales_order_submit env ctx k s)"
| "perform env ctx (SalesOrderApprove k) s = snd (sales_order_approve env ctx k s)"
| "perform env ctx (SalesDeliveryCreate r) s = snd (sales_delivery_create env ctx r s)"
| "perform env ctx (SalesInvoiceCreate r) s = snd (sales_invoice_create env ctx r s)"
| "perform env ctx (WorkOrderCreate r) s = snd (work_order_create env ctx r s)"
| "perform env ctx (WorkOrderRelease k) s = snd (work_order_release env ctx k s)"
| "perform env ctx (WorkOrderComplete k) s = snd (work_order_complete env ctx k s)"
| "perform env ctx (WorkOrderMaterialPick k ps) s = snd (work_order_material_pick env ctx k ps s)"
| "perform env ctx (WorkOrderOperationReport k j r) s = snd (work_order_operation_report env ctx k j r s)"
| "perform env ctx (ProductionReceiptCreate r) s = snd (production_receipt_create env ctx r s)"
| "perform env ctx (PaymentCreate r) s = snd (payment_create env ctx r s)"

text \<open>
  The databases a running system can be in: every request may come from another operator, at
  another time, with other identifiers.
\<close>

inductive reachable_from :: "db \<Rightarrow> db \<Rightarrow> bool" for s0 where
  start: "reachable_from s0 s0"
| step: "reachable_from s0 s \<Longrightarrow> reachable_from s0 (perform env ctx r s)"

text \<open>A new installation starts with empty tables.\<close>

abbreviation reachable :: "db \<Rightarrow> bool" where
  "reachable \<equiv> reachable_from empty_db"

section \<open>Invariants of the system\<close>

text \<open>Predicates that do not look at master data, and at headers and documents.\<close>

definition master_blind :: "(db \<Rightarrow> bool) \<Rightarrow> bool" where
  "master_blind I =
     (ignores item_categories_update I \<and> ignores items_update I \<and> ignores item_units_update I \<and>
      ignores customers_update I \<and> ignores suppliers_update I \<and> ignores boms_update I \<and>
      ignores bom_items_update I \<and> ignores molds_update I \<and> ignores inspection_templates_update I \<and>
      ignores inspection_template_items_update I \<and> ignores non_conformances_update I)"

definition documents_blind :: "(db \<Rightarrow> bool) \<Rightarrow> bool" where
  "documents_blind I =
     (ignores warehouses_update I \<and> ignores stock_transfers_update I \<and>
      ignores stock_transfer_items_update I \<and> ignores inventory_checks_update I \<and>
      ignores inventory_check_items_update I \<and> ignores purchase_orders_update I \<and>
      ignores purchase_receipts_update I \<and> ignores purchase_returns_update I \<and>
      ignores purchase_return_lines_update I \<and> ignores sales_orders_update I \<and>
      ignores sales_deliveries_update I \<and> ignores work_orders_update I \<and>
      ignores work_order_operations_update I \<and> ignores production_receipts_update I)"

lemma pres_snd: "pres I m \<Longrightarrow> I s \<Longrightarrow> I (snd (m s))"
  by (metis presD prod.collapse)

locale system_step =
  fixes I :: "db \<Rightarrow> bool"
  assumes admin: "admin I"
    and master: "master_blind I"
    and documents: "documents_blind I"
    and item_cost: "okp I (cost_repository_create ic)"
    and inspection_order: "pres I (inspection_order_create env ctx ior)"
    and inspection_complete: "pres I (inspection_order_complete env ctx k irs)"
    and transfer_line: "okp I (transfer_line env k l x)"
    and check_line: "okp I (check_line env k w y)"
    and initial: "okp I (adjust env i w q ''inventory_initial'' k)"
    and finished: "lc_tx_type cmd = Inbound \<Longrightarrow> okp I (receive env cmd)"
    and receipt_line: "okp I (receipt_line env od rc l1)"
    and return_line: "okp I (return_line env l2)"
    and delivery_line: "okp I (delivery_line env od dl l3)"
    and pick_line: "okp I (pick_line env k p)"
    and purchase_order_line: "pl_received_qty pl = 0 \<Longrightarrow> okp I (insert_purchase_order_line pl)"
    and sales_order_line: "sl_delivered_qty sl = 0 \<Longrightarrow> okp I (insert_sales_order_line sl)"
    and material: "wm_picked_qty wm = Some 0 \<Longrightarrow> okp I (insert_work_order_material wm)"
    and purchase_invoice: "pi_paid_amount pin = 0 \<Longrightarrow> okp I (insert_purchase_invoice pin)"
    and sales_invoice: "si_paid_amount sin = 0 \<Longrightarrow> pres I (insert_sales_invoice sin)"
    and payment: "pres I (payment_create env ctx pr)"
begin

lemma documentsD:
  "ignores warehouses_update I" "ignores stock_transfers_update I" "ignores stock_transfer_items_update I"
  "ignores inventory_checks_update I" "ignores inventory_check_items_update I"
  "ignores purchase_orders_update I" "ignores purchase_receipts_update I"
  "ignores purchase_returns_update I" "ignores purchase_return_lines_update I"
  "ignores sales_orders_update I" "ignores sales_deliveries_update I" "ignores work_orders_update I"
  "ignores work_order_operations_update I" "ignores production_receipts_update I"
  using documents by (simp_all add: documents_blind_def)

lemma masterD:
  "ignores item_categories_update I" "ignores items_update I" "ignores item_units_update I"
  "ignores customers_update I" "ignores suppliers_update I" "ignores boms_update I"
  "ignores bom_items_update I" "ignores molds_update I" "ignores inspection_templates_update I"
  "ignores inspection_template_items_update I" "ignores non_conformances_update I"
  using master by (simp_all add: master_blind_def)

lemmas master_frames =
  frame_item_categories [OF admin masterD(1)] frame_items [OF admin masterD(2)]
  frame_item_unit_create [OF admin masterD(3)] frame_item_cost_create [OF admin item_cost]
  frame_customers [OF admin masterD(4)] frame_suppliers [OF admin masterD(5)]
  frame_products [OF admin masterD(6,7,8)]
  frame_template_create [OF admin masterD(9,10)] frame_non_conformance_create [OF admin masterD(11)]
  inspection_order inspection_complete

lemmas warehouse_frames =
  frame_warehouse_create [OF admin documentsD(1)]
  frame_warehouse_update [OF admin documentsD(1)]
  frame_warehouse_delete [OF admin documentsD(1)]
  frame_stock_transfer_create [OF admin documentsD(2,3)]
  frame_stock_transfer_submit [OF admin documentsD(2)]
  frame_stock_transfer_approve [OF admin documentsD(2) transfer_line]
  frame_inventory_check_create [OF admin documentsD(4,5)]
  frame_inventory_check_submit [OF admin documentsD(4)]
  frame_inventory_check_approve [OF admin documentsD(4) check_line]
  frame_inventory_initial [OF admin initial]

lemmas purchase_frames =
  frame_purchase_order_create [OF admin documentsD(6) purchase_order_line]
  frame_purchase_order_actions [OF admin documentsD(6)]
  frame_purchase_receipt_create [OF admin documentsD(7) receipt_line]
  frame_purchase_return_create [OF admin documentsD(8,9)]
  frame_purchase_return_submit [OF admin documentsD(8)]
  frame_purchase_return_approve [OF admin documentsD(8) return_line]
  frame_purchase_invoice_create [OF admin purchase_invoice]

lemmas sales_frames =
  frame_sales_order_create [OF admin documentsD(10) sales_order_line]
  frame_sales_order_actions [OF admin documentsD(10)]
  frame_sales_delivery_create [OF admin documentsD(11) delivery_line]
  frame_sales_invoice_create [OF admin sales_invoice]

lemmas production_frames =
  frame_work_order_create [OF admin documentsD(12,13) material]
  frame_work_order_actions [OF admin documentsD(12)]
  frame_operation_report [OF admin documentsD(12,13)]
  frame_material_pick [OF admin pick_line]
  frame_production_receipt_create [OF admin documentsD(14) finished]

lemmas frames = warehouse_frames purchase_frames sales_frames production_frames payment

lemma perform_master_keeps: "I s \<Longrightarrow> I (perform_master env ctx r s)"
  by (cases r) (simp_all add: master_frames [THEN pres_snd])

lemma perform_keeps: "I s \<Longrightarrow> I (perform env ctx r s)"
  by (cases r) (simp_all add: frames [THEN pres_snd] perform_master_keeps)

lemma from_keeps: "reachable_from s0 s \<Longrightarrow> I s0 \<Longrightarrow> I s"
  by (induction rule: reachable_from.induct) (auto intro: perform_keeps)

end

locale system_invariant = system_step +
  assumes init: "I empty_db"
begin

lemma reachable_keeps: "reachable s \<Longrightarrow> I s"
  by (rule from_keeps) (auto intro: init)

end

section \<open>The invariants\<close>

lemmas blind_defs = admin_def master_blind_def documents_blind_def ledger_blind_def posted_def ignores_def

text \<open>
  An invariant that ignores the ledger's tables, the lines and the costs, apart from the ones its
  own hooks are about.
\<close>

lemma okp_inserts_blind:
  "ignores purchase_order_lines_update I \<Longrightarrow> okp I (insert_purchase_order_line pl)"
  "ignores sales_order_lines_update I \<Longrightarrow> okp I (insert_sales_order_line sl)"
  "ignores work_order_materials_update I \<Longrightarrow> okp I (insert_work_order_material wm)"
  unfolding insert_purchase_order_line_def insert_sales_order_line_def insert_work_order_material_def
  by (auto intro!: okp_insert_row simp: ignores_def)

lemma okp_return_line_blind:
  assumes "ledger_blind I" "ignores purchase_order_lines_update I"
  shows "okp I (return_line env j)"
  unfolding return_line_def using assms
  by (intro okp_intros okp_leaves okp_ledger_blind) (simp_all add: ignores_def)

lemmas blind_hooks = okp_cost_repository_blind frame_inspection_order_create frame_inspection_complete
  okp_return_line_blind okp_inserts_blind okp_insert_purchase_invoice_blind pres_insert_sales_invoice_blind
  frame_payment_create okp_warehouse_lines okp_ledger_blind okp_purchase_lines_blind
  okp_sales_lines_blind okp_pick_line_blind

lemmas ledger_inv_defs = ledger_inv_def log_of_def stock_def

interpretation ledger: system_invariant ledger_inv
  by unfold_locales
    (rule ledger_inv_empty okp_warehouse_lines_ledger okp_adjust okp_purchase_lines_ledger
      okp_delivery_line_ledger okp_pick_line_ledger blind_hooks okp_receive |
     simp add: blind_defs ledger_inv_defs inbound_def)+

interpretation costs: system_invariant cost_inv
  by unfold_locales
    (rule cost_inv_empty okp_receipt_line_cost okp_cost_repository_inv blind_hooks | simp add: blind_defs cost_inv_def)+

interpretation received: system_invariant receipt_inv
  by unfold_locales
    (rule receipt_inv_empty okp_receipt_line_inv okp_return_line_inv okp_new_order_line_inv blind_hooks |
     assumption | simp add: blind_defs receipt_inv_def)+

interpretation delivered: system_invariant delivery_inv
  by unfold_locales
    (rule delivery_inv_empty okp_delivery_line_inv okp_new_sales_line_inv blind_hooks |
     assumption | simp add: blind_defs delivery_inv_def)+

interpretation picked: system_invariant pick_inv
  by unfold_locales
    (rule pick_inv_empty okp_pick_line_inv okp_new_material_inv blind_hooks |
     assumption | simp add: blind_defs pick_inv_def)+

interpretation paid: system_invariant payment_inv
  by unfold_locales
    (rule payment_inv_empty pres_payment_create pres_new_sales_invoice okp_new_purchase_invoice
      blind_hooks | assumption | simp add: blind_defs payment_inv_def)+

interpretation verdicts: system_invariant verdict_inv
  by unfold_locales
    (rule verdict_inv_empty verdict_inv_new verdict_inv_complete blind_hooks |
     simp add: blind_defs verdict_inv_def)+

text \<open>The ledger is a journal: no request removes or changes a movement, it can only add some.\<close>

lemma log_grows: "ledger_blind (\<lambda>s. prefix l (inventory_transactions s))"
  by (simp add: ledger_blind_def posted_def)

interpretation journal: system_step "\<lambda>s. prefix l (inventory_transactions s)" for l
  by unfold_locales
    (rule log_grows blind_hooks | simp add: admin_def master_blind_def documents_blind_def ignores_def)+

text \<open>The approval flows of all domains.\<close>

definition all_flows :: "state_transitions list" where
  "all_flows = [PO_FLOW, RET_FLOW, SO_FLOW, TR_FLOW, CH_FLOW]"

end
