(* ===== verification/Run.thy ===== *)
theory Run
  imports System Demo
begin

text \<open>
  A run of the system from a new installation: a category, an item, a warehouse and the initial
  stock.  The four databases are written out, and each is computed from the one before by its
  request; the last one is the reachable database the witnesses about reachable databases use.
\<close>

lemma one_padded: "zero_pad 6 (Suc 0) = ''000001''" "zero_pad 3 (Suc 0) = ''001''"
  by code_simp+

lemmas step_defs = monad_defs new_id_def next_seq_def insert_row_def audit_defs audit_insert_def Let_def
  fits_def fits_opt_def fk_opt_def demo_env_def demo_op_def seq_max_def one_padded empty_db_def

section \<open>Rows\<close>

definition run_category :: item_category where
  "run_category = \<lparr>ic_id = 1000, ic_name = ''Raw'', ic_parent_id = None, ic_sort_order = 0, ic_is_active = True\<rparr>"

definition run_item :: item where
  "run_item = \<lparr>i_id = 1002, i_code = ''RAW-000001'', i_name = ''ABS'', i_category_id = 1000,
     i_item_type = ItemRawMaterial, i_base_unit = ''kg'', i_parent_item_id = None, i_spec = None,
     i_is_active = True, i_reorder_point = 0, i_safety_stock = 0, i_version = 1\<rparr>"

definition run_warehouse :: warehouse where
  "run_warehouse = \<lparr>w_id = 1004, w_code = ''WH-001'', w_name = ''W'', w_type = RawMaterial, w_is_active = True\<rparr>"

definition run_inventory :: inventory where
  "run_inventory = \<lparr>inv_id = 1007, inv_item_id = 1002, inv_warehouse_id = 1004, inv_quantity = 500,
     inv_locked_qty = 0, inv_version = 1\<rparr>"

definition run_tx :: inventory_transaction where
  "run_tx = \<lparr>tx_id = 1008, tx_item_id = 1002, tx_warehouse_id = 1004, tx_type = 5, tx_quantity = 500,
     tx_batch_number = None, tx_reference_type = ''inventory_initial'', tx_reference_id = 1006,
     tx_before_quantity = 0, tx_after_quantity = 500\<rparr>"

definition run_audit :: "int \<Rightarrow> string \<Rightarrow> int \<Rightarrow> snapshot \<Rightarrow> audit_log" where
  "run_audit k e i x = \<lparr>al_id = k, al_operator_id = 7, al_action = 1, al_entity = e, al_entity_id = i,
     al_before = None, al_after = Some x, al_ip = None, al_user_agent = None\<rparr>"

lemmas run_rows = run_category_def run_item_def run_warehouse_def run_inventory_def run_tx_def
  run_audit_def row_of_item_def

section \<open>Databases\<close>

definition run_1 :: db where
  "run_1 = empty_db\<lparr>item_categories := [run_category],
     audit_logs := [run_audit 1001 ''item_category'' 1000 (SnapItemCategory run_category)], next_id := 2\<rparr>"

definition run_2 :: db where
  "run_2 = run_1\<lparr>items := [row_of_item run_item], sequences := (\<lambda>_. 0)(''seq_item_raw'' := 1),
     audit_logs := audit_logs run_1 @ [run_audit 1003 ''item'' 1002 (SnapItem run_item)], next_id := 4\<rparr>"

definition run_3 :: db where
  "run_3 = run_2\<lparr>warehouses := [\<lparr>wh_id = 1004, wh_code = ''WH-001'', wh_name = ''W'', wh_type = 1,
     wh_is_active = True\<rparr>], sequences := (\<lambda>_. 0)(''seq_item_raw'' := 1, ''seq_warehouse'' := 1),
     audit_logs := audit_logs run_2 @ [run_audit 1005 ''warehouse'' 1004 (SnapWarehouse run_warehouse)],
     next_id := 6\<rparr>"

definition run_4 :: db where
  "run_4 = run_3\<lparr>inventories := [run_inventory], inventory_transactions := [run_tx],
     audit_logs := audit_logs run_3 @ [run_audit 1009 ''inventory'' 1007 (SnapInventory run_inventory)],
     next_id := 10\<rparr>"

lemmas run_dbs = run_1_def run_2_def run_3_def run_4_def

section \<open>Steps\<close>

lemma run_step_1: "perform demo_env demo_op
    (MasterData (ItemCategoryCreate \<lparr>ccr_name = ''Raw'', ccr_parent_id = None, ccr_sort_order = None\<rparr>)) empty_db = run_1"
  by (simp add: step_defs item_category_create_def category_repository_create_def run_dbs run_rows)

lemma run_step_2: "perform demo_env demo_op
    (MasterData (ItemCreate \<lparr>cir_name = ''ABS'', cir_category_id = 1000, cir_item_type = ItemRawMaterial,
       cir_base_unit = ''kg'', cir_parent_item_id = None, cir_spec = None\<rparr>)) run_1 = run_2"
  by (simp add: step_defs item_create_def item_repository_create_def generate_code_def run_dbs run_rows)

lemma run_step_3: "perform demo_env demo_op (WarehouseCreate \<lparr>cw_name = ''W'', cw_type = RawMaterial\<rparr>) run_2 = run_3"
  by (simp add: step_defs warehouse_create_def warehouse_repository_create_def run_dbs run_rows)

lemma run_step_4: "perform demo_env demo_op
    (InventoryInitial \<lparr>iir_item_id = 1002, iir_warehouse_id = 1004, iir_quantity = 500\<rparr>) run_3 = run_4"
  by (simp add: step_defs inventory_initial_def adjust_def read_qty_def upsert_and_log_def
      upsert_inventory_def upsert_rows_def write_transaction_def inv_key_def i64_sub_def to_i64_def
      run_dbs run_rows)

lemma run_reachable: "reachable run_4"
  unfolding run_step_4 [symmetric] run_step_3 [symmetric] run_step_2 [symmetric] run_step_1 [symmetric]
  by (intro reachable_from.intros)

section \<open>Requests on the demonstration database\<close>

definition demo_issue :: "int \<Rightarrow> ledger_command" where
  "demo_issue q = \<lparr>lc_item_id = 1, lc_warehouse_id = 11, lc_quantity = q, lc_tx_type = Outbound,
     lc_reference_type = ''sales_delivery'', lc_reference_id = 5, lc_batch_number = None\<rparr>"

definition demo_receipt :: "int \<Rightarrow> create_receipt_request" where
  "demo_receipt q = \<lparr>crr_order_id = 61, crr_receipt_date = None, crr_remark = None,
     crr_lines = [\<lparr>crl_order_line_id = 62, crl_item_id = 1, crl_warehouse_id = 12, crl_quantity = q,
       crl_batch_number = None, crl_unit_cost = 30\<rparr>]\<rparr>"

definition demo_delivery :: "int \<Rightarrow> create_delivery_request" where
  "demo_delivery q = \<lparr>cdr_order_id = 71, cdr_remark = None,
     cdr_lines = [\<lparr>dli_order_line_id = 72, dli_item_id = 1, dli_warehouse_id = 11, dli_quantity = q,
       dli_batch_number = None\<rparr>]\<rparr>"

definition demo_payment :: "int \<Rightarrow> create_payment_request" where
  "demo_payment a = \<lparr>cpy_payment_type = 1, cpy_invoice_type = ''sales_invoice'', cpy_invoice_id = 73,
     cpy_amount = a, cpy_payment_date = None, cpy_payment_method = None, cpy_remark = None\<rparr>"

definition demo_quality :: db where
  "demo_quality = demo_db\<lparr>
     inspection_template_items := [\<lparr>ti_id = 92, ti_template_id = 91, ti_name = ''T'', ti_specification = None,
       ti_tolerance_upper = None, ti_tolerance_lower = None, ti_method = None, ti_is_required = True,
       ti_sort_order = 0\<rparr>],
     inspection_orders := [\<lparr>io_id = 93, io_code = ''IO-1'', io_template_id = Some 91, io_source_type = ''receipt'',
       io_source_id = 1, io_item_id = 1, io_lot_qty = 10, io_sample_qty = 2, io_inspector = None,
       io_result = None, io_status = 0, io_inspected_at = None\<rparr>]\<rparr>"

text \<open>Categories with a root, a child and a cycle; the Gregorian calendar as a day number.\<close>

definition demo_categories :: db where
  "demo_categories = empty_db\<lparr>item_categories := [
     \<lparr>ic_id = 1, ic_name = ''A'', ic_parent_id = None, ic_sort_order = 0, ic_is_active = True\<rparr>,
     \<lparr>ic_id = 2, ic_name = ''B'', ic_parent_id = Some 1, ic_sort_order = 0, ic_is_active = True\<rparr>,
     \<lparr>ic_id = 3, ic_name = ''C'', ic_parent_id = Some 4, ic_sort_order = 0, ic_is_active = True\<rparr>,
     \<lparr>ic_id = 4, ic_name = ''D'', ic_parent_id = Some 3, ic_sort_order = 0, ic_is_active = True\<rparr>]\<rparr>"

definition demo_ymd :: "int \<Rightarrow> int \<Rightarrow> int \<Rightarrow> int option" where
  "demo_ymd y m d =
     (let feb = (if y mod 4 = 0 \<and> (y mod 100 \<noteq> 0 \<or> y mod 400 = 0) then 29 else 28);
          days = [31, feb, 31, 30, 31, 30, 31, 31, 30, 31, 30, 31] in
      if 1 \<le> m \<and> m \<le> 12 \<and> 1 \<le> d \<and> d \<le> days ! nat (m - 1)
      then Some (365 * (y - 1) + (y - 1) div 4 - (y - 1) div 100 + (y - 1) div 400
                 + sum_list (take (nat (m - 1)) days) + d)
      else None)"

end
