(* ===== verification/Queries.thy ===== *)
theory Queries
  imports Run Paging Filter_Kit Identity
begin

text \<open>
  The read endpoints: the details of one document, and the listings with their filters, page by page
  (\<open>*_get.rs\<close>, \<open>*_list.rs\<close>, \<open>*_search.rs\<close> of the domains).  They only read.  A parameter of a listing that is
  absent does not restrict it; \<open>created_at\<close>, which the tables of the model leave out, the collation of the
  database and the meaning of \<open>ILIKE\<close> are arguments.  The listings are what the server answers when it
  executes the statement; the listing of the customers, whose statement carries text from the client that the
  server may not be able to read, has the refusal of the server as a result of its own.
\<close>

section \<open>Details\<close>

definition customer_get :: "int \<Rightarrow> customer m" where
  "customer_get k = fetch_or (customer_by_id k) (ECustomer PartyNotFound)"

definition supplier_get :: "int \<Rightarrow> supplier m" where
  "supplier_get k = fetch_or (supplier_by_id k) (ESupplier PartyNotFound)"

definition mold_get :: "int \<Rightarrow> mold m" where
  "mold_get k = fetch_or (\<lambda>s. lookup_by mo_id k (molds s)) (EProduct MoldNotFound)"

definition purchase_invoice_get :: "int \<Rightarrow> purchase_invoice m" where
  "purchase_invoice_get k =
     fetch_or (\<lambda>s. map_option purchase_invoice.truncate (lookup_by pi_id k (purchase_invoices s))) (EPurchase PurchaseNotFound)"

definition purchase_return_get :: "int \<Rightarrow> purchase_return m" where
  "purchase_return_get k =
     fetch_or (\<lambda>s. map_option purchase_return.truncate (lookup_by rt_id k (purchase_returns s))) (EPurchase PurchaseNotFound)"

definition non_conformance_get :: "int \<Rightarrow> non_conformance m" where
  "non_conformance_get k =
     fetch_or (\<lambda>s. map_option non_conformance.truncate (lookup_by nc_id k (non_conformances s))) (EQuality NonConformanceNotFound)"

definition bom_get :: "env \<Rightarrow> int \<Rightarrow> (bom \<times> bom_item list) m" where
  "bom_get env k =
     bindM (fetch_or (\<lambda>s. lookup_by bm_id k (boms s)) (EProduct BomNotFound)) (\<lambda>row.
     bindM (getsM (\<lambda>s. sort_key bi_sort_order (scan env (filter (\<lambda>r. bi_bom_id r = k) (bom_items s))))) (\<lambda>rows.
     retM (row, map (\<lambda>r. r\<lparr>bi_wastage_rate := Some (case bi_wastage_rate r of None \<Rightarrow> 0 | Some w \<Rightarrow> w)\<rparr>) rows)))"

definition purchase_receipt_get :: "env \<Rightarrow> int \<Rightarrow> (purchase_receipt \<times> purchase_receipt_line list) m" where
  "purchase_receipt_get env k =
     bindM (fetch_or (\<lambda>s. lookup_by pr_id k (purchase_receipts s)) (EPurchase PurchaseNotFound)) (\<lambda>receipt.
     bindM (getsM (\<lambda>s. scan env (filter (\<lambda>r. prl_receipt_id r = k) (purchase_receipt_lines s)))) (\<lambda>lines.
     retM (receipt, lines)))"

definition inspection_order_get :: "env \<Rightarrow> int \<Rightarrow> (inspection_order \<times> inspection_result list) m" where
  "inspection_order_get env k =
     bindM (fetch_or (\<lambda>s. lookup_by io_id k (inspection_orders s)) (EQuality InspectionNotFound)) (\<lambda>row.
     bindM (getsM (\<lambda>s. scan env (filter (\<lambda>r. ir_inspection_id r = k) (inspection_results s)))) (\<lambda>results.
     retM (row, results)))"

definition inspection_template_get :: "env \<Rightarrow> int \<Rightarrow> (inspection_template \<times> inspection_template_item list) m" where
  "inspection_template_get env k =
     bindM (fetch_or (\<lambda>s. lookup_by tpl_id k (inspection_templates s)) (EQuality TemplateNotFound)) (\<lambda>row.
     bindM (getsM (\<lambda>s. sort_key ti_sort_order (scan env (filter (\<lambda>r. ti_template_id r = k) (inspection_template_items s))))) (\<lambda>rows.
     retM (row, rows)))"

definition sales_order_get :: "env \<Rightarrow> int \<Rightarrow> (sales_order \<times> sales_order_line list) m" where
  "sales_order_get env k =
     bindM (fetch_or (read_sales_order k) (ESales SalesNotFound)) (\<lambda>order.
     bindM (getsM (\<lambda>s. sort_key sl_line_no (scan env (filter (\<lambda>l. sl_order_id l = k) (sales_order_lines s))))) (\<lambda>lines.
     retM (order, lines)))"

section \<open>Lists\<close>

record cost_item =
  ci_id :: int
  ci_cost_type :: int
  ci_unit_cost :: int
  ci_currency :: string
  ci_is_current :: bool
  ci_remark :: "string option"

text \<open>\<open>ORDER BY created_at DESC\<close>, with the column as an argument.\<close>

definition item_cost_list :: "(item_cost_row \<Rightarrow> int) \<Rightarrow> env \<Rightarrow> int \<Rightarrow> cost_item list m" where
  "item_cost_list created_at env k =
     bindM (getsM (\<lambda>s. sort_key (\<lambda>r. - created_at r) (scan env (filter (\<lambda>r. co_item_id r = k) (item_costs s))))) (\<lambda>rows.
     retM (map (\<lambda>r. \<lparr>ci_id = co_id r, ci_cost_type = co_cost_type r, ci_unit_cost = co_unit_cost r,
       ci_currency = (case co_currency r of None \<Rightarrow> ''CNY'' | Some c \<Rightarrow> c), ci_is_current = co_is_current r,
       ci_remark = co_remark r\<rparr>) rows))"

text \<open>\<open>ORDER BY code\<close>, in the collation of the database.\<close>

definition warehouse_list :: "(string \<Rightarrow> 'k :: linorder) \<Rightarrow> env \<Rightarrow> warehouse_row list m" where
  "warehouse_list collate env =
     getsM (\<lambda>s. sort_key (\<lambda>r. collate (wh_code r)) (scan env (filter wh_is_active (warehouses s))))"

section \<open>Listings\<close>

text \<open>\<open>and_where_option\<close>, and \<open>filter(|s| !s.is_empty())\<close> on a text.\<close>

definition only :: "'v option \<Rightarrow> ('v \<Rightarrow> bool) \<Rightarrow> bool" where
  "only p cond = (case p of None \<Rightarrow> True | Some v \<Rightarrow> cond v)"

definition given :: "string option \<Rightarrow> string option" where
  "given q = (if q = Some [] then None else q)"

text \<open>A page of the rows a query keeps, of which the columns \<open>cols\<close> are selected.\<close>

definition page_of :: "('r \<Rightarrow> int) \<Rightarrow> ('r \<Rightarrow> 'v) \<Rightarrow> ('r \<Rightarrow> bool) \<Rightarrow> cursor_paging_query \<Rightarrow> 'r list \<Rightarrow> 'v list \<times> int option" where
  "page_of key cols keep paging rows = map_prod (map cols) id (paginate key paging (filter keep rows))"

text \<open>\<open>ILIKE '%q%'\<close>: the argument says whether a text matches a pattern.\<close>

type_synonym ilike = "string \<Rightarrow> string \<Rightarrow> bool"

definition like_part :: "ilike \<Rightarrow> string \<Rightarrow> string \<Rightarrow> bool" where
  "like_part ilike q x = ilike x (''%'' @ q @ ''%'')"

record search_supplier_item =
  ssi_id :: int
  ssi_code :: string
  ssi_name :: string
  ssi_is_active :: bool

definition supplier_search :: "ilike \<Rightarrow> cursor_paging_query \<Rightarrow> string option \<Rightarrow> db \<Rightarrow> search_supplier_item list \<times> int option" where
  "supplier_search ilike paging q s =
     page_of su_id (\<lambda>r. \<lparr>ssi_id = su_id r, ssi_code = su_code r, ssi_name = su_name r, ssi_is_active = su_is_active r\<rparr>)
       (\<lambda>r. only (given q) (\<lambda>q. like_part ilike q (su_code r) \<or> like_part ilike q (su_name r)) \<and> su_is_active r)
       paging (suppliers s)"

record search_item_item =
  sii_id :: int
  sii_code :: string
  sii_name :: string
  sii_item_type :: int
  sii_is_active :: bool

definition item_search :: "ilike \<Rightarrow> cursor_paging_query \<Rightarrow> string option \<Rightarrow> int option \<Rightarrow> db \<Rightarrow> search_item_item list \<times> int option" where
  "item_search ilike paging q item_type s =
     page_of it_id (\<lambda>r. \<lparr>sii_id = it_id r, sii_code = it_code r, sii_name = it_name r, sii_item_type = it_item_type r,
         sii_is_active = it_is_active r\<rparr>)
       (\<lambda>r. only (given q) (\<lambda>q. like_part ilike q (it_code r) \<or> like_part ilike q (it_name r)) \<and>
            only item_type (\<lambda>t. it_item_type r = t) \<and> it_is_active r)
       paging (items s)"

record search_account_item =
  sai_id :: int
  sai_name :: string
  sai_phone :: string
  sai_privileged :: bool

definition account_search :: "ilike \<Rightarrow> cursor_paging_query \<Rightarrow> string option \<Rightarrow> id_state \<Rightarrow> search_account_item list \<times> int option" where
  "account_search ilike paging q s =
     page_of acc_id (\<lambda>r. \<lparr>sai_id = acc_id r, sai_name = acc_name r, sai_phone = acc_phone r, sai_privileged = acc_privileged r\<rparr>)
       (\<lambda>r. only (given q) (\<lambda>q. like_part ilike q (acc_phone r) \<or> like_part ilike q (acc_name r)))
       paging (is_accounts s)"

text \<open>A comparison with a missing value is unknown, and a row is kept only when the condition is true.\<close>

definition payment_search ::
  "ilike \<Rightarrow> cursor_paging_query \<Rightarrow> int option \<Rightarrow> string option \<Rightarrow> string option \<Rightarrow> db \<Rightarrow> payment list \<times> int option" where
  "payment_search ilike paging payment_type invoice_type q s =
     page_of pay_id (\<lambda>r. r)
       (\<lambda>r. only payment_type (\<lambda>t. pay_payment_type r = t) \<and> only (given invoice_type) (\<lambda>t. pay_invoice_type r = t) \<and>
            only (given q) (\<lambda>q. like_part ilike q (pay_code r) \<or>
              (case pay_remark r of None \<Rightarrow> False | Some x \<Rightarrow> like_part ilike q x)))
       paging (payments s)"

record purchase_order_item =
  poi_id :: int
  poi_code :: string
  poi_supplier_id :: int
  poi_status :: int
  poi_order_date :: int
  poi_total_amount :: int

definition purchase_order_search ::
  "cursor_paging_query \<Rightarrow> int option \<Rightarrow> int option \<Rightarrow> db \<Rightarrow> purchase_order_item list \<times> int option" where
  "purchase_order_search paging supplier_id status s =
     page_of po_id (\<lambda>r. \<lparr>poi_id = po_id r, poi_code = po_code r, poi_supplier_id = po_supplier_id r,
         poi_status = po_status r, poi_order_date = po_order_date r, poi_total_amount = po_total_amount r\<rparr>)
       (\<lambda>r. only supplier_id (\<lambda>k. po_supplier_id r = k) \<and> only status (\<lambda>x. po_status r = x))
       paging (purchase_orders s)"

text \<open>The row of a movement is what the listing shows of it.\<close>

definition inventory_transaction_search ::
  "cursor_paging_query \<Rightarrow> int option \<Rightarrow> int option \<Rightarrow> int option \<Rightarrow> db \<Rightarrow> inventory_transaction list \<times> int option" where
  "inventory_transaction_search paging item_id warehouse_id transaction_type s =
     page_of inventory_transaction.tx_id (\<lambda>r. r)
       (\<lambda>r. only item_id (\<lambda>i. tx_item_id r = i) \<and> only warehouse_id (\<lambda>w. tx_warehouse_id r = w) \<and>
            only transaction_type (\<lambda>t. tx_type r = t))
       paging (inventory_transactions s)"

text \<open>
  \<open>CAST(quantity AS DOUBLE PRECISION)\<close>: the nearest number with 53 significant bits, the even one of two.
  The cast of a 64-bit integer is an integer again.
\<close>

fun bits :: "nat \<Rightarrow> nat" where
  "bits a = (if a = 0 then 0 else Suc (bits (a div 2)))"

declare bits.simps [simp del]

lemma bits_numeral: "bits 0 = 0" "bits 1 = 1" "bits (Suc 0) = 1" "bits (numeral k) = Suc (bits (numeral k div 2))"
  by (simp_all add: bits.simps)

definition cast_double :: "int \<Rightarrow> int" where
  "cast_double n =
     (let a = nat \<bar>n\<bar>; u = 2 ^ (bits a - 53); q = a div u; r = a mod u in
      sgn n * int ((if u < 2 * r \<or> 2 * r = u \<and> odd q then q + 1 else q) * u))"

record inventory_item =
  ivi_id :: int
  ivi_item_id :: int
  ivi_warehouse_id :: int
  ivi_quantity :: int
  ivi_locked_qty :: int

definition inventory_search :: "cursor_paging_query \<Rightarrow> int option \<Rightarrow> db \<Rightarrow> inventory_item list \<times> int option" where
  "inventory_search paging warehouse_id s =
     page_of inv_id (\<lambda>r. \<lparr>ivi_id = inv_id r, ivi_item_id = inv_item_id r, ivi_warehouse_id = inv_warehouse_id r,
         ivi_quantity = cast_double (inv_quantity r), ivi_locked_qty = cast_double (inv_locked_qty r)\<rparr>)
       (\<lambda>r. only warehouse_id (\<lambda>w. inv_warehouse_id r = w))
       paging (inventories s)"

text \<open>
  Customers, with the filter language.  What a comparison says of a row is an argument; a condition has no
  negation, so a comparison that is unknown counts as false.
\<close>

definition FILTER_SCHEMA :: filter_schema where
  "FILTER_SCHEMA = \<lparr>text_fields = map lit [''code'', ''name'', ''phone'', ''contact_person''],
     date_fields = map lit [''created_at''], int_fields = []\<rparr>"

type_synonym comparison_meaning = "customer \<Rightarrow> utext \<Rightarrow> op \<Rightarrow> sql_value \<Rightarrow> bool"

fun satisfies :: "comparison_meaning \<Rightarrow> sql_expr \<Rightarrow> customer \<Rightarrow> bool" where
  "satisfies holds (SqlCmp col oper v) r = holds r col oper v"
| "satisfies holds (SqlAnd l x) r = (satisfies holds l r \<and> satisfies holds x r)"
| "satisfies holds (SqlOr l x) r = (satisfies holds l r \<or> satisfies holds x r)"

record search_customer_item =
  sci_id :: int
  sci_code :: string
  sci_name :: string
  sci_is_active :: bool
  sci_phone :: "string option"
  sci_contact_person :: "string option"

definition listed_customer :: "customer \<Rightarrow> search_customer_item" where
  "listed_customer r = \<lparr>sci_id = cu_id r, sci_code = cu_code r, sci_name = cu_name r, sci_is_active = cu_is_active r,
     sci_phone = cu_phone r, sci_contact_person = cu_contact_person r\<rparr>"

text \<open>
  The filter is parsed first.  The server may refuse the statement: a text of the client that is not a
  \<open>TIMESTAMPTZ\<close> or not a pattern, a lost connection.  Which statements it refuses, and with what message, is an
  argument: the condition, the page and the rows.  \<open>None\<close> is the parser out of fuel, which does not happen.
\<close>

type_synonym query_refusal = "sql_expr option \<Rightarrow> cursor_paging_query \<Rightarrow> customer list \<Rightarrow> string option"

datatype search_error = BadFilter filter_error | QueryFailed string

definition customer_search :: "query_refusal \<Rightarrow> comparison_meaning \<Rightarrow> cursor_paging_query \<Rightarrow> utext option \<Rightarrow> db \<Rightarrow>
    (search_error + search_customer_item list \<times> int option) option" where
  "customer_search refuses holds paging filter_text s =
     (case filter_where filter_text FILTER_SCHEMA of
        None \<Rightarrow> None
      | Some (Inl e) \<Rightarrow> Some (Inl (BadFilter e))
      | Some (Inr cond) \<Rightarrow> Some (case refuses cond paging (customers s) of
            Some msg \<Rightarrow> Inl (QueryFailed msg)
          | None \<Rightarrow> Inr (page_of cu_id listed_customer
              (\<lambda>r. cu_is_active r \<and> only cond (\<lambda>e. satisfies holds e r)) paging (customers s))))"

section \<open>Reading all pages\<close>

fun read_pages :: "nat \<Rightarrow> (cursor_paging_query \<Rightarrow> 'v list \<times> int option) \<Rightarrow> int option \<Rightarrow> int option \<Rightarrow> 'v list option" where
  "read_pages 0 page limit cursor = None"
| "read_pages (Suc n) page limit cursor =
     (case page \<lparr>cpq_cursor = cursor, cpq_limit = limit\<rparr> of
        (rows, None) \<Rightarrow> Some rows
      | (rows, Some c) \<Rightarrow> map_option ((@) rows) (read_pages n page limit (Some c)))"

lemma read_pages_follow:
  "read_pages n (\<lambda>paging. page_of key cols keep paging rows) limit cursor =
   map_option (\<lambda>ps. map cols (concat ps)) (follow n key limit cursor (filter keep rows))"
proof (induction n arbitrary: cursor)
  case (Suc n)
  then show ?case
    by (auto simp: page_of_def option.map_comp comp_def split: prod.splits option.splits)
qed simp

lemma read_all_pages:
  assumes "distinct (map key rows)" "length (filter keep rows) < n"
  shows "read_pages n (\<lambda>paging. page_of key cols keep paging rows) limit None =
     Some (map cols (newest_first key (filter keep rows)))"
proof -
  have "distinct (map key (filter keep rows))" using assms(1) by (rule distinct_map_filter)
  from follow_remaining [OF this, of None 0 n limit] assms(2)
  obtain ps where "follow n key limit None (filter keep rows) = Some ps" "concat ps = newest_first key (filter keep rows)"
    by (auto simp: remaining_def newest_first_def simp del: follow.simps)
  then show ?thesis by (simp add: read_pages_follow)
qed

lemma page_of_keeps: "x \<in> set (fst (page_of key cols keep paging rows)) \<Longrightarrow> \<exists>r \<in> set rows. keep r \<and> x = cols r"
proof -
  assume x: "x \<in> set (fst (page_of key cols keep paging rows))"
  have "set (fst (paginate key paging (filter keep rows))) \<subseteq> set (filter keep rows)"
    by (auto simp: paginate_def finalize_def apply_keyset_def Let_def dest!: in_set_takeD in_set_butlastD)
  then show ?thesis using x by (auto simp: page_of_def)
qed

section \<open>Rounded quantities\<close>

lemma below_bits: "a < 2 ^ bits a"
proof (induction a rule: bits.induct)
  case (1 a)
  then show ?case by (cases "a = 0") (simp_all add: bits.simps [of a] field_simps)
qed

lemma bits_le: "a < 2 ^ n \<Longrightarrow> bits a \<le> n"
proof (induction a arbitrary: n rule: bits.induct)
  case (1 a)
  show ?case
  proof (cases "a = 0")
    case False
    then obtain m where "n = Suc m" using 1 by (cases n) auto
    then show ?thesis using 1 False by (simp add: bits.simps [of a] less_mult_imp_div_less mult.commute)
  qed (simp add: bits.simps)
qed

lemma round_near:
  fixes a u :: nat
  assumes "0 < u"
  defines "m \<equiv> (if u < 2 * (a mod u) \<or> 2 * (a mod u) = u \<and> odd (a div u) then a div u + 1 else a div u)"
  shows "2 * \<bar>int (m * u) - int a\<bar> \<le> int u"
proof -
  define q r where "q = a div u" and "r = a mod u"
  have a: "a = q * u + r" and r: "r < u" using assms(1) by (simp_all add: q_def r_def)
  show ?thesis
  proof (cases "u < 2 * r \<or> 2 * r = u \<and> odd q")
    case True
    then have m: "m = q + 1" by (simp add: m_def q_def r_def)
    have "int (m * u) - int a = int u - int r" by (simp add: m a algebra_simps)
    then show ?thesis using True r by auto
  next
    case False
    then have m: "m = q" by (simp add: m_def q_def r_def)
    have "int (m * u) - int a = - int r" by (simp add: m a)
    then show ?thesis using False r by auto
  qed
qed

lemma sgn_scaled: "\<bar>sgn n * x - n\<bar> \<le> \<bar>x - int (nat \<bar>n\<bar>)\<bar>" for n x :: int
  by (cases "n = 0"; cases "0 < n") auto

lemma cast_double_near: "2 * \<bar>cast_double n - n\<bar> \<le> 2 ^ (bits (nat \<bar>n\<bar>) - 53)"
proof -
  define a where "a = nat \<bar>n\<bar>"
  define u :: nat where "u = 2 ^ (bits a - 53)"
  define m where "m = (if u < 2 * (a mod u) \<or> 2 * (a mod u) = u \<and> odd (a div u) then a div u + 1 else a div u)"
  have near: "2 * \<bar>int (m * u) - int a\<bar> \<le> int u" unfolding m_def by (rule round_near) (simp add: u_def)
  have cast: "cast_double n = sgn n * int (m * u)" by (simp only: cast_double_def Let_def m_def u_def a_def)
  have "\<bar>sgn n * int (m * u) - n\<bar> \<le> \<bar>int (m * u) - int a\<bar>" unfolding a_def by (rule sgn_scaled)
  then have "2 * \<bar>cast_double n - n\<bar> \<le> 2 * \<bar>int (m * u) - int a\<bar>" unfolding cast by (rule mult_left_mono) simp
  from order_trans [OF this near] show ?thesis by (simp add: u_def a_def)
qed

lemma cast_double_small: "\<bar>n\<bar> < 2 ^ 53 \<Longrightarrow> cast_double n = n"
proof -
  assume "\<bar>n\<bar> < 2 ^ 53"
  then have "nat \<bar>n\<bar> < 2 ^ 53" by (simp add: nat_less_iff)
  then have "bits (nat \<bar>n\<bar>) \<le> 53" by (rule bits_le)
  then have "2 * \<bar>cast_double n - n\<bar> \<le> 1" using cast_double_near [of n] by simp
  then show ?thesis by arith
qed

lemma cast_double_i64: "in_i64 n \<Longrightarrow> \<bar>cast_double n - n\<bar> \<le> 512"
proof -
  assume n: "in_i64 n"
  show ?thesis
  proof (cases "n = - (2 ^ 63)")
    case True
    then show ?thesis by (simp add: cast_double_def Let_def bits_numeral)
  next
    case False
    then have "nat \<bar>n\<bar> < 2 ^ 63" using n by (auto simp: in_i64_def i64_min_def i64_max_def nat_less_iff)
    then have "bits (nat \<bar>n\<bar>) \<le> 63" by (rule bits_le)
    then have "(2 :: int) ^ (bits (nat \<bar>n\<bar>) - 53) \<le> 2 ^ 10" by (intro power_increasing) auto
    then show ?thesis using cast_double_near [of n] by simp
  qed
qed

section \<open>Movements are numbered once\<close>

definition tx_ids :: "db \<Rightarrow> bool" where
  "tx_ids s = distinct (map inventory_transaction.tx_id (inventory_transactions s))"

lemma tx_ids_blind: "ledger_blind tx_ids"
  by (auto simp: ledger_blind_def tx_ids_def fresh_tx_def has_key_def tx_row_def)

interpretation movements: system_invariant tx_ids
  by unfold_locales
    (rule tx_ids_blind blind_hooks okp_ledger_blind | simp add: admin_def master_blind_def documents_blind_def ignores_def tx_ids_def empty_db_def)+

text \<open>
  C3. What the listing of movements shows adds up to the stock. In every reachable database, a client that reads
  the movements of an item in a warehouse page by page, whatever its page size, gets every movement of the two
  once, in as many requests as there are movements and one, and the signed quantities it got add up, modulo 2^64,
  to the stock.
\<close>
theorem movements_listed_add_up:
  assumes "reachable s"
  shows "\<exists>ms. read_pages (Suc (length (log_of s (i, w)))) (\<lambda>paging. inventory_transaction_search paging (Some i) (Some w) None s) limit None = Some ms \<and>
     mset ms = mset (log_of s (i, w)) \<and> eq64 (stock s (i, w)) (sum_list (map signed_qty ms))"
proof -
  let ?keep = "\<lambda>r. only (Some i) (\<lambda>i. tx_item_id r = i) \<and> only (Some w) (\<lambda>w. tx_warehouse_id r = w) \<and>
      only None (\<lambda>t. tx_type r = t)"
  let ?ms = "newest_first inventory_transaction.tx_id (log_of s (i, w))"
  have log: "filter ?keep (inventory_transactions s) = log_of s (i, w)"
    by (simp add: log_of_def only_def tx_key_def)
  have "distinct (map inventory_transaction.tx_id (inventory_transactions s))"
    using movements.reachable_keeps [OF assms] by (simp add: tx_ids_def)
  from read_all_pages [OF this, of ?keep "Suc (length (log_of s (i, w)))" "\<lambda>r. r" limit]
  have "read_pages (Suc (length (log_of s (i, w)))) (\<lambda>paging. inventory_transaction_search paging (Some i) (Some w) None s) limit None = Some ?ms"
    unfolding inventory_transaction_search_def log by simp
  moreover have ms: "mset ?ms = mset (log_of s (i, w))" by (simp add: newest_first_def)
  moreover have "sum_list (map signed_qty ?ms) = sum_list (map signed_qty (log_of s (i, w)))"
    using arg_cong [OF ms, of "\<lambda>m. sum_mset (image_mset signed_qty m)"] by (simp flip: sum_mset_sum_list)
  moreover have "eq64 (stock s (i, w)) (sum_list (map signed_qty (log_of s (i, w))))"
    using chained_sum [OF ledger_invD [OF ledger.reachable_keeps [OF assms]]] by simp
  ultimately show ?thesis by metis
qed

lemma movements_listed_add_up_witness:
  "\<exists>ms. read_pages 2 (\<lambda>paging. inventory_transaction_search paging (Some 1002) (Some 1004) None run_4) (Some 1) None = Some ms \<and>
     mset ms = {#run_tx#} \<and> eq64 500 (sum_list (map signed_qty ms))"
proof -
  have "log_of run_4 (1002, 1004) = [run_tx]" "stock run_4 (1002, 1004) = 500"
    by (simp_all add: stock_def log_of_def run_4_def run_rows inv_key_def tx_key_def)
  then show ?thesis using movements_listed_add_up [OF run_reachable, of 1002 1004 "Some 1"]
    by (simp add: numeral_2_eq_2 del: read_pages.simps)
qed

text \<open>
  C16. Listed quantities are rounded. In every reachable database with quantities of 64 bits, what the listing of the
  stock shows of an item in a warehouse differs from its stock by 512 at most, and is the stock when that is below
  2^53; beyond, different stocks can look the same.
\<close>
theorem listed_stock_rounded:
  assumes "reachable s" "in_i64 (stock s (ivi_item_id x, ivi_warehouse_id x))"
    "x \<in> set (fst (inventory_search paging warehouse_id s))"
  shows "\<bar>ivi_quantity x - stock s (ivi_item_id x, ivi_warehouse_id x)\<bar> \<le> 512 \<and>
    (\<bar>stock s (ivi_item_id x, ivi_warehouse_id x)\<bar> < 2 ^ 53 \<longrightarrow> ivi_quantity x = stock s (ivi_item_id x, ivi_warehouse_id x)) \<and>
    only warehouse_id (\<lambda>w. ivi_warehouse_id x = w) \<and> cast_double (2 ^ 53 + 1) = cast_double (2 ^ 53)"
proof -
  let ?q = "stock s (ivi_item_id x, ivi_warehouse_id x)"
  obtain r where r: "r \<in> set (inventories s)" "only warehouse_id (\<lambda>w. inv_warehouse_id r = w)"
    and x: "ivi_item_id x = inv_item_id r" "ivi_warehouse_id x = inv_warehouse_id r" "ivi_quantity x = cast_double (inv_quantity r)"
    using page_of_keeps [OF assms(3) [unfolded inventory_search_def]] by auto
  have "distinct (map inv_key (inventories s))" using ledger.reachable_keeps [OF assms(1)] by (simp add: ledger_inv_def)
  from distinct_lookup_by [OF this r(1)] have q: "?q = inv_quantity r" by (simp add: stock_def x inv_key_def)
  have "\<bar>cast_double ?q - ?q\<bar> \<le> 512" using assms(2) by (rule cast_double_i64)
  moreover have "cast_double (2 ^ 53 + 1) = cast_double (2 ^ 53)" by (simp add: cast_double_def Let_def bits_numeral)
  ultimately show ?thesis using x r(2) q cast_double_small [of ?q] by simp
qed

lemma listed_stock_rounded_witness:
  "\<exists>x \<in> set (fst (inventory_search \<lparr>cpq_cursor = None, cpq_limit = None\<rparr> (Some 1004) run_4)).
     ivi_item_id x = 1002 \<and> ivi_quantity x = 500"
proof -
  let ?page = "inventory_search \<lparr>cpq_cursor = None, cpq_limit = None\<rparr> (Some 1004) run_4"
  obtain x where x: "x \<in> set (fst ?page)" "ivi_item_id x = 1002" "ivi_warehouse_id x = 1004"
    by (simp add: inventory_search_def page_of_def paginate_def finalize_def apply_keyset_def paging_limit_def only_def
        run_4_def run_rows)
  have "stock run_4 (1002, 1004) = 500" by (simp add: stock_def run_4_def run_rows inv_key_def)
  then have "ivi_quantity x = 500"
    using listed_stock_rounded [OF run_reachable _ x(1)] x by (simp add: i64_range_defs)
  then show ?thesis using x by blast
qed

section \<open>Customers out of use\<close>

text \<open>A client that reads all pages and stops at the first error.\<close>

fun read_or_fail :: "nat \<Rightarrow> (cursor_paging_query \<Rightarrow> ('e + 'v list \<times> int option) option) \<Rightarrow> int option \<Rightarrow> int option \<Rightarrow>
    ('e + 'v list) option" where
  "read_or_fail 0 page limit cursor = None"
| "read_or_fail (Suc n) page limit cursor =
     (case page \<lparr>cpq_cursor = cursor, cpq_limit = limit\<rparr> of
        None \<Rightarrow> None
      | Some (Inl e) \<Rightarrow> Some (Inl e)
      | Some (Inr (rows, None)) \<Rightarrow> Some (Inr rows)
      | Some (Inr (rows, Some c)) \<Rightarrow> map_option (map_sum id ((@) rows)) (read_or_fail n page limit (Some c)))"

lemma read_or_fail_cases:
  assumes "\<And>p. page p = Some (case refuses p of Some msg \<Rightarrow> Inl (err msg) | None \<Rightarrow> Inr (good p))"
  shows "read_or_fail n page limit cursor = map_option Inr (read_pages n good limit cursor) \<or>
    (\<exists>p msg. refuses p = Some msg \<and> read_or_fail n page limit cursor = Some (Inl (err msg)))"
proof (induction n arbitrary: cursor)
  case (Suc n)
  let ?p = "\<lparr>cpq_cursor = cursor, cpq_limit = limit\<rparr>"
  show ?case
  proof (cases "refuses ?p")
    case None
    obtain rows next_cursor where g: "good ?p = (rows, next_cursor)" by fastforce
    show ?thesis
    proof (cases next_cursor)
      case (Some c)
      have step: "read_or_fail (Suc n) page limit cursor = map_option (map_sum id ((@) rows)) (read_or_fail n page limit (Some c))"
        and pages: "read_pages (Suc n) good limit cursor = map_option ((@) rows) (read_pages n good limit (Some c))"
        using None g Some assms by simp_all
      from Suc.IH [of "Some c"] show ?thesis
        unfolding step pages by (elim disjE exE conjE) (auto simp: option.map_comp comp_def)
    qed (use None g assms in simp)
  qed (use assms in auto)
qed simp

definition customer_pages :: "query_refusal \<Rightarrow> comparison_meaning \<Rightarrow> utext option \<Rightarrow> db \<Rightarrow> int option \<Rightarrow>
    (search_error + search_customer_item list) option" where
  "customer_pages refuses holds filter_text s limit =
     read_or_fail (Suc (length (customers s))) (\<lambda>paging. customer_search refuses holds paging filter_text s) limit None"

definition kept_customer :: "comparison_meaning \<Rightarrow> sql_expr option \<Rightarrow> customer \<Rightarrow> bool" where
  "kept_customer holds cond r = (cu_is_active r \<and> only cond (\<lambda>e. satisfies holds e r))"

lemma customer_pages_cases:
  assumes "filter_where filter_text FILTER_SCHEMA = Some (Inr cond)" "distinct (map cu_id (customers s))"
  shows "customer_pages refuses holds filter_text s limit =
      Some (Inr (map listed_customer (newest_first cu_id (filter (kept_customer holds cond) (customers s))))) \<or>
    (\<exists>p msg. refuses cond p (customers s) = Some msg \<and> customer_pages refuses holds filter_text s limit = Some (Inl (QueryFailed msg)))"
proof -
  let ?good = "\<lambda>paging. page_of cu_id listed_customer (kept_customer holds cond) paging (customers s)"
  have page: "customer_search refuses holds p filter_text s =
      Some (case refuses cond p (customers s) of Some msg \<Rightarrow> Inl (QueryFailed msg) | None \<Rightarrow> Inr (?good p))" for p
    by (simp add: customer_search_def assms(1) kept_customer_def [abs_def] split: option.split)
  have "length (filter (kept_customer holds cond) (customers s)) < Suc (length (customers s))" by (simp add: le_imp_less_Suc)
  note all = read_all_pages [OF assms(2) this, of listed_customer limit]
  show ?thesis
    using read_or_fail_cases [where page = "\<lambda>paging. customer_search refuses holds paging filter_text s" and refuses = "\<lambda>p. refuses cond p (customers s)"
        and err = QueryFailed and good = ?good and n = "Suc (length (customers s))" and limit = limit and cursor = None, OF page]
    unfolding customer_pages_def all by simp
qed

lemma newest_first_filter: "newest_first key (filter p xs) = filter p (newest_first key xs)"
  by (simp add: newest_first_def filter_sort [symmetric] rev_filter)

lemma customer_delete_effect:
  assumes "customer_delete env ctx k s = (Inr True, t)"
  shows "has_key cu_id k (customers s) \<and>
    customers t = update_where (\<lambda>r. cu_id r = k) (\<lambda>r. r\<lparr>cu_is_active := False\<rparr>) (customers s)"
  using assms
  by (auto simp: customer_delete_def customer_repository_delete_def txnM_OK monad_OK
      record_deleted_opt_def record_deleted_def audit_insert_OK split: option.splits)

lemma kept_after_delete:
  "filter (kept_customer holds cond) (update_where (\<lambda>r. cu_id r = k) (\<lambda>r. r\<lparr>cu_is_active := False\<rparr>) rows) =
   filter (\<lambda>r. cu_id r \<noteq> k) (filter (kept_customer holds cond) rows)"
  by (induction rows) (auto simp: update_where_def kept_customer_def)

text \<open>
  C22. A deleted customer is out of the listing and still there. Under any filter the parser accepts and any page
  size, reading the customers page by page ends either with a failure, for a statement that the server
  refuses, or with exactly the customers in use that satisfy the filter, each once, newest first; after the deletion
  of a customer it ends in the same way without that one. The customer is read by its identifier as
  before, no longer in use.
\<close>
theorem deleted_customer_unlisted:
  assumes "distinct (map cu_id (customers s))" "customer_delete env ctx k s = (Inr True, t)"
    "filter_where filter_text FILTER_SCHEMA = Some (Inr cond)"
    "rows = map listed_customer (rev (sort_key cu_id (filter (\<lambda>r. cu_is_active r \<and> only cond (\<lambda>e. satisfies holds e r)) (customers s))))"
  shows "(customer_pages refuses holds filter_text s limit = Some (Inr rows) \<or>
      (\<exists>p msg. refuses cond p (customers s) = Some msg \<and> customer_pages refuses holds filter_text s limit = Some (Inl (QueryFailed msg)))) \<and>
    (customer_pages refuses holds filter_text t limit = Some (Inr (filter (\<lambda>x. sci_id x \<noteq> k) rows)) \<or>
      (\<exists>p msg. refuses cond p (customers t) = Some msg \<and> customer_pages refuses holds filter_text t limit = Some (Inl (QueryFailed msg)))) \<and>
    (\<exists>c. customer_get k s = (Inr c, s) \<and> customer_get k t = (Inr (c\<lparr>cu_is_active := False\<rparr>), t))"
proof -
  let ?keep = "kept_customer holds cond"
  have del: "has_key cu_id k (customers s)"
    "customers t = update_where (\<lambda>r. cu_id r = k) (\<lambda>r. r\<lparr>cu_is_active := False\<rparr>) (customers s)"
    using customer_delete_effect [OF assms(2)] by simp_all
  obtain c where c: "lookup_by cu_id k (customers s) = Some c" using del(1) by (auto simp: has_key_lookup)
  have "map cu_id (customers t) = map cu_id (customers s)" by (simp add: del(2) update_where_def)
  with assms(1) have ids: "distinct (map cu_id (customers t))" by simp
  have rows: "rows = map listed_customer (newest_first cu_id (filter ?keep (customers s)))"
    by (simp add: assms(4) newest_first_def kept_customer_def [abs_def])
  have "newest_first cu_id (filter ?keep (customers t)) = filter (\<lambda>r. cu_id r \<noteq> k) (newest_first cu_id (filter ?keep (customers s)))"
    unfolding del(2) kept_after_delete by (rule newest_first_filter)
  then have left: "map listed_customer (newest_first cu_id (filter ?keep (customers t))) = filter (\<lambda>x. sci_id x \<noteq> k) rows"
    by (simp add: rows filter_map comp_def listed_customer_def)
  have "customer_get k s = (Inr c, s)" "customer_get k t = (Inr (c\<lparr>cu_is_active := False\<rparr>), t)"
    using c by (auto simp: customer_get_def fetch_or_OK customer_by_id_def del(2) lookup_by_update_where dest: lookup_by_SomeD)
  then show ?thesis
    using customer_pages_cases [OF assms(3,1), of refuses holds limit] customer_pages_cases [OF assms(3) ids, of refuses holds limit]
    unfolding left rows by blast
qed

definition demo_customer :: "int \<Rightarrow> string \<Rightarrow> customer" where
  "demo_customer k code = \<lparr>cu_id = k, cu_code = code, cu_name = code, cu_contact_person = None, cu_phone = None,
     cu_address = None, cu_payment_terms = None, cu_is_active = True\<rparr>"

definition demo_customers :: db where
  "demo_customers = empty_db\<lparr>customers := [demo_customer 21 ''A'', demo_customer 22 ''B'', demo_customer 23 ''C'']\<rparr>"

lemma deleted_customer_unlisted_witness:
  "customer_pages (\<lambda>_ _ _. None) (\<lambda>_ _ _ _. True) None (snd (customer_delete demo_env demo_op 22 demo_customers)) (Some 1) =
     Some (Inr (map listed_customer [demo_customer 23 ''C'', demo_customer 21 ''A'']))"
proof -
  obtain t where t: "customer_delete demo_env demo_op 22 demo_customers = (Inr True, t)"
    by (simp add: customer_delete_def customer_repository_delete_def customer_by_id_def txnM_def record_deleted_opt_def
        demo_customers_def demo_customer_def lookup_by_def has_key_def update_where_def step_defs)
  have "filter_where None FILTER_SCHEMA = Some (Inr None)" by (simp add: filter_where_def)
  from deleted_customer_unlisted [OF _ t this refl, where limit = "Some 1" and holds = "\<lambda>_ _ _ _. True" and refuses = "\<lambda>_ _ _. None"] t show ?thesis
    by (simp add: demo_customers_def demo_customer_def only_def listed_customer_def sort_key_simps)
qed

text \<open>
  The parser accepts any text as a date, so the client learns of a bad one from the server only: when the
  server refuses to read the text as a \<open>TIMESTAMPTZ\<close>, the request ends with the failure of the statement.
\<close>

theorem date_values_not_checked:
  assumes "\<And>paging rows. refuses (Some (SqlCmp (lit ''created_at'') OpGt (VDate v))) paging rows = Some msg"
  shows "customer_search refuses holds paging (Some (print_node (Cmp \<lparr>cd_field = lit ''created_at'', cd_op = OpGt, cd_value = v\<rparr>))) s =
    Some (Inl (QueryFailed msg))"
proof -
  let ?t = "Cmp \<lparr>cd_field = lit ''created_at'', cd_op = OpGt, cd_value = v\<rparr>"
  have k: "col_kind_of FILTER_SCHEMA (lit ''created_at'') = Some KDate" by code_simp
  have "list_all is_ident_char (lit ''created_at'')" "lit ''created_at'' \<noteq> []" by code_simp+
  then have "printable FILTER_SCHEMA ?t" using k by (simp add: valid_def validate_def)
  from parse_print [OF this] have p: "parse (print_node ?t) FILTER_SCHEMA = Some (Inr ?t)" .
  have ends: "trim (99 # xs @ [39]) = 99 # xs @ [39]" for xs by (simp add: trim_def is_whitespace_def)
  have "lit ''created_at'' = 99 # lit ''reated_at''" by code_simp
  then have "trim (print_node ?t) = print_node ?t"
    using ends [of "lit ''reated_at'' @ lit (rsql_str OpGt) @ 39 # escape v"] by simp
  moreover have "print_node ?t \<noteq> []" by simp
  ultimately have "filter_where (Some (print_node ?t)) FILTER_SCHEMA = Some (Inr (Some (SqlCmp (lit ''created_at'') OpGt (VDate v))))"
    using p k by (simp add: filter_where_def comparison_expr_def Let_def)
  then show ?thesis using assms by (simp add: customer_search_def)
qed

end
