(* ===== verification/Meta.thy ===== *)
theory Meta
  imports Queries
begin

text \<open>
  What the server says of itself: the published filter language, \<open>bin/server/meta.rs\<close>, and the probe of
  \<open>features/health\<close>.  An object is the list of its members.
\<close>

section \<open>The filter language\<close>

definition ALL_OPS :: "op list" where
  "ALL_OPS = [OpEq, OpNeq, OpGt, OpGte, OpLt, OpLte, OpIlike]"

definition comparison_ops :: "(string \<times> string) list" where
  "comparison_ops = map (\<lambda>op. (op_as_str op, rsql_str op)) ALL_OPS"

definition field_kind :: "filter_schema \<Rightarrow> utext \<Rightarrow> string option" where
  "field_kind S field = map_option kind_name (col_kind_of S field)"

definition FILTER_SCHEMAS :: "(string \<times> filter_schema) list" where
  "FILTER_SCHEMAS = [(''customer'', FILTER_SCHEMA)]"

record filter_meta =
  fm_operator_matrix :: "(string \<times> string list) list"
  fm_comparison_operators :: "(string \<times> string) list"
  fm_entities :: "(string \<times> (utext \<times> string option) list) list"

definition meta_handler :: filter_meta where
  "meta_handler = \<lparr>
     fm_operator_matrix = map (\<lambda>(kind, ops). (kind, map op_as_str ops)) OPERATOR_MATRIX,
     fm_comparison_operators = comparison_ops,
     fm_entities = map (\<lambda>(name, S). (name, map (\<lambda>f. (f, field_kind S f)) (allowed_fields S))) FILTER_SCHEMAS\<rparr>"

section \<open>The probe\<close>

record pool_options =
  max_connections :: nat
  min_connections :: nat

record healthz_response =
  hz_uptime_seconds :: nat
  hz_image_tag :: "string option"
  hz_size :: nat
  hz_num_idle :: nat
  hz_max_connections :: nat
  hz_is_closed :: bool

definition healthz :: "nat \<Rightarrow> string option \<Rightarrow> pool_options \<Rightarrow> healthz_response" where
  "healthz uptime image_tag options = \<lparr>hz_uptime_seconds = uptime, hz_image_tag = image_tag,
     hz_size = max_connections options, hz_num_idle = 0, hz_max_connections = min_connections options,
     hz_is_closed = False\<rparr>"

section \<open>What is published is what is parsed\<close>

definition published :: "string \<Rightarrow> utext \<Rightarrow> string \<Rightarrow> bool" where
  "published entity f kind = (\<exists>fields. (entity, fields) \<in> set (fm_entities meta_handler) \<and> (f, Some kind) \<in> set fields)"

lemma published_kind:
  "(entity, S) \<in> set FILTER_SCHEMAS \<Longrightarrow>
   published entity f kind \<longleftrightarrow> (\<exists>k. kind = kind_name k \<and> col_kind_of S f = Some k)"
  by (auto simp: published_def meta_handler_def FILTER_SCHEMAS_def field_kind_def allowed_fields_def col_kind_of_def)

lemma published_ident:
  assumes "(entity, S) \<in> set FILTER_SCHEMAS" "col_kind_of S f = Some k"
  shows "f \<noteq> [] \<and> list_all is_ident_char f"
proof -
  have "list_all (\<lambda>f. f \<noteq> [] \<and> list_all is_ident_char f) (allowed_fields FILTER_SCHEMA)" by code_simp
  moreover have "f \<in> set (allowed_fields S)" using assms(2) by (auto simp: col_kind_of_def allowed_fields_def split: if_splits)
  ultimately show ?thesis using assms(1) by (auto simp: FILTER_SCHEMAS_def list_all_iff)
qed

lemma matrix_ops: "(kind_name k, names) \<in> set (fm_operator_matrix meta_handler) \<longleftrightarrow> names = map op_as_str (kind_ops k)"
  by (cases k) (auto simp: meta_handler_def OPERATOR_MATRIX_def)

lemma op_as_str_inj: "op_as_str p = op_as_str q \<Longrightarrow> p = q"
  by (cases p; cases q) simp_all

lemma wire_of: "(op_as_str p, wire) \<in> set (fm_comparison_operators meta_handler) \<longleftrightarrow> wire = rsql_str p"
  by (cases p) (auto simp: meta_handler_def comparison_ops_def ALL_OPS_def)

text \<open>
  C21. The published filter language is the one that is parsed. A client that takes a field of an entity, an operator
  the matrix lists for the type of the field, and its sign, and quotes any value, a number where the type is a number,
  gets just this comparison; and a filter that is accepted has only comparisons of published fields by operators
  published for their type.
\<close>
theorem filter_language_published:
  assumes "(entity, S) \<in> set FILTER_SCHEMAS"
  shows "(\<forall>f kind names name wire v. published entity f kind \<longrightarrow> (kind, names) \<in> set (fm_operator_matrix meta_handler) \<longrightarrow>
      name \<in> set names \<longrightarrow> (name, wire) \<in> set (fm_comparison_operators meta_handler) \<longrightarrow> (kind = ''int'' \<longrightarrow> parse_i64 v \<noteq> None) \<longrightarrow>
      (\<exists>p. op_as_str p = name \<and>
         parse (f @ lit wire @ lit [CHR 0x27] @ escape v @ lit [CHR 0x27]) S = Some (Inr (Cmp \<lparr>cd_field = f, cd_op = p, cd_value = v\<rparr>)))) \<and>
    (\<forall>xs t. parse xs S = Some (Inr t) \<longrightarrow> (\<forall>c \<in> set (conditions t). \<exists>kind names. published entity (cd_field c) kind \<and>
      (kind, names) \<in> set (fm_operator_matrix meta_handler) \<and> op_as_str (cd_op c) \<in> set names))"
proof (intro conjI allI impI ballI)
  fix f kind names name wire v
  assume f: "published entity f kind" and names: "(kind, names) \<in> set (fm_operator_matrix meta_handler)" "name \<in> set names"
    and wire: "(name, wire) \<in> set (fm_comparison_operators meta_handler)" and int: "kind = ''int'' \<longrightarrow> parse_i64 v \<noteq> None"
  from f obtain k where k: "kind = kind_name k" "col_kind_of S f = Some k" unfolding published_kind [OF assms] by blast
  from names obtain p where p: "name = op_as_str p" "p \<in> set (kind_ops k)" by (auto simp: k(1) matrix_ops)
  let ?c = "\<lparr>cd_field = f, cd_op = p, cd_value = v\<rparr>"
  have "printable S (Cmp ?c)" using published_ident [OF assms k(2)] k p int by (cases k) (auto simp: valid_def validate_def)
  from parse_print [OF this] show "\<exists>p. op_as_str p = name \<and> parse (f @ lit wire @ lit [CHR 0x27] @ escape v @ lit [CHR 0x27]) S =
      Some (Inr (Cmp \<lparr>cd_field = f, cd_op = p, cd_value = v\<rparr>))"
    using wire by (intro exI [of _ p]) (simp add: p(1) wire_of)
next
  fix xs t c
  assume "parse xs S = Some (Inr t)" and c: "c \<in> set (conditions t)"
  then have "all_valid S t" by (auto simp: parse_def parse_or_def split: option.splits sum.splits prod.splits if_splits dest!: descend_valid)
  then have "valid S c" using c by (simp add: all_valid_def)
  then obtain k where k: "col_kind_of S (cd_field c) = Some k" "cd_op c \<in> set (kind_ops k)"
    by (auto simp: valid_def validate_def split: option.splits if_splits)
  then have "published entity (cd_field c) (kind_name k)" unfolding published_kind [OF assms] by blast
  moreover have "(kind_name k, map op_as_str (kind_ops k)) \<in> set (fm_operator_matrix meta_handler)" by (simp add: matrix_ops)
  ultimately show "\<exists>kind names. published entity (cd_field c) kind \<and> (kind, names) \<in> set (fm_operator_matrix meta_handler) \<and>
      op_as_str (cd_op c) \<in> set names" using k(2) by fastforce
qed

lemma filter_language_published_witness:
  "parse (lit ''created_at'' @ lit ''=ge='' @ lit [CHR 0x27] @ escape (lit ''2024-03-15'') @ lit [CHR 0x27]) FILTER_SCHEMA =
     Some (Inr (Cmp \<lparr>cd_field = lit ''created_at'', cd_op = OpGte, cd_value = lit ''2024-03-15''\<rparr>))"
proof -
  have e: "(''customer'', FILTER_SCHEMA) \<in> set FILTER_SCHEMAS" by (simp add: FILTER_SCHEMAS_def)
  have k: "col_kind_of FILTER_SCHEMA (lit ''created_at'') = Some KDate" by code_simp
  have f: "published ''customer'' (lit ''created_at'') ''date''" unfolding published_kind [OF e] using k by (intro exI [of _ KDate]) simp
  have m: "(''date'', map op_as_str (kind_ops KDate)) \<in> set (fm_operator_matrix meta_handler)" using matrix_ops [of KDate] by simp
  have n: "''gte'' \<in> set (map op_as_str (kind_ops KDate))" by simp
  have w: "(''gte'', ''=ge='') \<in> set (fm_comparison_operators meta_handler)" using wire_of [of OpGte] by simp
  have d: "''date'' = ''int'' \<longrightarrow> parse_i64 (lit ''2024-03-15'') \<noteq> None" by simp
  note all = filter_language_published [OF e, THEN conjunct1, THEN spec, THEN spec, THEN spec, THEN spec, THEN spec, THEN spec,
      THEN mp, THEN mp, THEN mp, THEN mp, THEN mp]
  obtain p where p: "op_as_str p = ''gte''"
    "parse (lit ''created_at'' @ lit ''=ge='' @ lit [CHR 0x27] @ escape (lit ''2024-03-15'') @ lit [CHR 0x27]) FILTER_SCHEMA =
     Some (Inr (Cmp \<lparr>cd_field = lit ''created_at'', cd_op = p, cd_value = lit ''2024-03-15''\<rparr>))"
    using all [OF f m n w d] by (elim exE conjE)
  have "p = OpGte" using p(1) op_as_str_inj [of p OpGte] by simp
  with p(2) show ?thesis by (simp only:)
qed

end
