(* ===== verification/Housekeeping.thy ===== *)
theory Housekeeping
  imports Kv Event_Bus Job_Queue
begin

text \<open>
  The periodic jobs of the server, \<open>bin/server/internal_jobs.rs\<close>, over the key-value store, the event bus and
  the job queue, and the bridge from the scheduler to the queue, \<open>infrastructure/module/scheduled_job.rs\<close>.  The
  parser of the schedules and the metrics are left out: a sample is the numbers that are recorded.
\<close>

section \<open>The code\<close>

definition DEFAULT_DELIVERED_RETENTION_DAYS :: int where
  "DEFAULT_DELIVERED_RETENTION_DAYS = 30"

datatype internal_job = KvGc | BusGc | JobGc | BacklogMetrics

text \<open>The constants of a job; concurrency and timeout are the defaults of the trait.\<close>

definition default_concurrency :: nat where
  "default_concurrency = 1"

definition default_timeout :: nat where
  "default_timeout = 60 * 10 ^ 9"

fun internal_name :: "internal_job \<Rightarrow> string" where
  "internal_name KvGc = ''kv_gc''"
| "internal_name BusGc = ''bus_gc''"
| "internal_name JobGc = ''job_gc''"
| "internal_name BacklogMetrics = ''backlog_metrics''"

definition internal_def :: "internal_job \<Rightarrow> job_def" where
  "internal_def j = \<lparr>NAME = internal_name j, RETRIES = 0, CONCURRENCY = default_concurrency, TIMEOUT = default_timeout\<rparr>"

text \<open>The parts of the context the handlers use, their back ends and clocks.\<close>

record app_ctx =
  ax_kv :: kv_store
  ax_bus :: event_store
  ax_jobs :: job_store

record app_env =
  ae_kv_backend :: kv_backend
  ae_kv :: kv_env
  ae_event :: event_env
  ae_job_bus :: job_bus
  ae_job :: job_env

datatype app_error = AppKv kv_error | AppEvent event_error | AppJob job_error

datatype internal_outcome = Deleted nat | Sampled queue_backlog event_backlog

definition handle_kv_gc :: "app_env \<Rightarrow> app_ctx \<Rightarrow> (app_error + internal_outcome) \<times> app_ctx" where
  "handle_kv_gc env ctx = (case kv_delete_expired (ae_kv_backend env) (ae_kv env) (ax_kv ctx) of
     (r, t) \<Rightarrow> (map_sum AppKv Deleted r, ctx\<lparr>ax_kv := t\<rparr>))"

definition handle_bus_gc :: "app_env \<Rightarrow> app_ctx \<Rightarrow> (app_error + internal_outcome) \<times> app_ctx" where
  "handle_bus_gc env ctx = (case delete_delivered (ae_event env) DEFAULT_DELIVERED_RETENTION_DAYS (ax_bus ctx) of
     (r, t) \<Rightarrow> (map_sum AppEvent Deleted r, ctx\<lparr>ax_bus := t\<rparr>))"

definition handle_job_gc :: "app_env \<Rightarrow> app_ctx \<Rightarrow> (app_error + internal_outcome) \<times> app_ctx" where
  "handle_job_gc env ctx = (case delete_finished_older_than (ae_job_bus env) (ae_job env) DEFAULT_JOB_RETENTION_DAYS (ax_jobs ctx) of
     (r, t) \<Rightarrow> (map_sum AppJob Deleted r, ctx\<lparr>ax_jobs := t\<rparr>))"

definition handle_backlog_metrics :: "app_env \<Rightarrow> app_ctx \<Rightarrow> (app_error + internal_outcome) \<times> app_ctx" where
  "handle_backlog_metrics env ctx = (case fst (backlog (ax_jobs ctx)) of
     Inl e \<Rightarrow> (Inl (AppJob e), ctx)
   | Inr jobs \<Rightarrow> (case fst (event_backlog_of (ax_bus ctx)) of
       Inl e \<Rightarrow> (Inl (AppEvent e), ctx)
     | Inr events \<Rightarrow> (Inr (Sampled jobs events), ctx)))"

text \<open>\<open>register_internal_jobs\<close>: which handler a job has, and when it is enqueued.\<close>

fun internal_handler :: "internal_job \<Rightarrow> app_env \<Rightarrow> app_ctx \<Rightarrow> (app_error + internal_outcome) \<times> app_ctx" where
  "internal_handler KvGc = handle_kv_gc"
| "internal_handler BusGc = handle_bus_gc"
| "internal_handler JobGc = handle_job_gc"
| "internal_handler BacklogMetrics = handle_backlog_metrics"

definition internal_schedule :: "(string \<times> internal_job) list" where
  "internal_schedule = [(''every 5 minutes'', KvGc), (''every 10 minutes'', BusGc), (''0 0 4 * * *'', JobGc),
     (''*/30 * * * * *'', BacklogMetrics)]"

text \<open>\<open>ScheduledJob::run\<close>: a tick enqueues the job, whose payload is the empty object.\<close>

definition scheduled_run :: "app_env \<Rightarrow> internal_job \<Rightarrow> app_ctx \<Rightarrow> (app_error + unit) \<times> app_ctx" where
  "scheduled_run env j ctx = (case enqueue (ae_job_bus env) (ae_job env) (internal_def j) (Some ''{}'') (ax_jobs ctx) of
     (r, t) \<Rightarrow> (map_sum AppJob id r, ctx\<lparr>ax_jobs := t\<rparr>))"

section \<open>What housekeeping leaves alone\<close>

lemma single_attempt: "max_attempts_of (internal_def j) = 1"
  by (simp add: max_attempts_of_def internal_def_def to_i32_def)

lemma names_distinct: "internal_name i = internal_name j \<Longrightarrow> i = j"
  by (cases i; cases j) simp_all

lemma kv_gc_keeps:
  assumes "keys_distinct s" "kv_delete_expired b env s = (r, t)" "cell k s = Some e" "alive b env e"
  shows "cell k t = Some e"
  using kv_contract.gc_law [OF any_kv assms(1,2)] assms(3,4) by blast

lemma bus_gc_keeps:
  assumes "distinct (map ev_id (pg_events s))" "e \<in> set (pg_events s)" "ev_status e \<noteq> DvDelivered"
  shows "e \<in> set (pg_events (snd (delete_delivered env days s))) \<and>
    filter (\<lambda>d. dl_event_id d = ev_id e) (event_deliveries (snd (delete_delivered env days s))) =
    filter (\<lambda>d. dl_event_id d = ev_id e) (event_deliveries s)"
proof -
  define cutoff where "cutoff = ee_now env - max days 1 * 86400000000"
  have e: "\<not> delivered_before cutoff e" using assms(3) by (simp add: delivered_before_def)
  have "\<forall>x \<in> set (pg_events s). delivered_before cutoff x \<longrightarrow> ev_id x \<noteq> ev_id e"
    using assms(1,2) e by (auto simp: distinct_map inj_on_def)
  then have "filter (\<lambda>d. dl_event_id d = ev_id e) (filter (\<lambda>d. dl_event_id d \<notin> ev_id ` {x \<in> set (pg_events s). delivered_before cutoff x}) ds)
      = filter (\<lambda>d. dl_event_id d = ev_id e) ds" for ds :: "delivery list"
    by (induction ds) auto
  then show ?thesis using assms(2) e
    by (simp add: delete_delivered_def monad_defs Let_def cutoff_def [symmetric])
qed

text \<open>
  Housekeeping only removes what is over.  Whatever internal job runs, in whatever state, on any back end: a cache
  entry that is alive, an event that is not delivered, with all its deliveries, and a job that is waiting or running
  are there afterwards; and an internal job that fails is not retried.
\<close>
theorem housekeeping_keeps_live_data:
  assumes "keys_distinct (ax_kv ctx)" "distinct (map ev_id (pg_events (ax_bus ctx)))" "distinct (map wj_id (worker_jobs (ax_jobs ctx)))"
    and after_def: "after = snd (internal_handler j env ctx)"
  shows "(\<forall>k e. cell k (ax_kv ctx) = Some e \<longrightarrow> alive (ae_kv_backend env) (ae_kv env) e \<longrightarrow> cell k (ax_kv after) = Some e) \<and>
    (\<forall>e \<in> set (pg_events (ax_bus ctx)). ev_status e \<noteq> DvDelivered \<longrightarrow> e \<in> set (pg_events (ax_bus after)) \<and>
       filter (\<lambda>d. dl_event_id d = ev_id e) (event_deliveries (ax_bus after)) =
       filter (\<lambda>d. dl_event_id d = ev_id e) (event_deliveries (ax_bus ctx))) \<and>
    (\<forall>r \<in> set (worker_jobs (ax_jobs ctx)). wj_status r \<notin> {JobDone, JobFailed} \<longrightarrow> r \<in> set (worker_jobs (ax_jobs after))) \<and>
    max_attempts_of (internal_def j) = 1"
proof (cases j)
  case KvGc
  obtain r t where t: "kv_delete_expired (ae_kv_backend env) (ae_kv env) (ax_kv ctx) = (r, t)" by fastforce
  then have "after = ctx\<lparr>ax_kv := t\<rparr>" by (simp add: after_def KvGc handle_kv_gc_def)
  then show ?thesis using kv_gc_keeps [OF assms(1) t] single_attempt by simp
next
  case BusGc
  have "after = ctx\<lparr>ax_bus := snd (delete_delivered (ae_event env) DEFAULT_DELIVERED_RETENTION_DAYS (ax_bus ctx))\<rparr>"
    by (simp add: after_def BusGc handle_bus_gc_def split: prod.splits)
  then show ?thesis using bus_gc_keeps [OF assms(2)] single_attempt by simp
next
  case JobGc
  obtain P where P: "snd (delete_finished_older_than (ae_job_bus env) (ae_job env) DEFAULT_JOB_RETENTION_DAYS (ax_jobs ctx)) =
      (ax_jobs ctx)\<lparr>worker_jobs := filter P (worker_jobs (ax_jobs ctx))\<rparr>"
    "\<forall>r \<in> set (worker_jobs (ax_jobs ctx)). wj_status r \<notin> {JobDone, JobFailed} \<longrightarrow> P r"
    using collect_effect [of "ae_job_bus env" "ae_job env" DEFAULT_JOB_RETENTION_DAYS "ax_jobs ctx"] assms(3) by blast
  have "after = ctx\<lparr>ax_jobs := (ax_jobs ctx)\<lparr>worker_jobs := filter P (worker_jobs (ax_jobs ctx))\<rparr>\<rparr>"
    using P(1) by (auto simp: after_def JobGc handle_job_gc_def split: prod.splits)
  then show ?thesis using P(2) single_attempt by simp
next
  case BacklogMetrics
  then have "after = ctx" by (simp add: after_def handle_backlog_metrics_def split: sum.splits)
  then show ?thesis using single_attempt by simp
qed

text \<open>A tick adds one waiting job to the queue, if the clock is representable, and touches no row that is there.\<close>

lemma tick_enqueues:
  assumes "scheduled_run env j ctx = (Inr (), after)"
  shows "\<exists>r. worker_jobs (ax_jobs after) = worker_jobs (ax_jobs ctx) @ [r] \<and> wj_job_type r = internal_name j \<and>
    wj_status r = JobPending \<and> wj_attempts r = 0 \<and> wj_max_attempts r = 1 \<and> ax_kv after = ax_kv ctx \<and> ax_bus after = ax_bus ctx"
  using assms single_attempt [of j]
  by (cases "ae_job_bus env") (auto simp: scheduled_run_def enqueue_def enqueue_after_def pg_insert_def sqlite_insert_def insert_job_def monad_OK
      internal_def_def map_sum_def split: prod.splits job_bus.splits sum.splits)

end
