(* ===== verification/Spec2Isabelle.thy ===== *)
theory Spec2Isabelle
  imports Paging Filter_Kit Planning Job_Life Event_Bus Authz Audit_Log Files Money Meta Housekeeping Run
begin

text \<open>
  A verification development for \<open>slab\<close>, an ERP back end in Rust (axum, sqlx on PostgreSQL).

  \<^bold>\<open>The program.\<close>  The code is a set of vertical feature crates under \<open>src/features\<close> (one per
  domain, each with a \<open>*_contract\<close> crate of entities, errors and read-only ports), shared domain
  services under \<open>src/cross_domain\<close> (inventory ledger, weighted average costing, approval flows,
  document numbers) and infrastructure.  An endpoint is a function \<open>execute\<close> in a file of its own: it
  opens a transaction, reads and locks rows, checks guards, writes rows, calls the shared services,
  records an audit entry and commits.

  \<^bold>\<open>How it is modelled.\<close>
  \<^item> \<open>Prelude\<close>: programs as functions from a state to an error or a value and a new state
    (\<open>bindM\<close>, \<open>guardM\<close>, \<open>forM\<close>, \<open>txnM\<close>), with weakest preconditions (\<open>wp\<close>), preservation by every
    run (\<open>pres\<close>) and by successful runs (\<open>okp\<close>); 64-bit arithmetic with wrap-around, as in the release
    profile; decimal formatting; tables as lists of rows.
  \<^item> \<open>Schema\<close>, \<open>Database\<close>: the entities of the contract crates, the tables of the migrations, the
    errors, the environment (clocks, identifiers, scan order of unordered queries), transactions whose
    rollback keeps consumed sequence values, the constraints a statement can violate (lengths, unique
    keys, foreign keys, numeric range), document numbers and the audit trail.
  \<^item> \<open>Approval\<close>, \<open>Ledger\<close>, \<open>Costing\<close>: the shared services.  \<open>Fulfilment\<close>: the bookkeeping that
    receipts, deliveries and payments share.
  \<^item> \<open>Warehouse\<close>, \<open>Purchase\<close>, \<open>Sales\<close>, \<open>Production\<close>, \<open>Finance\<close>, \<open>Item\<close>, \<open>Party\<close> (customers and
    suppliers), \<open>Product\<close>, \<open>Quality\<close>: the domains, one definition per repository method and endpoint,
    in the order of the code, under the names of the code.
  \<^item> \<open>Planning\<close>: stock and goods in transit per item, purchase suggestions, reorder alerts, material
    requirements.  \<open>Paging\<close>: the keyset paging every listing uses.  \<open>Filter_Kit\<close>: the filter language of the
    listings (\<open>libs/filter_kit\<close>), from the text over the tree to the conditions of the query.
  \<^item> \<open>Job_Queue\<close>: the job table with its PostgreSQL and SQLite back ends, enqueueing, the worker loop, retries
    with back-off, the orphan sweep, the removal of old rows (\<open>infrastructure/job_queue\<close>).  \<open>Job_Life\<close>: the
    life of one job in endless fair runs of the queue.  \<open>Event_Bus\<close>: events
    and deliveries on PostgreSQL, the dispatcher with cycles that are cut off, retry plans (\<open>infrastructure/event_bus\<close>).  \<open>Authz\<close>: roles,
    permissions, their compilation into policies and the decision (\<open>libs/authz_kit\<close>).
  \<^item> \<open>Code_Points\<close>: texts as code points, numbers in decimal, shared by the parsers.  \<open>Kv\<close>: the key-value store
    (\<open>infrastructure/kv\<close>).  \<open>Identity\<close>: accounts, tokens, the middleware (\<open>features/identity\<close>, \<open>libs/authn_kit\<close>,
    \<open>infrastructure/jwt\<close>, \<open>infrastructure/http_auth\<close>); its runs are sequences of requests with their clocks.
    \<open>Sessions\<close>: the invariants of these runs, over an abstract view of the store as a map.  \<open>Access\<close>: their
    properties, with a run as the witness.
  \<^item> \<open>Audit_Log\<close>: the differences of JSON snapshots and the history of an entity (\<open>features/audit\<close>).  \<open>Web\<close>:
    errors, extractors, problems, localization and trace identifiers (\<open>infrastructure/web\<close>,
    \<open>infrastructure/locale\<close>, \<open>libs/trace_kit\<close>).
  \<^item> \<open>Queries\<close>: the details and the listings of all domains (\<open>*_get.rs\<close>, \<open>*_list.rs\<close>, \<open>*_search.rs\<close>), page by
    page.  \<open>Meta\<close>: the published filter language and the probe (\<open>bin/server/meta.rs\<close>, \<open>features/health\<close>).
    \<open>Files\<close>: object store, images, the upload (\<open>infrastructure/blob\<close>, \<open>features/file\<close>, \<open>libs/image_kit\<close>).
    \<open>Money\<close>: the price of an itinerary (\<open>features/shared_contract\<close>).
  \<^item> \<open>Housekeeping\<close>: the periodic jobs over the store, the bus and the queue (\<open>bin/server/internal_jobs.rs\<close>,
    \<open>infrastructure/module\<close>).
  \<^item> \<open>System\<close>: every write endpoint as a request, the database after a request, the reachable
    databases.  \<open>Demo\<close>, \<open>Run\<close>: the concrete data the witnesses evaluate.

  \<^bold>\<open>Concurrency.\<close>  Requests are steps, one after the other.  The endpoints that read and then write a row
  lock it with \<open>FOR UPDATE\<close> first, and the model gives each endpoint the effect it has when it runs
  alone; interleavings of endpoints that do not lock are outside the model.  The job queue is the exception:
  there a step is one statement of one process, the tasks in flight are part of the state, and the steps
  of all processes interleave in any order; crashes are steps too.

  \<^bold>\<open>Interfaces.\<close>  \<open>approval_flow\<close> and \<open>approval_chain\<close> (a flow makes progress), \<open>status_document\<close> (what
  the action methods of a repository promise), \<open>stock_moves\<close> (a loop over lines moves the stock by the
  sum of its lines), \<open>fulfilment\<close> (done within ordered), \<open>system_step\<close> and \<open>system_invariant\<close> (what an
  invariant has to keep to hold in every reachable database), \<open>job_backend\<close> (what the statements of a
  queue back end promise, and which jobs a fetch takes, kept by both), \<open>kv_contract\<close> (what a
  back end of the key-value store promises, kept by all three).  Each is interpreted on the code's own
  definitions, in the theory of the component that provides them.

  \<^bold>\<open>What is shown.\<close>  Over all runs: stock is the sum of the journal, the journal only grows, what is
  recorded as received, delivered, picked or paid stays within what was ordered, required or invoiced, and is
  the sum of its lines as long as that fits 64 bits (the additions wrap around), one current cost
  per item, verdicts agree with results.  Per operation: issue, transfer, check, receipt, delivery,
  order creation, average cost, approval, life cycle of work orders, payments and reports, each on its
  error branches too.  Listings: paging returns every row once, filters are parsed as written, as the server publishes them, and reach
  only the allowed columns, the listed movements add up to the stock, deleted customers are out of the listing, the planning lists equal their specifications.  Termination: the flows and the category tree.  Round trips: creation and reading
  of items, formatted numbers, filters.  Background work: jobs stay within their attempts, are
  exclusive as long as no sweep takes a job from a live task, and come to an end in every endless run that is fair
  to them and loses no execution of theirs any more; delivery of events is at least once: a cycle can be cut off after a
  subscriber was called, and then the call is repeated, but never after the delivery was recorded, so that in
  a run without such cycles a subscriber is served exactly once; housekeeping removes nothing that is alive, undelivered or unfinished.  Authorization: decisions rest on the present permissions.
  Accounts: a protected request needs the last session of its account, refresh tokens rotate, privileged
  accounts are out of reach.  The history of an account holds every update once, with differences that say what
  changed.  Answers: an internal error is the same whatever its text, a refused token is 401.  Defects the
  model shows: a recalculation that divides by zero, a payment whose sum wraps around, a rejected order that
  cannot be submitted again, dates in filters that are not checked, a finished job that runs again, an event that blocks its batch, a permission that replaces another,
  a deleted account that keeps its session.

  \<^bold>\<open>Bounds.\<close>  The depth of the category tree is bounded by one more than the number of categories, whatever
  the parents are; the depth of the filter parser by three times the length of the input plus three, which
  is shown to be enough; a client that follows the cursors of a listing of n rows is answered in at most
  n + 1 requests.  The removal of old jobs ends because every full batch shrinks the table.  All other loops run over lists and end by structure.

  \<^bold>\<open>Parameters.\<close>  The calendar functions of \<open>chrono\<close> are arguments of the fiscal period; clocks,
  identifiers and scan orders come from the environment record, with the assumption \<open>order_ok\<close> (a scan
  returns every row once) where a theorem needs it.  The job queue and the event bus take clocks, date
  shifts, collation, orders of unordered results and the JSON parser from an environment of their own, and
  the outcomes of handlers as arguments.  Cedar is a record of functions, with its documented semantics as
  the hypothesis \<open>cedar_semantics\<close>.  Signatures and password hashes are records of functions without any
  hypothesis: no theorem depends on a signature being unforgeable, it says what the decoded claims must be.
  The JSON parser, the query and path parsers, the validation library, the Fluent bundles, the parser of
  accepted languages and the JSON form of an entity are functions without any hypothesis, as are the
  collation, the meaning of \<open>ILIKE\<close> and of a comparison, which statements of the customer listing the server
  refuses, and the image codecs; of the storage library a
  theorem assumes that it keeps what is written.

  \<^bold>\<open>Not modelled.\<close>  The NATS back end of the event bus, wake-ups and shutdown of workers, configuration, the HTTP transport, tracing spans,
  the command line and the web front end: input and output, or thin layers over third-party crates.
\<close>

section \<open>The ledger\<close>

text \<open>
  C1.  The stock of an item in a warehouse is what the ledger says: in every reachable database the
  recorded quantity is, modulo 2^64, the sum of the signed movements of that item and warehouse,
  and the movements form an unbroken chain of before and after quantities from zero to it.
\<close>

theorem stock_is_sum_of_movements:
  assumes "reachable s"
  shows "eq64 (stock s k) (sum_list (map signed_qty (log_of s k))) \<and> chained 0 (log_of s k) (stock s k)"
proof -
  have "ledger_inv s" using assms by (rule ledger.reachable_keeps)
  then have "chained 0 (log_of s k) (stock s k)" "\<forall>t \<in> set (log_of s k). tx_balanced t"
    by (rule ledger_invD)+
  from this(1) chained_sum [OF this] show ?thesis by simp
qed

theorem stock_is_sum_of_movements_witness:
  "reachable run_4 \<and> stock run_4 (1002, 1004) = 500 \<and> log_of run_4 (1002, 1004) = [run_tx] \<and>
   eq64 (stock run_4 (1002, 1004)) (sum_list (map signed_qty (log_of run_4 (1002, 1004))))"
proof -
  have "stock run_4 (1002, 1004) = 500" "log_of run_4 (1002, 1004) = [run_tx]"
    by (simp_all add: stock_def log_of_def run_4_def run_rows inv_key_def tx_key_def)
  then show ?thesis using stock_is_sum_of_movements [OF run_reachable, of "(1002, 1004)"] run_reachable by simp
qed

text \<open>
  C2.  The ledger is a journal: no request, successful or not, removes or changes a movement that is
  already recorded.
\<close>

theorem ledger_append_only:
  "prefix (inventory_transactions s) (inventory_transactions (perform env ctx r s))"
  by (rule journal.perform_keeps) simp

text \<open>
  C4.  Issuing stock: an issue of more than the stock at hand is refused and changes nothing;
  otherwise the quantity is taken from that item and warehouse and from no other, and exactly one
  movement is appended, with the quantities before and after it.
\<close>

theorem issue_behaviour:
  assumes "ledger_ready env cmd s" "in_i64 (stock s (lc_key cmd))" "0 \<le> lc_quantity cmd"
  shows "if stock s (lc_key cmd) < lc_quantity cmd
         then issue env cmd s = (Inl (EInventory InsufficientInventory), s)
         else \<exists>t tx. issue env cmd s = (Inr (), t) \<and>
                stock t = (stock s)(lc_key cmd := stock s (lc_key cmd) - lc_quantity cmd) \<and>
                inventory_transactions t = inventory_transactions s @ [tx] \<and> tx_key tx = lc_key cmd \<and>
                tx_quantity tx = lc_quantity cmd \<and> tx_before_quantity tx = stock s (lc_key cmd) \<and>
                tx_after_quantity tx = stock s (lc_key cmd) - lc_quantity cmd"
proof (cases "stock s (lc_key cmd) < lc_quantity cmd")
  case True
  then show ?thesis using issue_insufficient [OF True] by simp
next
  case False
  then have "in_i64 (stock s (lc_key cmd) - lc_quantity cmd)"
    using assms(2,3) by (auto simp: i64_range_defs)
  then show ?thesis using False issue_ready [OF assms(1)] by (simp add: i64_sub_exact)
qed

theorem issue_behaviour_witness:
  "(\<exists>t. issue demo_env (demo_issue 200) demo_db = (Inr (), t) \<and> stock t (1, 11) = 300) \<and>
   issue demo_env (demo_issue 501) demo_db = (Inl (EInventory InsufficientInventory), demo_db)"
proof -
  have r: "ledger_ready demo_env (demo_issue q) demo_db" for q
    by (simp add: ledger_ready_def demo_issue_def demo_db_def demo_rows demo_env_def fits_opt_def fits_def
        lc_key_def inv_key_def i64_range_defs)
  have k: "lc_key (demo_issue q) = (1, 11)" "lc_quantity (demo_issue q) = q" "stock demo_db (1, 11) = 500" for q
    by (simp_all add: demo_issue_def lc_key_def stock_def demo_db_def demo_rows inv_key_def)
  show ?thesis
    using issue_behaviour [OF r [of 200]] issue_behaviour [OF r [of 501]]
    by (auto simp: k i64_range_defs)
qed

text \<open>
  C5.  A transfer that was submitted and is approved moves the goods: the stock of every item and
  warehouse changes by what the transfer's lines take out of it and bring into it, modulo 2^64.
\<close>

theorem transfer_approve_moves:
  assumes "stock_transfer_approve env ctx k s = (Inr b, t)"
  shows "\<exists>row. lookup_by st_id k (stock_transfers s) = Some row \<and> st_status row = 1 \<and>
    eq64 (stock t key) (stock s key + sum_list (map (\<lambda>x.
      at (sti_item_id x, st_from_warehouse_id row) (- sti_quantity x) key +
      at (sti_item_id x, st_to_warehouse_id row) (sti_quantity x) key) (transfer_items k s)))"
proof -
  obtain row v l n where row: "lookup_by st_id k (stock_transfers s) = Some row" "st_status row = 1"
    and v: "forM (transfer_items k s) (transfer_line env k (st_from_warehouse_id row, st_to_warehouse_id row))
      (transfer_approved env k s) = (Inr (), v)" and t: "t = v\<lparr>audit_logs := l, next_id := n\<rparr>"
    using stock_transfer_approve_OK [OF assms] by blast
  show ?thesis using transfer_moves.loop_stock [OF v, of key] row t by simp
qed

text \<open>The demonstration transfer can be approved.\<close>

lemma demo_transfer: obtains t where "stock_transfer_approve demo_env demo_op 51 demo_db = (Inr True, t)"
proof -
  have "fst (stock_transfer_approve demo_env demo_op 51 demo_db) = Inr True" by code_simp
  then show ?thesis using that by (metis prod.collapse)
qed

theorem transfer_approve_moves_witness:
  "\<exists>t. stock_transfer_approve demo_env demo_op 51 demo_db = (Inr True, t) \<and> eq64 (stock t (1, 12)) 200"
proof -
  obtain t where t: "stock_transfer_approve demo_env demo_op 51 demo_db = (Inr True, t)" by (rule demo_transfer)
  show ?thesis using transfer_approve_moves [OF t, of "(1, 12)"] t
    by (simp add: demo_db_def demo_rows transfer_items_def at_def stock_def inv_key_def)
qed

text \<open>
  An approved transfer conserves every item: the quantity over all warehouses is the same
  before and after, modulo 2^64.
\<close>

theorem transfer_approve_conserves:
  assumes "stock_transfer_approve env ctx k s = (Inr b, t)" "ledger_inv s"
  shows "eq64 (item_total t i) (item_total s i)"
proof -
  obtain row v l n where "lookup_by st_id k (stock_transfers s) = Some row" and v: "forM (transfer_items k s)
      (transfer_line env k (st_from_warehouse_id row, st_to_warehouse_id row))
      (transfer_approved env k s) = (Inr (), v)" and t: "t = v\<lparr>audit_logs := l, next_id := n\<rparr>"
    using stock_transfer_approve_OK [OF assms(1)] by blast
  show ?thesis
    using transfer_loop_total [OF v, of i] assms(2) t by (simp add: item_total_def)
qed

lemma demo_ledger_inv: "ledger_inv demo_db"
proof -
  have k: "stock demo_db k = (if k = (1, 11) then 500 else 0)" for k
    by (simp add: stock_def demo_db_def demo_rows inv_key_def)
  show ?thesis
    unfolding ledger_inv_def k
    by (auto simp: demo_db_def demo_rows log_of_def tx_key_def tx_balanced_def signed_qty_def inv_key_def)
qed

theorem transfer_approve_conserves_witness:
  "\<exists>t. stock_transfer_approve demo_env demo_op 51 demo_db = (Inr True, t) \<and> item_total demo_db 1 = 500 \<and>
       eq64 (item_total t 1) (item_total demo_db 1)"
proof -
  obtain t where t: "stock_transfer_approve demo_env demo_op 51 demo_db = (Inr True, t)" by (rule demo_transfer)
  have "item_total demo_db 1 = 500" by code_simp
  with transfer_approve_conserves [OF t demo_ledger_inv] t show ?thesis by blast
qed

text \<open>
  C6.  An approved inventory check with one line per item (which the creation of a check does not
  enforce) corrects the books: the stock of every item counted is the counted quantity, and every other
  item and warehouse is as before.
\<close>

theorem check_approve_sets_stock:
  assumes "inventory_check_approve env ctx k s = (Inr b, t)" "order_ok env"
    and "lookup_by ck_id k (inventory_checks s) = Some row"
    and "distinct (map cki_item_id (filter (\<lambda>i. cki_check_id i = k) (inventory_check_items s)))"
    and "\<forall>x \<in> set (inventory_check_items s). in_i64 (cki_actual_qty x)" "\<forall>y. in_i64 (stock s y)"
  shows "(\<forall>x \<in> set (inventory_check_items s). cki_check_id x = k \<longrightarrow>
            stock t (cki_item_id x, ck_warehouse_id row) = cki_actual_qty x) \<and>
         (\<forall>y. (\<forall>x \<in> set (inventory_check_items s). cki_check_id x = k \<longrightarrow>
                 (cki_item_id x, ck_warehouse_id row) \<noteq> y) \<longrightarrow> stock t y = stock s y)"
proof -
  let ?xs = "filter (\<lambda>i. cki_check_id i = k) (inventory_check_items s)"
  obtain v l n where v: "forM (scan env ?xs) (check_line env k (ck_warehouse_id row)) (check_approved env k s) = (Inr (), v)"
    and t: "t = v\<lparr>audit_logs := l, next_id := n\<rparr>"
    using inventory_check_approve_OK [OF assms(1)] assms(3) by auto
  note set = set_scan [OF assms(2), of ?xs]
  have st: "stock t = counted (ck_warehouse_id row) (scan env ?xs) (stock s)"
    using check_loop_stock [OF v] t assms(5,6) by (simp add: set)
  have "distinct (map cki_item_id (scan env ?xs))"
    using assms(2,4) by (simp add: map_scan distinct_scan)
  then have "\<forall>x \<in> set ?xs. stock t (cki_item_id x, ck_warehouse_id row) = cki_actual_qty x"
    using counted_item by (simp add: st set)
  moreover have "stock t y = stock s y" if "\<forall>x \<in> set ?xs. (cki_item_id x, ck_warehouse_id row) \<noteq> y" for y
    unfolding st using that by (intro counted_other) (simp only: set)
  ultimately show ?thesis by (auto simp del: split_paired_All)
qed

theorem check_approve_sets_stock_witness:
  "\<exists>t. inventory_check_approve demo_env demo_op 53 demo_db = (Inr True, t) \<and> stock t (1, 11) = 480"
proof -
  have "fst (inventory_check_approve demo_env demo_op 53 demo_db) = Inr True" by code_simp
  then obtain t where t: "inventory_check_approve demo_env demo_op 53 demo_db = (Inr True, t)"
    by (metis prod.collapse)
  have "\<forall>y. in_i64 (stock demo_db y)"
    by (simp add: stock_def demo_db_def demo_rows inv_key_def i64_range_defs)
  with check_approve_sets_stock [OF t demo_order_ok] t show ?thesis
    by (simp add: demo_db_def i64_range_defs)
qed

section \<open>Orders, deliveries, materials and payments over all runs\<close>

text \<open>
  C7.  Nothing is received beyond the order: starting from a consistent database, whatever requests are
  served, a purchase order line has received nothing, or its received quantity is within the ordered
  quantity.  The received quantity is congruent modulo 2^64 to the sum of the receipt lines booked on the line
  (the addition wraps around); when that sum fits 64 bits, it is the received quantity itself, so
  that the receipt lines together are within the order.
\<close>

theorem received_within_ordered:
  assumes "reachable_from s0 s" "receipt_inv s0" "l \<in> set (purchase_order_lines s)"
    and "booked = done_sum prl_order_line_id prl_quantity (purchase_receipt_lines s) (pl_id l)"
  shows "(pl_received_qty l = 0 \<or> pl_received_qty l \<le> pl_quantity l) \<and> eq64 (pl_received_qty l) booked \<and>
         (in_i64 booked \<longrightarrow> pl_received_qty l = booked \<and> (booked = 0 \<or> booked \<le> pl_quantity l))"
proof -
  have ok: "fulfil_ok pl_id pl_quantity pl_received_qty prl_order_line_id prl_quantity
      (purchase_order_lines s) (purchase_receipt_lines s)"
    using received.from_keeps [OF assms(1,2)] by (simp add: receipt_inv_def)
  then show ?thesis using assms(3,4) fulfil_ok_exact [OF ok assms(3)] by (auto simp: fulfil_ok_def)
qed

theorem received_within_ordered_witness:
  "\<exists>s l. reachable_from demo_db s \<and> l \<in> set (purchase_order_lines s) \<and> pl_received_qty l = 60 \<and>
         done_sum prl_order_line_id prl_quantity (purchase_receipt_lines s) (pl_id l) = 60 \<and> 60 \<le> pl_quantity l"
proof -
  define s where "s = perform demo_env demo_op (PurchaseReceiptCreate (demo_receipt 60)) demo_db"
  have i: "receipt_inv demo_db" by (simp add: receipt_inv_def fulfil_ok_def done_sum_def demo_db_def empty_db_def)
  have r: "reachable_from demo_db s" unfolding s_def by (intro reachable_from.intros)
  have e: "map (\<lambda>l. done_sum prl_order_line_id prl_quantity (purchase_receipt_lines s) (pl_id l)) (purchase_order_lines s) = [60]"
    unfolding s_def perform.simps by code_simp
  then obtain l where l: "l \<in> set (purchase_order_lines s)"
      "done_sum prl_order_line_id prl_quantity (purchase_receipt_lines s) (pl_id l) = 60"
    by auto
  show ?thesis using received_within_ordered [OF r i l(1) refl] r l
    by (intro exI [of _ s] exI [of _ l]) (simp add: i64_range_defs)
qed

text \<open>
  Nothing is delivered beyond the order: a sales order line has delivered nothing or a quantity within
  the ordered one, congruent modulo 2^64 to the sum of its delivery lines.
\<close>

theorem delivered_within_ordered:
  assumes "reachable_from s0 s" "delivery_inv s0"
  shows "\<forall>l \<in> set (sales_order_lines s). (sl_delivered_qty l = 0 \<or> sl_delivered_qty l \<le> sl_quantity l) \<and>
           eq64 (sl_delivered_qty l) (done_sum sdl_order_line_id sdl_quantity (sales_delivery_lines s) (sl_id l))"
  using delivered.from_keeps [OF assms] by (simp add: delivery_inv_def fulfil_ok_def)

theorem delivered_within_ordered_witness:
  "\<exists>s. reachable_from demo_db s \<and> map sl_delivered_qty (sales_order_lines s) = [80] \<and>
       (\<forall>l \<in> set (sales_order_lines s). sl_delivered_qty l = 0 \<or> sl_delivered_qty l \<le> sl_quantity l)"
proof -
  define s where "s = perform demo_env demo_op (SalesDeliveryCreate (demo_delivery 80)) demo_db"
  have i: "delivery_inv demo_db" by (simp add: delivery_inv_def fulfil_ok_def done_sum_def demo_db_def empty_db_def)
  have r: "reachable_from demo_db s" unfolding s_def by (intro reachable_from.intros)
  have e: "map sl_delivered_qty (sales_order_lines s) = [80]"
    unfolding s_def perform.simps by code_simp
  show ?thesis using delivered_within_ordered [OF r i] r e by (intro exI [of _ s]) simp
qed

text \<open>
  No material is picked beyond the requirement: the picked quantity of every material of every
  work order stays within the required quantity.
\<close>

theorem picked_within_required:
  assumes "reachable_from s0 s" "pick_inv s0"
  shows "\<forall>m \<in> set (work_order_materials s). unwrap_or_zero (wm_picked_qty m) \<le> max 0 (wm_required_qty m)"
  using picked.from_keeps [OF assms] by (simp add: pick_inv_def)

theorem picked_within_required_witness:
  "\<exists>s. reachable_from demo_db s \<and> map wm_picked_qty (work_order_materials s) = [Some 30] \<and>
       (\<forall>m \<in> set (work_order_materials s). unwrap_or_zero (wm_picked_qty m) \<le> max 0 (wm_required_qty m))"
proof -
  let ?p = "\<lparr>pk_material_id = 84, pk_item_id = 1, pk_warehouse_id = 11, pk_quantity = 30\<rparr>"
  define s where "s = perform demo_env demo_op (WorkOrderMaterialPick 83 [?p]) demo_db"
  have i: "pick_inv demo_db" by (simp add: pick_inv_def unwrap_or_zero_def demo_db_def)
  have r: "reachable_from demo_db s" unfolding s_def by (intro reachable_from.intros)
  have e: "map wm_picked_qty (work_order_materials s) = [Some 30]"
    unfolding s_def perform.simps by code_simp
  show ?thesis using picked_within_required [OF r i] r e by (intro exI [of _ s]) simp
qed

text \<open>
  C8.  Nothing is paid beyond the invoice, as long as the payments of the invoice add up within 64 bits:
  after any requests, every sales invoice and every purchase invoice either has nothing paid or a paid
  amount within its total, congruent modulo 2^64 to the sum of the recorded payments, each of which is positive.
  When that sum fits 64 bits, it is the paid amount itself and, if there is a payment at all,
  within the total.  (Beyond 64 bits the bound on the sum does not hold: the addition wraps
  around, as a later theorem shows.)
\<close>

theorem paid_within_total:
  assumes "reachable_from s0 s" "payment_inv s0" "(k, owed, paid) \<in> set (invoice_amounts ty s)"
  shows "(paid = 0 \<or> paid \<le> owed) \<and> eq64 paid (payments_sum ty k s) \<and>
         (payments_sum ty k s \<le> i64_max \<longrightarrow>
            paid = payments_sum ty k s \<and> (payments_sum ty k s = 0 \<or> payments_sum ty k s \<le> owed)) \<and>
         0 \<le> payments_sum ty k s \<and> (\<forall>p \<in> set (payments s). 0 < pay_amount p)"
proof -
  have inv: "payment_inv s" using paid.from_keeps [OF assms(1,2)] .
  note amounts = payment_inv_amounts [OF inv assms(3)] and pos = payments_sum_nonneg [OF inv, of ty k]
  have "paid = payments_sum ty k s" if "payments_sum ty k s \<le> i64_max"
    using that pos amounts by (intro eq64_exact) (auto simp: i64_range_defs)
  then show ?thesis using amounts pos inv by (auto simp: payment_inv_def)
qed

theorem paid_within_total_witness:
  "\<exists>s. reachable_from demo_db s \<and> (73, 1000, 700) \<in> set (invoice_amounts SalesInvoice s) \<and>
       payments_sum SalesInvoice 73 s = 700"
proof -
  define s where "s = perform demo_env demo_op (PaymentCreate (demo_payment 700)) demo_db"
  have i: "payment_inv demo_db"
    by (simp add: payment_inv_def payments_of_def fulfil_ok_def done_sum_def demo_db_def empty_db_def)
  have r: "reachable_from demo_db s" unfolding s_def by (intro reachable_from.intros)
  have "invoice_amounts SalesInvoice s = [(73, 1000, 700)]" "payments_sum SalesInvoice 73 s \<le> 700"
    unfolding s_def perform.simps by code_simp+
  then show ?thesis using paid_within_total [OF r i, of 73 1000 700 SalesInvoice] r
    by (intro exI [of _ s]) (simp add: i64_range_defs)
qed

text \<open>
  C9.  An item has at most one current cost of a type: the query for the current weighted average,
  which has no ordering, never has two rows to choose from.
\<close>

theorem one_current_cost:
  assumes "reachable_from s0 s" "cost_inv s0"
    and "c \<in> set (item_costs s)" "d \<in> set (item_costs s)" "co_is_current c" "co_is_current d"
    and "co_item_id c = co_item_id d" "co_cost_type c = co_cost_type d"
  shows "c = d"
  using costs.from_keeps [OF assms(1,2)] assms(3-8)
  by (auto simp: cost_inv_def cost_key_def intro: current_unique)

theorem one_current_cost_witness:
  "\<exists>s c. reachable_from demo_db s \<and> filter co_is_current (item_costs s) = [c] \<and> co_unit_cost c = 21 \<and>
         (\<forall>d \<in> set (item_costs s). co_is_current d \<and> co_item_id d = 1 \<and> co_cost_type d = 10 \<longrightarrow> c = d)"
proof -
  define s where "s = perform demo_env demo_op (PurchaseReceiptCreate (demo_receipt 60)) demo_db"
  have i: "cost_inv demo_db" by (simp add: cost_inv_def demo_db_def)
  have r: "reachable_from demo_db s" unfolding s_def by (intro reachable_from.intros)
  have e: "map (\<lambda>c. (co_unit_cost c, co_item_id c, co_cost_type c)) (filter co_is_current (item_costs s)) = [(21, 1, 10)]"
    unfolding s_def perform.simps by code_simp
  then obtain c where c: "filter co_is_current (item_costs s) = [c]" "co_unit_cost c = 21"
    "co_item_id c = 1" "co_cost_type c = 10" by auto
  then have "c \<in> set (item_costs s)" "co_is_current c" by (auto simp: filter_eq_Cons_iff)
  then have "\<forall>d \<in> set (item_costs s). co_is_current d \<and> co_item_id d = 1 \<and> co_cost_type d = 10 \<longrightarrow> c = d"
    using one_current_cost [OF r i] c(3,4) by auto
  then show ?thesis using r c(1,2) by (intro exI [of _ s] exI [of _ c]) simp
qed

text \<open>
  C10.  A completed inspection says what its results say: its verdict is Fail when one of its recorded
  results failed and Pass otherwise, and an inspection that is still open has no verdict and no results.
\<close>

theorem inspection_verdicts:
  assumes "reachable_from s0 s" "verdict_inv s0"
  shows "\<forall>r \<in> set (inspection_orders s).
           if io_status r = 10
           then io_result r = Some (verdict_i16 (if (\<exists>x \<in> set (inspection_results s).
                  ir_inspection_id x = io_id r \<and> ir_result x = verdict_i16 Fail) then Fail else Pass))
           else io_status r = 0 \<and> io_result r = None \<and>
                (\<forall>x \<in> set (inspection_results s). ir_inspection_id x \<noteq> io_id r)"
  using verdicts.from_keeps [OF assms]
  by (auto simp: verdict_inv_def order_verdict_ok_def verdict_of_def results_of_def list_ex_iff
      filter_empty_conv split: if_splits)

theorem inspection_verdicts_witness:
  "\<exists>s r. reachable_from demo_quality s \<and> inspection_orders s = [r] \<and> io_status r = 10 \<and> length (inspection_results s) = 2 \<and>
     io_result r = Some (verdict_i16 Fail)"
proof -
  let ?r = "\<lambda>v. \<lparr>rr_template_item_id = 92, rr_result = v, rr_actual_value = None, rr_remark = None\<rparr>"
  define s where "s = perform demo_env demo_op (MasterData (InspectionOrderComplete 93 [?r 2, ?r 1])) demo_quality"
  have i: "verdict_inv demo_quality"
    by (simp add: verdict_inv_def order_verdict_ok_def results_of_def demo_quality_def demo_db_def empty_db_def)
  have r: "reachable_from demo_quality s" unfolding s_def by (intro reachable_from.intros)
  have o: "map (\<lambda>r. (io_id r, io_status r)) (inspection_orders s) = [(93, 10)]"
    unfolding s_def perform.simps perform_master.simps by code_simp
  have x: "map (\<lambda>x. (ir_inspection_id x, ir_result x)) (inspection_results s) = [(93, 2), (93, 1)]"
    unfolding s_def perform.simps perform_master.simps by code_simp
  obtain r where r1: "inspection_orders s = [r]" "io_id r = 93" "io_status r = 10" using o by auto
  obtain x y where x1: "inspection_results s = [x, y]" "ir_inspection_id x = 93" "ir_result x = 2"
    using x by auto
  have "io_result r = Some (verdict_i16 Fail)"
    using inspection_verdicts [OF r i] unfolding r1(1) x1(1) by (simp add: r1 x1)
  then show ?thesis using r r1(1,3) x1(1) by auto
qed

section \<open>Approval\<close>

text \<open>
  C11.  The approval flows make progress.  In each of the five flows the approved status (3) is final and
  can be reached from the draft (0).  In the four flows without a rejection (purchase returns, sales
  orders, transfers and checks) a document never comes back to a status it has left, and it takes at
  most as many actions as its status numbers allow.
\<close>

theorem flows_make_progress:
  assumes "F \<in> set all_flows"
  shows "((flow_step F)\<^sup>*\<^sup>* 3 d \<longrightarrow> d = 3) \<and> (flow_step F)\<^sup>+\<^sup>+ 0 3 \<and>
         (reject_pair F = None \<longrightarrow>
            ((flow_step F)\<^sup>+\<^sup>+ c d \<longrightarrow> c \<noteq> d) \<and> ((flow_step F ^^ n) c d \<longrightarrow> nat c + n \<le> nat d))"
proof -
  have "F = PO_FLOW \<or> F = RET_FLOW \<or> F = SO_FLOW \<or> F = TR_FLOW \<or> F = CH_FLOW"
    using assms by (simp add: all_flows_def)
  then show ?thesis
    using po.progress ret.progress so.progress tr.progress ch.progress by (elim disjE) simp_all
qed

theorem flows_make_progress_witness:
  "flow_step SO_FLOW 0 1 \<and> flow_step SO_FLOW 1 2 \<and> (flow_step SO_FLOW)\<^sup>+\<^sup>+ 0 3 \<and> \<not> (flow_step SO_FLOW)\<^sup>+\<^sup>+ 2 2"
  using flows_make_progress [of SO_FLOW 2 2 0]
  by (auto simp: all_flows_def flow_step_iff flow_defs SO_FLOW_def)

text \<open>
  A rejected purchase order is stuck: each action on it is refused and changes no table, although the
  comment on the status says that it can be modified and submitted again.
\<close>

theorem rejected_order_is_stuck:
  assumes "po_status_of s k = Some (purchase_order_status_i16 PORejected)"
  shows "purchase_order_submit env ctx k s = (Inl (ETransition (InvalidTransition 4 ''submit'')), s) \<and>
         purchase_order_approve env ctx k s = (Inl (ETransition (InvalidTransition 4 ''approve'')), s) \<and>
         purchase_order_reject env ctx k s = (Inl (ETransition (InvalidTransition 4 ''reject'')), s) \<and>
         purchase_order_delete env ctx k s = (Inl (EPurchase PurchaseNotDraft), s)"
proof -
  obtain r where "lookup_by po_id k (purchase_orders s) = Some r" "po_status r = 4"
    using assms by (auto simp: po_status_of_def)
  then show ?thesis
    by (simp add: purchase_order_submit_def purchase_order_approve_def purchase_order_reject_def purchase_order_delete_def
        purchase_repository_defs read_purchase_order_def fetch_or_def transitionM_def flow_defs PO_FLOW_def
        monad_defs rollback_def purchase_order.defs)
qed

text \<open>
  Approving a purchase order: an unknown order is not found, a submitted order goes to the
  supervisor and from there to approved, every other status is refused; other orders are untouched
  and a refusal changes nothing.
\<close>

theorem po_approve_behaviour:
  "case po_status_of s k of
     None \<Rightarrow> po_repository_approve env k s = (Inl (EPurchase PurchaseNotFound), s)
   | Some c \<Rightarrow>
       if c = purchase_order_status_i16 POSubmitted \<or> c = purchase_order_status_i16 POPendingSupervisor
       then \<exists>t. po_repository_approve env k s = (Inr (c + 1), t) \<and> po_status_of t k = Some (c + 1) \<and>
                (\<forall>j. j \<noteq> k \<longrightarrow> po_status_of t j = po_status_of s j)
       else po_repository_approve env k s = (Inl (ETransition (InvalidTransition c ''approve'')), s)"
proof (cases "po_status_of s k")
  case None
  then show ?thesis by (simp add: po_approve.act_missing)
next
  case (Some c)
  have a: "approve_status PO_FLOW c = (if c = 1 then Inr 2 else if c = 2 then Inr 3
      else Inl (InvalidTransition c ''approve''))"
    by (auto simp: approve_status_def PO_FLOW_def)
  have r: "x = d" if "po_repository_approve env k s = (Inr x, t)" "approve_status PO_FLOW c = Inr d" for x t d
    using that Some by (auto simp: po_repository_approve_def po_lock_status_def monad_OK stmt_OK
        transitionM_OK po_status_of_def)
  show ?thesis
  proof (cases "c = 1 \<or> c = 2")
    case True
    then have d: "approve_status PO_FLOW c = Inr (c + 1)" using a by auto
    obtain x t where "po_repository_approve env k s = (Inr x, t)" "po_status_of t k = Some (c + 1)"
      "\<forall>j. j \<noteq> k \<longrightarrow> po_status_of t j = po_status_of s j"
      using po_approve.act_ok [OF Some d] by blast
    with r [OF this(1) d] show ?thesis using Some True by auto
  next
    case False
    then show ?thesis using po_approve.act_refused [OF Some] a Some by auto
  qed
qed

theorem po_approve_behaviour_witness:
  "po_repository_approve demo_env 99 demo_db = (Inl (EPurchase PurchaseNotFound), demo_db) \<and>
   po_repository_approve demo_env 61 demo_db = (Inl (ETransition (InvalidTransition 3 ''approve'')), demo_db) \<and>
   (\<exists>t. po_repository_approve demo_env 61 (demo_db\<lparr>purchase_orders :=
          map (\<lambda>r. r\<lparr>po_status := 2\<rparr>) (purchase_orders demo_db)\<rparr>) = (Inr 3, t) \<and> po_status_of t 61 = Some 3)"
  using po_approve_behaviour [where s = demo_db and k = 99 and env = demo_env]
    po_approve_behaviour [where s = demo_db and k = 61 and env = demo_env]
    po_approve_behaviour [where s = "demo_db\<lparr>purchase_orders :=
      map (\<lambda>r. r\<lparr>po_status := 2\<rparr>) (purchase_orders demo_db)\<rparr>" and k = 61 and env = demo_env]
  by (auto simp: po_status_of_def demo_db_def)

section \<open>Atomicity and numbering\<close>

text \<open>
  C12.  Documents with many statements are all or nothing: a receipt, delivery, approved return,
  approved transfer, approved check, material pick or payment that fails leaves every table as it was.
  Only identifiers and sequence values stay consumed.
\<close>

theorem failed_documents_leave_no_trace:
  assumes "purchase_receipt_create env ctx r1 s = (Inl e, t) \<or> purchase_return_approve env ctx k s = (Inl e, t) \<or>
      sales_delivery_create env ctx r2 s = (Inl e, t) \<or> stock_transfer_approve env ctx k s = (Inl e, t) \<or>
      inventory_check_approve env ctx k s = (Inl e, t) \<or> work_order_material_pick env ctx k ps s = (Inl e, t) \<or>
      payment_create env ctx r3 s = (Inl e, t)"
  shows "tables t = tables s"
  using assms
  by (auto simp: purchase_receipt_create_def purchase_return_approve_def sales_delivery_create_def
      stock_transfer_approve_def inventory_check_approve_def work_order_material_pick_def
      payment_create_def failM_def dest!: transaction_atomic split: if_splits)

theorem failed_documents_leave_no_trace_witness:
  "\<exists>t. purchase_receipt_create demo_env demo_op (demo_receipt 101) demo_db = (Inl (EPurchase OverReceipt), t) \<and>
       next_id t \<noteq> next_id demo_db \<and> tables t = tables demo_db"
proof -
  let ?r = "purchase_receipt_create demo_env demo_op (demo_receipt 101) demo_db"
  have "fst ?r = Inl (EPurchase OverReceipt)" "next_id (snd ?r) \<noteq> next_id demo_db" by code_simp+
  then obtain t where t: "?r = (Inl (EPurchase OverReceipt), t)" "next_id t \<noteq> next_id demo_db"
    by (metis prod.collapse snd_conv)
  with failed_documents_leave_no_trace show ?thesis by blast
qed

text \<open>
  Document numbers are never issued twice: of two numbers drawn from one sequence with one
  prefix, the second after the first, on days written with the same number of digits, the codes differ.
\<close>

theorem document_numbers_unique:
  assumes "next_number env q p s = (Inr c, t)" "sequences t q \<le> sequences s' q"
    and "next_number env' q p s' = (Inr c', t')" "length (env_ymd env) = length (env_ymd env')"
  shows "c \<noteq> c'"
  using assms doc_code_inj [OF assms(4)] by (fastforce simp: next_number_OK)

theorem document_numbers_unique_witness:
  "\<exists>t u. next_number demo_env ''seq_payment'' ''PAY'' demo_db = (Inr ''PAY-20260101-000001'', t) \<and>
         next_number demo_env ''seq_payment'' ''PAY'' t = (Inr ''PAY-20260101-000002'', u) \<and>
         ''PAY-20260101-000001'' \<noteq> ''PAY-20260101-000002''"
proof -
  let ?a = "next_number demo_env ''seq_payment'' ''PAY'' demo_db"
  let ?b = "next_number demo_env ''seq_payment'' ''PAY'' (snd ?a)"
  have "fst ?a = Inr ''PAY-20260101-000001''" "fst ?b = Inr ''PAY-20260101-000002''" by code_simp+
  then obtain t u where t: "?a = (Inr ''PAY-20260101-000001'', t)"
    and u: "next_number demo_env ''seq_payment'' ''PAY'' t = (Inr ''PAY-20260101-000002'', u)"
    by (metis prod.collapse snd_conv)
  from document_numbers_unique [OF t order_refl u refl] t u show ?thesis by blast
qed

section \<open>Purchases and sales\<close>

text \<open>
  A new purchase order: one row in draft whose total is, modulo 2^64, the sum over the lines of
  quantity times price, and one line of the order for every line of the request, with nothing received.
\<close>

theorem purchase_order_create_total:
  assumes "purchase_order_create env ctx r s = (Inr x, t)"
  shows "\<exists>row ls. purchase_orders t = purchase_orders s @ [row] \<and> po_id row = fst x \<and> po_status row = 0 \<and>
    eq64 (po_total_amount row) (sum_list (map (\<lambda>l. col_quantity l * col_unit_price l) (cpo_lines r))) \<and>
    purchase_order_lines t = purchase_order_lines s @ ls \<and> length ls = length (cpo_lines r) \<and>
    (\<forall>l \<in> set ls. pl_order_id l = fst x \<and> pl_received_qty l = 0) \<and>
    map pl_quantity ls = map col_quantity (cpo_lines r) \<and> map pl_item_id ls = map col_item_id (cpo_lines r)"
proof -
  obtain row ids where ids: "length ids = length (cpo_lines r)"
    and r: "purchase_orders t = purchase_orders s @ [row]" "po_id row = fst x" "po_status row = 0"
      "po_total_amount row = order_total (cpo_lines r)"
    and l: "purchase_order_lines t = purchase_order_lines s @
       map (new_order_line (fst x)) (enumerate 0 (zip ids (cpo_lines r)))"
    using purchase_order_create_OK [OF assms] by blast
  let ?ls = "map (new_order_line (fst x)) (enumerate 0 (zip ids (cpo_lines r)))"
  have e: "map (f \<circ> new_order_line (fst x)) (enumerate n (zip ids xs)) = map g xs"
    if "length ids = length xs" "\<And>n i y. f (new_order_line (fst x) (n, i, y)) = g y" for f g n ids and xs :: "create_order_line list"
    using that(1) by (induction ids xs arbitrary: n rule: list_induct2) (simp_all add: that(2))
  have p: "eq64 (sum_list (map order_line_total xs)) (sum_list (map (\<lambda>l. col_quantity l * col_unit_price l) xs))"
    for xs :: "create_order_line list"
    by (induction xs) (auto intro!: eq64_add simp: order_line_total_def)
  have "eq64 (order_total (cpo_lines r)) (sum_list (map order_line_total (cpo_lines r)))"
    unfolding order_total_def using foldl_i64_add [of order_line_total 0] by simp
  then have "eq64 (po_total_amount row) (sum_list (map (\<lambda>l. col_quantity l * col_unit_price l) (cpo_lines r)))"
    using p eq64_trans r(4) by simp
  moreover have "map pl_quantity ?ls = map col_quantity (cpo_lines r)" "map pl_item_id ?ls = map col_item_id (cpo_lines r)"
    using e [OF ids, of pl_quantity col_quantity 0] e [OF ids, of pl_item_id col_item_id 0]
    by (simp_all add: new_order_line_def)
  moreover have "\<forall>l \<in> set ?ls. pl_order_id l = fst x \<and> pl_received_qty l = 0" by (auto simp: new_order_line_def)
  ultimately show ?thesis using r l ids by (intro exI [of _ row] exI [of _ ?ls]) simp
qed

theorem purchase_order_create_total_witness:
  "\<exists>x t. purchase_order_create demo_env demo_op \<lparr>cpo_supplier_id = 21, cpo_expected_delivery_date = None,
      cpo_payment_terms = None, cpo_remark = None, cpo_lines = [
        \<lparr>col_item_id = 1, col_quantity = 10, col_unit = ''kg'', col_unit_price = 7, col_remark = None\<rparr>,
        \<lparr>col_item_id = 2, col_quantity = 2, col_unit = ''pc'', col_unit_price = 15, col_remark = None\<rparr>]\<rparr>
      demo_db = (Inr x, t) \<and> eq64 (po_total_amount (last (purchase_orders t))) 100"
  (is "\<exists>x t. purchase_order_create _ _ ?r _ = _ \<and> _")
proof -
  have "case fst (purchase_order_create demo_env demo_op ?r demo_db) of Inr _ \<Rightarrow> True | Inl _ \<Rightarrow> False" by code_simp
  then obtain x t where t: "purchase_order_create demo_env demo_op ?r demo_db = (Inr x, t)"
    by (cases "purchase_order_create demo_env demo_op ?r demo_db") (auto split: sum.splits)
  from purchase_order_create_total [OF t] t show ?thesis by auto
qed

text \<open>
  A booked receipt is in stock: every item and warehouse gains, modulo 2^64, what the lines of
  the receipt bring to it.
\<close>

theorem receipt_adds_stock:
  assumes "purchase_receipt_create env ctx r s = (Inr x, t)"
  shows "eq64 (stock t (i, w)) (stock s (i, w) +
     sum_list (map crl_quantity (filter (\<lambda>l. crl_item_id l = i \<and> crl_warehouse_id l = w) (crr_lines r))))"
proof -
  have "sum_list (map (\<lambda>l. at (crl_item_id l, crl_warehouse_id l) (crl_quantity l) (i, w)) xs) =
     sum_list (map crl_quantity (filter (\<lambda>l. crl_item_id l = i \<and> crl_warehouse_id l = w) xs))"
    for xs :: "create_receipt_line list" by (induction xs) (auto simp: at_def)
  then show ?thesis using movesD [OF purchase_receipt_moves assms, of "(i, w)"] by simp
qed

theorem receipt_adds_stock_witness:
  "\<exists>x t. purchase_receipt_create demo_env demo_op (demo_receipt 60) demo_db = (Inr x, t) \<and> eq64 (stock t (1, 12)) 60"
proof -
  have "case fst (purchase_receipt_create demo_env demo_op (demo_receipt 60) demo_db) of Inr _ \<Rightarrow> True | Inl _ \<Rightarrow> False"
    by code_simp
  then obtain x t where t: "purchase_receipt_create demo_env demo_op (demo_receipt 60) demo_db = (Inr x, t)"
    by (cases "purchase_receipt_create demo_env demo_op (demo_receipt 60) demo_db") (auto split: sum.splits)
  have "stock demo_db (1, 12) = 0" by (simp add: stock_def demo_db_def demo_rows inv_key_def)
  with receipt_adds_stock [OF t, of 1 12] t show ?thesis by (simp add: demo_receipt_def)
qed

text \<open>
  A booked delivery has left the warehouse: every item and warehouse loses, modulo 2^64, what the
  lines of the delivery take from it.
\<close>

theorem delivery_takes_stock:
  assumes "sales_delivery_create env ctx r s = (Inr x, t)"
  shows "eq64 (stock t (i, w)) (stock s (i, w) -
     sum_list (map dli_quantity (filter (\<lambda>l. dli_item_id l = i \<and> dli_warehouse_id l = w) (cdr_lines r))))"
proof -
  have "sum_list (map (\<lambda>l. at (dli_item_id l, dli_warehouse_id l) (- dli_quantity l) (i, w)) xs) =
     - sum_list (map dli_quantity (filter (\<lambda>l. dli_item_id l = i \<and> dli_warehouse_id l = w) xs))"
    for xs :: "delivery_line_input list" by (induction xs) (auto simp: at_def)
  then show ?thesis using movesD [OF sales_delivery_moves assms, of "(i, w)"] by simp
qed

theorem delivery_takes_stock_witness:
  "\<exists>x t. sales_delivery_create demo_env demo_op (demo_delivery 80) demo_db = (Inr x, t) \<and> eq64 (stock t (1, 11)) 420"
proof -
  have "case fst (sales_delivery_create demo_env demo_op (demo_delivery 80) demo_db) of Inr _ \<Rightarrow> True | Inl _ \<Rightarrow> False"
    by code_simp
  then obtain x t where t: "sales_delivery_create demo_env demo_op (demo_delivery 80) demo_db = (Inr x, t)"
    by (cases "sales_delivery_create demo_env demo_op (demo_delivery 80) demo_db") (auto split: sum.splits)
  have "stock demo_db (1, 11) = 500" by (simp add: stock_def demo_db_def demo_rows inv_key_def)
  with delivery_takes_stock [OF t, of 1 11] t show ?thesis by (simp add: demo_delivery_def)
qed

section \<open>Costs\<close>

text \<open>
  C13.  The new weighted average: with stock at hand before the receipt, no negative figures and sums
  within 64 bits, it lies between the old average and the cost of the receipt, and it is the exact
  average rounded down.
\<close>

theorem weighted_average_correct:
  assumes "recalc_weighted_average env i q c s = (Inr avg, t)"
    and "find (is_current_average i) (item_costs s) = Some r" "old = item_total s i - q"
    and "0 < old" "0 \<le> q" "0 \<le> co_unit_cost r" "0 \<le> c"
    and "in_i64 (old * co_unit_cost r)" "in_i64 (q * c)" "in_i64 (old * co_unit_cost r + q * c)"
  shows "min (co_unit_cost r) c \<le> avg \<and> avg \<le> max (co_unit_cost r) c \<and>
         avg * (old + q) \<le> old * co_unit_cost r + q * c \<and> old * co_unit_cost r + q * c < (avg + 1) * (old + q)"
proof -
  have n: "new_average (Some r) (i64_sub (item_total s i) q) q c s = (Inr avg, s)" and z: "in_i64 (item_total s i)"
    using recalc_OK [OF assms(1)] assms(2) by simp_all
  have "i64_sub (item_total s i) q = old"
    using z assms(3-5) by (simp add: i64_sub_def i64_range_defs)
  moreover have "in_i64 (old + q)" using z assms(3) by simp
  ultimately have "avg = average old (co_unit_cost r) q c"
    using new_average_exact [OF assms(4-10), of s] n by simp
  then show ?thesis
    using average_bounds [OF assms(4,5)] average_rounding [of old q] assms(4,5) by simp
qed

theorem weighted_average_correct_witness:
  "\<exists>avg t. recalc_weighted_average demo_env 1 100 30 demo_db = (Inr avg, t) \<and> 20 \<le> avg \<and> avg \<le> 30 \<and>
           avg * 500 \<le> 11000 \<and> 11000 < (avg + 1) * 500"
proof -
  let ?m = "recalc_weighted_average demo_env 1 100 30 demo_db"
  have "case fst ?m of Inr _ \<Rightarrow> True | Inl _ \<Rightarrow> False" by code_simp
  then obtain avg t where t: "?m = (Inr avg, t)" by (cases ?m) (auto split: sum.splits)
  have tot: "item_total demo_db 1 = 500" by code_simp
  have f: "find (is_current_average 1) (item_costs demo_db) = Some \<lparr>co_id = 43, co_item_id = 1, co_cost_type = 10,
      co_unit_cost = 20, co_currency = Some ''CNY'', co_effective_at = 1, co_is_current = True, co_remark = None\<rparr>"
    by (simp add: demo_db_def is_current_average_def)
  from weighted_average_correct [OF t f, of 400] t tot show ?thesis by (simp add: i64_range_defs)
qed

text \<open>
  C14.  The recalculation can abort the process: when an item has a current average and the booked
  quantity is negative and uses up the stock, the divisor is zero.
\<close>

theorem recalculation_panics:
  assumes "find (is_current_average i) (item_costs s) = Some r" "item_total s i = 0" "q < 0" "in_i64 q" "q \<noteq> i64_min"
  shows "recalc_weighted_average env i q c s = (Inl (EPanic ''attempt to divide by zero''), s)"
proof -
  have "i64_sub 0 q = - q" using assms(3-5) by (intro i64_sub_exact [of 0 q, simplified]) (auto simp: i64_range_defs)
  then show ?thesis using assms
    by (simp add: recalc_weighted_average_def monad_defs pg_bigint_def new_average_def i64_div_def Let_def i64_add_def)
qed

theorem recalculation_panics_witness:
  "recalc_weighted_average demo_env 1 (- 500) 30 (demo_db\<lparr>inventories := [demo_inventory 41 1 11 0]\<rparr>) =
     (Inl (EPanic ''attempt to divide by zero''), demo_db\<lparr>inventories := [demo_inventory 41 1 11 0]\<rparr>)"
proof (rule recalculation_panics)
  show "find (is_current_average 1) (item_costs (demo_db\<lparr>inventories := [demo_inventory 41 1 11 0]\<rparr>)) =
      Some \<lparr>co_id = 43, co_item_id = 1, co_cost_type = 10, co_unit_cost = 20, co_currency = Some ''CNY'',
        co_effective_at = 1, co_is_current = True, co_remark = None\<rparr>"
    by (simp add: demo_db_def is_current_average_def)
qed (simp_all add: item_total_def item_rows_total_def demo_inventory_def i64_range_defs)

section \<open>Finance\<close>

text \<open>
  The refusals of a payment: an amount that is not positive, an unknown kind of invoice, an
  unknown invoice, an amount that would exceed the total.  Each has its error and writes nothing.
\<close>

theorem payment_refused:
  "(cpy_amount r \<le> 0 \<longrightarrow> payment_create env ctx r s = (Inl (EFinance InvalidPaymentAmount), s)) \<and>
   (0 < cpy_amount r \<and> cpy_invoice_type r \<noteq> ''sales_invoice'' \<and> cpy_invoice_type r \<noteq> ''purchase_invoice'' \<longrightarrow>
      payment_create env ctx r s = (Inl (EFinance InvalidInvoiceType), s)) \<and>
   (0 < cpy_amount r \<and> cpy_invoice_type r = ''sales_invoice'' \<longrightarrow>
      (case lookup_by si_id (cpy_invoice_id r) (sales_invoices s) of
         None \<Rightarrow> payment_create env ctx r s = (Inl (EFinance InvoiceNotFound), s)
       | Some i \<Rightarrow> si_total_amount i < i64_add (si_paid_amount i) (cpy_amount r) \<longrightarrow>
           payment_create env ctx r s = (Inl (EFinance InvoiceAlreadyFullyPaid), s))) \<and>
   (0 < cpy_amount r \<and> cpy_invoice_type r = ''purchase_invoice'' \<longrightarrow>
      (case lookup_by pi_id (cpy_invoice_id r) (purchase_invoices s) of
         None \<Rightarrow> payment_create env ctx r s = (Inl (EFinance InvoiceNotFound), s)
       | Some i \<Rightarrow> pi_total_amount i < i64_add (pi_paid_amount i) (cpy_amount r) \<longrightarrow>
           payment_create env ctx r s = (Inl (EFinance InvoiceAlreadyFullyPaid), s)))"
  by (auto simp: payment_create_def payment_txn_def invoice_by_id_def by_sales_id_def by_purchase_id_def
      fetch_or_def invoice_type_from_str_def monad_defs rollback_def Let_def split: option.split)

theorem payment_refused_witness:
  "payment_create demo_env demo_op (demo_payment 0) demo_db = (Inl (EFinance InvalidPaymentAmount), demo_db) \<and>
   payment_create demo_env demo_op (demo_payment 1001) demo_db = (Inl (EFinance InvoiceAlreadyFullyPaid), demo_db)"
proof -
  have d: "lookup_by si_id 73 (sales_invoices demo_db) = Some \<lparr>si_id = 73, si_code = ''SINV-20251231-000001'', si_order_id = 71,
        si_customer_id = 31, si_invoice_number = None, si_invoice_date = Some 10, si_amount = 900,
        si_tax_amount = 100, si_total_amount = 1000, si_status = 0, si_remark = None, si_paid_amount = 0\<rparr>"
    by (simp add: demo_db_def)
  have "i64_add 0 1001 = 1001" by (simp add: i64_add_exact i64_range_defs)
  then show ?thesis
    using payment_refused [of "demo_payment 0" demo_env demo_op demo_db]
      payment_refused [of "demo_payment 1001" demo_env demo_op demo_db]
    by (simp add: demo_payment_def d)
qed

text \<open>
  C15.  The overpayment check can be bypassed, on any partly paid invoice of either kind: a payment that
  takes the sum beyond the largest 64-bit number is accepted and recorded (its texts, its number and
  its identifiers being writable), the sum wraps around, and the paid amount becomes negative.
\<close>

theorem payment_wraps_around:
  assumes "cpy_invoice_type r = invoice_type_as_str ty" "payment_writable env r s"
    and "invoice_by_id ty (cpy_invoice_id r) s = (Inr v, s)" "in_i64 (ii_total_amount v)"
    and "0 < ii_paid_amount v" "ii_paid_amount v \<le> ii_total_amount v"
    and "in_i64 (cpy_amount r)" "i64_max < ii_paid_amount v + cpy_amount r"
  shows "\<exists>x t p. payment_create env ctx r s = (Inr x, t) \<and>
     invoice_by_id ty (cpy_invoice_id r) t =
       (Inr (v\<lparr>ii_paid_amount := ii_paid_amount v + cpy_amount r - 2 ^ 64\<rparr>), t) \<and>
     ii_paid_amount v + cpy_amount r - 2 ^ 64 < 0 \<and>
     payments t = payments s @ [p] \<and> pay_invoice_type p = cpy_invoice_type r \<and>
     pay_invoice_id p = cpy_invoice_id r \<and> pay_amount p = cpy_amount r"
proof -
  let ?d = "ii_paid_amount v + cpy_amount r - 2 ^ 64"
  have d: "in_i64 ?d" "?d < 0" using assms(4-8) by (auto simp: i64_range_defs)
  have "eq64 (ii_paid_amount v + cpy_amount r) ?d" unfolding eq64_def by (rule minus_mod_self2 [symmetric])
  with eq64_i64(1) have "eq64 (i64_add (ii_paid_amount v) (cpy_amount r)) ?d" by (rule eq64_trans)
  then have wrap: "i64_add (ii_paid_amount v) (cpy_amount r) = ?d" using d by (intro eq64_exact) simp_all
  have pos: "0 < cpy_amount r" using assms(4-8) by (auto simp: i64_range_defs)
  show ?thesis
    using payment_accepted [OF assms(1) pos assms(2,3), of ctx] wrap d(2) assms(5,6) by simp
qed

theorem payment_wraps_around_witness:
  "\<exists>x t. payment_create demo_env demo_op (demo_payment i64_max)
           (demo_db\<lparr>sales_invoices := map (set_sales_paid 1) (sales_invoices demo_db)\<rparr>) = (Inr x, t) \<and>
         invoice_by_id SalesInvoice 73 t = (Inr \<lparr>ii_total_amount = 1000, ii_paid_amount = i64_min\<rparr>, t)"
proof -
  let ?s = "demo_db\<lparr>sales_invoices := map (set_sales_paid 1) (sales_invoices demo_db)\<rparr>"
  have r: "cpy_invoice_type (demo_payment a) = ''sales_invoice''" "cpy_invoice_id (demo_payment a) = 73"
      "cpy_amount (demo_payment a) = a" for a
    by (simp_all add: demo_payment_def)
  have "fits 64 (doc_code ''PAY'' ''20260101'' 1)" by code_simp
  then have w: "payment_writable demo_env (demo_payment i64_max) ?s"
    by (simp add: payment_writable_def Let_def demo_env_def demo_payment_def demo_db_def empty_db_def seq_max_def fits_opt_def)
  have v: "invoice_by_id SalesInvoice 73 ?s = (Inr \<lparr>ii_total_amount = 1000, ii_paid_amount = 1\<rparr>, ?s)"
    by (simp add: invoice_by_id_def by_sales_id_def fetch_or_def monad_defs demo_db_def set_sales_paid_def)
  let ?v = "\<lparr>ii_total_amount = 1000, ii_paid_amount = 1\<rparr>" and ?r = "demo_payment i64_max"
  have "\<exists>x t p. payment_create demo_env demo_op ?r ?s = (Inr x, t) \<and>
     invoice_by_id SalesInvoice (cpy_invoice_id ?r) t =
       (Inr (?v\<lparr>ii_paid_amount := ii_paid_amount ?v + cpy_amount ?r - 2 ^ 64\<rparr>), t) \<and>
     ii_paid_amount ?v + cpy_amount ?r - 2 ^ 64 < 0 \<and>
     payments t = payments ?s @ [p] \<and> pay_invoice_type p = cpy_invoice_type ?r \<and>
     pay_invoice_id p = cpy_invoice_id ?r \<and> pay_amount p = cpy_amount ?r"
  proof (rule payment_wraps_around [OF _ w])
    show "invoice_by_id SalesInvoice (cpy_invoice_id ?r) ?s = (Inr ?v, ?s)" using v by (simp only: r)
  qed (simp_all add: r i64_range_defs)
  then show ?thesis by (auto simp: r i64_range_defs)
qed

text \<open>
  The balances are the sums of the open amounts: receivable over all sales invoices, payable over
  all purchase invoices, when the sums fit 64 bits; reading them changes nothing.
\<close>

theorem balances_correct:
  assumes "\<forall>i \<in> set (sales_invoices s). in_i64 (si_total_amount i - si_paid_amount i)"
    and "\<forall>i \<in> set (purchase_invoices s). in_i64 (pi_total_amount i - pi_paid_amount i)"
    and "in_i64 (\<Sum>i\<leftarrow>sales_invoices s. si_total_amount i - si_paid_amount i)"
    and "in_i64 (\<Sum>i\<leftarrow>purchase_invoices s. pi_total_amount i - pi_paid_amount i)"
  shows "balances s = (Inr (\<Sum>i\<leftarrow>sales_invoices s. si_total_amount i - si_paid_amount i,
                            \<Sum>i\<leftarrow>purchase_invoices s. pi_total_amount i - pi_paid_amount i), s)"
  using assms
  by (simp add: balances_def unpaid_total_def pg_sum_open_def pg_bigint_def invoice_views_def open_amount_def
      monad_defs comp_def)

theorem balances_correct_witness: "balances demo_db = (Inr (1000, 0), demo_db)"
  using balances_correct [of demo_db] by (simp add: demo_db_def empty_db_def i64_range_defs)

text \<open>
  The aging report is a partition of the unpaid invoices that have a date: no bucket appears
  twice or empty, the counts add up to the number of invoices and the amounts to what is open on them.
\<close>

theorem aging_partitions:
  assumes "unpaid_aging env ty s = (Inr rows, t)"
  shows "distinct (map ub_bucket rows) \<and> (\<forall>r \<in> set rows. ub_bucket r \<in> set bucket_labels \<and> 0 < ub_count r) \<and>
    sum_list (map ub_count rows) = int (length (unpaid_views ty s)) \<and>
    sum_list (map ub_amount rows) = sum_list (map open_amount (unpaid_views ty s)) \<and> t = s"
proof -
  have run: "bucket_rows (env_pg_date env) (unpaid_views ty s) bucket_labels s = (Inr rows, t)"
    using assms by (auto simp: unpaid_aging_def monad_OK)
  have lab: "bucket_label a \<in> set bucket_labels" for a by (simp add: bucket_label_def bucket_labels_def)
  have "filter (\<lambda>v. \<exists>b \<in> set bucket_labels. in_bucket (env_pg_date env) b v) (unpaid_views ty s) = unpaid_views ty s"
    using lab by (intro filter_True) (auto simp: unpaid_views_def in_bucket_def)
  moreover have "distinct bucket_labels" by (simp add: bucket_labels_def)
  ultimately show ?thesis using bucket_rows_OK [OF run] by auto
qed

theorem aging_partitions_witness:
  "\<exists>rows. unpaid_aging demo_env SalesInvoice demo_db = (Inr rows, demo_db) \<and>
     map (\<lambda>r. (ub_bucket r, ub_count r, ub_amount r)) rows = [(''31-60'', 1, 1000)] \<and>
     sum_list (map ub_amount rows) = sum_list (map open_amount (unpaid_views SalesInvoice demo_db))"
proof -
  let ?m = "unpaid_aging demo_env SalesInvoice demo_db"
  have m: "case fst ?m of Inr rows \<Rightarrow> map (\<lambda>r. (ub_bucket r, ub_count r, ub_amount r)) rows = [(''31-60'', 1, 1000)]
      | Inl _ \<Rightarrow> False" by code_simp
  then obtain rows t where t: "?m = (Inr rows, t)" by (cases ?m) (auto split: sum.splits)
  from aging_partitions [OF t] m t show ?thesis by auto
qed

section \<open>Items and production\<close>

text \<open>
  C17.  The category tree is always built and complete: with unique identifiers, whatever parents the
  rows name (cycles included), the recursion returns within as many levels as there are categories,
  and the tree holds exactly the categories that have a path to a root.
\<close>

theorem category_tree_built:
  assumes "distinct (map ic_id (item_categories s))"
  shows "\<exists>ts. item_category_tree (Suc (length (item_categories s))) s = Some ts \<and>
     (\<forall>i. (\<exists>t \<in> set ts. i \<in> set (node_ids t)) \<longleftrightarrow> (\<exists>path. rooted_path (category_rows s) (i # path)))"
proof -
  have d: "distinct (map ic_id (category_rows s))" using assms by (simp add: category_rows_ids)
  have "length (category_rows s) = length (item_categories s)" by (simp add: category_rows_def)
  then have "build_tree (Suc (length (item_categories s))) (category_rows s) (head_of []) \<noteq> None"
    by (intro build_tree_returns [OF d]) simp_all
  then obtain ts where ts: "build_tree (Suc (length (item_categories s))) (category_rows s) (head_of []) = Some ts" by blast
  have "(\<exists>t \<in> set ts. i \<in> set (node_ids t)) \<longleftrightarrow> (\<exists>path. rooted_path (category_rows s) (i # path))" for i
    using build_tree_ids [OF d _ ts] build_tree_complete [OF ts] by fastforce
  then show ?thesis using ts unfolding item_category_tree_def by (simp del: build_tree.simps rooted_path.simps)
qed

theorem category_tree_built_witness:
  "\<exists>ts. item_category_tree 5 demo_categories = Some ts \<and> concat (map node_ids ts) = [1, 2] \<and>
        \<not> (\<exists>path. rooted_path (category_rows demo_categories) (3 # path))"
proof -
  have "distinct (map ic_id (item_categories demo_categories))" by (simp add: demo_categories_def)
  from category_tree_built [OF this] obtain ts where ts: "item_category_tree 5 demo_categories = Some ts"
    and i: "\<And>i. (\<exists>t \<in> set ts. i \<in> set (node_ids t)) \<longleftrightarrow> (\<exists>path. rooted_path (category_rows demo_categories) (i # path))"
    by (auto simp: demo_categories_def numeral_eq_Suc)
  have "map_option (\<lambda>ts. concat (map node_ids ts)) (item_category_tree 5 demo_categories) = Some [1, 2]" by code_simp
  then have c: "concat (map node_ids ts) = [1, 2]" using ts by simp
  have "\<not> (\<exists>t \<in> set ts. 3 \<in> set (node_ids t))"
  proof
    assume "\<exists>t \<in> set ts. 3 \<in> set (node_ids t)"
    then have "3 \<in> set (concat (map node_ids ts))" by simp
    then show False unfolding c by simp
  qed
  then show ?thesis using ts c i [of 3] by (simp del: rooted_path.simps)
qed

text \<open>
  What is created is what is read: the item read back by the identifier a successful creation
  returns has the code it returned and the fields of the request, is active and at version 1.
\<close>

theorem item_create_get:
  assumes "item_create env ctx r s = (Inr (k, code), t)"
  shows "item_get k t = (Inr \<lparr>i_id = k, i_code = code, i_name = cir_name r, i_category_id = cir_category_id r,
     i_item_type = cir_item_type r, i_base_unit = cir_base_unit r, i_parent_item_id = cir_parent_item_id r,
     i_spec = cir_spec r, i_is_active = True, i_reorder_point = 0, i_safety_stock = 0, i_version = 1\<rparr>, t)"
proof -
  let ?i = "\<lparr>i_id = k, i_code = code, i_name = cir_name r, i_category_id = cir_category_id r,
     i_item_type = cir_item_type r, i_base_unit = cir_base_unit r, i_parent_item_id = cir_parent_item_id r,
     i_spec = cir_spec r, i_is_active = True, i_reorder_point = 0, i_safety_stock = 0, i_version = 1\<rparr>"
  have "items t = items s @ [row_of_item ?i]" "\<not> has_key it_id k (items s)"
    using assms
    by (auto simp: item_create_def item_repository_create_def generate_code_def next_seq_OK monad_OK stmt_OK
        new_id_OK audit_defs audit_insert_OK Let_def)
  then have "lookup_by it_id k (items t) = Some (row_of_item ?i)"
    by (auto simp: has_key_lookup row_of_item_def)
  then show ?thesis
    by (simp add: item_get_def item_by_id_def fetch_or_def monad_defs item_row_round_trip)
qed

theorem item_create_get_witness:
  "\<exists>t i. item_create demo_env demo_op \<lparr>cir_name = ''ABS'', cir_category_id = 1, cir_item_type = ItemRawMaterial,
       cir_base_unit = ''kg'', cir_parent_item_id = None, cir_spec = None\<rparr> demo_categories =
         (Inr (1000, ''RAW-000001''), t) \<and> item_get 1000 t = (Inr i, t) \<and> i_name i = ''ABS''"
  (is "\<exists>t i. item_create _ _ ?r _ = _ \<and> _")
proof -
  have "fst (item_create demo_env demo_op ?r demo_categories) = Inr (1000, ''RAW-000001'')" by code_simp
  then obtain t where t: "item_create demo_env demo_op ?r demo_categories = (Inr (1000, ''RAW-000001''), t)"
    by (metis prod.collapse)
  from item_create_get [OF t] t show ?thesis by simp
qed

text \<open>
  A new work order asks for the bill of materials times the planned quantity: its materials are,
  line by line of the bill, the item and, modulo 2^64, the quantity multiplied, with nothing picked.
\<close>

theorem work_order_explodes_bom:
  assumes "work_order_create env ctx r s = (Inr x, t)" "order_ok env"
  shows "\<exists>ls. work_order_materials t = work_order_materials s @ ls \<and>
    (\<forall>m \<in> set ls. wm_work_order_id m = fst x \<and> wm_picked_qty m = Some 0) \<and>
    mset (map (\<lambda>m. (wm_item_id m, wm_required_qty m)) ls) =
    mset (map (\<lambda>b. (bi_item_id b, i64_mul (bi_quantity b) (cwo_planned_qty r)))
           (filter (\<lambda>b. bi_bom_id b = cwo_bom_id r) (bom_items s)))"
proof -
  let ?bs = "filter (\<lambda>b. bi_bom_id b = cwo_bom_id r) (bom_items s)"
  obtain ids where ids: "length ids = length (scan env ?bs)"
    and m: "work_order_materials t = work_order_materials s @
      map (new_material (fst x) (cwo_planned_qty r)) (zip ids (scan env ?bs))"
    using work_order_create_OK [OF assms(1)] by blast
  let ?ls = "map (new_material (fst x) (cwo_planned_qty r)) (zip ids (scan env ?bs))"
  let ?f = "\<lambda>m. (wm_item_id m, wm_required_qty m)"
  let ?g = "\<lambda>b. (bi_item_id b, i64_mul (bi_quantity b) (cwo_planned_qty r))"
  have "map (\<lambda>y. ?f (new_material k p y)) (zip ids xs) = map (\<lambda>b. (bi_item_id b, i64_mul (bi_quantity b) p)) xs"
    if "length ids = length xs" for k p ids xs
    using that by (induction ids xs rule: list_induct2) (simp_all add: new_material_def)
  from this [OF ids, of "fst x" "cwo_planned_qty r"]
  have "map ?f ?ls = map ?g (scan env ?bs)"
    by (simp add: comp_def)
  moreover have "mset (map ?g (scan env ?bs)) = mset (map ?g ?bs)"
    by (simp only: mset_map mset_scan [OF assms(2)])
  ultimately have "mset (map ?f ?ls) = mset (map ?g ?bs)" by (simp only:)
  moreover have "\<forall>m \<in> set ?ls. wm_work_order_id m = fst x \<and> wm_picked_qty m = Some 0"
    by (auto simp: new_material_def)
  ultimately show ?thesis using m by (intro exI [of _ ?ls] conjI)
qed

theorem work_order_explodes_bom_witness:
  "\<exists>x t ls. work_order_create demo_env demo_op \<lparr>cwo_bom_id = 81, cwo_item_id = 2, cwo_planned_qty = 7,
      cwo_due_date = None, cwo_remark = None, cwo_operations = []\<rparr> demo_db = (Inr x, t) \<and>
      work_order_materials t = work_order_materials demo_db @ ls \<and>
      map (\<lambda>m. (wm_item_id m, wm_required_qty m)) ls = [(1, 21)]"
  (is "\<exists>x t ls. work_order_create _ _ ?r _ = _ \<and> _")
proof -
  have "case fst (work_order_create demo_env demo_op ?r demo_db) of Inr _ \<Rightarrow> True | Inl _ \<Rightarrow> False" by code_simp
  then obtain x t where t: "work_order_create demo_env demo_op ?r demo_db = (Inr x, t)"
    by (cases "work_order_create demo_env demo_op ?r demo_db") (auto split: sum.splits)
  have b: "filter (\<lambda>b. bi_bom_id b = 81) (bom_items demo_db) = bom_items demo_db"
    "map (\<lambda>b. (bi_item_id b, i64_mul (bi_quantity b) 7)) (bom_items demo_db) = [(1, 21)]"
    by (simp_all add: demo_db_def i64_mul_def i64_range_defs)
  obtain ls where ls: "work_order_materials t = work_order_materials demo_db @ ls"
    "mset (map (\<lambda>m. (wm_item_id m, wm_required_qty m)) ls) = mset [(1, 21)]"
    using work_order_explodes_bom [OF t demo_order_ok] by (auto simp: b)
  then have "map (\<lambda>m. (wm_item_id m, wm_required_qty m)) ls = [(1, 21)]" by (simp del: mset_map)
  with t ls(1) show ?thesis by (intro exI conjI)
qed

text \<open>
  The life of a work order: release succeeds exactly on drafts, completion exactly on orders that
  are released and not yet completed; each sets the status, of that order only, and a refusal leaves
  the statuses alone.
\<close>

theorem work_order_life_cycle:
  "(work_order_release env ctx k s = (Inr b, t) \<longrightarrow> wo_status_of s k = Some (work_order_status_i16 WODraft) \<and>
      wo_status_of t = (wo_status_of s)(k := Some (work_order_status_i16 WOReleased))) \<and>
   (work_order_complete env ctx k s = (Inr b, t) \<longrightarrow>
      (\<exists>c. wo_status_of s k = Some c \<and> work_order_status_i16 WOReleased \<le> c \<and> c < work_order_status_i16 WOCompleted) \<and>
      wo_status_of t = (wo_status_of s)(k := Some (work_order_status_i16 WOCompleted))) \<and>
   (wo_status_of s k = None \<longrightarrow> work_order_release env ctx k s = (Inl (EProduction ProductionNotFound), s) \<and>
      work_order_complete env ctx k s = (Inl (EProduction ProductionNotFound), s)) \<and>
   (\<forall>c. wo_status_of s k = Some c \<and> c \<noteq> work_order_status_i16 WODraft \<longrightarrow>
      work_order_release env ctx k s = (Inl (EProduction ProductionInvalidStatus), s)) \<and>
   (\<forall>c. wo_status_of s k = Some c \<and> \<not> (work_order_status_i16 WOReleased \<le> c \<and> c < work_order_status_i16 WOCompleted) \<longrightarrow>
      work_order_complete env ctx k s = (Inl (EProduction ProductionInvalidStatus), s))"
proof -
  note d = work_order_release_def work_order_complete_def set_work_order_status_def read_work_order_def
  have st: "wo_status_of (u\<lparr>audit_logs := l, next_id := n\<rparr>) = wo_status_of u" for u l n
    by (simp add: wo_status_of_def fun_eq_iff)
  show ?thesis
    by (intro conjI allI impI)
      (auto simp: d monad_OK stmt_OK audit_defs audit_insert_OK st wo_status_set fun_eq_iff,
       auto simp: d wo_status_of_def fetch_or_def monad_defs rollback_def)
qed

theorem work_order_life_cycle_witness:
  "(\<exists>t. work_order_complete demo_env demo_op 83 demo_db = (Inr True, t) \<and>
        wo_status_of t 83 = Some (work_order_status_i16 WOCompleted)) \<and>
   work_order_release demo_env demo_op 83 demo_db = (Inl (EProduction ProductionInvalidStatus), demo_db) \<and>
   work_order_release demo_env demo_op 99 demo_db = (Inl (EProduction ProductionNotFound), demo_db)"
proof -
  have w: "wo_status_of demo_db 83 = Some 1" "wo_status_of demo_db 99 = None"
    by (simp_all add: wo_status_of_def demo_db_def)
  have "fst (work_order_complete demo_env demo_op 83 demo_db) = Inr True" by code_simp
  then obtain t where t: "work_order_complete demo_env demo_op 83 demo_db = (Inr True, t)" by (metis prod.collapse)
  have "wo_status_of t 83 = Some (work_order_status_i16 WOCompleted)"
    using work_order_life_cycle [of demo_env demo_op 83 demo_db True t] t by simp
  moreover have "work_order_release demo_env demo_op 83 demo_db = (Inl (EProduction ProductionInvalidStatus), demo_db)"
    using work_order_life_cycle [of demo_env demo_op 83 demo_db] w(1) by simp
  moreover have "work_order_release demo_env demo_op 99 demo_db = (Inl (EProduction ProductionNotFound), demo_db)"
    using work_order_life_cycle [of demo_env demo_op 99 demo_db] w(2) by simp
  ultimately show ?thesis using t by blast
qed

section \<open>Fiscal periods\<close>

text \<open>
  Fiscal periods tile: with the day before the first of a month being the last day of the month
  before, a period of whole months ends the day before the period of the following months starts, and
  the two together are the period over all their months.
\<close>

theorem fiscal_periods_tile:
  assumes pred: "\<And>d. pred_opt d = Some (d - 1)" and dates: "\<And>m. 1 \<le> m \<Longrightarrow> m \<le> 12 \<Longrightarrow> from_ymd_opt y m 1 \<noteq> None"
    and last: "from_ymd_opt y 12 31 \<noteq> None"
    and months: "1 \<le> y" "1 \<le> a" "a \<le> b" "b < c" "c \<le> 12"
  shows "\<exists>p q. fiscal_try_new from_ymd_opt pred_opt y (Some a) (Some b) = Inr p \<and>
               fiscal_try_new from_ymd_opt pred_opt y (Some (b + 1)) (Some c) = Inr q \<and>
               fp_end p + 1 = fp_start q \<and>
               fiscal_try_new from_ymd_opt pred_opt y (Some a) (Some c) =
                 Inr \<lparr>fp_year = y, fp_month_start = a, fp_month_end = c, fp_start = fp_start p, fp_end = fp_end q\<rparr>"
proof -
  obtain da db where d: "from_ymd_opt y a 1 = Some da" "from_ymd_opt y (b + 1) 1 = Some db"
    using dates [of a] dates [of "b + 1"] months by auto
  obtain dc where c: "period_end from_ymd_opt pred_opt y c = Some dc"
    using dates [of "c + 1"] last months pred by (fastforce simp: period_end_def)
  have "period_end from_ymd_opt pred_opt y b = Some (db - 1)"
    using d(2) months by (simp add: period_end_def pred)
  then show ?thesis using d c months by (simp add: fiscal_try_new_def Let_def)
qed

theorem fiscal_periods_tile_witness:
  "\<exists>p q. fiscal_try_new demo_ymd (\<lambda>d. Some (d - 1)) 2024 (Some 1) (Some 2) = Inr p \<and>
         fiscal_try_new demo_ymd (\<lambda>d. Some (d - 1)) 2024 (Some 3) (Some 12) = Inr q \<and> fp_end p + 1 = fp_start q"
proof -
  have m: "demo_ymd 2024 m 1 \<noteq> None" if "1 \<le> m" "m \<le> 12" for m
  proof -
    have "m = 1 \<or> m = 2 \<or> m = 3 \<or> m = 4 \<or> m = 5 \<or> m = 6 \<or> m = 7 \<or> m = 8 \<or> m = 9 \<or> m = 10 \<or> m = 11 \<or> m = 12"
      using that by presburger
    then show ?thesis by (auto simp: demo_ymd_def Let_def)
  qed
  have l: "demo_ymd 2024 12 31 \<noteq> None" by (simp add: demo_ymd_def)
  have "\<exists>p q. fiscal_try_new demo_ymd (\<lambda>d. Some (d - 1)) 2024 (Some 1) (Some 2) = Inr p \<and>
         fiscal_try_new demo_ymd (\<lambda>d. Some (d - 1)) 2024 (Some (2 + 1)) (Some 12) = Inr q \<and> fp_end p + 1 = fp_start q"
    using fiscal_periods_tile [of "\<lambda>d. Some (d - 1)" demo_ymd 2024 1 2 12] m l by auto
  then show ?thesis by simp
qed

text \<open>
  What is not a period is refused: a year before 1, a month outside 1 to 12 or an end before the
  start.  Without months the period is the year, with one month it is that month.
\<close>

theorem fiscal_period_errors:
  "(y < 1 \<or> \<not> (1 \<le> a \<and> a \<le> 12) \<or> \<not> (1 \<le> b \<and> b \<le> 12) \<or> b < a \<longrightarrow>
      fiscal_try_new from_ymd_opt pred_opt y (Some a) (Some b) = Inl (EFinance InvalidPeriod)) \<and>
   fiscal_try_new from_ymd_opt pred_opt y None None = fiscal_try_new from_ymd_opt pred_opt y (Some 1) (Some 12) \<and>
   fiscal_try_new from_ymd_opt pred_opt y (Some a) None = fiscal_try_new from_ymd_opt pred_opt y (Some a) (Some a)"
  by (auto simp: fiscal_try_new_def Let_def)

theorem fiscal_period_errors_witness:
  "fiscal_try_new demo_ymd (\<lambda>d. Some (d - 1)) 2024 (Some 5) (Some 4) = Inl (EFinance InvalidPeriod)"
  using fiscal_period_errors [of 2024 5 4] by simp

end
